(* ===== verification/Prelude.thy ===== *)
theory Prelude
  imports Main "HOL-Library.Word" "HOL-Library.Char_ord" "HOL-Library.List_Lexorder"
begin

text \<open>
  Shared vocabulary of the development: Rust results as sums, the loops that stop at the first
  error, strings as sequences of UTF-8 bytes, the ASCII and Unicode classifications of the Rust
  standard library, splitting and prefix operations, and the integer parsers of
  \<^verbatim>\<open>core::num\<close>.

  A Rust \<^verbatim>\<open>String\<close> or byte vector is a list of \<^typ>\<open>char\<close>, one element per byte, so that
  \<^verbatim>\<open>len()\<close> is \<^const>\<open>length\<close> and \<^verbatim>\<open>bytes()\<close> is the list itself. Unsigned machine integers
  are words of their width; signed ones are integers within the range of their width; a
  \<^verbatim>\<open>usize\<close> that only counts elements is a natural number.
\<close>

named_theorems result_simps \<open>unfolding of sequencing on results\<close>
named_theorems ok_iff \<open>when a check succeeds\<close>

type_synonym bytes = "char list"
type_synonym u8 = "8 word"
type_synonym u16 = "16 word"
type_synonym u32 = "32 word"
type_synonym u64 = "64 word"

section \<open>Results and loops that stop at the first error\<close>

abbreviation Ok :: "'a \<Rightarrow> 'e + 'a" where
  "Ok \<equiv> Inr"

abbreviation Err :: "'e \<Rightarrow> 'e + 'a" where
  "Err \<equiv> Inl"

text \<open>The question mark operator: continue with the value, or return the error.\<close>

definition and_then :: "'e + 'a \<Rightarrow> ('a \<Rightarrow> 'e + 'b) \<Rightarrow> 'e + 'b" where
  "and_then r k = (case r of Inl e \<Rightarrow> Inl e | Inr x \<Rightarrow> k x)"

definition map_err :: "('e \<Rightarrow> 'f) \<Rightarrow> 'e + 'a \<Rightarrow> 'f + 'a" where
  "map_err f r = (case r of Inl e \<Rightarrow> Inl (f e) | Inr x \<Rightarrow> Inr x)"

definition ok_or :: "'a option \<Rightarrow> 'e \<Rightarrow> 'e + 'a" where
  "ok_or v e = (case v of None \<Rightarrow> Inl e | Some x \<Rightarrow> Inr x)"

definition require :: "bool \<Rightarrow> 'e \<Rightarrow> 'e + unit" where
  "require c e = (if c then Inr () else Inl e)"

definition is_ok :: "'e + 'a \<Rightarrow> bool" where
  "is_ok r = (case r of Inl _ \<Rightarrow> False | Inr _ \<Rightarrow> True)"

lemma and_then_simps [simp, result_simps]:
  "and_then (Inl e) k = Inl e"
  "and_then (Inr x) k = k x"
  by (simp_all add: and_then_def)

lemma map_err_simps [simp, result_simps]:
  "map_err f (Inl e) = Inl (f e)"
  "map_err f (Inr x) = Inr x"
  by (simp_all add: map_err_def)

lemma is_ok_simps [simp]:
  "is_ok (Inl e) = False"
  "is_ok (Inr x) = True"
  by (simp_all add: is_ok_def)

lemma ok_or_simps [simp, result_simps]:
  "ok_or None e = Inl e"
  "ok_or (Some x) e = Inr x"
  by (simp_all add: ok_or_def)

lemma and_then_cong [fundef_cong]:
  "r = r' \<Longrightarrow> (\<And>x. r' = Inr x \<Longrightarrow> k x = k' x) \<Longrightarrow> and_then r k = and_then r' k'"
  by (cases r') auto

lemma map_err_cong [fundef_cong]:
  "r = r' \<Longrightarrow> (\<And>e. r' = Inl e \<Longrightarrow> f e = f' e) \<Longrightarrow> map_err f r = map_err f' r'"
  by (cases r') auto

lemma and_then_Ok_iff [ok_iff]:
  "and_then r k = Inr y \<longleftrightarrow> (\<exists>x. r = Inr x \<and> k x = Inr y)"
  by (cases r) auto

lemma map_err_Ok_iff [ok_iff]: "map_err f r = Inr x \<longleftrightarrow> r = Inr x"
  by (cases r) auto

lemma ok_or_Ok_iff [ok_iff]: "ok_or v e = Inr x \<longleftrightarrow> v = Some x"
  by (cases v) auto

lemma require_Ok_iff [ok_iff]: "require c e = Inr u \<longleftrightarrow> c"
  by (simp add: require_def)

lemma require_True [simp]: "require True e = Inr ()"
  by (simp add: require_def)

lemma require_False [simp]: "require False e = Inl e"
  by (simp add: require_def)

lemma is_ok_unit_iff: "is_ok (r :: 'e + unit) \<longleftrightarrow> r = Inr ()"
  by (cases r) auto

text \<open>\<^verbatim>\<open>for x in xs { f(x)?; }\<close>\<close>

fun each :: "('a \<Rightarrow> 'e + unit) \<Rightarrow> 'a list \<Rightarrow> 'e + unit" where
  "each f [] = Inr ()"
| "each f (x # xs) = and_then (f x) (\<lambda>_. each f xs)"

lemma each_cong [fundef_cong]:
  "xs = ys \<Longrightarrow> (\<And>x. x \<in> set ys \<Longrightarrow> f x = g x) \<Longrightarrow> each f xs = each g ys"
  by (induction ys arbitrary: xs) auto

lemma each_Ok_iff [ok_iff]: "each f xs = Inr u \<longleftrightarrow> (\<forall>x \<in> set xs. f x = Inr ())"
  by (induction xs) (auto simp: ok_iff)

lemma each_append: "each f (xs @ ys) = and_then (each f xs) (\<lambda>_. each f ys)"
  by (induction xs) (auto simp: and_then_def split: sum.splits)

text \<open>A loop with an accumulator, \<^verbatim>\<open>try_fold\<close>.\<close>

fun try_fold :: "('s \<Rightarrow> 'a \<Rightarrow> 'e + 's) \<Rightarrow> 's \<Rightarrow> 'a list \<Rightarrow> 'e + 's" where
  "try_fold f s [] = Inr s"
| "try_fold f s (x # xs) = and_then (f s x) (\<lambda>s'. try_fold f s' xs)"

lemma try_fold_cong [fundef_cong]:
  "xs = ys \<Longrightarrow> s = t \<Longrightarrow> (\<And>s x. x \<in> set ys \<Longrightarrow> f s x = g s x) \<Longrightarrow> try_fold f s xs = try_fold g t ys"
  by (induction ys arbitrary: xs s t) (auto intro!: and_then_cong)

lemma try_fold_append:
  "try_fold f s (xs @ ys) = and_then (try_fold f s xs) (\<lambda>s'. try_fold f s' ys)"
  by (induction xs arbitrary: s) (auto simp: and_then_def split: sum.splits)

text \<open>An invariant of the accumulator that every successful iteration keeps holds at the end.\<close>

lemma try_fold_invariant:
  assumes "try_fold f s xs = Inr t" and "P s"
    and "\<And>s x s'. x \<in> set xs \<Longrightarrow> P s \<Longrightarrow> f s x = Inr s' \<Longrightarrow> P s'"
  shows "P t"
  using assms
proof (induction xs arbitrary: s)
  case (Cons x xs)
  then obtain s' where s': "f s x = Inr s'" and rest: "try_fold f s' xs = Inr t"
    by (auto simp: ok_iff)
  have "P s'" by (rule Cons.prems(3) [OF _ Cons.prems(2) s']) simp
  with rest show ?case by (rule Cons.IH) (auto intro: Cons.prems(3))
qed simp

text \<open>Loops that collect keys in a \<^verbatim>\<open>HashSet\<close> and refuse a key seen before.\<close>

lemma try_fold_insert_iff:
  assumes step: "\<And>seen x seen'. f seen x = Inr seen' \<longleftrightarrow>
      P x \<and> k x \<notin> seen \<and> seen' = Set.insert (k x) seen"
  shows "try_fold f S xs = Inr S' \<longleftrightarrow>
      (\<forall>x \<in> set xs. P x) \<and> distinct (map k xs) \<and> k ` set xs \<inter> S = {} \<and> S' = S \<union> k ` set xs"
proof (induction xs arbitrary: S)
  case (Cons x xs)
  show ?case
    by (simp add: ok_iff step Cons.IH) auto
qed auto

text \<open>\<^verbatim>\<open>xs.iter().map(f).collect::<Result<Vec<_>>>()\<close>\<close>

fun map_result :: "('a \<Rightarrow> 'e + 'b) \<Rightarrow> 'a list \<Rightarrow> 'e + 'b list" where
  "map_result f [] = Inr []"
| "map_result f (x # xs) = and_then (f x) (\<lambda>y. and_then (map_result f xs) (\<lambda>ys. Inr (y # ys)))"

lemma map_result_cong [fundef_cong]:
  "xs = ys \<Longrightarrow> (\<And>x. x \<in> set ys \<Longrightarrow> f x = g x) \<Longrightarrow> map_result f xs = map_result g ys"
  by (induction ys arbitrary: xs) (auto intro!: and_then_cong)

lemma map_result_Ok_iff [ok_iff]:
  "map_result f xs = Inr ys \<longleftrightarrow> list_all2 (\<lambda>x y. f x = Inr y) xs ys"
  by (induction xs arbitrary: ys) (auto simp: ok_iff list_all2_Cons1)

section \<open>Bytes and their ASCII classes\<close>

definition ord :: "char \<Rightarrow> nat" where
  "ord c = of_char c"

definition is_ascii_digit :: "char \<Rightarrow> bool" where
  "is_ascii_digit c \<longleftrightarrow> 48 \<le> ord c \<and> ord c \<le> 57"

definition is_ascii_upper :: "char \<Rightarrow> bool" where
  "is_ascii_upper c \<longleftrightarrow> 65 \<le> ord c \<and> ord c \<le> 90"

definition is_ascii_lower :: "char \<Rightarrow> bool" where
  "is_ascii_lower c \<longleftrightarrow> 97 \<le> ord c \<and> ord c \<le> 122"

definition is_ascii_alphabetic :: "char \<Rightarrow> bool" where
  "is_ascii_alphabetic c \<longleftrightarrow> is_ascii_upper c \<or> is_ascii_lower c"

definition is_ascii_alphanumeric :: "char \<Rightarrow> bool" where
  "is_ascii_alphanumeric c \<longleftrightarrow> is_ascii_alphabetic c \<or> is_ascii_digit c"

definition is_ascii_hexdigit :: "char \<Rightarrow> bool" where
  "is_ascii_hexdigit c \<longleftrightarrow>
     is_ascii_digit c \<or> (65 \<le> ord c \<and> ord c \<le> 70) \<or> (97 \<le> ord c \<and> ord c \<le> 102)"

definition is_ascii_whitespace :: "char \<Rightarrow> bool" where
  "is_ascii_whitespace c \<longleftrightarrow> ord c \<in> {9, 10, 12, 13, 32}"

definition is_ascii :: "string \<Rightarrow> bool" where
  "is_ascii s \<longleftrightarrow> list_all (\<lambda>c. ord c < 128) s"

definition lower_char :: "char \<Rightarrow> char" where
  "lower_char c = (if is_ascii_upper c then char_of (ord c + 32) else c)"

definition to_ascii_lowercase :: "string \<Rightarrow> string" where
  "to_ascii_lowercase s = map lower_char s"

definition eq_ignore_ascii_case :: "string \<Rightarrow> string \<Rightarrow> bool" where
  "eq_ignore_ascii_case s t \<longleftrightarrow> to_ascii_lowercase s = to_ascii_lowercase t"

abbreviation NUL :: char where
  "NUL \<equiv> CHR 0x00"

lemmas ascii_defs =
  is_ascii_digit_def is_ascii_upper_def is_ascii_lower_def is_ascii_alphabetic_def
  is_ascii_alphanumeric_def is_ascii_hexdigit_def is_ascii_whitespace_def is_ascii_def

lemma ord_less: "ord c < 256"
  by (simp add: ord_def)

lemma char_of_ord [simp]: "char_of (ord c) = c"
  by (simp add: ord_def)

lemma ord_char_of [simp]: "n < 256 \<Longrightarrow> ord (char_of n) = n"
  by (simp add: ord_def)

lemma ord_inject [simp]: "ord c = ord d \<longleftrightarrow> c = d"
  by (metis char_of_ord)

lemma ord_lower_char: "ord (lower_char c) = (if is_ascii_upper c then ord c + 32 else ord c)"
  by (simp add: lower_char_def is_ascii_upper_def)

lemma lower_char_idem [simp]: "lower_char (lower_char c) = lower_char c"
  by (simp add: lower_char_def [of "lower_char c"] is_ascii_upper_def ord_lower_char)
    (auto simp: lower_char_def is_ascii_upper_def)

lemma to_ascii_lowercase_idem [simp]:
  "to_ascii_lowercase (to_ascii_lowercase s) = to_ascii_lowercase s"
  by (simp add: to_ascii_lowercase_def)

lemma length_to_ascii_lowercase [simp]: "length (to_ascii_lowercase s) = length s"
  by (simp add: to_ascii_lowercase_def)

section \<open>Splitting, prefixes and suffixes\<close>

fun strip_prefix :: "'a list \<Rightarrow> 'a list \<Rightarrow> 'a list option" where
  "strip_prefix [] s = Some s"
| "strip_prefix (p # ps) [] = None"
| "strip_prefix (p # ps) (c # s) = (if p = c then strip_prefix ps s else None)"

definition strip_suffix :: "'a list \<Rightarrow> 'a list \<Rightarrow> 'a list option" where
  "strip_suffix p s = map_option rev (strip_prefix (rev p) (rev s))"

definition starts_with :: "'a list \<Rightarrow> 'a list \<Rightarrow> bool" where
  "starts_with p s \<longleftrightarrow> strip_prefix p s \<noteq> None"

definition ends_with :: "'a list \<Rightarrow> 'a list \<Rightarrow> bool" where
  "ends_with p s \<longleftrightarrow> strip_suffix p s \<noteq> None"

fun contains_sub :: "'a list \<Rightarrow> 'a list \<Rightarrow> bool" where
  "contains_sub p [] = (p = [])"
| "contains_sub p (c # s) = (starts_with p (c # s) \<or> contains_sub p s)"

text \<open>\<^verbatim>\<open>s.split(c)\<close> never yields an empty list: the empty string has one empty part.\<close>

fun split_on :: "'a \<Rightarrow> 'a list \<Rightarrow> 'a list list" where
  "split_on c [] = [[]]"
| "split_on c (x # s) =
     (if x = c then [] # split_on c s
      else (case split_on c s of [] \<Rightarrow> [[x]] | p # ps \<Rightarrow> (x # p) # ps))"

fun split_once :: "'a \<Rightarrow> 'a list \<Rightarrow> ('a list \<times> 'a list) option" where
  "split_once c [] = None"
| "split_once c (x # s) =
     (if x = c then Some ([], s)
      else map_option (\<lambda>(l, r). (x # l, r)) (split_once c s))"

definition rsplit_once :: "'a \<Rightarrow> 'a list \<Rightarrow> ('a list \<times> 'a list) option" where
  "rsplit_once c s = map_option (\<lambda>(l, r). (rev r, rev l)) (split_once c (rev s))"

text \<open>\<^verbatim>\<open>s.split_once(p)\<close> for a pattern of more than one byte.\<close>

fun split_once_sub :: "'a list \<Rightarrow> 'a list \<Rightarrow> ('a list \<times> 'a list) option" where
  "split_once_sub p [] = (if p = [] then Some ([], []) else None)"
| "split_once_sub p (x # s) =
     (case strip_prefix p (x # s) of
        Some r \<Rightarrow> Some ([], r)
      | None \<Rightarrow> map_option (\<lambda>(l, r). (x # l, r)) (split_once_sub p s))"

fun join_with :: "'a list \<Rightarrow> 'a list list \<Rightarrow> 'a list" where
  "join_with sep [] = []"
| "join_with sep [s] = s"
| "join_with sep (s # t # ts) = s @ sep @ join_with sep (t # ts)"

lemma strip_prefix_Some_iff: "strip_prefix p s = Some r \<longleftrightarrow> s = p @ r"
  by (induction p s rule: strip_prefix.induct) auto

lemma strip_prefix_append [simp]: "strip_prefix p (p @ s) = Some s"
  by (simp add: strip_prefix_Some_iff)

lemma strip_suffix_Some_iff: "strip_suffix p s = Some r \<longleftrightarrow> s = r @ p"
  by (auto simp: strip_suffix_def strip_prefix_Some_iff rev_swap)

lemma starts_with_iff: "starts_with p s \<longleftrightarrow> (\<exists>r. s = p @ r)"
  by (auto simp: starts_with_def strip_prefix_Some_iff)

lemma split_on_nonempty [simp]: "split_on c s \<noteq> []"
  by (induction s) (auto split: list.splits)

lemma split_on_no_sep: "c \<notin> set s \<Longrightarrow> split_on c s = [s]"
  by (induction s) auto

lemma split_on_append: "c \<notin> set s \<Longrightarrow> split_on c (s @ c # t) = s # split_on c t"
  by (induction s) auto

lemma join_split_on: "join_with [c] (split_on c s) = s"
proof (induction s)
  case (Cons x s)
  then show ?case
    by (cases "split_on c s"; cases "tl (split_on c s)") auto
qed simp

lemma split_on_join:
  "ss \<noteq> [] \<Longrightarrow> (\<forall>s \<in> set ss. c \<notin> set s) \<Longrightarrow> split_on c (join_with [c] ss) = ss"
  by (induction "[c]" ss rule: join_with.induct) (auto simp: split_on_no_sep split_on_append)

lemma split_once_Some_iff: "split_once c s = Some (l, r) \<longleftrightarrow> s = l @ c # r \<and> c \<notin> set l"
proof (induction s arbitrary: l)
  case (Cons x s)
  then show ?case by (cases l) auto
qed simp

lemma split_once_None_iff: "split_once c s = None \<longleftrightarrow> c \<notin> set s"
  by (induction s) auto

lemma rsplit_once_Some_iff: "rsplit_once c s = Some (l, r) \<longleftrightarrow> s = l @ c # r \<and> c \<notin> set r"
proof -
  have "rsplit_once c s = Some (l, r) \<longleftrightarrow> split_once c (rev s) = Some (rev r, rev l)"
    by (auto simp: rsplit_once_def)
  also have "\<dots> \<longleftrightarrow> s = l @ c # r \<and> c \<notin> set r"
    by (auto simp: split_once_Some_iff rev_swap)
  finally show ?thesis .
qed

section \<open>Unicode white space and UTF-8\<close>

text \<open>The UTF-8 encodings of the code points with the \<^verbatim>\<open>White_Space\<close> property, which
  \<^verbatim>\<open>str::trim\<close> removes.\<close>

definition white_space :: "string list" where
  "white_space =
     [[CHR 0x09], [CHR 0x0A], [CHR 0x0B], [CHR 0x0C], [CHR 0x0D], [CHR 0x20],
      [CHR 0xC2, CHR 0x85], [CHR 0xC2, CHR 0xA0], [CHR 0xE1, CHR 0x9A, CHR 0x80],
      [CHR 0xE2, CHR 0x80, CHR 0x80], [CHR 0xE2, CHR 0x80, CHR 0x81],
      [CHR 0xE2, CHR 0x80, CHR 0x82], [CHR 0xE2, CHR 0x80, CHR 0x83],
      [CHR 0xE2, CHR 0x80, CHR 0x84], [CHR 0xE2, CHR 0x80, CHR 0x85],
      [CHR 0xE2, CHR 0x80, CHR 0x86], [CHR 0xE2, CHR 0x80, CHR 0x87],
      [CHR 0xE2, CHR 0x80, CHR 0x88], [CHR 0xE2, CHR 0x80, CHR 0x89],
      [CHR 0xE2, CHR 0x80, CHR 0x8A], [CHR 0xE2, CHR 0x80, CHR 0xA8],
      [CHR 0xE2, CHR 0x80, CHR 0xA9], [CHR 0xE2, CHR 0x80, CHR 0xAF],
      [CHR 0xE2, CHR 0x81, CHR 0x9F], [CHR 0xE3, CHR 0x80, CHR 0x80]]"

function strip_leading :: "string list \<Rightarrow> string \<Rightarrow> string" where
  "strip_leading ws s =
     (case find (\<lambda>w. w \<noteq> [] \<and> starts_with w s) ws of
        None \<Rightarrow> s
      | Some w \<Rightarrow> strip_leading ws (drop (length w) s))"
  by pat_completeness auto
termination
  by (relation "measure (\<lambda>(ws, s). length s)")
    (auto simp: find_Some_iff starts_with_iff)

declare strip_leading.simps [simp del]

definition trim :: "string \<Rightarrow> string" where
  "trim s = rev (strip_leading (map rev white_space) (rev (strip_leading white_space s)))"

abbreviation blank :: "string \<Rightarrow> bool" where
  "blank s \<equiv> trim s = []"

lemma strip_leading_Nil [simp]: "strip_leading ws [] = []"
  by (subst strip_leading.simps) (auto split: option.split simp: find_Some_iff starts_with_iff)

lemma trim_Nil [simp]: "trim [] = []"
  by (simp add: trim_def)

text \<open>\<^verbatim>\<open>std::str::from_utf8\<close>: the well-formed byte sequences.\<close>

definition cont_byte :: "char \<Rightarrow> bool" where
  "cont_byte c \<longleftrightarrow> 128 \<le> ord c \<and> ord c < 192"

fun valid_utf8 :: "bytes \<Rightarrow> bool" where
  "valid_utf8 [] = True"
| "valid_utf8 (a # s) =
     (if ord a < 128 then valid_utf8 s
      else case s of
        [] \<Rightarrow> False
      | b # s1 \<Rightarrow>
        (if 194 \<le> ord a \<and> ord a \<le> 223 then cont_byte b \<and> valid_utf8 s1
         else case s1 of
           [] \<Rightarrow> False
         | c # s2 \<Rightarrow>
           (if 224 \<le> ord a \<and> ord a \<le> 239 then
              cont_byte b \<and> cont_byte c
              \<and> (ord a = 224 \<longrightarrow> 160 \<le> ord b) \<and> (ord a = 237 \<longrightarrow> ord b < 160) \<and> valid_utf8 s2
            else case s2 of
              [] \<Rightarrow> False
            | d # s3 \<Rightarrow>
              240 \<le> ord a \<and> ord a \<le> 244 \<and> cont_byte b \<and> cont_byte c \<and> cont_byte d
              \<and> (ord a = 240 \<longrightarrow> 144 \<le> ord b) \<and> (ord a = 244 \<longrightarrow> ord b < 144) \<and> valid_utf8 s3)))"

section \<open>Integers as text\<close>

definition digit_value :: "char \<Rightarrow> nat" where
  "digit_value c = (if is_ascii_digit c then ord c - 48
     else if is_ascii_upper c then ord c - 55 else ord c - 87)"

definition radix_value :: "nat \<Rightarrow> string \<Rightarrow> nat" where
  "radix_value r s = foldl (\<lambda>n c. r * n + digit_value c) 0 s"

text \<open>\<^verbatim>\<open>from_str\<close> of the unsigned types: an optional plus sign, at least one digit, no
  overflow of the width.\<close>

definition unsigned_digits :: "string \<Rightarrow> string" where
  "unsigned_digits s = (case s of [] \<Rightarrow> [] | c # cs \<Rightarrow> if c = CHR ''+'' \<and> cs \<noteq> [] then cs else s)"

definition parse_unsigned :: "nat \<Rightarrow> string \<Rightarrow> nat option" where
  "parse_unsigned w s =
     (let d = unsigned_digits s; n = radix_value 10 d in
      if d \<noteq> [] \<and> list_all is_ascii_digit d \<and> n < 2 ^ w then Some n else None)"

definition parse_hex :: "nat \<Rightarrow> string \<Rightarrow> nat option" where
  "parse_hex w s =
     (let d = unsigned_digits s; n = radix_value 16 d in
      if d \<noteq> [] \<and> list_all is_ascii_hexdigit d \<and> n < 2 ^ w then Some n else None)"

definition parse_signed :: "nat \<Rightarrow> string \<Rightarrow> int option" where
  "parse_signed w s =
     (let neg = (case s of [] \<Rightarrow> False | c # cs \<Rightarrow> c = CHR ''-'' \<and> cs \<noteq> []);
          d = (if neg then tl s else unsigned_digits s);
          n = (if neg then - int (radix_value 10 d) else int (radix_value 10 d)) in
      if d \<noteq> [] \<and> list_all is_ascii_digit d \<and> - (2 ^ (w - 1)) \<le> n \<and> n < 2 ^ (w - 1)
      then Some n else None)"

text \<open>\<^verbatim>\<open>to_string\<close> of the unsigned types, and the hexadecimal forms of \<^verbatim>\<open>format!\<close>.\<close>

definition digit_char :: "nat \<Rightarrow> char" where
  "digit_char d = (if d < 10 then char_of (48 + d) else char_of (87 + d))"

fun show_nat :: "nat \<Rightarrow> string" where
  "show_nat n = (if n < 10 then [digit_char n] else show_nat (n div 10) @ [digit_char (n mod 10)])"

declare show_nat.simps [simp del]

definition show_int :: "int \<Rightarrow> string" where
  "show_int i = (if i < 0 then CHR ''-'' # show_nat (nat (- i)) else show_nat (nat i))"

lemma digit_value_digit_char: "d < 10 \<Longrightarrow> digit_value (digit_char d) = d"
  by (simp add: digit_char_def digit_value_def is_ascii_digit_def)

lemma is_ascii_digit_digit_char: "d < 10 \<Longrightarrow> is_ascii_digit (digit_char d)"
  by (simp add: digit_char_def is_ascii_digit_def)

lemma radix_value_snoc: "radix_value r (s @ [c]) = r * radix_value r s + digit_value c"
  by (simp add: radix_value_def)

lemma show_nat_nonempty [simp]: "show_nat n \<noteq> []"
  by (subst show_nat.simps) simp

lemma show_nat_digits: "list_all is_ascii_digit (show_nat n)"
proof (induction n rule: show_nat.induct)
  case (1 n)
  then show ?case
    by (cases "n < 10") (subst show_nat.simps; simp add: is_ascii_digit_digit_char)+
qed

lemma radix_value_show_nat [simp]: "radix_value 10 (show_nat n) = n"
proof (induction n rule: show_nat.induct)
  case (1 n)
  show ?case
  proof (cases "n < 10")
    case True
    then show ?thesis
      by (subst show_nat.simps) (simp add: radix_value_def digit_value_digit_char)
  next
    case False
    with "1" show ?thesis
      by (subst show_nat.simps) (simp add: radix_value_snoc digit_value_digit_char)
  qed
qed

lemma show_nat_no_sign: "c \<in> set (show_nat n) \<Longrightarrow> is_ascii_digit c"
  using show_nat_digits [of n] by (simp add: list_all_iff)

lemma unsigned_digits_show_nat [simp]: "unsigned_digits (show_nat n) = show_nat n"
proof (cases "show_nat n")
  case (Cons c cs)
  then have "is_ascii_digit c" using show_nat_digits [of n] by simp
  then have "c \<noteq> CHR ''+''" by (auto simp: is_ascii_digit_def ord_def)
  with Cons show ?thesis by (simp add: unsigned_digits_def)
qed simp

text \<open>Printing and parsing an unsigned number of the width are inverse.\<close>

lemma parse_unsigned_show_nat [simp]: "n < 2 ^ w \<Longrightarrow> parse_unsigned w (show_nat n) = Some n"
  by (simp add: parse_unsigned_def Let_def show_nat_digits)

lemma parse_unsigned_bound: "parse_unsigned w s = Some n \<Longrightarrow> n < 2 ^ w"
  by (auto simp: parse_unsigned_def Let_def split: if_splits)

lemma parse_hex_bound: "parse_hex w s = Some n \<Longrightarrow> n < 2 ^ w"
  by (auto simp: parse_hex_def Let_def split: if_splits)

text \<open>Big-endian and little-endian readings of four bytes.\<close>

definition be_u32 :: "bytes \<Rightarrow> nat" where
  "be_u32 bs = foldl (\<lambda>n c. 256 * n + ord c) 0 bs"

definition le_u32 :: "bytes \<Rightarrow> nat" where
  "le_u32 bs = be_u32 (rev bs)"

lemma be_u32_snoc: "be_u32 (bs @ [c]) = 256 * be_u32 bs + ord c"
  by (simp add: be_u32_def)

lemma base_256_less: "a < m \<Longrightarrow> d < 256 \<Longrightarrow> 256 * a + d < 256 * (m :: nat)"
  by linarith

lemma be_u32_bound: "be_u32 bs < 256 ^ length bs"
proof (induction bs rule: rev_induct)
  case (snoc c bs)
  then have "256 * be_u32 bs + ord c < 256 * 256 ^ length bs"
    by (rule base_256_less) (rule ord_less)
  then show ?case by (simp add: be_u32_snoc)
qed (simp add: be_u32_def)

section \<open>Ordered maps\<close>

text \<open>
  A \<^verbatim>\<open>BTreeMap\<close> is the list of its entries in key order; the interface its clients use is a
  locale, with the finite map of the keys as its meaning.
\<close>

fun bt_insert :: "'k::linorder \<Rightarrow> 'v \<Rightarrow> ('k \<times> 'v) list \<Rightarrow> ('k \<times> 'v) list" where
  "bt_insert k v [] = [(k, v)]"
| "bt_insert k v ((a, b) # m) =
     (if k < a then (k, v) # (a, b) # m
      else if k = a then (k, v) # m
      else (a, b) # bt_insert k v m)"

definition bt_get :: "('k \<times> 'v) list \<Rightarrow> 'k \<Rightarrow> 'v option" where
  "bt_get m k = map_of m k"

definition bt_from :: "('k::linorder \<times> 'v) list \<Rightarrow> ('k \<times> 'v) list" where
  "bt_from kvs = foldl (\<lambda>m (k, v). bt_insert k v m) [] kvs"

definition bt_ok :: "('k::linorder \<times> 'v) list \<Rightarrow> bool" where
  "bt_ok m \<longleftrightarrow> sorted_wrt (<) (map fst m)"

locale ordered_map =
  fixes empty :: 'm
    and insert :: "'k \<Rightarrow> 'v \<Rightarrow> 'm \<Rightarrow> 'm"
    and get :: "'m \<Rightarrow> 'k \<Rightarrow> 'v option"
    and ok :: "'m \<Rightarrow> bool"
  assumes ok_empty: "ok empty"
    and ok_insert: "ok m \<Longrightarrow> ok (insert k v m)"
    and get_empty: "get empty k = None"
    and get_insert: "ok m \<Longrightarrow> get (insert k v m) k' = (if k' = k then Some v else get m k')"
begin

lemma ok_fold: "ok m \<Longrightarrow> ok (foldl (\<lambda>m (k, v). insert k v m) m kvs)"
  by (induction kvs arbitrary: m) (auto simp: ok_insert)

lemma get_fold:
  "ok m \<Longrightarrow> get (foldl (\<lambda>m (k, v). insert k v m) m kvs) k =
     (case map_of (rev kvs) k of Some v \<Rightarrow> Some v | None \<Rightarrow> get m k)"
proof (induction kvs arbitrary: m)
  case (Cons kv kvs)
  obtain a b where kv: "kv = (a, b)" by force
  from Cons.prems have "ok (insert a b m)" by (rule ok_insert)
  with Cons.IH Cons.prems show ?case
    by (auto simp: kv get_insert map_add_def split: option.split)
qed simp

end

lemma bt_insert_keys: "fst ` set (bt_insert k v m) = Set.insert k (fst ` set m)"
  by (induction k v m rule: bt_insert.induct) auto

lemma bt_ok_Cons: "bt_ok ((a, b) # m) \<longleftrightarrow> (\<forall>k \<in> fst ` set m. a < k) \<and> bt_ok m"
  by (auto simp: bt_ok_def)

lemma bt_ok_Nil: "bt_ok []"
  by (simp add: bt_ok_def)

lemma bt_insert_ok: "bt_ok m \<Longrightarrow> bt_ok (bt_insert k v m)"
  by (induction k v m rule: bt_insert.induct)
    (auto simp: bt_ok_Cons bt_ok_Nil bt_insert_keys simp del: set_map split: if_splits)

lemma bt_insert_get:
  "bt_ok m \<Longrightarrow> bt_get (bt_insert k v m) k' = (if k' = k then Some v else bt_get m k')"
proof (induction k v m rule: bt_insert.induct)
  case (2 k v a b m)
  then show ?case by (auto simp: bt_ok_def bt_get_def)
qed (simp add: bt_get_def)

interpretation btree: ordered_map "[]" bt_insert bt_get bt_ok
proof
  show "bt_ok []" by (simp add: bt_ok_def)
  show "bt_get [] k = None" for k by (simp add: bt_get_def)
qed (simp_all add: bt_insert_ok bt_insert_get)

lemma bt_ok_from: "bt_ok (bt_from kvs)"
  unfolding bt_from_def by (rule btree.ok_fold [OF btree.ok_empty])

lemma bt_get_from: "bt_get (bt_from kvs) k = map_of (rev kvs) k"
  unfolding bt_from_def
  by (simp add: btree.get_fold [OF btree.ok_empty] btree.get_empty split: option.split)

lemma bt_ok_distinct: "bt_ok m \<Longrightarrow> distinct (map fst m)"
  by (simp add: bt_ok_def strict_sorted_iff)

text \<open>An ordered map is determined by its lookups.\<close>

lemma bt_entries: "bt_ok m \<Longrightarrow> m = map (\<lambda>k. (k, the (bt_get m k))) (map fst m)"
  by (auto intro!: map_idI [symmetric] simp: o_def bt_get_def dest: bt_ok_distinct)

lemma bt_ext:
  assumes "bt_ok m" and "bt_ok n" and eq: "\<And>k. bt_get m k = bt_get n k"
  shows "m = n"
proof -
  have "fst ` set m = fst ` set n"
    using eq by (metis bt_get_def dom_map_of_conv_image_fst ext)
  then have "set (map fst m) = set (map fst n)" by simp
  with assms(1,2) have keys: "map fst m = map fst n"
    unfolding bt_ok_def strict_sorted_iff by (metis sorted_distinct_set_unique)
  have "m = map (\<lambda>k. (k, the (bt_get m k))) (map fst m)"
    by (rule bt_entries) (rule assms(1))
  also have "\<dots> = map (\<lambda>k. (k, the (bt_get n k))) (map fst n)"
    by (simp only: keys eq)
  also have "\<dots> = n"
    by (rule bt_entries [symmetric]) (rule assms(2))
  finally show ?thesis .
qed

end
