(* ===== verification/Change_Model.thy ===== *)
theory Change_Model
  imports Prelude
begin

text \<open>
  The vendor-neutral in-memory model of \<^verbatim>\<open>crates/change_event/src/model.rs\<close>: source cursors and
  identities, row changes, logical and JSON values, the source representation envelope and the
  raw value carrier with their integrity checks, the canonical form of values, and the digests.

  The third-party crates are parameters: a \<open>codec\<close> bundles the URL-safe base64 functions and
  SHA-256, and the serialisations by \<^verbatim>\<open>serde_json\<close> are function arguments.
\<close>

section \<open>Third-party functions\<close>

record codec =
  b64_decode :: "string \<Rightarrow> bytes option"
  b64_encode :: "bytes \<Rightarrow> string"
  sha256 :: "bytes \<Rightarrow> bytes"

text \<open>The documented behaviour of the two crates: decoding inverts encoding, and a digest has
  32 bytes.\<close>

definition base64_roundtrip :: "codec \<Rightarrow> bool" where
  "base64_roundtrip C \<longleftrightarrow> (\<forall>bs. b64_decode C (b64_encode C bs) = Some bs)"

definition sha256_width :: "codec \<Rightarrow> bool" where
  "sha256_width C \<longleftrightarrow> (\<forall>bs. length (sha256 C bs) = 32)"

section \<open>Identities and cursors\<close>

definition FORMAT :: string where
  "FORMAT = ''cdc.change-event-json.v0.3''"

definition PREVIOUS_FORMAT :: string where
  "PREVIOUS_FORMAT = ''cdc.change-event-json.v0.2''"

definition LEGACY_FORMAT :: string where
  "LEGACY_FORMAT = ''cdc.change-event-json.v0.1''"

definition HISTORICAL_FORMAT :: string where
  "HISTORICAL_FORMAT = ''cdc.change-event-json.v0''"

record SourceCursor =
  sc_format :: string
  sc_value :: string
  sc_display :: string

record Source =
  src_kind :: string
  src_version :: string
  src_id :: string

record ConnectorIdentity =
  ci_kind :: string
  ci_version :: string

record ServerBuildIdentity =
  sb_product :: string
  sb_distribution :: string
  sb_version :: string
  sb_build :: string

datatype Operation = Insert | Update | Delete

datatype TemporalInfinityKind = TI_Date | TI_LocalDatetime | TI_Instant | TI_CalendarInterval

datatype BitOrder = MsbFirst | LsbFirst

datatype BitPadding = Pad_None | Pad_Zero | Pad_One

datatype SpatialFormat = Wkb | Ewkb

datatype SourceRepresentationFormat = Repr_Text | Repr_Binary

section \<open>Digests\<close>

definition hex2 :: "char \<Rightarrow> string" where
  "hex2 c = [digit_char (ord c div 16), digit_char (ord c mod 16)]"

definition hex_lower :: "bytes \<Rightarrow> string" where
  "hex_lower bs = concat (map hex2 bs)"

text \<open>\<open>to_vec\<close> is \<^verbatim>\<open>serde_json::to_vec\<close> at the digested type.\<close>

definition stable_digest :: "codec \<Rightarrow> ('a \<Rightarrow> bytes) \<Rightarrow> 'a \<Rightarrow> string" where
  "stable_digest C to_vec v = hex_lower (sha256 C (to_vec v))"

definition digest_bytes :: "codec \<Rightarrow> bytes \<Rightarrow> string" where
  "digest_bytes C bs = ''sha256:'' @ hex_lower (sha256 C bs)"

definition validate_sha256_digest :: "string \<Rightarrow> bool" where
  "validate_sha256_digest v \<longleftrightarrow>
     (case strip_prefix ''sha256:'' v of
        None \<Rightarrow> False
      | Some hex \<Rightarrow> length hex = 64 \<and> list_all is_ascii_hexdigit hex)"

lemma length_hex_lower [simp]: "length (hex_lower bs) = 2 * length bs"
  by (induction bs) (auto simp: hex_lower_def hex2_def)

lemma digit_char_hex: "d < 16 \<Longrightarrow> is_ascii_hexdigit (digit_char d)"
  by (simp add: digit_char_def is_ascii_hexdigit_def is_ascii_digit_def)

lemma hex_lower_hexdigits: "list_all is_ascii_hexdigit (hex_lower bs)"
proof (induction bs)
  case (Cons c bs)
  have "ord c div 16 < 16" using ord_less [of c] by simp
  with Cons show ?case
    by (simp add: hex_lower_def hex2_def digit_char_hex)
qed (simp add: hex_lower_def)

lemma digest_bytes_valid: "sha256_width C \<Longrightarrow> validate_sha256_digest (digest_bytes C bs)"
  unfolding validate_sha256_digest_def digest_bytes_def
  by (simp only: strip_prefix_append option.case)
    (simp add: sha256_width_def hex_lower_hexdigits)

section \<open>Source representation context and envelope\<close>

text \<open>The sorted metadata map is the list of its entries in key order.\<close>

record SourceRepresentationContext =
  ctx_connector :: ConnectorIdentity
  ctx_server_build :: ServerBuildIdentity
  ctx_source_type_identity :: string
  ctx_source_type_definition_digest :: string
  ctx_protocol :: string
  ctx_format :: SourceRepresentationFormat
  ctx_type_metadata :: "(string \<times> string) list"
  ctx_source_cursor :: SourceCursor

datatype SourceRepresentationError =
    SRE_MissingEvidence string
  | SRE_InvalidDigest string
  | SRE_InvalidTypeMetadata
  | SRE_InvalidPayload
  | SRE_PayloadLengthMismatch
  | SRE_PayloadDigestMismatch

fun sre_code :: "SourceRepresentationError \<Rightarrow> string" where
  "sre_code (SRE_MissingEvidence _) = ''source_representation.missing_evidence''"
| "sre_code (SRE_InvalidDigest _) = ''source_representation.invalid_digest''"
| "sre_code SRE_InvalidTypeMetadata = ''source_representation.invalid_type_metadata''"
| "sre_code SRE_InvalidPayload = ''source_representation.invalid_payload''"
| "sre_code SRE_PayloadLengthMismatch = ''source_representation.payload_length_mismatch''"
| "sre_code SRE_PayloadDigestMismatch = ''source_representation.payload_digest_mismatch''"

fun sre_display :: "SourceRepresentationError \<Rightarrow> string" where
  "sre_display (SRE_MissingEvidence f) = ''source representation is missing '' @ f"
| "sre_display (SRE_InvalidDigest f) =
     ''source representation '' @ f @ '' is not a SHA-256 digest''"
| "sre_display SRE_InvalidTypeMetadata = ''source representation type metadata is invalid''"
| "sre_display SRE_InvalidPayload = ''source representation payload is invalid base64url''"
| "sre_display SRE_PayloadLengthMismatch = ''source representation payload length does not match''"
| "sre_display SRE_PayloadDigestMismatch = ''source representation payload digest does not match''"

definition evidence_missing :: "string \<Rightarrow> bool" where
  "evidence_missing v \<longleftrightarrow> blank v \<or> NUL \<in> set v"

definition ctx_fields :: "SourceRepresentationContext \<Rightarrow> (string \<times> string) list" where
  "ctx_fields x =
     [(''connector.kind'', ci_kind (ctx_connector x)),
      (''connector.version'', ci_version (ctx_connector x)),
      (''server_build.product'', sb_product (ctx_server_build x)),
      (''server_build.distribution'', sb_distribution (ctx_server_build x)),
      (''server_build.version'', sb_version (ctx_server_build x)),
      (''server_build.build'', sb_build (ctx_server_build x)),
      (''source_type_identity'', ctx_source_type_identity x),
      (''source_type_definition_digest'', ctx_source_type_definition_digest x),
      (''protocol'', ctx_protocol x),
      (''source_cursor.format'', sc_format (ctx_source_cursor x)),
      (''source_cursor.value'', sc_value (ctx_source_cursor x))]"

definition ctx_validate :: "SourceRepresentationContext \<Rightarrow> SourceRepresentationError + unit" where
  "ctx_validate x =
     and_then (each (\<lambda>(field, v). require (\<not> evidence_missing v) (SRE_MissingEvidence field))
                 (ctx_fields x)) (\<lambda>_.
     and_then (require (validate_sha256_digest (ctx_source_type_definition_digest x))
                 (SRE_InvalidDigest ''source_type_definition_digest'')) (\<lambda>_.
     if list_ex (\<lambda>(k, v). blank k \<or> NUL \<in> set k \<or> NUL \<in> set v) (ctx_type_metadata x)
     then Err SRE_InvalidTypeMetadata
     else Ok ()))"

record SourceRepresentationEnvelope =
  env_context :: SourceRepresentationContext
  env_encoding :: string
  env_payload_base64url :: string
  env_payload_length :: u64
  env_payload_sha256 :: string

definition env_new ::
  "codec \<Rightarrow> SourceRepresentationContext \<Rightarrow> string \<Rightarrow> bytes \<Rightarrow> SourceRepresentationEnvelope" where
  "env_new C x encoding payload =
     \<lparr>env_context = x, env_encoding = encoding,
      env_payload_base64url = b64_encode C payload,
      env_payload_length = of_nat (length payload),
      env_payload_sha256 = digest_bytes C payload\<rparr>"

definition env_raw_bytes_unchecked ::
  "codec \<Rightarrow> SourceRepresentationEnvelope \<Rightarrow> SourceRepresentationError + bytes" where
  "env_raw_bytes_unchecked C e = ok_or (b64_decode C (env_payload_base64url e)) SRE_InvalidPayload"

definition env_validate ::
  "codec \<Rightarrow> SourceRepresentationEnvelope \<Rightarrow> SourceRepresentationError + unit" where
  "env_validate C e =
     and_then (ctx_validate (env_context e)) (\<lambda>_.
     if evidence_missing (env_encoding e) then Err (SRE_MissingEvidence ''encoding'')
     else and_then (env_raw_bytes_unchecked C e) (\<lambda>payload.
     if length payload \<noteq> unat (env_payload_length e) then Err SRE_PayloadLengthMismatch
     else if env_payload_sha256 e \<noteq> digest_bytes C payload then Err SRE_PayloadDigestMismatch
     else Ok ()))"

definition env_raw_bytes ::
  "codec \<Rightarrow> SourceRepresentationEnvelope \<Rightarrow> SourceRepresentationError + bytes" where
  "env_raw_bytes C e = and_then (env_validate C e) (\<lambda>_. env_raw_bytes_unchecked C e)"

section \<open>Raw value carrier\<close>

record RawValueCarrier =
  rc_codec_identity :: string
  rc_native_type :: string
  rc_source_definition_digest :: string
  rc_encoding :: string
  rc_raw_bytes_base64url :: string
  rc_canonical_text :: "string option"
  rc_source_context :: "SourceRepresentationContext option"
  rc_payload_length :: "u64 option"
  rc_payload_sha256 :: "string option"
  rc_reversible :: "bool option"

datatype RawValueCarrierError =
    RCE_MissingEvidence string
  | RCE_InvalidBytes
  | RCE_InvalidEvidence
  | RCE_SourceDefinitionDigestMismatch
  | RCE_PayloadLengthMismatch
  | RCE_PayloadDigestMismatch

fun rce_code :: "RawValueCarrierError \<Rightarrow> string" where
  "rce_code (RCE_MissingEvidence _) = ''raw_value_carrier.missing_evidence''"
| "rce_code RCE_InvalidBytes = ''raw_value_carrier.invalid_bytes''"
| "rce_code RCE_InvalidEvidence = ''raw_value_carrier.invalid_evidence''"
| "rce_code RCE_SourceDefinitionDigestMismatch =
     ''raw_value_carrier.source_definition_digest_mismatch''"
| "rce_code RCE_PayloadLengthMismatch = ''raw_value_carrier.payload_length_mismatch''"
| "rce_code RCE_PayloadDigestMismatch = ''raw_value_carrier.payload_digest_mismatch''"

fun rce_display :: "RawValueCarrierError \<Rightarrow> string" where
  "rce_display (RCE_MissingEvidence f) = ''raw value carrier is missing '' @ f"
| "rce_display RCE_InvalidBytes = ''raw value carrier bytes are invalid base64url''"
| "rce_display RCE_InvalidEvidence = ''raw value carrier evidence is incomplete or invalid''"
| "rce_display RCE_SourceDefinitionDigestMismatch =
     ''raw value carrier type definition digest does not match its source context''"
| "rce_display RCE_PayloadLengthMismatch = ''raw value carrier payload length does not match''"
| "rce_display RCE_PayloadDigestMismatch = ''raw value carrier payload digest does not match''"

definition rc_new ::
  "string \<Rightarrow> string \<Rightarrow> string \<Rightarrow> string \<Rightarrow> string \<Rightarrow> string option \<Rightarrow> RawValueCarrier" where
  "rc_new codec_identity native_type digest encoding raw canonical =
     \<lparr>rc_codec_identity = codec_identity, rc_native_type = native_type,
      rc_source_definition_digest = digest, rc_encoding = encoding,
      rc_raw_bytes_base64url = raw, rc_canonical_text = canonical,
      rc_source_context = None, rc_payload_length = None, rc_payload_sha256 = None,
      rc_reversible = None\<rparr>"

definition rc_with_source_context ::
  "codec \<Rightarrow> RawValueCarrier \<Rightarrow> SourceRepresentationContext \<Rightarrow> bool \<Rightarrow>
     RawValueCarrierError + RawValueCarrier" where
  "rc_with_source_context C r x reversible =
     (if rc_source_definition_digest r \<noteq> ctx_source_type_definition_digest x
      then Err RCE_SourceDefinitionDigestMismatch
      else and_then (ok_or (b64_decode C (rc_raw_bytes_base64url r)) RCE_InvalidBytes) (\<lambda>bs.
        Ok (r\<lparr>rc_source_context := Some x,
              rc_payload_length := Some (of_nat (length bs)),
              rc_payload_sha256 := Some (digest_bytes C bs),
              rc_reversible := Some reversible\<rparr>)))"

definition rc_fields :: "RawValueCarrier \<Rightarrow> (string \<times> string) list" where
  "rc_fields r =
     [(''codec_identity'', rc_codec_identity r), (''native_type'', rc_native_type r),
      (''source_definition_digest'', rc_source_definition_digest r),
      (''encoding'', rc_encoding r)]"

definition rc_evidence :: "codec \<Rightarrow> RawValueCarrier \<Rightarrow> bytes \<Rightarrow> RawValueCarrierError + unit" where
  "rc_evidence C r bs =
     (case (rc_source_context r, rc_payload_length r, rc_payload_sha256 r) of
        (Some x, Some len, Some digest) \<Rightarrow>
          and_then (map_err (\<lambda>_. RCE_InvalidEvidence) (ctx_validate x)) (\<lambda>_.
          if rc_source_definition_digest r \<noteq> ctx_source_type_definition_digest x
          then Err RCE_SourceDefinitionDigestMismatch
          else if length bs \<noteq> unat len then Err RCE_PayloadLengthMismatch
          else if digest \<noteq> digest_bytes C bs then Err RCE_PayloadDigestMismatch
          else Ok ())
      | (None, None, None) \<Rightarrow> require (rc_reversible r = None) RCE_InvalidEvidence
      | _ \<Rightarrow> Err RCE_InvalidEvidence)"

definition rc_validate :: "codec \<Rightarrow> RawValueCarrier \<Rightarrow> RawValueCarrierError + unit" where
  "rc_validate C r =
     and_then (each (\<lambda>(field, v). require (\<not> evidence_missing v) (RCE_MissingEvidence field))
                 (rc_fields r)) (\<lambda>_.
     and_then (ok_or (b64_decode C (rc_raw_bytes_base64url r)) RCE_InvalidBytes) (\<lambda>bs.
     and_then (rc_evidence C r bs) (\<lambda>_.
     if rc_reversible r = Some True \<and> blank (rc_codec_identity r) then Err RCE_InvalidEvidence
     else Ok ())))"

definition rc_raw_bytes :: "codec \<Rightarrow> RawValueCarrier \<Rightarrow> RawValueCarrierError + bytes" where
  "rc_raw_bytes C r =
     and_then (rc_validate C r) (\<lambda>_.
       ok_or (b64_decode C (rc_raw_bytes_base64url r)) RCE_InvalidBytes)"

section \<open>Logical and JSON values\<close>

datatype JsonValue =
    JV_Null
  | JV_Boolean bool
  | JV_String string
  | JV_SignedInteger string
  | JV_UnsignedInteger string
  | JV_DoubleBits string
  | JV_Decimal string nat
  | JV_Array "JsonValue list"
  | JV_Object "JsonEntry list"
and JsonEntry = JsonEntry (je_key: string) (je_value: JsonValue)

datatype (plugins only: code size) LogicalValue =
    LV_Null
  | LV_Boolean bool
  | LV_Uuid string
  | LV_Integer bool u8 string
  | LV_Decimal string int
  | LV_Float u8 string
  | LV_Text string string "string option"
  | LV_Binary string
  | LV_BitString string u64 BitPadding BitOrder
  | LV_Date int u8 u8
  | LV_LocalTime u8 u8 u8 u32
  | LV_OffsetTime u8 u8 u8 u32 int
  | LV_LocalDatetime int u8 u8 u8 u8 u8 u32
  | LV_Duration bool u64 u8 u8 u32
  | LV_CalendarInterval int int int
  | LV_Instant string u32
  | LV_Year int
  | LV_TemporalInfinity TemporalInfinityKind bool
  | LV_Enum string
  | LV_Set "string list"
  | LV_Spatial SpatialFormat string string u8 "int option" "string option"
  | LV_Array "LogicalValue list"
  | LV_Struct "StructuredField list"
  | LV_Map "MapEntry list"
  | LV_Range bool "LogicalValue option" "LogicalValue option" bool bool
  | LV_MultiRange "LogicalValue list"
  | LV_ArrayWithMetadata "LogicalValue list" u8 "int list" "u64 list"
  | LV_InvalidTemporal string string
  | LV_Network string string "u8 option"
  | LV_Xml string "string option"
  | LV_Domain LogicalValue
  | LV_Raw RawValueCarrier
  | LV_Json JsonValue
and StructuredField = StructuredField (sf_name: string) (sf_value: LogicalValue)
and MapEntry = MapEntry (me_key: LogicalValue) (me_value: LogicalValue)

datatype Datum =
    D_Unavailable
  | D_Unchanged
  | D_Null
  | D_Value LogicalValue
  | D_Envelope SourceRepresentationEnvelope

section \<open>Rows and transactions\<close>

record ColumnDatum =
  col_ordinal :: nat
  col_name :: string
  col_native_type :: string
  col_primary_key_ordinal :: "nat option"
  col_generated :: bool
  col_collation :: "string option"
  col_datum :: Datum

record RowChange =
  rw_database :: "string option"
  rw_operation :: Operation
  rw_schema :: string
  rw_table :: string
  rw_source_cursor :: SourceCursor
  rw_source_timestamp :: u32
  rw_schema_basis :: string
  rw_before :: "ColumnDatum list option"
  rw_after :: "ColumnDatum list option"

record ChangeTransaction =
  tx_source :: Source
  tx_id :: string
  tx_begin_cursor :: SourceCursor
  tx_commit_cursor :: SourceCursor
  tx_changes :: "RowChange list"

section \<open>What the integrity checks establish\<close>

definition ctx_evidence :: "SourceRepresentationContext \<Rightarrow> bool" where
  "ctx_evidence x \<longleftrightarrow>
     (\<forall>(field, v) \<in> set (ctx_fields x). \<not> evidence_missing v)
     \<and> validate_sha256_digest (ctx_source_type_definition_digest x)
     \<and> (\<forall>(k, v) \<in> set (ctx_type_metadata x). \<not> blank k \<and> NUL \<notin> set k \<and> NUL \<notin> set v)"

lemma ctx_validate_Ok_iff [ok_iff]: "ctx_validate x = Inr u \<longleftrightarrow> ctx_evidence x"
  by (auto simp: ctx_validate_def ctx_evidence_def ok_iff list_ex_iff split: if_splits prod.splits)

lemma env_validate_Ok_iff [ok_iff]:
  "env_validate C e = Inr u \<longleftrightarrow>
     ctx_evidence (env_context e) \<and> \<not> evidence_missing (env_encoding e)
     \<and> (\<exists>payload. b64_decode C (env_payload_base64url e) = Some payload
           \<and> length payload = unat (env_payload_length e)
           \<and> env_payload_sha256 e = digest_bytes C payload)"
  by (auto simp: env_validate_def env_raw_bytes_unchecked_def ok_iff split: if_splits)

lemma unat_of_nat_u64: "n < 2 ^ 64 \<Longrightarrow> unat (of_nat n :: u64) = n"
  by (simp add: unat_of_nat)

lemma env_new_valid:
  assumes "base64_roundtrip C" and "ctx_evidence x" and "\<not> evidence_missing encoding"
    and "length payload < 2 ^ 64"
  shows "env_validate C (env_new C x encoding payload) = Ok ()"
  using assms by (simp add: ok_iff env_new_def base64_roundtrip_def unat_of_nat_u64)

lemma env_raw_bytes_validated:
  "env_validate C e = Inr u \<Longrightarrow> env_raw_bytes C e = env_raw_bytes_unchecked C e"
  by (simp add: env_raw_bytes_def)

lemma rc_evidence_context:
  "ctx_evidence x \<Longrightarrow> rc_source_context r = Some x \<Longrightarrow> rc_payload_length r = Some len \<Longrightarrow>
     rc_payload_sha256 r = Some digest \<Longrightarrow>
     rc_evidence C r bs = Inr u \<longleftrightarrow>
       rc_source_definition_digest r = ctx_source_type_definition_digest x
       \<and> length bs = unat len \<and> digest = digest_bytes C bs"
  by (auto simp: rc_evidence_def ok_iff split: if_splits)

lemma rc_validate_Ok_iff [ok_iff]:
  "rc_validate C r = Inr u \<longleftrightarrow>
     (\<forall>(field, v) \<in> set (rc_fields r). \<not> evidence_missing v)
     \<and> (\<exists>bs. b64_decode C (rc_raw_bytes_base64url r) = Some bs \<and> rc_evidence C r bs = Inr ())"
  by (auto simp: rc_validate_def ok_iff rc_fields_def evidence_missing_def split: if_splits)

lemma rc_with_source_context_Ok:
  assumes "rc_with_source_context C r x reversible = Inr r'"
  obtains bs where "b64_decode C (rc_raw_bytes_base64url r) = Some bs"
    and "rc_source_definition_digest r = ctx_source_type_definition_digest x"
    and "r' = r\<lparr>rc_source_context := Some x, rc_payload_length := Some (of_nat (length bs)),
              rc_payload_sha256 := Some (digest_bytes C bs), rc_reversible := Some reversible\<rparr>"
  using assms by (auto simp: rc_with_source_context_def ok_iff split: if_splits)

lemma rc_with_source_context_evidence:
  assumes "rc_with_source_context C r x reversible = Inr r'"
    and "ctx_evidence x" and "\<forall>(field, v) \<in> set (rc_fields r). \<not> evidence_missing v"
    and "\<forall>bs. b64_decode C (rc_raw_bytes_base64url r) = Some bs \<longrightarrow> length bs < 2 ^ 64"
  shows "rc_validate C r' = Ok ()"
  using assms(1)
proof (rule rc_with_source_context_Ok)
  fix bs
  assume dec: "b64_decode C (rc_raw_bytes_base64url r) = Some bs"
    and dig: "rc_source_definition_digest r = ctx_source_type_definition_digest x"
    and r': "r' = r\<lparr>rc_source_context := Some x, rc_payload_length := Some (of_nat (length bs)),
              rc_payload_sha256 := Some (digest_bytes C bs), rc_reversible := Some reversible\<rparr>"
  have fields: "rc_fields r' = rc_fields r" by (simp add: rc_fields_def r')
  from dec assms(4) have "length bs < 2 ^ 64" by simp
  then have "rc_evidence C r' bs = Inr ()"
    using assms(2) dig unat_of_nat_u64 [of "length bs"]
    by (subst rc_evidence_context [where x = x and len = "of_nat (length bs)"
          and digest = "digest_bytes C bs"]) (simp_all add: r')
  with assms(3) dec show ?thesis by (simp add: ok_iff fields) (simp add: r')
qed

end
