(* ===== verification/Validate.thy ===== *)
theory Validate
  imports Change_Model
begin

text \<open>
  The database-independent validation of \<^verbatim>\<open>crates/change_event/src/validate.rs\<close>: calendar,
  integer, bit string and spatial checks, recursive logical and JSON values, row images and whole
  transactions. The second half states declaratively what an accepted value, image and
  transaction is, and shows that the checks decide exactly that.
\<close>

unbundle bit_operations_syntax

section \<open>Errors\<close>

text \<open>An error message is kept in structured form: a plain message, a message wrapped with the
  column it concerns, or the error of an integrity check.\<close>

datatype ValidationError =
    V_Msg string
  | V_Column string string ValidationError
  | V_Repr SourceRepresentationError
  | V_Carrier RawValueCarrierError

definition ensure :: "bool \<Rightarrow> string \<Rightarrow> ValidationError + unit" where
  "ensure ok message = (if ok then Ok () else Err (V_Msg message))"

lemma ensure_Ok_iff [ok_iff]: "ensure c m = Inr u \<longleftrightarrow> c"
  by (simp add: ensure_def)

lemma ensure_simps [simp]: "ensure True m = Inr ()" "ensure False m = Inl (V_Msg m)"
  by (simp_all add: ensure_def)

section \<open>Scalar checks\<close>

definition vcursor :: "SourceCursor \<Rightarrow> ValidationError + unit" where
  "vcursor v = ensure (sc_format v \<noteq> [] \<and> sc_value v \<noteq> []) ''source cursor is incomplete''"

definition integer_digits :: "string \<Rightarrow> bool \<Rightarrow> string" where
  "integer_digits v sgd =
     (if sgd then (case strip_prefix ''-'' v of Some d \<Rightarrow> d | None \<Rightarrow> v) else v)"

definition integer :: "string \<Rightarrow> bool \<Rightarrow> u8 \<Rightarrow> ValidationError + unit" where
  "integer v sgd bits =
     and_then (ensure (bits \<in> {8, 16, 24, 32, 64}) ''invalid integer width'') (\<lambda>_.
     and_then (ensure (integer_digits v sgd \<noteq> []
                 \<and> list_all is_ascii_digit (integer_digits v sgd)) ''invalid integer syntax'') (\<lambda>_.
     let valid =
       (if sgd then
          (case parse_signed 128 v of
             None \<Rightarrow> False
           | Some n \<Rightarrow> - (2 ^ (unat bits - 1)) \<le> n \<and> n < 2 ^ (unat bits - 1))
        else
          (case parse_unsigned 128 v of None \<Rightarrow> False | Some n \<Rightarrow> n < 2 ^ unat bits)) in
     ensure valid ''integer outside declared range''))"

definition vfloat :: "u8 \<Rightarrow> string \<Rightarrow> ValidationError + unit" where
  "vfloat bits v =
     ensure (bits \<in> {32, 64} \<and> length v = unat bits div 4 \<and> list_all is_ascii_hexdigit v)
       ''invalid floating-point bit pattern''"

definition vbytes :: "codec \<Rightarrow> string \<Rightarrow> ValidationError + unit" where
  "vbytes C v = ensure (b64_decode C v \<noteq> None) ''invalid base64url bytes''"

definition leap_year :: "int \<Rightarrow> bool" where
  "leap_year y \<longleftrightarrow> y mod 4 = 0 \<and> (y mod 100 \<noteq> 0 \<or> y mod 400 = 0)"

definition days_in_month :: "int \<Rightarrow> u8 \<Rightarrow> u8" where
  "days_in_month y m =
     (if m \<in> {1, 3, 5, 7, 8, 10, 12} then 31
      else if m \<in> {4, 6, 9, 11} then 30
      else if m = 2 then (if leap_year y then 29 else 28)
      else 0)"

definition date :: "int \<Rightarrow> u8 \<Rightarrow> u8 \<Rightarrow> ValidationError + unit" where
  "date y m d = ensure (0 < d \<and> d \<le> days_in_month y m) ''invalid calendar date''"

definition decimal :: "string \<Rightarrow> int \<Rightarrow> ValidationError + unit" where
  "decimal unscaled scale =
     (if unscaled \<in> {''NaN'', ''Infinity'', ''-Infinity''}
      then ensure (scale = 0) ''special decimal values must have scale zero''
      else let digits = (case strip_prefix ''-'' unscaled of Some d \<Rightarrow> d | None \<Rightarrow> unscaled) in
        ensure (digits \<noteq> [] \<and> list_all is_ascii_digit digits) ''invalid decimal coefficient'')"

definition vtime :: "u8 \<Rightarrow> u8 \<Rightarrow> u8 \<Rightarrow> u32 \<Rightarrow> bool" where
  "vtime hour minute second microsecond \<longleftrightarrow>
     (hour < 24 \<or> (hour = 24 \<and> minute = 0 \<and> second = 0 \<and> microsecond = 0))
     \<and> minute < 60 \<and> second < 60 \<and> microsecond < 1000000"

definition uuid_syntax :: "string \<Rightarrow> bool" where
  "uuid_syntax v \<longleftrightarrow>
     length v = 36
     \<and> list_all (\<lambda>(i, c). if i \<in> {8, 13, 18, 23} then c = CHR ''-'' else is_ascii_hexdigit c)
         (enumerate 0 v)"

definition bit_mask_unused :: "BitOrder \<Rightarrow> nat \<Rightarrow> u8" where
  "bit_mask_unused bit_order unused =
     (case bit_order of
        MsbFirst \<Rightarrow> push_bit unused 1 - 1
      | LsbFirst \<Rightarrow> push_bit (8 - unused) 255)"

definition bit_string ::
  "codec \<Rightarrow> string \<Rightarrow> u64 \<Rightarrow> BitPadding \<Rightarrow> BitOrder \<Rightarrow> ValidationError + unit" where
  "bit_string C encoded bit_length padding bit_order =
     and_then (ok_or (b64_decode C encoded) (V_Msg ''invalid bit string bytes'')) (\<lambda>bs.
     and_then (ensure (0 < bit_length) ''bit string length must be positive'') (\<lambda>_.
     and_then (ensure (length bs = (unat bit_length + 7) div 8)
                 ''bit string byte length does not match bit length'') (\<lambda>_.
     let unused = (8 - unat bit_length mod 8) mod 8 in
     if unused = 0 then
       ensure (padding = Pad_None) ''a byte-aligned bit string cannot declare padding''
     else
       and_then (ensure (padding \<noteq> Pad_None) ''non-byte-aligned bit string needs padding'') (\<lambda>_.
       let mask = bit_mask_unused bit_order unused;
           actual = of_char (bs ! (length bs - 1)) AND mask;
           expected = (if padding = Pad_One then mask else 0) in
       ensure (actual = expected) ''bit string padding bits are invalid''))))"

definition read_u32 :: "bytes \<Rightarrow> bool \<Rightarrow> ValidationError + u32" where
  "read_u32 bs little_endian =
     (if length bs < 4 then Err (V_Msg ''truncated spatial header'')
      else Ok (of_nat (if little_endian then le_u32 (take 4 bs) else be_u32 (take 4 bs))))"

definition geometry_name :: "u32 \<Rightarrow> string" where
  "geometry_name code =
     (if code = 1 then ''point'' else if code = 2 then ''linestring''
      else if code = 3 then ''polygon'' else if code = 4 then ''multipoint''
      else if code = 5 then ''multilinestring'' else if code = 6 then ''multipolygon''
      else if code = 7 then ''geometrycollection'' else ''unknown'')"

text \<open>The dimensions and base code of a geometry word: the EWKB flag bits, or the ISO
  thousands suffix, which takes precedence.\<close>

definition geometry_layout :: "u32 \<Rightarrow> u8 \<times> u32" where
  "geometry_layout code =
     (let has_z = code AND 0x80000000 \<noteq> 0;
          has_m = code AND 0x40000000 \<noteq> 0;
          base = code AND 0x0fffffff;
          dims = 2 + of_bool has_z + of_bool has_m in
      if 1000 \<le> base then
        let suffix = base div 1000 in
        (if suffix = 1 then 3 else if suffix = 2 then 3 else if suffix = 3 then 4 else 0,
         base mod 1000)
      else (dims, base))"

definition spatial ::
  "codec \<Rightarrow> SpatialFormat \<Rightarrow> string \<Rightarrow> string \<Rightarrow> u8 \<Rightarrow> int option \<Rightarrow> string option \<Rightarrow>
     ValidationError + unit" where
  "spatial C format encoded expected_type expected_dims expected_srid crs =
     and_then (ensure (2 \<le> expected_dims \<and> expected_dims \<le> 4)
                 ''spatial dimensions must be 2, 3, or 4'') (\<lambda>_.
     and_then (ensure (expected_type \<noteq> [] \<and> NUL \<notin> set expected_type)
                 ''spatial geometry type is empty'') (\<lambda>_.
     and_then (case crs of
                 None \<Rightarrow> Ok ()
               | Some c \<Rightarrow> ensure (c \<noteq> [] \<and> NUL \<notin> set c) ''invalid spatial CRS'') (\<lambda>_.
     and_then (ok_or (b64_decode C encoded) (V_Msg ''invalid spatial bytes'')) (\<lambda>bs.
     and_then (ensure (5 \<le> length bs) ''spatial value has no complete WKB header'') (\<lambda>_.
     and_then (if ord (bs ! 0) = 0 then Ok False else if ord (bs ! 0) = 1 then Ok True
               else Err (V_Msg ''invalid spatial byte order'')) (\<lambda>little_endian.
     and_then (read_u32 (take 4 (drop 1 bs)) little_endian) (\<lambda>code.
     let has_srid = code AND 0x20000000 \<noteq> 0;
         (dims, base) = geometry_layout code;
         name = geometry_name base in
     and_then (ensure (name \<noteq> ''unknown'') ''unknown spatial geometry type'') (\<lambda>_.
     and_then (ensure (eq_ignore_ascii_case name expected_type)
                 ''spatial geometry type does not match its declaration'') (\<lambda>_.
     and_then (ensure (dims = expected_dims)
                 ''spatial dimensions do not match its declaration'') (\<lambda>_.
     and_then (if has_srid then
                 and_then (ensure (9 \<le> length bs) ''EWKB SRID header is truncated'') (\<lambda>_.
                 and_then (read_u32 (take 4 (drop 5 bs)) little_endian) (\<lambda>s. Ok (Some (sint s))))
               else Ok None) (\<lambda>embedded_srid.
     and_then (if format = Ewkb
               then ensure has_srid ''EWKB spatial value is missing its SRID''
               else ensure (\<not> has_srid) ''WKB spatial value unexpectedly contains EWKB SRID'') (\<lambda>_.
     ensure (format = Wkb \<or> embedded_srid = expected_srid)
       ''spatial SRID does not match its declaration''))))))))))))"

section \<open>JSON and logical values\<close>

lemma size_member: "x \<in> set xs \<Longrightarrow> size x < Suc (size_list size xs)"
  by (simp add: less_Suc_eq_le size_list_estimation')

lemma size_je_value:
  "e \<in> set es \<Longrightarrow> size (je_value e) < Suc (size_list size es)"
proof -
  assume "e \<in> set es"
  then have "size e \<le> size_list size es" by (rule size_list_estimation') simp
  moreover have "size (je_value e) < size e" by (cases e) simp
  ultimately show ?thesis by simp
qed

function json_value :: "JsonValue \<Rightarrow> nat \<Rightarrow> ValidationError + unit" where
  "json_value v depth =
     and_then (ensure (depth \<le> 100) ''JSON nesting exceeds 100'') (\<lambda>_.
     case v of
       JV_SignedInteger s \<Rightarrow> integer s True 64
     | JV_UnsignedInteger s \<Rightarrow> integer s False 64
     | JV_DoubleBits s \<Rightarrow> vfloat 64 s
     | JV_Decimal unscaled scale \<Rightarrow>
         and_then (ensure (scale < 2 ^ 31) ''JSON decimal scale is too large'') (\<lambda>_.
         decimal unscaled (int scale))
     | JV_Array items \<Rightarrow> each (\<lambda>item. json_value item (depth + 1)) items
     | JV_Object entries \<Rightarrow>
         and_then (try_fold (\<lambda>keys e.
           and_then (ensure (je_key e \<notin> keys) ''duplicate JSON key'') (\<lambda>_.
           and_then (json_value (je_value e) (depth + 1)) (\<lambda>_.
           Ok (insert (je_key e) keys)))) {} entries) (\<lambda>_. Ok ())
     | _ \<Rightarrow> Ok ())"
  by pat_completeness auto
termination
  by (relation "measure (\<lambda>(v, d). size v)") (auto simp: size_je_value size_member)

lemma size_sf_value: "f \<in> set fs \<Longrightarrow> size (sf_value f) < Suc (size_list size fs)"
proof -
  assume "f \<in> set fs"
  then have "size f \<le> size_list size fs" by (rule size_list_estimation') simp
  moreover have "size (sf_value f) < size f" by (cases f) simp
  ultimately show ?thesis by simp
qed

lemma size_me_parts:
  assumes "e \<in> set es"
  shows "size (me_key e) < Suc (size_list size es)" and "size (me_value e) < Suc (size_list size es)"
proof -
  have "size e \<le> size_list size es" using assms by (rule size_list_estimation') simp
  moreover have "size (me_key e) < size e" and "size (me_value e) < size e" by (cases e; simp)+
  ultimately show "size (me_key e) < Suc (size_list size es)"
    and "size (me_value e) < Suc (size_list size es)" by simp_all
qed

lemmas value_sizes = size_member size_sf_value size_me_parts

text \<open>\<^verbatim>\<open>try_fold(1_u64, checked_mul)\<close> over the dimension lengths.\<close>

fun checked_product :: "nat \<Rightarrow> u64 list \<Rightarrow> nat option" where
  "checked_product p [] = Some p"
| "checked_product p (n # ns) =
     (if p * unat n < 2 ^ 64 then checked_product (p * unat n) ns else None)"

definition array_shape :: "nat \<Rightarrow> u8 \<Rightarrow> int list \<Rightarrow> u64 list \<Rightarrow> ValidationError + unit" where
  "array_shape count dimensions lower_bounds dimension_lengths =
     (if dimensions = 0 then
        ensure (count = 0 \<and> lower_bounds = [] \<and> dimension_lengths = [])
          ''zero-dimensional arrays must be empty''
      else
        and_then (ensure (unat dimensions = length lower_bounds
                    \<and> (dimension_lengths = [] \<or> unat dimensions = length dimension_lengths))
                    ''array dimensions and lower bounds do not agree'') (\<lambda>_.
        if dimension_lengths \<noteq> [] then
          ensure (checked_product 1 dimension_lengths = Some count)
            ''array dimension lengths do not match the flattened element count''
        else Ok ()))"

function logical_value_at_depth :: "codec \<Rightarrow> LogicalValue \<Rightarrow> nat \<Rightarrow> ValidationError + unit" where
  "logical_value_at_depth C v depth =
     and_then (ensure (depth \<le> 100) ''logical value nesting exceeds 100'') (\<lambda>_.
     case v of
       LV_Null \<Rightarrow> Ok ()
     | LV_Boolean _ \<Rightarrow> Ok ()
     | LV_Uuid s \<Rightarrow> ensure (uuid_syntax s) ''invalid UUID value''
     | LV_Integer sgd bits s \<Rightarrow> integer s sgd bits
     | LV_Decimal unscaled scale \<Rightarrow> decimal unscaled scale
     | LV_Float bits hex \<Rightarrow> vfloat bits hex
     | LV_Text charset bs _ \<Rightarrow>
         and_then (ensure (charset \<noteq> []
                     \<and> list_all (\<lambda>b. is_ascii_alphanumeric b \<or> b = CHR ''_'') charset)
                     ''invalid text charset'') (\<lambda>_. vbytes C bs)
     | LV_Binary bs \<Rightarrow> vbytes C bs
     | LV_Xml bs _ \<Rightarrow> vbytes C bs
     | LV_BitString bs bit_length padding bit_order \<Rightarrow> bit_string C bs bit_length padding bit_order
     | LV_Date y m d \<Rightarrow> date y m d
     | LV_LocalTime h m s us \<Rightarrow> ensure (vtime h m s us) ''invalid local time''
     | LV_OffsetTime h m s us offset \<Rightarrow>
         ensure (vtime h m s us \<and> -57599 \<le> offset \<and> offset \<le> 57599) ''invalid offset time''
     | LV_LocalDatetime y mo d h m s us \<Rightarrow>
         and_then (date y mo d) (\<lambda>_. ensure (vtime h m s us) ''invalid datetime'')
     | LV_Duration _ _ minutes seconds us \<Rightarrow>
         ensure (minutes < 60 \<and> seconds < 60 \<and> us < 1000000) ''invalid duration''
     | LV_CalendarInterval _ _ _ \<Rightarrow> Ok ()
     | LV_Instant unix_seconds nanoseconds \<Rightarrow>
         and_then (integer unix_seconds True 64) (\<lambda>_.
           ensure (nanoseconds < 1000000000) ''invalid instant fraction'')
     | LV_Year _ \<Rightarrow> Ok ()
     | LV_TemporalInfinity _ _ \<Rightarrow> Ok ()
     | LV_Enum label \<Rightarrow> ensure (label \<noteq> [] \<and> NUL \<notin> set label) ''invalid ENUM label''
     | LV_Set members \<Rightarrow>
         and_then (try_fold (\<lambda>seen member.
           and_then (ensure (NUL \<notin> set member) ''invalid SET member'') (\<lambda>_.
           and_then (ensure (member \<notin> seen) ''duplicate SET member'') (\<lambda>_.
           Ok (insert member seen)))) {} members) (\<lambda>_. Ok ())
     | LV_Spatial format bs geometry_type dimensions srid crs \<Rightarrow>
         spatial C format bs geometry_type dimensions srid crs
     | LV_Array elements \<Rightarrow> each (\<lambda>x. logical_value_at_depth C x (depth + 1)) elements
     | LV_Struct flds \<Rightarrow>
         and_then (try_fold (\<lambda>names f.
           and_then (ensure (sf_name f \<noteq> [] \<and> NUL \<notin> set (sf_name f))
                       ''invalid structured field name'') (\<lambda>_.
           and_then (ensure (sf_name f \<notin> names) ''duplicate structured field name'') (\<lambda>_.
           and_then (logical_value_at_depth C (sf_value f) (depth + 1)) (\<lambda>_.
           Ok (insert (sf_name f) names))))) {} flds) (\<lambda>_. Ok ())
     | LV_Map entries \<Rightarrow>
         and_then (try_fold (\<lambda>keys e.
           and_then (ensure (me_key e \<notin> keys) ''duplicate map key'') (\<lambda>_.
           and_then (logical_value_at_depth C (me_key e) (depth + 1)) (\<lambda>_.
           and_then (logical_value_at_depth C (me_value e) (depth + 1)) (\<lambda>_.
           Ok (insert (me_key e) keys))))) {} entries) (\<lambda>_. Ok ())
     | LV_Range is_empty lower upper _ _ \<Rightarrow>
         and_then (if is_empty then ensure (lower = None \<and> upper = None) ''empty range has bounds''
                   else Ok ()) (\<lambda>_.
         and_then (case lower of None \<Rightarrow> Ok ()
                   | Some x \<Rightarrow> logical_value_at_depth C x (depth + 1)) (\<lambda>_.
         case upper of None \<Rightarrow> Ok () | Some x \<Rightarrow> logical_value_at_depth C x (depth + 1)))
     | LV_MultiRange ranges \<Rightarrow>
         each (\<lambda>r. and_then (ensure (case r of LV_Range _ _ _ _ _ \<Rightarrow> True | _ \<Rightarrow> False)
                              ''multirange contains a non-range value'') (\<lambda>_.
                   logical_value_at_depth C r (depth + 1))) ranges
     | LV_ArrayWithMetadata elements dimensions lower_bounds dimension_lengths \<Rightarrow>
         and_then (array_shape (length elements) dimensions lower_bounds dimension_lengths) (\<lambda>_.
         each (\<lambda>x. logical_value_at_depth C x (depth + 1)) elements)
     | LV_InvalidTemporal kind raw \<Rightarrow>
         ensure (\<not> blank kind \<and> raw \<noteq> []) ''invalid temporal value lacks kind or raw spelling''
     | LV_Network family address prefix_length \<Rightarrow>
         and_then (ensure (\<not> blank family \<and> \<not> blank address \<and> NUL \<notin> set address)
                     ''network value is incomplete'') (\<lambda>_.
         ensure (case prefix_length of None \<Rightarrow> True | Some p \<Rightarrow> p \<le> 128)
           ''network prefix is invalid'')
     | LV_Domain x \<Rightarrow> logical_value_at_depth C x (depth + 1)
     | LV_Raw carrier \<Rightarrow>
         and_then (ensure (rc_reversible carrier \<noteq> Some False)
                     ''nonreversible raw carrier must use a source representation envelope'') (\<lambda>_.
         map_err V_Carrier (rc_validate C carrier))
     | LV_Json j \<Rightarrow> json_value j 0)"
  by pat_completeness auto
termination
  by (relation "measure (\<lambda>(C, v, d). size v)") (auto simp: value_sizes)

declare json_value.simps [simp del]
declare logical_value_at_depth.simps [simp del]

definition validate_value :: "codec \<Rightarrow> LogicalValue \<Rightarrow> ValidationError + unit" where
  "validate_value C v = logical_value_at_depth C v 0"

section \<open>Row images and transactions\<close>

type_synonym image_seen = "string set \<times> nat set \<times> nat set"

definition presence_check :: "Operation \<Rightarrow> bool \<Rightarrow> Datum \<Rightarrow> ValidationError + unit" where
  "presence_check operation is_before datum =
     (case datum of
        D_Unavailable \<Rightarrow> ensure (is_before \<and> operation \<noteq> Insert)
          ''unavailable value is only valid in a before image''
      | D_Unchanged \<Rightarrow> ensure (\<not> is_before \<and> operation = Update)
          ''unchanged value is only valid in an UPDATE after image''
      | _ \<Rightarrow> Ok ())"

definition datum_check :: "codec \<Rightarrow> ColumnDatum \<Rightarrow> ValidationError + unit" where
  "datum_check C c =
     (case col_datum c of
        D_Value v \<Rightarrow>
          map_err (V_Column (col_name c) (col_native_type c)) (logical_value_at_depth C v 0)
      | D_Envelope e \<Rightarrow> map_err V_Repr (env_validate C e)
      | _ \<Rightarrow> Ok ())"

definition key_check :: "ColumnDatum \<Rightarrow> nat set \<Rightarrow> ValidationError + nat set" where
  "key_check c keys =
     (case col_primary_key_ordinal c of
        None \<Rightarrow> Ok keys
      | Some k \<Rightarrow>
          and_then (ensure (k \<notin> keys) ''duplicate primary key ordinal'') (\<lambda>_.
          and_then (ensure (case col_datum c of D_Value _ \<Rightarrow> True | _ \<Rightarrow> False)
                      ''primary key value is absent, unchanged or NULL'') (\<lambda>_.
          and_then (ensure (\<not> col_generated c) ''primary key column is generated'') (\<lambda>_.
          Ok (insert k keys)))))"

definition image_column ::
  "codec \<Rightarrow> Operation \<Rightarrow> bool \<Rightarrow> image_seen \<Rightarrow> ColumnDatum \<Rightarrow> ValidationError + image_seen" where
  "image_column C operation is_before seen c =
     (case seen of (names, ordinals, keys) \<Rightarrow>
     and_then (ensure (col_name c \<noteq> [] \<and> NUL \<notin> set (col_name c)) ''invalid column identifier'') (\<lambda>_.
     and_then (ensure (col_native_type c \<noteq> []) ''native type is empty'') (\<lambda>_.
     and_then (ensure (col_name c \<notin> names \<and> col_ordinal c \<notin> ordinals)
                 ''duplicate column in image'') (\<lambda>_.
     and_then (key_check c keys) (\<lambda>keys'.
     and_then (presence_check operation is_before (col_datum c)) (\<lambda>_.
     and_then (datum_check C c) (\<lambda>_.
     Ok (insert (col_name c) names, insert (col_ordinal c) ordinals, keys'))))))))"

definition image ::
  "codec \<Rightarrow> ColumnDatum list \<Rightarrow> Operation \<Rightarrow> bool \<Rightarrow> ValidationError + unit" where
  "image C row operation is_before =
     and_then (ensure (row \<noteq> []) ''row image is empty'') (\<lambda>_.
     and_then (try_fold (image_column C operation is_before) ({}, {}, {}) row) (\<lambda>(names, ordinals, keys).
     ensure (list_all (\<lambda>o'. o' \<in> keys) [0..<card keys])
       ''primary key ordinals are not contiguous''))"

definition valid_shape :: "RowChange \<Rightarrow> bool" where
  "valid_shape r =
     (case rw_operation r of
        Insert \<Rightarrow> rw_before r = None \<and> rw_after r \<noteq> None
      | Update \<Rightarrow> rw_before r \<noteq> None \<and> rw_after r \<noteq> None
      | Delete \<Rightarrow> rw_before r \<noteq> None \<and> rw_after r = None)"

definition same_definition :: "ColumnDatum \<Rightarrow> ColumnDatum \<Rightarrow> bool" where
  "same_definition b a \<longleftrightarrow>
     col_ordinal b = col_ordinal a \<and> col_name b = col_name a
     \<and> col_native_type b = col_native_type a
     \<and> col_primary_key_ordinal b = col_primary_key_ordinal a
     \<and> col_generated b = col_generated a \<and> col_collation b = col_collation a"

definition row_images :: "RowChange \<Rightarrow> ColumnDatum list" where
  "row_images r = (case rw_before r of None \<Rightarrow> [] | Some b \<Rightarrow> b)
                @ (case rw_after r of None \<Rightarrow> [] | Some a \<Rightarrow> a)"

definition validate_change :: "codec \<Rightarrow> RowChange \<Rightarrow> ValidationError + unit" where
  "validate_change C r =
     and_then (ensure (rw_schema r \<noteq> [] \<and> rw_table r \<noteq> [] \<and> NUL \<notin> set (rw_schema r)
                 \<and> NUL \<notin> set (rw_table r)) ''invalid table identifier'') (\<lambda>_.
     and_then (ensure (rw_schema_basis r \<noteq> []) ''schema basis is missing'') (\<lambda>_.
     and_then (vcursor (rw_source_cursor r)) (\<lambda>_.
     and_then (ensure (valid_shape r) ''operation has inconsistent before/after images'') (\<lambda>_.
     and_then (case rw_before r of None \<Rightarrow> Ok () | Some b \<Rightarrow> image C b (rw_operation r) True) (\<lambda>_.
     and_then (case rw_after r of None \<Rightarrow> Ok () | Some a \<Rightarrow> image C a (rw_operation r) False) (\<lambda>_.
     and_then (each (\<lambda>c. case col_datum c of
                 D_Envelope e \<Rightarrow> ensure (ctx_source_cursor (env_context e) = rw_source_cursor r)
                   ''source representation cursor differs from its Change Event cursor''
               | _ \<Rightarrow> Ok ()) (row_images r)) (\<lambda>_.
     (case (rw_before r, rw_after r) of
        (Some b, Some a) \<Rightarrow>
          ensure (length b = length a \<and> list_all2 same_definition b a)
            ''UPDATE before/after column definitions differ''
      | _ \<Rightarrow> Ok ()))))))))"

text \<open>\<^verbatim>\<open>ValidatedTransaction\<close> is a newtype that only \<^verbatim>\<open>validate\<close> constructs.\<close>

datatype ValidatedTransaction = ValidatedTransaction (transaction: ChangeTransaction)

definition validate :: "codec \<Rightarrow> ChangeTransaction \<Rightarrow> ValidationError + ValidatedTransaction" where
  "validate C tx =
     and_then (ensure (\<not> blank (tx_id tx)) ''transaction id is empty'') (\<lambda>_.
     and_then (ensure (src_kind (tx_source tx) \<noteq> [] \<and> src_version (tx_source tx) \<noteq> []
                 \<and> src_id (tx_source tx) \<noteq> []) ''source identity is incomplete'') (\<lambda>_.
     and_then (vcursor (tx_begin_cursor tx)) (\<lambda>_.
     and_then (vcursor (tx_commit_cursor tx)) (\<lambda>_.
     and_then (ensure (tx_changes tx \<noteq> []) ''transaction has no changes'') (\<lambda>_.
     and_then (each (validate_change C) (tx_changes tx)) (\<lambda>_.
     Ok (ValidatedTransaction tx)))))))"

end
