(* ===== verification/Validate_Spec.thy ===== *)
theory Validate_Spec
  imports Validate
begin

text \<open>
  What the checks of \<^verbatim>\<open>validate.rs\<close> decide, stated without loops: well-formed values and
  their nesting, well-formed row images and transactions, and the meaning of the scalar checks.
\<close>

unbundle bit_operations_syntax

section \<open>Values\<close>

fun lv_children :: "LogicalValue \<Rightarrow> LogicalValue list" where
  "lv_children (LV_Array xs) = xs"
| "lv_children (LV_Struct fs) = map sf_value fs"
| "lv_children (LV_Map es) = concat (map (\<lambda>e. [me_key e, me_value e]) es)"
| "lv_children (LV_Range _ l u _ _) =
     (case l of None \<Rightarrow> [] | Some x \<Rightarrow> [x]) @ (case u of None \<Rightarrow> [] | Some x \<Rightarrow> [x])"
| "lv_children (LV_MultiRange rs) = rs"
| "lv_children (LV_ArrayWithMetadata xs _ _ _) = xs"
| "lv_children (LV_Domain x) = [x]"
| "lv_children _ = []"

lemma size_lv_children: "x \<in> set (lv_children v) \<Longrightarrow> size x < size v"
  by (cases v) (auto simp: value_sizes split: option.splits)

function lv_nesting :: "LogicalValue \<Rightarrow> nat" where
  "lv_nesting v = foldr max (map (\<lambda>x. Suc (lv_nesting x)) (lv_children v)) 0"
  by pat_completeness auto
termination
  by (relation "measure size") (auto simp: size_lv_children)

declare lv_nesting.simps [simp del]

text \<open>The conditions on one value that do not concern its children.\<close>

definition lv_local :: "codec \<Rightarrow> LogicalValue \<Rightarrow> bool" where
  "lv_local C v \<longleftrightarrow>
     (case v of
        LV_Struct fs \<Rightarrow>
          (\<forall>f \<in> set fs. sf_name f \<noteq> [] \<and> NUL \<notin> set (sf_name f)) \<and> distinct (map sf_name fs)
      | LV_Map es \<Rightarrow> distinct (map me_key es)
      | LV_Range is_empty l u _ _ \<Rightarrow> is_empty \<longrightarrow> l = None \<and> u = None
      | LV_MultiRange rs \<Rightarrow> (\<forall>r \<in> set rs. \<exists>e l u li ui. r = LV_Range e l u li ui)
      | LV_ArrayWithMetadata xs dims lbs lens \<Rightarrow>
          (if dims = 0 then xs = [] \<and> lbs = [] \<and> lens = []
           else unat dims = length lbs
             \<and> (lens = [] \<or> unat dims = length lens \<and> checked_product 1 lens = Some (length xs)))
      | LV_Set ms \<Rightarrow> (\<forall>m \<in> set ms. NUL \<notin> set m) \<and> distinct ms
      | LV_Array _ \<Rightarrow> True
      | LV_Domain _ \<Rightarrow> True
      | _ \<Rightarrow> logical_value_at_depth C v 0 = Inr ())"

function wf_value :: "codec \<Rightarrow> LogicalValue \<Rightarrow> bool" where
  "wf_value C v \<longleftrightarrow> lv_local C v \<and> list_all (wf_value C) (lv_children v)"
  by pat_completeness auto
termination
  by (relation "measure (\<lambda>(C, v). size v)") (auto simp: size_lv_children)

declare wf_value.simps [simp del]

lemma array_shape_Ok_iff [ok_iff]:
  "array_shape n dims lbs lens = Inr u \<longleftrightarrow>
     (if dims = 0 then n = 0 \<and> lbs = [] \<and> lens = []
      else unat dims = length lbs
        \<and> (lens = [] \<or> unat dims = length lens \<and> checked_product 1 lens = Some n))"
  by (auto simp: array_shape_def ok_iff)

text \<open>One unfolding of the recursive check: the local conditions, and every child one level
  deeper.\<close>

lemma fold_children_struct:
  "try_fold (\<lambda>names f.
     and_then (ensure (sf_name f \<noteq> [] \<and> NUL \<notin> set (sf_name f)) m) (\<lambda>_.
     and_then (ensure (sf_name f \<notin> names) m') (\<lambda>_.
     and_then (g f) (\<lambda>_. Ok (insert (sf_name f) names))))) {} fs = Inr S \<longleftrightarrow>
   (\<forall>f \<in> set fs. sf_name f \<noteq> [] \<and> NUL \<notin> set (sf_name f) \<and> g f = Inr ())
     \<and> distinct (map sf_name fs) \<and> S = sf_name ` set fs"
  by (subst try_fold_insert_iff
      [where P = "\<lambda>f. sf_name f \<noteq> [] \<and> NUL \<notin> set (sf_name f) \<and> g f = Inr ()"
        and k = sf_name]) (auto simp: ok_iff)

lemma fold_children_map:
  "try_fold (\<lambda>keys e.
     and_then (ensure (me_key e \<notin> keys) m) (\<lambda>_.
     and_then (g e) (\<lambda>_.
     and_then (h e) (\<lambda>_. Ok (insert (me_key e) keys))))) {} es = Inr S \<longleftrightarrow>
   (\<forall>e \<in> set es. g e = Inr () \<and> h e = Inr ())
     \<and> distinct (map me_key es) \<and> S = me_key ` set es"
  by (subst try_fold_insert_iff
      [where P = "\<lambda>e. g e = Inr () \<and> h e = Inr ()" and k = me_key])
    (auto simp: ok_iff)

lemma fold_members_set:
  "try_fold (\<lambda>seen x.
     and_then (ensure (NUL \<notin> set x) m) (\<lambda>_.
     and_then (ensure (x \<notin> seen) m') (\<lambda>_. Ok (insert x seen)))) {} xs = Inr S \<longleftrightarrow>
   (\<forall>x \<in> set xs. NUL \<notin> set x) \<and> distinct xs \<and> S = set xs"
  by (subst try_fold_insert_iff [where P = "\<lambda>x. NUL \<notin> set x" and k = "\<lambda>x. x"])
    (auto simp: ok_iff)

lemmas fold_children = fold_children_struct fold_children_map fold_members_set

lemma is_range_iff:
  "(case r of LV_Range _ _ _ _ _ \<Rightarrow> True | _ \<Rightarrow> False) \<longleftrightarrow> (\<exists>e l u li ui. r = LV_Range e l u li ui)"
  by (cases r) auto

lemma logical_value_deep: "\<not> d \<le> 100 \<Longrightarrow> logical_value_at_depth C v d \<noteq> Inr ()"
  by (subst logical_value_at_depth.simps) simp

definition lv_leaf :: "LogicalValue \<Rightarrow> bool" where
  "lv_leaf v \<longleftrightarrow>
     (case v of
        LV_Array _ \<Rightarrow> False | LV_Struct _ \<Rightarrow> False | LV_Map _ \<Rightarrow> False | LV_Set _ \<Rightarrow> False
      | LV_Range _ _ _ _ _ \<Rightarrow> False | LV_MultiRange _ \<Rightarrow> False
      | LV_ArrayWithMetadata _ _ _ _ \<Rightarrow> False | LV_Domain _ \<Rightarrow> False | _ \<Rightarrow> True)"

lemma logical_value_leaf:
  "lv_leaf v \<Longrightarrow> d \<le> 100 \<Longrightarrow> logical_value_at_depth C v d = logical_value_at_depth C v 0"
  by (subst (1 2) logical_value_at_depth.simps) (cases v; simp add: lv_leaf_def)

lemma lv_local_leaf:
  "lv_leaf v \<Longrightarrow> lv_local C v \<longleftrightarrow> logical_value_at_depth C v 0 = Inr ()"
  by (cases v; simp add: lv_leaf_def lv_local_def)

lemma lv_children_leaf: "lv_leaf v \<Longrightarrow> lv_children v = []"
  by (cases v; simp add: lv_leaf_def)

lemma logical_value_node:
  "\<not> lv_leaf v \<Longrightarrow> d \<le> 100 \<Longrightarrow> logical_value_at_depth C v d = Inr () \<longleftrightarrow>
     lv_local C v \<and> (\<forall>x \<in> set (lv_children v). logical_value_at_depth C x (d + 1) = Inr ())"
  by (subst logical_value_at_depth.simps)
    (cases v; simp add: lv_leaf_def; auto simp: ok_iff lv_local_def fold_children is_range_iff
        split: option.splits)

lemma logical_value_step:
  "logical_value_at_depth C v d = Inr () \<longleftrightarrow>
     d \<le> 100 \<and> lv_local C v
     \<and> (\<forall>x \<in> set (lv_children v). logical_value_at_depth C x (d + 1) = Inr ())"
proof (cases "d \<le> 100")
  case True
  then show ?thesis
    by (cases "lv_leaf v")
      (auto simp: logical_value_leaf [of v d] lv_local_leaf lv_children_leaf logical_value_node)
qed (simp add: logical_value_deep)

text \<open>The depth limit is the only thing depth contributes: the check at depth \<open>d\<close> accepts
  the well-formed values that nest at most \<open>100 - d\<close> deep.\<close>

lemma foldr_max_le: "foldr max ns (0 :: nat) \<le> b \<longleftrightarrow> (\<forall>n \<in> set ns. n \<le> b)"
  by (induction ns) auto

lemma lv_nesting_le_iff:
  "d + lv_nesting v \<le> b \<longleftrightarrow> d \<le> b \<and> (\<forall>x \<in> set (lv_children v). Suc d + lv_nesting x \<le> b)"
proof (cases "d \<le> b")
  case True
  have "lv_nesting v \<le> b - d \<longleftrightarrow> (\<forall>x \<in> set (lv_children v). Suc (lv_nesting x) \<le> b - d)"
    by (subst lv_nesting.simps) (simp add: foldr_max_le)
  with True show ?thesis by (auto simp: le_diff_conv2 algebra_simps)
qed simp

lemma logical_value_at_depth_iff:
  "logical_value_at_depth C v d = Inr () \<longleftrightarrow> wf_value C v \<and> d + lv_nesting v \<le> 100"
proof (induction C v arbitrary: d rule: wf_value.induct)
  case (1 C v)
  have "logical_value_at_depth C v d = Inr () \<longleftrightarrow> d \<le> 100 \<and> lv_local C v
      \<and> (\<forall>x \<in> set (lv_children v). wf_value C x \<and> Suc d + lv_nesting x \<le> 100)"
    by (subst logical_value_step) (auto simp: 1)
  then show ?case
    by (subst wf_value.simps, subst lv_nesting_le_iff) (auto simp: list_all_iff)
qed

section \<open>Images and transactions\<close>

definition key_ordinals :: "ColumnDatum list \<Rightarrow> nat list" where
  "key_ordinals row = List.map_filter col_primary_key_ordinal row"

text \<open>A column of an image on its own: identified, present only where presence makes sense,
  with a valid value, and a real value when it belongs to the primary key.\<close>

definition column_ok :: "codec \<Rightarrow> Operation \<Rightarrow> bool \<Rightarrow> ColumnDatum \<Rightarrow> bool" where
  "column_ok C operation is_before c \<longleftrightarrow>
     col_name c \<noteq> [] \<and> NUL \<notin> set (col_name c) \<and> col_native_type c \<noteq> []
     \<and> (col_primary_key_ordinal c \<noteq> None \<longrightarrow>
          (\<exists>v. col_datum c = D_Value v) \<and> \<not> col_generated c)
     \<and> (col_datum c = D_Unavailable \<longrightarrow> is_before \<and> operation \<noteq> Insert)
     \<and> (col_datum c = D_Unchanged \<longrightarrow> \<not> is_before \<and> operation = Update)
     \<and> (\<forall>v. col_datum c = D_Value v \<longrightarrow> wf_value C v \<and> lv_nesting v \<le> 100)
     \<and> (\<forall>e. col_datum c = D_Envelope e \<longrightarrow> env_validate C e = Inr ())"

definition image_ok :: "codec \<Rightarrow> Operation \<Rightarrow> bool \<Rightarrow> ColumnDatum list \<Rightarrow> bool" where
  "image_ok C operation is_before row \<longleftrightarrow>
     row \<noteq> [] \<and> (\<forall>c \<in> set row. column_ok C operation is_before c)
     \<and> distinct (map col_name row) \<and> distinct (map col_ordinal row)
     \<and> distinct (key_ordinals row)
     \<and> set (key_ordinals row) = {0..<length (key_ordinals row)}"

lemma key_check_Ok_iff [ok_iff]:
  "key_check c K = Inr K' \<longleftrightarrow>
     (col_primary_key_ordinal c \<noteq> None \<longrightarrow> (\<exists>v. col_datum c = D_Value v) \<and> \<not> col_generated c)
     \<and> set_option (col_primary_key_ordinal c) \<inter> K = {}
     \<and> K' = set_option (col_primary_key_ordinal c) \<union> K"
  by (auto simp: key_check_def ok_iff split: option.splits Datum.splits)

lemma presence_check_Ok_iff [ok_iff]:
  "presence_check operation is_before d = Inr u \<longleftrightarrow>
     (d = D_Unavailable \<longrightarrow> is_before \<and> operation \<noteq> Insert)
     \<and> (d = D_Unchanged \<longrightarrow> \<not> is_before \<and> operation = Update)"
  by (auto simp: presence_check_def ok_iff split: Datum.splits)

lemma datum_check_Ok_iff [ok_iff]:
  "datum_check C c = Inr u \<longleftrightarrow>
     (\<forall>v. col_datum c = D_Value v \<longrightarrow> wf_value C v \<and> lv_nesting v \<le> 100)
     \<and> (\<forall>e. col_datum c = D_Envelope e \<longrightarrow> env_validate C e = Inr ())"
  by (cases "col_datum c") (simp_all add: datum_check_def map_err_Ok_iff logical_value_at_depth_iff)

lemma image_column_Ok_iff [ok_iff]:
  "image_column C operation is_before (N, O', K) c = Inr (N', O'', K') \<longleftrightarrow>
     column_ok C operation is_before c \<and> col_name c \<notin> N \<and> col_ordinal c \<notin> O'
     \<and> set_option (col_primary_key_ordinal c) \<inter> K = {}
     \<and> N' = insert (col_name c) N \<and> O'' = insert (col_ordinal c) O'
     \<and> K' = set_option (col_primary_key_ordinal c) \<union> K"
  unfolding image_column_def column_ok_def
  by (simp only: prod.case and_then_Ok_iff ensure_Ok_iff key_check_Ok_iff presence_check_Ok_iff
      datum_check_Ok_iff) auto

lemma key_ordinals_simps [simp]:
  "key_ordinals [] = []"
  "key_ordinals (c # row) =
     (case col_primary_key_ordinal c of None \<Rightarrow> key_ordinals row | Some k \<Rightarrow> k # key_ordinals row)"
  by (simp_all add: key_ordinals_def List.map_filter_def split: option.split)

lemma image_fold_Ok_iff:
  "try_fold (image_column C operation is_before) (N, O', K) row = Inr (N', O'', K') \<longleftrightarrow>
     (\<forall>c \<in> set row. column_ok C operation is_before c)
     \<and> distinct (map col_name row) \<and> col_name ` set row \<inter> N = {}
     \<and> distinct (map col_ordinal row) \<and> col_ordinal ` set row \<inter> O' = {}
     \<and> distinct (key_ordinals row) \<and> set (key_ordinals row) \<inter> K = {}
     \<and> N' = col_name ` set row \<union> N \<and> O'' = col_ordinal ` set row \<union> O'
     \<and> K' = set (key_ordinals row) \<union> K"
proof (induction row arbitrary: N O' K)
  case (Cons c row)
  show ?case
    by (simp add: and_then_Ok_iff image_column_Ok_iff Cons.IH split: option.split) blast
qed auto

lemma contiguous_iff:
  assumes "distinct ks"
  shows "list_all (\<lambda>o'. o' \<in> set ks) [0..<card (set ks)] \<longleftrightarrow> set ks = {0..<length ks}"
proof -
  have n: "card (set ks) = length ks" using assms by (rule distinct_card)
  have "{0..<length ks} \<subseteq> set ks \<longleftrightarrow> set ks = {0..<length ks}"
    using card_subset_eq [of "set ks" "{0..<length ks}"] n by auto
  then show ?thesis by (auto simp: n list_all_iff)
qed

lemma image_Ok_iff [ok_iff]: "image C row operation is_before = Inr u \<longleftrightarrow> image_ok C operation is_before row"
proof -
  have "image C row operation is_before = Inr u \<longleftrightarrow>
      row \<noteq> [] \<and> (\<exists>N O' K. try_fold (image_column C operation is_before) ({}, {}, {}) row = Inr (N, O', K)
        \<and> list_all (\<lambda>o'. o' \<in> K) [0..<card K])"
    by (auto simp: image_def ok_iff split: prod.splits)
  also have "\<dots> \<longleftrightarrow> image_ok C operation is_before row"
    using contiguous_iff [of "key_ordinals row"] by (auto simp: image_fold_Ok_iff image_ok_def)
  finally show ?thesis .
qed

definition cursor_ok :: "SourceCursor \<Rightarrow> bool" where
  "cursor_ok x \<longleftrightarrow> sc_format x \<noteq> [] \<and> sc_value x \<noteq> []"

definition change_ok :: "codec \<Rightarrow> RowChange \<Rightarrow> bool" where
  "change_ok C r \<longleftrightarrow>
     rw_schema r \<noteq> [] \<and> rw_table r \<noteq> [] \<and> NUL \<notin> set (rw_schema r) \<and> NUL \<notin> set (rw_table r)
     \<and> rw_schema_basis r \<noteq> [] \<and> cursor_ok (rw_source_cursor r)
     \<and> (rw_before r = None \<longleftrightarrow> rw_operation r = Insert)
     \<and> (rw_after r = None \<longleftrightarrow> rw_operation r = Delete)
     \<and> (\<forall>b. rw_before r = Some b \<longrightarrow> image_ok C (rw_operation r) True b)
     \<and> (\<forall>a. rw_after r = Some a \<longrightarrow> image_ok C (rw_operation r) False a)
     \<and> (\<forall>c \<in> set (row_images r). \<forall>e. col_datum c = D_Envelope e \<longrightarrow>
          ctx_source_cursor (env_context e) = rw_source_cursor r)
     \<and> (\<forall>b a. rw_before r = Some b \<longrightarrow> rw_after r = Some a \<longrightarrow> list_all2 same_definition b a)"

definition transaction_ok :: "codec \<Rightarrow> ChangeTransaction \<Rightarrow> bool" where
  "transaction_ok C tx \<longleftrightarrow>
     \<not> blank (tx_id tx)
     \<and> src_kind (tx_source tx) \<noteq> [] \<and> src_version (tx_source tx) \<noteq> [] \<and> src_id (tx_source tx) \<noteq> []
     \<and> cursor_ok (tx_begin_cursor tx) \<and> cursor_ok (tx_commit_cursor tx)
     \<and> tx_changes tx \<noteq> [] \<and> (\<forall>r \<in> set (tx_changes tx). change_ok C r)"

lemma vcursor_Ok_iff [ok_iff]: "vcursor x = Inr u \<longleftrightarrow> cursor_ok x"
  by (simp add: vcursor_def ok_iff cursor_ok_def)

lemma valid_shape_iff:
  "valid_shape r \<longleftrightarrow>
     (rw_before r = None \<longleftrightarrow> rw_operation r = Insert) \<and> (rw_after r = None \<longleftrightarrow> rw_operation r = Delete)"
  by (auto simp: valid_shape_def split: Operation.splits)

lemma envelope_cursor_check:
  "(case d of D_Envelope e \<Rightarrow> ensure (P e) m | _ \<Rightarrow> Inr ()) = Inr () \<longleftrightarrow>
     (\<forall>e. d = D_Envelope e \<longrightarrow> P e)"
  by (cases d) (auto simp: ok_iff)

lemma validate_change_Ok_iff [ok_iff]: "validate_change C r = Inr u \<longleftrightarrow> change_ok C r"
  unfolding validate_change_def change_ok_def
  by (cases "rw_before r"; cases "rw_after r")
    (auto simp: ok_iff valid_shape_iff envelope_cursor_check dest: list_all2_lengthD)

lemma validate_Ok_iff [ok_iff]:
  "validate C tx = Inr vt \<longleftrightarrow> transaction_ok C tx \<and> vt = ValidatedTransaction tx"
  by (auto simp: validate_def transaction_ok_def ok_iff)

section \<open>Scalars\<close>

lemma strip_minus_show_nat: "strip_prefix ''-'' (show_nat n) = None"
proof (cases "show_nat n")
  case (Cons c cs)
  then have "is_ascii_digit c" using show_nat_digits [of n] by simp
  then have "c \<noteq> CHR ''-''" by (auto simp: is_ascii_digit_def ord_def)
  with Cons show ?thesis by simp
qed simp

lemma show_nat_not_negative:
  "(case show_nat n of [] \<Rightarrow> False | c # cs \<Rightarrow> c = CHR ''-'' \<and> cs \<noteq> []) \<longleftrightarrow> False"
  using strip_minus_show_nat [of n] by (auto split: list.splits if_splits)

lemma parse_signed_show_nat:
  "parse_signed w (show_nat n) = (if int n < 2 ^ (w - 1) then Some (int n) else None)"
proof -
  have "(0 :: int) \<le> 2 ^ (w - 1)" by simp
  then have "- (2 ^ (w - 1)) \<le> int n" by linarith
  then show ?thesis
    unfolding parse_signed_def Let_def show_nat_not_negative by (simp add: show_nat_digits)
qed

lemma parse_signed_minus_show_nat:
  "parse_signed w (CHR ''-'' # show_nat n) = (if int n \<le> 2 ^ (w - 1) then Some (- int n) else None)"
proof -
  have "0 < (2 :: int) ^ (w - 1)" by simp
  then have "- int n < 2 ^ (w - 1)" by linarith
  then show ?thesis
    by (simp add: parse_signed_def show_nat_digits)
qed

lemma parse_signed_show_int:
  "parse_signed w (show_int i) = (if - (2 ^ (w - 1)) \<le> i \<and> i < 2 ^ (w - 1) then Some i else None)"
proof (cases "i < 0")
  case True
  moreover from this have "i < 2 ^ (w - 1)" by (rule less_trans) simp
  ultimately show ?thesis
    by (auto simp: show_int_def parse_signed_minus_show_nat)
next
  case False
  moreover from this have "- (2 ^ (w - 1)) \<le> i" by (simp add: order_trans [of _ 0])
  ultimately show ?thesis
    by (auto simp: show_int_def parse_signed_show_nat)
qed

lemma integer_digits_show_int:
  "integer_digits (show_int i) True \<noteq> [] \<and> list_all is_ascii_digit (integer_digits (show_int i) True)"
  by (auto simp: integer_digits_def show_int_def strip_minus_show_nat show_nat_digits)

lemma u8_width_bound: "bits \<in> {8, 16, 24, 32, 64} \<Longrightarrow> unat (bits :: u8) \<le> 64 \<and> 0 < unat bits"
  by auto

lemma integer_signed_iff:
  "integer (show_int i) True bits = Inr () \<longleftrightarrow>
     bits \<in> {8, 16, 24, 32, 64} \<and> - (2 ^ (unat bits - 1)) \<le> i \<and> i < 2 ^ (unat bits - 1)"
proof (cases "bits \<in> {8, 16, 24, 32, 64}")
  case True
  have "unat bits - 1 \<le> 127" using u8_width_bound [OF True] by linarith
  then have pow: "(2 :: int) ^ (unat bits - 1) \<le> 2 ^ 127" by (intro power_increasing) auto
  have "(case parse_signed 128 (show_int i) of None \<Rightarrow> False
      | Some n \<Rightarrow> - (2 ^ (unat bits - 1)) \<le> n \<and> n < 2 ^ (unat bits - 1)) \<longleftrightarrow>
      - (2 ^ (unat bits - 1)) \<le> i \<and> i < 2 ^ (unat bits - 1)"
    using pow by (auto simp: parse_signed_show_int)
  with True show ?thesis
    by (simp add: integer_def ok_iff integer_digits_show_int Let_def)
qed (simp add: integer_def ok_iff)

lemma integer_unsigned_iff:
  "integer (show_nat n) False bits = Inr () \<longleftrightarrow> bits \<in> {8, 16, 24, 32, 64} \<and> n < 2 ^ unat bits"
proof (cases "bits \<in> {8, 16, 24, 32, 64}")
  case True
  then have "unat bits \<le> 128" using u8_width_bound [OF True] by simp
  then have pow: "(2 :: nat) ^ unat bits \<le> 2 ^ 128" by (intro power_increasing) auto
  have "(case parse_unsigned 128 (show_nat n) of None \<Rightarrow> False | Some m \<Rightarrow> m < 2 ^ unat bits) \<longleftrightarrow>
      n < 2 ^ unat bits"
    using pow by (auto simp: parse_unsigned_def Let_def show_nat_digits split: option.split)
  with True show ?thesis
    by (simp add: integer_def ok_iff integer_digits_def show_nat_digits Let_def)
qed (simp add: integer_def ok_iff)

text \<open>The positions of the unused bits in the last byte of a bit string.\<close>

definition unused_bits :: "BitOrder \<Rightarrow> nat \<Rightarrow> nat set" where
  "unused_bits bit_order n =
     (let u = (8 - n mod 8) mod 8 in
      case bit_order of MsbFirst \<Rightarrow> {0..<u} | LsbFirst \<Rightarrow> {8 - u..<8})"

lemma bit_mask_unused_iff:
  assumes "u < 8"
  shows "bit (bit_mask_unused bit_order u) i \<longleftrightarrow>
     i \<in> (case bit_order of MsbFirst \<Rightarrow> {0..<u} | LsbFirst \<Rightarrow> {8 - u..<8})"
proof (cases bit_order)
  case MsbFirst
  have "push_bit u 1 - 1 = (mask u :: u8)"
    by (simp add: mask_eq_exp_minus_1 push_bit_eq_mult)
  with MsbFirst assms show ?thesis
    by (auto simp: bit_mask_unused_def bit_mask_iff)
next
  case LsbFirst
  have "push_bit (8 - u) 255 = (push_bit (8 - u) (mask 8) :: u8)" by (simp add: mask_eq_exp_minus_1)
  then have "bit (push_bit (8 - u) 255 :: u8) i \<longleftrightarrow> 8 - u \<le> i \<and> i < 8"
    by (simp only: bit_push_bit_iff bit_mask_iff possible_bit_word) auto
  with LsbFirst show ?thesis by (auto simp: bit_mask_unused_def)
qed

lemma word_eq_bits: "x = y \<longleftrightarrow> (\<forall>i. bit x i \<longleftrightarrow> bit y i)" for x y :: "'a::len word"
  by (auto intro: bit_word_eqI)

lemma masked_eq_iff:
  fixes w m :: u8
  shows "w AND m = (if one then m else 0) \<longleftrightarrow> (\<forall>i. bit m i \<longrightarrow> (bit w i \<longleftrightarrow> one))"
proof -
  have "w AND m = (if one then m else 0) \<longleftrightarrow> (\<forall>i. (bit w i \<and> bit m i) \<longleftrightarrow> (one \<and> bit m i))"
    by (auto simp: word_eq_bits bit_and_iff)
  then show ?thesis by blast
qed

lemma bit_string_iff:
  "bit_string C encoded n padding bit_order = Inr () \<longleftrightarrow>
     (\<exists>bs. b64_decode C encoded = Some bs \<and> 0 < n \<and> length bs = (unat n + 7) div 8
        \<and> (padding = Pad_None \<longleftrightarrow> 8 dvd unat n)
        \<and> (\<forall>i \<in> unused_bits bit_order (unat n).
             bit (of_char (last bs) :: u8) i \<longleftrightarrow> padding = Pad_One))"
proof -
  define u where "u = (8 - unat n mod 8) mod 8"
  have u: "u < 8" and aligned: "u = 0 \<longleftrightarrow> 8 dvd unat n"
    unfolding u_def by (simp_all add: dvd_eq_mod_eq_0) presburger
  have last: "bs ! ((unat n + 7) div 8 - Suc 0) = last bs" if "0 < n" "length bs = (unat n + 7) div 8" for bs :: bytes
  proof -
    have "0 < unat n" using that(1) by (simp add: word_less_nat_alt)
    then have "bs \<noteq> []" using that(2) by auto
    then show ?thesis using that(2) by (simp add: last_conv_nth)
  qed
  have pad: "(of_char c AND bit_mask_unused bit_order u =
      (if padding = Pad_One then bit_mask_unused bit_order u else 0)) \<longleftrightarrow>
      (\<forall>i \<in> unused_bits bit_order (unat n). bit (of_char c :: u8) i \<longleftrightarrow> padding = Pad_One)" for c
    using bit_mask_unused_iff [OF u]
    by (auto simp: masked_eq_iff unused_bits_def u_def [symmetric] Let_def)
  have none: "unused_bits bit_order (unat n) = {}" if "u = 0"
    using that by (simp add: unused_bits_def u_def [symmetric] Let_def split: BitOrder.split)
  show ?thesis
    using aligned none
    by (cases "u = 0")
      (auto simp: bit_string_def ok_iff Let_def u_def [symmetric] last pad split: if_splits)
qed

end
