(* ===== verification/Source_Adapter.thy ===== *)
theory Source_Adapter
  imports Prelude
begin

text \<open>
  The \<^verbatim>\<open>SourceAdapter\<close> boundary of \<^verbatim>\<open>crates/change_event/src/lib.rs\<close>: a source is asked
  repeatedly for its next transaction. The contract is a locale over the one operation
  \<^verbatim>\<open>next_transaction\<close>; readers and decoders of the development are its instances.
\<close>

text \<open>What a client has received after \<open>n\<close> calls, oldest first. Errors and temporary ends
  contribute nothing.\<close>

fun drain :: "('s \<Rightarrow> ('e + 'v option) \<times> 's) \<Rightarrow> nat \<Rightarrow> 's \<Rightarrow> 'v list \<times> 's" where
  "drain nxt 0 s = ([], s)"
| "drain nxt (Suc n) s =
     (case nxt s of (r, s') \<Rightarrow>
        (case drain nxt n s' of (vs, s'') \<Rightarrow>
           ((case r of Inr (Some v) \<Rightarrow> [v] | _ \<Rightarrow> []) @ vs, s'')))"

locale transaction_source =
  fixes nxt :: "'s \<Rightarrow> ('e + 'v option) \<times> 's"
    and inv :: "'s \<Rightarrow> bool"
    and good :: "'v \<Rightarrow> bool"
  assumes nxt_inv: "inv s \<Longrightarrow> nxt s = (r, s') \<Longrightarrow> inv s'"
    and nxt_good: "inv s \<Longrightarrow> nxt s = (Inr (Some v), s') \<Longrightarrow> good v"
begin

lemma drain_good: "inv s \<Longrightarrow> drain nxt n s = (vs, s') \<Longrightarrow> (\<forall>v \<in> set vs. good v) \<and> inv s'"
proof (induction n arbitrary: s vs)
  case (Suc n)
  obtain r t where r: "nxt s = (r, t)" by force
  obtain ws where ws: "drain nxt n t = (ws, s')"
    and vs: "vs = (case r of Inr (Some v) \<Rightarrow> [v] | _ \<Rightarrow> []) @ ws"
    using Suc.prems(2) by (auto simp: r split: prod.splits)
  from Suc.prems(1) r have "inv t" by (rule nxt_inv)
  then have tail: "(\<forall>v \<in> set ws. good v) \<and> inv s'" using ws by (rule Suc.IH)
  have "good v" if "r = Inr (Some v)" for v
    using nxt_good [OF Suc.prems(1)] r that by simp
  with tail vs show ?case by (auto split: sum.splits option.splits)
qed simp

end

text \<open>A source that stops for good at its first error.\<close>

locale fail_stop_source = transaction_source +
  fixes failed :: "'s \<Rightarrow> bool"
  assumes error_fails: "nxt s = (Inl e, s') \<Longrightarrow> failed s'"
    and failed_stays: "failed s \<Longrightarrow> \<exists>e. nxt s = (Inl e, s)"
begin

lemma drain_failed: "failed s \<Longrightarrow> drain nxt n s = ([], s)"
proof (induction n)
  case (Suc n)
  then obtain e where "nxt s = (Inl e, s)" using failed_stays by blast
  with Suc show ?case by simp
qed simp

lemma nothing_after_error: "nxt s = (Inl e, s') \<Longrightarrow> fst (drain nxt n s') = []"
  by (simp add: drain_failed [OF error_fails])

end

text \<open>A source whose transactions carry strictly increasing positions.\<close>

locale ordered_source = transaction_source +
  fixes position :: "'v \<Rightarrow> nat"
    and mark :: "'s \<Rightarrow> nat"
  assumes nxt_position: "inv s \<Longrightarrow> nxt s = (Inr (Some v), s') \<Longrightarrow> mark s < position v \<and> position v \<le> mark s'"
    and nxt_mark: "inv s \<Longrightarrow> nxt s = (r, s') \<Longrightarrow> mark s \<le> mark s'"
begin

lemma drain_positions:
  "inv s \<Longrightarrow> drain nxt n s = (vs, s') \<Longrightarrow>
     sorted_wrt (<) (map position vs) \<and> (\<forall>v \<in> set vs. mark s < position v)"
proof (induction n arbitrary: s vs)
  case (Suc n)
  obtain r t where r: "nxt s = (r, t)" by force
  obtain ws where ws: "drain nxt n t = (ws, s')"
    and vs: "vs = (case r of Inr (Some v) \<Rightarrow> [v] | _ \<Rightarrow> []) @ ws"
    using Suc.prems(2) by (auto simp: r split: prod.splits)
  from Suc.prems(1) r have t: "inv t" by (rule nxt_inv)
  from Suc.IH [OF t ws] have tail: "sorted_wrt (<) (map position ws)"
    "\<forall>v \<in> set ws. mark t < position v" by auto
  have le: "mark s \<le> mark t" using Suc.prems(1) r by (rule nxt_mark)
  have "mark s < position v \<and> position v \<le> mark t" if "r = Inr (Some v)" for v
    using nxt_position [OF Suc.prems(1)] r that by simp
  with tail le vs show ?case
    by (auto split: sum.splits option.splits dest: order.strict_trans1)
qed simp

end

end
