(* ===== verification/Json_Reader.thy ===== *)
theory Json_Reader
  imports Validate_Spec Source_Adapter
begin

text \<open>
  The JSON Lines encoding of a validated transaction (\<^verbatim>\<open>json.rs\<close>) and the bounded reader that
  reassembles transactions from it (\<^verbatim>\<open>reader.rs\<close>).

  \<open>to_vec\<close> stands for \<^verbatim>\<open>serde_json::to_writer\<close> of an event and \<open>from_slice\<close> for
  \<^verbatim>\<open>serde_json::from_slice\<close> of a line; \<open>None\<close> is their error. The buffered input is the
  sequence of what successive calls of \<^verbatim>\<open>fill_buf\<close> deliver: bytes, an empty buffer (a temporary
  end of file), or an input error.
\<close>

section \<open>Events\<close>

datatype Payload =
    TransactionBegin
  | RowChangeEvent RowChange
  | TransactionCommit nat

record TransactionHeader =
  th_id :: string
  th_sequence :: nat
  th_begin_cursor :: SourceCursor
  th_commit_cursor :: SourceCursor

record ChangeEvent =
  ev_format :: string
  ev_source :: Source
  ev_transaction :: TransactionHeader
  ev_payload :: Payload

abbreviation newline :: char where
  "newline \<equiv> CHR 0x0A"

definition emit_event :: "ChangeTransaction \<Rightarrow> nat \<Rightarrow> Payload \<Rightarrow> ChangeEvent" where
  "emit_event tx sequence payload =
     \<lparr>ev_format = FORMAT, ev_source = tx_source tx,
      ev_transaction = \<lparr>th_id = tx_id tx, th_sequence = sequence,
        th_begin_cursor = tx_begin_cursor tx, th_commit_cursor = tx_commit_cursor tx\<rparr>,
      ev_payload = payload\<rparr>"

definition json_events :: "ChangeTransaction \<Rightarrow> ChangeEvent list" where
  "json_events tx =
     emit_event tx 0 TransactionBegin
     # map (\<lambda>(index, change). emit_event tx (index + 1) (RowChangeEvent change))
         (enumerate 0 (tx_changes tx))
     @ [emit_event tx (length (tx_changes tx) + 1) (TransactionCommit (length (tx_changes tx)))]"

datatype JsonError = JE_Serialize | JE_Utf8

definition json ::
  "(ChangeEvent \<Rightarrow> bytes option) \<Rightarrow> ValidatedTransaction \<Rightarrow> JsonError + string" where
  "json to_vec validated =
     and_then (map_result (\<lambda>e. and_then (ok_or (to_vec e) JE_Serialize) (\<lambda>l. Ok (l @ [newline])))
                 (json_events (transaction validated))) (\<lambda>ls.
     if valid_utf8 (concat ls) then Ok (concat ls) else Err JE_Utf8)"

section \<open>The reader\<close>

datatype fill = Data bytes | Input_Error string

datatype ReaderError =
    RE_Stopped
  | RE_Io string
  | RE_TooLarge
  | RE_Json
  | RE_UnsupportedFormat string
  | RE_Interleaved
  | RE_NestedBegin
  | RE_RowWithoutBegin
  | RE_CommitWithoutBegin
  | RE_CountMismatch
  | RE_Validation ValidationError

record reader =
  rd_input :: "fill list"
  rd_line :: bytes
  rd_pending :: "ChangeTransaction option"
  rd_bytes :: nat
  rd_failed :: bool

definition MAX_BYTES :: nat where
  "MAX_BYTES = 64 * 1024 * 1024"

definition reader_new :: "fill list \<Rightarrow> reader" where
  "reader_new input =
     \<lparr>rd_input = input, rd_line = [], rd_pending = None, rd_bytes = 0, rd_failed = False\<rparr>"

definition format_supported :: "ChangeEvent \<Rightarrow> bool" where
  "format_supported e \<longleftrightarrow>
     (if ev_format e \<in> {FORMAT, PREVIOUS_FORMAT} then True
      else if ev_format e \<in> {LEGACY_FORMAT, HISTORICAL_FORMAT}
      then src_kind (ev_source e) = ''mysql''
      else False)"

definition header_mismatch :: "ChangeTransaction \<Rightarrow> ChangeEvent \<Rightarrow> bool" where
  "header_mismatch tx e \<longleftrightarrow>
     tx_source tx \<noteq> ev_source e
     \<or> tx_id tx \<noteq> th_id (ev_transaction e)
     \<or> tx_begin_cursor tx \<noteq> th_begin_cursor (ev_transaction e)
     \<or> tx_commit_cursor tx \<noteq> th_commit_cursor (ev_transaction e)
     \<or> th_sequence (ev_transaction e) \<noteq> length (tx_changes tx) + 1"

text \<open>What follows a complete line: \<open>Inr None\<close> continues the loop.\<close>

definition handle_event ::
  "codec \<Rightarrow> ChangeEvent \<Rightarrow> nat \<Rightarrow> reader \<Rightarrow> (ReaderError + ValidatedTransaction option) \<times> reader" where
  "handle_event C e line_length s =
     (if \<not> format_supported e then (Err (RE_UnsupportedFormat (ev_format e)), s)
      else if (case rd_pending s of None \<Rightarrow> False | Some tx \<Rightarrow> header_mismatch tx e)
      then (Err RE_Interleaved, s)
      else
        let s = s\<lparr>rd_bytes := rd_bytes s + line_length\<rparr>; h = ev_transaction e in
        case ev_payload e of
          TransactionBegin \<Rightarrow>
            if rd_pending s \<noteq> None \<or> th_sequence h \<noteq> 0 then (Err RE_NestedBegin, s)
            else (Ok None, s\<lparr>rd_pending := Some
              \<lparr>tx_source = ev_source e, tx_id = th_id h, tx_begin_cursor = th_begin_cursor h,
               tx_commit_cursor = th_commit_cursor h, tx_changes = []\<rparr>\<rparr>)
        | RowChangeEvent change \<Rightarrow>
            (case rd_pending s of
               None \<Rightarrow> (Err RE_RowWithoutBegin, s)
             | Some tx \<Rightarrow>
                 (Ok None, s\<lparr>rd_pending := Some (tx\<lparr>tx_changes := tx_changes tx @ [change]\<rparr>)\<rparr>))
        | TransactionCommit change_count \<Rightarrow>
            (case rd_pending s of
               None \<Rightarrow> (Err RE_CommitWithoutBegin, s)
             | Some tx \<Rightarrow>
                 let s = s\<lparr>rd_pending := None\<rparr> in
                 if length (tx_changes tx) \<noteq> change_count then (Err RE_CountMismatch, s)
                 else case validate C tx of
                   Inl err \<Rightarrow> (Err (RE_Validation err), s)
                 | Inr validated \<Rightarrow> (Ok (Some validated), s\<lparr>rd_bytes := 0\<rparr>)))"

definition handle_line ::
  "codec \<Rightarrow> (bytes \<Rightarrow> ChangeEvent option) \<Rightarrow> bytes \<Rightarrow> reader \<Rightarrow>
     (ReaderError + ValidatedTransaction option) \<times> reader" where
  "handle_line C from_slice line s =
     (case from_slice line of
        None \<Rightarrow> (Err RE_Json, s)
      | Some e \<Rightarrow> handle_event C e (length line) s)"

text \<open>The bytes taken from the buffer: up to and with the first newline, or all of it.\<close>

fun through_newline :: "bytes \<Rightarrow> bytes" where
  "through_newline [] = []"
| "through_newline (c # cs) = (if c = newline then [c] else c # through_newline cs)"

definition consume :: "nat \<Rightarrow> bytes \<Rightarrow> fill list \<Rightarrow> fill list" where
  "consume n available rest =
     (if drop n available = [] then rest else Data (drop n available) # rest)"

fun input_measure :: "fill list \<Rightarrow> nat" where
  "input_measure [] = 0"
| "input_measure (Data bs # fs) = Suc (length bs) + input_measure fs"
| "input_measure (Input_Error m # fs) = Suc (input_measure fs)"

lemma through_newline_nonempty: "bs \<noteq> [] \<Longrightarrow> through_newline bs \<noteq> []"
  by (cases bs) auto

lemma through_newline_length: "length (through_newline bs) \<le> length bs"
  by (induction bs) auto

lemma consume_measure:
  "0 < n \<Longrightarrow> n \<le> length bs \<Longrightarrow> input_measure (consume n bs rest) < input_measure (Data bs # rest)"
  by (auto simp: consume_def)

lemma handle_line_input:
  "handle_line C from_slice line s = (r, s') \<Longrightarrow> rd_input s' = rd_input s"
  unfolding handle_line_def handle_event_def Let_def
  by (auto split: option.splits if_splits Payload.splits sum.splits)

function read_transaction ::
  "codec \<Rightarrow> (bytes \<Rightarrow> ChangeEvent option) \<Rightarrow> reader \<Rightarrow>
     (ReaderError + ValidatedTransaction option) \<times> reader" where
  "read_transaction C from_slice s =
     (case rd_input s of
        [] \<Rightarrow> (Ok None, s)
      | Input_Error m # rest \<Rightarrow> (Err (RE_Io m), s\<lparr>rd_input := rest\<rparr>)
      | Data available # rest \<Rightarrow>
          if available = [] then (Ok None, s\<lparr>rd_input := rest\<rparr>)
          else
            let taken = through_newline available in
            if MAX_BYTES - (rd_bytes s + length (rd_line s)) < length taken
            then (Err RE_TooLarge, s)
            else
              let line = rd_line s @ taken;
                  s' = s\<lparr>rd_input := consume (length taken) available rest\<rparr> in
              if last taken \<noteq> newline
              then read_transaction C from_slice (s'\<lparr>rd_line := line\<rparr>)
              else
                case handle_line C from_slice line (s'\<lparr>rd_line := []\<rparr>) of
                  (Inr None, s'') \<Rightarrow> read_transaction C from_slice s''
                | r \<Rightarrow> r)"
  by pat_completeness auto
termination
  by (relation "measure (\<lambda>(C, f, s). input_measure (rd_input s))")
    (auto simp: consume_measure through_newline_nonempty through_newline_length
      dest!: handle_line_input [OF sym] simp del: input_measure.simps)

declare read_transaction.simps [simp del]

definition next_transaction ::
  "codec \<Rightarrow> (bytes \<Rightarrow> ChangeEvent option) \<Rightarrow> reader \<Rightarrow>
     (ReaderError + ValidatedTransaction option) \<times> reader" where
  "next_transaction C from_slice s =
     (if rd_failed s then (Err RE_Stopped, s)
      else case read_transaction C from_slice s of
        (Inl e, s') \<Rightarrow> (Err e, s'\<lparr>rd_failed := True\<rparr>)
      | r \<Rightarrow> r)"

text \<open>Finite input must end on a newline and a complete commit.\<close>

definition reader_finish :: "reader \<Rightarrow> string + unit" where
  "reader_finish s =
     (if rd_failed s \<or> rd_pending s \<noteq> None \<or> rd_line s \<noteq> []
      then Err ''incomplete or failed ChangeEvent transaction at end of input''
      else Ok ())"

section \<open>Frame and invariant\<close>

definition reader_inv :: "reader \<Rightarrow> bool" where
  "reader_inv s \<longleftrightarrow> rd_bytes s + length (rd_line s) \<le> MAX_BYTES \<and> newline \<notin> set (rd_line s)"

lemma through_newline_prefix: "newline \<notin> set l \<Longrightarrow> through_newline (l @ newline # r) = l @ [newline]"
  by (induction l) auto

lemma through_newline_all: "newline \<notin> set l \<Longrightarrow> through_newline l = l"
  by (induction l) auto

lemma through_newline_butlast: "newline \<notin> set (butlast (through_newline bs))"
  by (induction bs) auto

lemma handle_line_frame:
  assumes "handle_line C from_slice line s = (r, s')"
  shows "rd_input s' = rd_input s \<and> rd_line s' = rd_line s \<and> rd_failed s' = rd_failed s
    \<and> rd_bytes s' \<le> rd_bytes s + length line"
  using assms unfolding handle_line_def handle_event_def Let_def
  by (auto split: option.splits if_splits Payload.splits sum.splits)

lemma handle_line_transaction:
  assumes "handle_line C from_slice line s = (Inr (Some v), s')"
  shows "transaction_ok C (transaction v) \<and> rd_pending s' = None \<and> rd_bytes s' = 0
    \<and> rd_pending s = Some (transaction v)"
  using assms unfolding handle_line_def handle_event_def Let_def
  by (auto simp: ok_iff split: option.splits if_splits Payload.splits sum.splits)

text \<open>One iteration of the loop, by what the buffer holds.\<close>

definition line_fits :: "reader \<Rightarrow> bytes \<Rightarrow> bool" where
  "line_fits s available \<longleftrightarrow>
     length (through_newline available) \<le> MAX_BYTES - (rd_bytes s + length (rd_line s))"

abbreviation taken_from :: "reader \<Rightarrow> bytes \<Rightarrow> fill list \<Rightarrow> reader" where
  "taken_from s available rest \<equiv>
     s\<lparr>rd_input := consume (length (through_newline available)) available rest\<rparr>"

lemma read_partial:
  assumes "rd_input s = Data available # rest" and "available \<noteq> []" and "line_fits s available"
    and "last (through_newline available) \<noteq> newline"
  shows "read_transaction C from_slice s = read_transaction C from_slice
    ((taken_from s available rest)\<lparr>rd_line := rd_line s @ through_newline available\<rparr>)"
  using assms by (subst read_transaction.simps) (simp add: Let_def line_fits_def not_less)

lemma read_line:
  assumes "rd_input s = Data available # rest" and "available \<noteq> []" and "line_fits s available"
    and "last (through_newline available) = newline"
    and "handle_line C from_slice (rd_line s @ through_newline available)
           ((taken_from s available rest)\<lparr>rd_line := []\<rparr>) = (q, t)"
  shows "read_transaction C from_slice s = (if q = Inr None then read_transaction C from_slice t else (q, t))"
  using assms
  by (subst read_transaction.simps) (auto simp: Let_def line_fits_def not_less split: sum.split option.split)

lemma read_stop:
  assumes "\<not> (\<exists>available rest. rd_input s = Data available # rest \<and> available \<noteq> [] \<and> line_fits s available)"
  shows "read_transaction C from_slice s =
    (case rd_input s of
       [] \<Rightarrow> (Ok None, s)
     | Input_Error m # rest \<Rightarrow> (Err (RE_Io m), s\<lparr>rd_input := rest\<rparr>)
     | Data available # rest \<Rightarrow>
         if available = [] then (Ok None, s\<lparr>rd_input := rest\<rparr>) else (Err RE_TooLarge, s))"
  using assms
  by (subst read_transaction.simps)
    (auto simp: Let_def line_fits_def not_le split: list.split fill.split)

lemma taken_from_measure:
  "rd_input s = Data available # rest \<Longrightarrow> available \<noteq> [] \<Longrightarrow>
     input_measure (consume (length (through_newline available)) available rest) < input_measure (rd_input s)"
  using consume_measure [of "length (through_newline available)" available rest]
  by (simp add: through_newline_nonempty through_newline_length del: input_measure.simps)

lemma reader_induct [case_names stop partial line]:
  assumes stop: "\<And>s. \<not> (\<exists>available rest. rd_input s = Data available # rest \<and> available \<noteq> []
        \<and> line_fits s available) \<Longrightarrow> P s"
    and partial: "\<And>s available rest. rd_input s = Data available # rest \<Longrightarrow> available \<noteq> [] \<Longrightarrow>
        line_fits s available \<Longrightarrow> last (through_newline available) \<noteq> newline \<Longrightarrow>
        P ((taken_from s available rest)\<lparr>rd_line := rd_line s @ through_newline available\<rparr>) \<Longrightarrow> P s"
    and line: "\<And>s available rest q t. rd_input s = Data available # rest \<Longrightarrow> available \<noteq> [] \<Longrightarrow>
        line_fits s available \<Longrightarrow> last (through_newline available) = newline \<Longrightarrow>
        handle_line C from_slice (rd_line s @ through_newline available)
          ((taken_from s available rest)\<lparr>rd_line := []\<rparr>) = (q, t) \<Longrightarrow> P t \<Longrightarrow> P s"
  shows "P s"
proof (induction "input_measure (rd_input s)" arbitrary: s rule: less_induct)
  case less
  show ?case
  proof (cases "\<exists>available rest. rd_input s = Data available # rest \<and> available \<noteq> [] \<and> line_fits s available")
    case True
    then obtain available rest where inp: "rd_input s = Data available # rest"
      and ne: "available \<noteq> []" and fits: "line_fits s available" by blast
    note smaller = taken_from_measure [OF inp ne]
    show ?thesis
    proof (cases "last (through_newline available) = newline")
      case True
      obtain q t where q: "handle_line C from_slice (rd_line s @ through_newline available)
          ((taken_from s available rest)\<lparr>rd_line := []\<rparr>) = (q, t)" by force
      have "P t" using handle_line_frame [OF q] smaller by (intro less) simp
      with inp ne fits True q show ?thesis by (rule line)
    next
      case False
      have "P ((taken_from s available rest)\<lparr>rd_line := rd_line s @ through_newline available\<rparr>)"
        using smaller by (intro less) simp
      with inp ne fits False show ?thesis by (rule partial)
    qed
  qed (rule stop)
qed

lemma room_left:
  "reader_inv s \<Longrightarrow> line_fits s available \<Longrightarrow>
     rd_bytes s + length (rd_line s @ through_newline available) \<le> MAX_BYTES"
  unfolding reader_inv_def line_fits_def length_append by arith

lemma no_newline_taken:
  assumes "available \<noteq> []" and "last (through_newline available) \<noteq> newline"
  shows "newline \<notin> set (through_newline available)"
proof -
  have "through_newline available = butlast (through_newline available) @ [last (through_newline available)]"
    using through_newline_nonempty [OF assms(1)] by simp
  then have "set (through_newline available) =
      set (butlast (through_newline available)) \<union> {last (through_newline available)}"
    by (metis Un_insert_right insert_is_Un list.simps(15) set_append list.set(1) sup_bot.right_neutral)
  with through_newline_butlast assms(2) show ?thesis by auto
qed

definition complete_result :: "codec \<Rightarrow> (ReaderError + ValidatedTransaction option) \<Rightarrow> reader \<Rightarrow> bool" where
  "complete_result C r s' \<longleftrightarrow>
     (\<forall>v. r = Inr (Some v) \<longrightarrow> transaction_ok C (transaction v) \<and> rd_pending s' = None
        \<and> rd_bytes s' = 0 \<and> rd_line s' = [])"

lemma read_transaction_invariant:
  assumes "read_transaction C from_slice s = (r, s')" and "reader_inv s"
  shows "reader_inv s' \<and> rd_failed s' = rd_failed s \<and> complete_result C r s'"
  using assms
proof (induction s rule: reader_induct [where C = C and from_slice = from_slice])
  case (stop s)
  then show ?case
    by (subst (asm) read_stop)
      (auto simp: reader_inv_def complete_result_def split: list.splits fill.splits if_splits)
next
  case (partial s available rest)
  let ?s = "(taken_from s available rest)\<lparr>rd_line := rd_line s @ through_newline available\<rparr>"
  have "reader_inv ?s"
    using room_left [OF partial.prems(2) partial.hyps(3)] no_newline_taken [OF partial.hyps(2,4)]
      partial.prems(2) by (simp add: reader_inv_def)
  moreover have "read_transaction C from_slice ?s = (r, s')"
    using partial.prems(1) read_partial [OF partial.hyps(1-4)] by simp
  ultimately show ?case using partial.IH by simp
next
  case (line s available rest q t)
  note frame = handle_line_frame [OF line.hyps(5)]
  have t: "reader_inv t"
    using frame room_left [OF line.prems(2) line.hyps(3)] by (simp add: reader_inv_def)
  have res: "(if q = Inr None then read_transaction C from_slice t else (q, t)) = (r, s')"
    using line.prems(1) read_line [OF line.hyps(1-5)] by simp
  show ?case
  proof (cases "q = Inr None")
    case True
    with res t line.IH frame show ?thesis by simp
  next
    case False
    with res have "q = r" and "t = s'" by auto
    with t frame handle_line_transaction [of C from_slice] line.hyps(5) show ?thesis
      by (fastforce simp: complete_result_def)
  qed
qed

section \<open>The reader as a source\<close>

lemma next_transaction_invariant:
  assumes "next_transaction C from_slice s = (r, s')" and "reader_inv s"
  shows "reader_inv s' \<and> complete_result C r s'"
proof (cases "rd_failed s")
  case True
  with assms show ?thesis by (auto simp: next_transaction_def complete_result_def)
next
  case False
  obtain q t where q: "read_transaction C from_slice s = (q, t)" by force
  note t = read_transaction_invariant [OF q assms(2)]
  from assms(1) False q have "(r = q \<and> s' = t) \<or> ((\<exists>e. r = Inl e) \<and> s' = t\<lparr>rd_failed := True\<rparr>)"
    by (auto simp: next_transaction_def split: sum.splits)
  with t show ?thesis by (auto simp: complete_result_def reader_inv_def)
qed

interpretation json_source: fail_stop_source "next_transaction C from_slice" reader_inv
  "\<lambda>v. transaction_ok C (transaction v)" rd_failed for C from_slice
proof
  fix s s' :: reader and r
  assume "reader_inv s" and "next_transaction C from_slice s = (r, s')"
  then show "reader_inv s'" using next_transaction_invariant by blast
next
  fix s s' :: reader and v
  assume "reader_inv s" and "next_transaction C from_slice s = (Inr (Some v), s')"
  then have "complete_result C (Inr (Some v)) s'" using next_transaction_invariant by blast
  then show "transaction_ok C (transaction v)" by (simp add: complete_result_def)
next
  fix s s' :: reader and e
  assume "next_transaction C from_slice s = (Inl e, s')"
  then show "rd_failed s'"
    by (auto simp: next_transaction_def split: if_splits prod.splits sum.splits)
next
  fix s :: reader
  assume "rd_failed s"
  then show "\<exists>e. next_transaction C from_slice s = (Inl e, s)" by (simp add: next_transaction_def)
qed

lemma reader_new_inv: "reader_inv (reader_new input)"
  by (simp add: reader_inv_def reader_new_def)

section \<open>Lines, however they are buffered\<close>

definition all_data :: "fill list \<Rightarrow> bool" where
  "all_data fs \<longleftrightarrow> (\<forall>f \<in> set fs. \<exists>bs. f = Data bs \<and> bs \<noteq> [])"

fun content :: "fill list \<Rightarrow> bytes" where
  "content [] = []"
| "content (Data bs # fs) = bs @ content fs"
| "content (Input_Error m # fs) = content fs"

lemma handle_line_with_input:
  "handle_line C from_slice l (s\<lparr>rd_input := x\<rparr>) =
     (case handle_line C from_slice l s of (q, t) \<Rightarrow> (q, t\<lparr>rd_input := x\<rparr>))"
  unfolding handle_line_def handle_event_def Let_def
  by (simp split: option.splits Payload.splits sum.splits)

lemma all_data_consume:
  "all_data (Data a # fs) \<Longrightarrow> all_data (consume n a fs) \<and> content (consume n a fs) = drop n a @ content fs"
  by (auto simp: consume_def all_data_def)

lemma split_at_newline:
  assumes "a @ b = l @ newline # r" and "newline \<notin> set l"
  obtains (inside) a' where "a = l @ newline # a'" and "r = a' @ b"
    | (outside) l' where "l = a @ l'" and "b = l' @ newline # r" and "newline \<notin> set a"
proof -
  from assms(1) consider us where "a = l @ us" "us @ b = newline # r"
    | us where "a @ us = l" "b = us @ newline # r"
    by (auto simp: append_eq_append_conv2)
  then show ?thesis
  proof cases
    case (1 us)
    then show ?thesis using outside [of "[]"] inside assms(2) by (cases us) auto
  next
    case (2 us)
    then show ?thesis using outside assms(2) by auto
  qed
qed

lemma read_whole_line:
  assumes "all_data (rd_input s)" and "content (rd_input s) = l @ newline # r" and "newline \<notin> set l"
    and "rd_bytes s + length (rd_line s) + length l + 1 \<le> MAX_BYTES"
  shows "\<exists>fs. all_data fs \<and> content fs = r \<and>
    (\<forall>q t. handle_line C from_slice (rd_line s @ l @ [newline]) (s\<lparr>rd_input := fs, rd_line := []\<rparr>) = (q, t) \<longrightarrow>
      read_transaction C from_slice s = (if q = Inr None then read_transaction C from_slice t else (q, t)))"
  using assms
proof (induction "rd_input s" arbitrary: s l)
  case Nil
  then show ?case by simp
next
  case (Cons f fs)
  from Cons.prems(1) Cons.hyps(2) obtain a where f: "f = Data a" and ne: "a \<noteq> []" and fs: "all_data fs"
    by (metis all_data_def list.set_intros(1,2))
  have inp: "rd_input s = Data a # fs" using Cons.hyps(2) f by simp
  have "a @ content fs = l @ newline # r" using Cons.prems(2) inp by simp
  then show ?case using Cons.prems(3)
  proof (cases rule: split_at_newline)
    case (inside a')
    have taken: "through_newline a = l @ [newline]"
      using inside(1) Cons.prems(3) by (simp add: through_newline_prefix)
    have fits: "line_fits s a" using Cons.prems(4) by (simp add: line_fits_def taken)
    have rest: "all_data (consume (length (through_newline a)) a fs)"
      "content (consume (length (through_newline a)) a fs) = r"
      using all_data_consume [of a fs "length (l @ [newline])"] Cons.prems(1) inp inside
      unfolding taken by simp_all
    show ?thesis
      using read_line [OF inp ne fits] rest by (intro exI [of _ "consume (length (through_newline a)) a fs"])
        (simp add: taken)
  next
    case (outside l')
    have taken: "through_newline a = a" using outside(3) by (rule through_newline_all)
    have fits: "line_fits s a" using Cons.prems(4) outside(1) by (simp add: line_fits_def taken)
    have last: "last (through_newline a) \<noteq> newline" using outside(3) ne taken by (metis last_in_set)
    let ?s = "(taken_from s a fs)\<lparr>rd_line := rd_line s @ through_newline a\<rparr>"
    have inp': "rd_input ?s = fs" by (simp add: taken consume_def)
    have "\<exists>fs'. all_data fs' \<and> content fs' = r \<and>
      (\<forall>q t. handle_line C from_slice (rd_line ?s @ l' @ [newline]) (?s\<lparr>rd_input := fs', rd_line := []\<rparr>) = (q, t) \<longrightarrow>
        read_transaction C from_slice ?s = (if q = Inr None then read_transaction C from_slice t else (q, t)))"
      using Cons.prems(3,4) outside(1,2) fs
      by (intro Cons.hyps(1)) (simp_all add: inp' taken consume_def)
    then show ?thesis
      using read_partial [OF inp ne fits last, of C from_slice] by (simp add: taken outside(1))
  qed
qed

text \<open>Feeding whole lines, without any buffering.\<close>

fun feed ::
  "codec \<Rightarrow> (bytes \<Rightarrow> ChangeEvent option) \<Rightarrow> bytes list \<Rightarrow> reader \<Rightarrow>
     (ReaderError + ValidatedTransaction option) \<times> reader" where
  "feed C from_slice [] s = (Ok None, s)"
| "feed C from_slice (l # ls) s =
     (case handle_line C from_slice l s of
        (Inr None, s') \<Rightarrow> feed C from_slice ls s'
      | r \<Rightarrow> r)"

lemma feed_with_input:
  "feed C from_slice ls s = (Ok None, u) \<Longrightarrow>
     feed C from_slice ls (s\<lparr>rd_input := x\<rparr>) = (Ok None, u\<lparr>rd_input := x\<rparr>)"
  by (induction ls arbitrary: s)
    (auto simp: handle_line_with_input split: prod.splits sum.splits option.splits)

definition is_line :: "bytes \<Rightarrow> bool" where
  "is_line l \<longleftrightarrow> (\<exists>l'. l = l' @ [newline] \<and> newline \<notin> set l')"

lemma feed_append:
  "feed C from_slice ls s = (Ok None, t) \<Longrightarrow>
     feed C from_slice (ls @ ms) s = feed C from_slice ms t"
  by (induction ls arbitrary: s) (auto split: prod.splits sum.splits option.splits)

lemma read_feed:
  assumes "all_data (rd_input s)" and "content (rd_input s) = concat ls @ m"
    and "\<forall>l \<in> set (ls @ [m]). is_line l" and "rd_line s = []"
    and "rd_bytes s + length (concat ls @ m) \<le> MAX_BYTES"
    and "feed C from_slice ls s = (Ok None, u)" and "handle_line C from_slice m u = (Ok (Some v), t)"
  shows "read_transaction C from_slice s = (Ok (Some v), t\<lparr>rd_input := []\<rparr>)"
  using assms
proof (induction ls arbitrary: s u t)
  case Nil
  from Nil.prems(3) obtain l' where l': "m = l' @ [newline]" and nl: "newline \<notin> set l'"
    by (auto simp: is_line_def)
  have line: "\<exists>fs. all_data fs \<and> content fs = [] \<and>
    (\<forall>q t. handle_line C from_slice (rd_line s @ l' @ [newline]) (s\<lparr>rd_input := fs, rd_line := []\<rparr>) = (q, t) \<longrightarrow>
      read_transaction C from_slice s = (if q = Inr None then read_transaction C from_slice t else (q, t)))"
    using Nil.prems(1,2,4,5) l' nl by (intro read_whole_line) simp_all
  have "s\<lparr>rd_input := fs, rd_line := []\<rparr> = s\<lparr>rd_input := fs\<rparr>" for fs
    using Nil.prems(4) by (cases s) simp
  moreover have "fs = []" if "all_data fs" "content fs = []" for fs
    using that by (cases fs rule: content.cases) (auto simp: all_data_def)
  moreover have "handle_line C from_slice m (s\<lparr>rd_input := fs\<rparr>) = (Ok (Some v), t\<lparr>rd_input := fs\<rparr>)" for fs
    using Nil.prems(6,7) by (simp add: handle_line_with_input)
  moreover obtain fs where "all_data fs" "content fs = []"
    and "\<And>q t. handle_line C from_slice m (s\<lparr>rd_input := fs, rd_line := []\<rparr>) = (q, t) \<Longrightarrow>
      read_transaction C from_slice s = (if q = Inr None then read_transaction C from_slice t else (q, t))"
    using line Nil.prems(4) l' by auto
  ultimately show ?case by simp
next
  case (Cons l ls)
  from Cons.prems(3) obtain l' where l': "l = l' @ [newline]" and nl: "newline \<notin> set l'"
    by (auto simp: is_line_def)
  from Cons.prems(6) obtain w where w: "handle_line C from_slice l s = (Ok None, w)"
    and feed: "feed C from_slice ls w = (Ok None, u)"
    by (auto split: prod.splits sum.splits option.splits)
  have "\<exists>fs. all_data fs \<and> content fs = concat ls @ m \<and>
    (\<forall>q t. handle_line C from_slice (rd_line s @ l' @ [newline]) (s\<lparr>rd_input := fs, rd_line := []\<rparr>) = (q, t) \<longrightarrow>
      read_transaction C from_slice s = (if q = Inr None then read_transaction C from_slice t else (q, t)))"
    using Cons.prems(1,2,4,5) l' nl by (intro read_whole_line) simp_all
  moreover have "s\<lparr>rd_input := fs, rd_line := []\<rparr> = s\<lparr>rd_input := fs\<rparr>" for fs
    using Cons.prems(4) by (cases s) simp
  ultimately obtain fs where fs: "all_data fs" "content fs = concat ls @ m"
    and step: "\<And>q t. handle_line C from_slice l (s\<lparr>rd_input := fs\<rparr>) = (q, t) \<Longrightarrow>
      read_transaction C from_slice s = (if q = Inr None then read_transaction C from_slice t else (q, t))"
    using Cons.prems(4) l' by auto
  have "handle_line C from_slice l (s\<lparr>rd_input := fs\<rparr>) = (Ok None, w\<lparr>rd_input := fs\<rparr>)"
    by (simp add: handle_line_with_input w)
  from step [OF this] have "read_transaction C from_slice s = read_transaction C from_slice (w\<lparr>rd_input := fs\<rparr>)"
    by simp
  also have "\<dots> = (Ok (Some v), t\<lparr>rd_input := []\<rparr>)"
  proof -
    note frame = handle_line_frame [OF w]
    have "feed C from_slice ls (w\<lparr>rd_input := fs\<rparr>) = (Ok None, u\<lparr>rd_input := fs\<rparr>)"
      using feed by (rule feed_with_input)
    moreover have "handle_line C from_slice m (u\<lparr>rd_input := fs\<rparr>) = (Ok (Some v), t\<lparr>rd_input := fs\<rparr>)"
      using Cons.prems(7) by (simp add: handle_line_with_input)
    ultimately have "read_transaction C from_slice (w\<lparr>rd_input := fs\<rparr>) = (Ok (Some v), t\<lparr>rd_input := fs, rd_input := []\<rparr>)"
      using fs Cons.prems(3-5) frame by (intro Cons.IH [where u = "u\<lparr>rd_input := fs\<rparr>"]) auto
    then show ?thesis by simp
  qed
  finally show ?case .
qed

section \<open>Reading back what was written\<close>

text \<open>The documented behaviour of \<^verbatim>\<open>serde_json\<close> on the events of one transaction: the compact
  form of an event has no newline in it, and parsing the line gives the event back.\<close>

definition json_codec ::
  "(ChangeEvent \<Rightarrow> bytes option) \<Rightarrow> (bytes \<Rightarrow> ChangeEvent option) \<Rightarrow> ChangeEvent list \<Rightarrow> bool" where
  "json_codec to_vec from_slice es \<longleftrightarrow>
     (\<forall>e \<in> set es. \<exists>l. to_vec e = Some l \<and> newline \<notin> set l \<and> from_slice (l @ [newline]) = Some e)"

lemma format_supported_emit: "format_supported (emit_event tx n p)"
  by (simp add: format_supported_def emit_event_def)

text \<open>The lines of the row events append their changes to the pending transaction.\<close>

lemma feed_rows:
  assumes "rd_pending s = Some (tx\<lparr>tx_changes := pre\<rparr>)"
    and "list_all2 (\<lambda>e l. from_slice l = Some e)
      (map (\<lambda>(i, c). emit_event tx (i + 1) (RowChangeEvent c)) (enumerate (length pre) cs)) ls"
  shows "\<exists>n. feed C from_slice ls s =
    (Ok None, s\<lparr>rd_pending := Some (tx\<lparr>tx_changes := pre @ cs\<rparr>), rd_bytes := n\<rparr>)"
  using assms
proof (induction cs arbitrary: pre ls s)
  case Nil
  then show ?case by (intro exI [of _ "rd_bytes s"]) simp
next
  case (Cons c cs)
  from Cons.prems(2) obtain l ms where ls: "ls = l # ms"
    and l: "from_slice l = Some (emit_event tx (length pre + 1) (RowChangeEvent c))"
    and ms: "list_all2 (\<lambda>e l. from_slice l = Some e)
      (map (\<lambda>(i, c). emit_event tx (i + 1) (RowChangeEvent c)) (enumerate (length (pre @ [c])) cs)) ms"
    by (auto simp: list_all2_Cons1)
  let ?t = "s\<lparr>rd_pending := Some (tx\<lparr>tx_changes := pre @ [c]\<rparr>), rd_bytes := rd_bytes s + length l\<rparr>"
  have step: "handle_line C from_slice l s = (Ok None, ?t)"
    using Cons.prems(1) l
    by (simp add: handle_line_def handle_event_def format_supported_emit)
      (simp add: emit_event_def header_mismatch_def Let_def)
  have "\<exists>n. feed C from_slice ms ?t =
      (Ok None, ?t\<lparr>rd_pending := Some (tx\<lparr>tx_changes := (pre @ [c]) @ cs\<rparr>), rd_bytes := n\<rparr>)"
    using ms by (intro Cons.IH) simp_all
  then show ?case by (simp add: ls step)
qed

lemma json_lines:
  assumes "json to_vec vt = Inr out" and "json_codec to_vec from_slice (json_events (transaction vt))"
  shows "\<exists>ls. out = concat ls \<and> (\<forall>l \<in> set ls. is_line l)
    \<and> list_all2 (\<lambda>e l. from_slice l = Some e) (json_events (transaction vt)) ls"
proof -
  let ?line = "\<lambda>e. and_then (ok_or (to_vec e) JE_Serialize) (\<lambda>l. Ok (l @ [newline]))"
  from assms(1) obtain ls where ls: "map_result ?line (json_events (transaction vt)) = Inr ls"
    and out: "out = concat ls"
    by (auto simp: json_def ok_iff split: if_splits)
  have "(\<forall>l \<in> set ls. is_line l) \<and> list_all2 (\<lambda>e l. from_slice l = Some e) es ls"
    if "map_result ?line es = Inr ls" "json_codec to_vec from_slice es" for es
    using that
    by (induction es arbitrary: ls) (fastforce simp: json_codec_def is_line_def ok_iff)+
  from this [OF ls assms(2)] out show ?thesis by blast
qed

lemma list_all2_snoc1:
  "list_all2 P (xs @ [x]) ys \<Longrightarrow> \<exists>zs y. ys = zs @ [y] \<and> list_all2 P xs zs \<and> P x y"
  by (auto simp: list_all2_append1 list_all2_Cons1)

text \<open>However the input is cut into buffers, the reader gives back the transaction that was written
  and is left with nothing.\<close>

lemma read_json:
  assumes "validate C (transaction vt) = Inr vt"
    and "json to_vec vt = Inr out"
    and "json_codec to_vec from_slice (json_events (transaction vt))"
    and "length out \<le> MAX_BYTES"
    and "all_data chunks" and "content chunks = out"
  shows "\<exists>s'. next_transaction C from_slice (reader_new chunks) = (Ok (Some vt), s')
    \<and> rd_input s' = [] \<and> reader_finish s' = Ok ()"
proof -
  let ?tx = "transaction vt"
  from json_lines [OF assms(2,3)] obtain ls where out: "out = concat ls"
    and lines: "\<forall>l \<in> set ls. is_line l"
    and parsed: "list_all2 (\<lambda>e l. from_slice l = Some e) (json_events ?tx) ls" by blast
  from parsed obtain b rs c where ls: "ls = b # rs @ [c]"
    and b: "from_slice b = Some (emit_event ?tx 0 TransactionBegin)"
    and rs: "list_all2 (\<lambda>e l. from_slice l = Some e)
      (map (\<lambda>(i, c). emit_event ?tx (i + 1) (RowChangeEvent c)) (enumerate 0 (tx_changes ?tx))) rs"
    and c: "from_slice c = Some (emit_event ?tx (length (tx_changes ?tx) + 1) (TransactionCommit (length (tx_changes ?tx))))"
    unfolding json_events_def by (auto simp: list_all2_Cons1 dest!: list_all2_snoc1)
  let ?s = "reader_new chunks"
  let ?t = "?s\<lparr>rd_pending := Some (?tx\<lparr>tx_changes := []\<rparr>), rd_bytes := length b\<rparr>"
  have start: "handle_line C from_slice b ?s = (Ok None, ?t)"
    using b by (simp add: handle_line_def handle_event_def format_supported_emit)
      (simp add: emit_event_def reader_new_def Let_def)
  from feed_rows [where s = ?t and tx = ?tx and pre = "[]" and from_slice = from_slice and ls = rs and C = C and cs = "tx_changes ?tx"] rs
  obtain n where rows: "feed C from_slice rs ?t = (Ok None, ?t\<lparr>rd_pending := Some ?tx, rd_bytes := n\<rparr>)"
    by auto
  let ?u = "?t\<lparr>rd_pending := Some ?tx, rd_bytes := n\<rparr>"
  have feed: "feed C from_slice (b # rs) ?s = (Ok None, ?u)" using start rows by simp
  have commit: "handle_line C from_slice c ?u = (Ok (Some vt), ?u\<lparr>rd_pending := None, rd_bytes := 0\<rparr>)"
    using c assms(1) by (simp add: handle_line_def handle_event_def format_supported_emit)
      (simp add: emit_event_def header_mismatch_def Let_def)
  have "read_transaction C from_slice ?s
      = (Ok (Some vt), ?u\<lparr>rd_pending := None, rd_bytes := 0\<rparr>\<lparr>rd_input := []\<rparr>)"
    using assms(4-6) lines out ls
    by (intro read_feed [OF _ _ _ _ _ feed commit]) (auto simp: reader_new_def)
  then show ?thesis
    by (simp add: next_transaction_def reader_finish_def) (simp add: reader_new_def)
qed

end
