(* ===== verification/Canonical.thy ===== *)
theory Canonical
  imports Validate_Spec "HOL-Library.Multiset"
begin

text \<open>
  Canonical forms and content digests (the second half of \<^verbatim>\<open>model.rs\<close>): SET members, JSON
  object entries and map entries are put in a fixed order before a value is digested, so that a
  digest does not depend on the order in which a source lists them.

  \<open>to_vec\<close> and \<open>tx_vec\<close> stand for \<^verbatim>\<open>serde_json::to_vec\<close> at logical values and at transactions.
\<close>

section \<open>JSON documents\<close>

fun canonicalize_json_value :: "JsonValue \<Rightarrow> JsonValue" and canonicalize_json_entry :: "JsonEntry \<Rightarrow> JsonEntry" where
  "canonicalize_json_value (JV_Array items) = JV_Array (map canonicalize_json_value items)"
| "canonicalize_json_value (JV_Object entries) =
     JV_Object (sort_key je_key (map canonicalize_json_entry entries))"
| "canonicalize_json_value v = v"
| "canonicalize_json_entry (JsonEntry k v) = JsonEntry k (canonicalize_json_value v)"

lemma je_key_canonical [simp]: "je_key (canonicalize_json_entry e) = je_key e"
  by (cases e) simp

text \<open>Stable sorting by a key that the mapping keeps commutes with the mapping.\<close>

lemma insort_key_map:
  "(\<And>x. k (f x) = k' x) \<Longrightarrow> insort_key k (f x) (map f xs) = map f (insort_key k' x xs)"
  by (induction xs) auto

lemma sort_key_map: "(\<And>x. k (f x) = k' x) \<Longrightarrow> sort_key k (map f xs) = map f (sort_key k' xs)"
  by (induction xs) (auto simp: sort_key_def insort_key_map)

lemma sort_key_perm:
  "mset xs = mset ys \<Longrightarrow> inj_on k (set xs) \<Longrightarrow> sort_key k xs = sort_key k ys"
  by (rule sort_key_inj_key_eq) auto

lemma sort_key_idem: "sort_key k (sort_key k xs) = sort_key k xs"
  by (rule properties_for_sort_key) simp_all

lemma canonicalize_json_idem:
  "canonicalize_json_value (canonicalize_json_value v) = canonicalize_json_value v"
  "canonicalize_json_entry (canonicalize_json_entry e) = canonicalize_json_entry e"
proof (induction v and e)
  case (JV_Object es)
  then have "map canonicalize_json_entry (sort_key je_key (map canonicalize_json_entry es))
      = sort_key je_key (map canonicalize_json_entry es)" by (intro map_idI) auto
  then show ?case by (simp add: sort_key_idem)
qed simp_all

section \<open>Logical values\<close>

function canonicalize_logical_value :: "codec \<Rightarrow> (LogicalValue \<Rightarrow> bytes) \<Rightarrow> LogicalValue \<Rightarrow> LogicalValue" where
  "canonicalize_logical_value C to_vec v =
     (case v of
        LV_Set members \<Rightarrow> LV_Set (sort members)
      | LV_Array elements \<Rightarrow> LV_Array (map (canonicalize_logical_value C to_vec) elements)
      | LV_ArrayWithMetadata elements dimensions lower_bounds dimension_lengths \<Rightarrow>
          LV_ArrayWithMetadata (map (canonicalize_logical_value C to_vec) elements)
            dimensions lower_bounds dimension_lengths
      | LV_Struct flds \<Rightarrow>
          LV_Struct (map (\<lambda>f. StructuredField (sf_name f) (canonicalize_logical_value C to_vec (sf_value f))) flds)
      | LV_Map entries \<Rightarrow>
          LV_Map (sort_key (\<lambda>e. stable_digest C to_vec (me_key e))
            (map (\<lambda>e. MapEntry (canonicalize_logical_value C to_vec (me_key e))
                               (canonicalize_logical_value C to_vec (me_value e))) entries))
      | LV_Range is_empty lower upper lower_inclusive upper_inclusive \<Rightarrow>
          LV_Range is_empty
            (case lower of None \<Rightarrow> None | Some x \<Rightarrow> Some (canonicalize_logical_value C to_vec x))
            (case upper of None \<Rightarrow> None | Some x \<Rightarrow> Some (canonicalize_logical_value C to_vec x))
            lower_inclusive upper_inclusive
      | LV_MultiRange ranges \<Rightarrow> LV_MultiRange (map (canonicalize_logical_value C to_vec) ranges)
      | LV_Domain x \<Rightarrow> LV_Domain (canonicalize_logical_value C to_vec x)
      | LV_Json j \<Rightarrow> LV_Json (canonicalize_json_value j)
      | _ \<Rightarrow> v)"
  by pat_completeness auto
termination
  by (relation "measure (\<lambda>(C, f, v). size v)") (auto simp: value_sizes)

declare canonicalize_logical_value.simps [simp del]

definition lv_stable_digest :: "codec \<Rightarrow> (LogicalValue \<Rightarrow> bytes) \<Rightarrow> LogicalValue \<Rightarrow> string" where
  "lv_stable_digest C to_vec v = stable_digest C to_vec (canonicalize_logical_value C to_vec v)"

section \<open>Transactions\<close>

definition canonicalize_image ::
  "codec \<Rightarrow> (LogicalValue \<Rightarrow> bytes) \<Rightarrow> ColumnDatum list \<Rightarrow> ColumnDatum list" where
  "canonicalize_image C to_vec = map (\<lambda>column.
     case col_datum column of
       D_Value v \<Rightarrow> column\<lparr>col_datum := D_Value (canonicalize_logical_value C to_vec v)\<rparr>
     | _ \<Rightarrow> column)"

definition canonicalize_transaction ::
  "codec \<Rightarrow> (LogicalValue \<Rightarrow> bytes) \<Rightarrow> ChangeTransaction \<Rightarrow> ChangeTransaction" where
  "canonicalize_transaction C to_vec tx =
     tx\<lparr>tx_changes := map (\<lambda>change.
       change\<lparr>rw_before := map_option (canonicalize_image C to_vec) (rw_before change),
              rw_after := map_option (canonicalize_image C to_vec) (rw_after change)\<rparr>) (tx_changes tx)\<rparr>"

definition content_digest ::
  "codec \<Rightarrow> (LogicalValue \<Rightarrow> bytes) \<Rightarrow> (ChangeTransaction \<Rightarrow> bytes) \<Rightarrow> ChangeTransaction \<Rightarrow> string" where
  "content_digest C to_vec tx_vec tx = stable_digest C tx_vec (canonicalize_transaction C to_vec tx)"

section \<open>Canonical forms are canonical\<close>

lemma canonicalize_idem:
  "canonicalize_logical_value C to_vec (canonicalize_logical_value C to_vec v)
     = canonicalize_logical_value C to_vec v"
proof (induction v rule: measure_induct_rule [of size])
  case (less v)
  let ?c = "canonicalize_logical_value C to_vec"
  have IH: "?c (?c x) = ?c x" if "x \<in> set (lv_children v)" for x
    using that by (intro less size_lv_children)
  show ?case
  proof (cases v)
    case (LV_Map es)
    let ?k = "\<lambda>e. stable_digest C to_vec (me_key e)"
    let ?f = "\<lambda>e. MapEntry (?c (me_key e)) (?c (me_value e))"
    have "?c (?c (me_key e)) = ?c (me_key e) \<and> ?c (?c (me_value e)) = ?c (me_value e)" if "e \<in> set es" for e
      using IH [of "me_key e"] IH [of "me_value e"] that LV_Map by auto
    then have "map ?f (sort_key ?k (map ?f es)) = sort_key ?k (map ?f es)"
      by (intro map_idI) auto
    then show ?thesis
      using LV_Map by (simp add: canonicalize_logical_value.simps [of _ _ "LV_Map _"] sort_key_idem)
  next
    case (LV_Range e l u li ui)
    with IH show ?thesis
      by (simp add: canonicalize_logical_value.simps [of _ _ "LV_Range _ _ _ _ _"] split: option.splits)
  next
    case (LV_Struct fs)
    with IH show ?thesis by (simp add: canonicalize_logical_value.simps [of _ _ "LV_Struct _"])
  qed (use IH in \<open>simp_all add: canonicalize_logical_value.simps canonicalize_json_idem sort_key_idem\<close>)
qed

text \<open>The source sorts map entries by the digest that canonicalizes the key once more; on a key
  that is canonical already this is the same.\<close>

lemma canonicalize_map:
  "canonicalize_logical_value C to_vec (LV_Map entries) =
     LV_Map (sort_key (\<lambda>e. lv_stable_digest C to_vec (me_key e))
       (map (\<lambda>e. MapEntry (canonicalize_logical_value C to_vec (me_key e))
                          (canonicalize_logical_value C to_vec (me_value e))) entries))"
  by (simp add: canonicalize_logical_value.simps [of _ _ "LV_Map _"] lv_stable_digest_def
      sort_key_map [where k' = "\<lambda>e. stable_digest C to_vec (canonicalize_logical_value C to_vec (me_key e))"]
      canonicalize_idem)

lemma canonicalize_transaction_idem:
  "canonicalize_transaction C to_vec (canonicalize_transaction C to_vec tx) = canonicalize_transaction C to_vec tx"
proof -
  have "canonicalize_image C to_vec (canonicalize_image C to_vec row) = canonicalize_image C to_vec row" for row
    by (simp add: canonicalize_image_def canonicalize_idem split: Datum.splits)
  then show ?thesis
    by (cases tx) (simp add: canonicalize_transaction_def option.map_comp comp_def)
qed

section \<open>Digests do not depend on listing order\<close>

lemma canonicalize_set_perm:
  "mset xs = mset ys \<Longrightarrow>
     canonicalize_logical_value C to_vec (LV_Set xs) = canonicalize_logical_value C to_vec (LV_Set ys)"
  using sort_key_perm [of xs ys "\<lambda>x. x"] by (simp add: canonicalize_logical_value.simps [of _ _ "LV_Set _"])

lemma canonicalize_object_perm:
  assumes "mset xs = mset ys" and "distinct (map je_key xs)"
  shows "canonicalize_json_value (JV_Object xs) = canonicalize_json_value (JV_Object ys)"
proof -
  have "sort_key je_key xs = sort_key je_key ys"
    using assms by (intro sort_key_perm) (simp_all add: distinct_map)
  then show ?thesis by (simp add: sort_key_map [where f = canonicalize_json_entry and k' = je_key])
qed

lemma canonicalize_map_perm:
  assumes "mset xs = mset ys" and "distinct (map (lv_stable_digest C to_vec \<circ> me_key) xs)"
  shows "canonicalize_logical_value C to_vec (LV_Map xs) = canonicalize_logical_value C to_vec (LV_Map ys)"
proof -
  have "sort_key (lv_stable_digest C to_vec \<circ> me_key) xs = sort_key (lv_stable_digest C to_vec \<circ> me_key) ys"
    using assms by (intro sort_key_perm) (simp_all add: distinct_map)
  then show ?thesis
    by (simp add: canonicalize_map lv_stable_digest_def canonicalize_idem comp_def
      sort_key_map [where k' = "\<lambda>e. stable_digest C to_vec (canonicalize_logical_value C to_vec (me_key e))"])
qed

end
