(* ===== verification/Snapshot.thy ===== *)
theory Snapshot
  imports Validate_Spec
begin

text \<open>
  Snapshot rows (\<^verbatim>\<open>crates/change_event/src/snapshot.rs\<close>): a snapshot has a boundary cursor
  and consists of batches of complete rows, the last one of each table marked.
\<close>

record SnapshotTable =
  st_schema :: string
  st_table :: string
  st_columns :: "string list"

record SnapshotBoundary =
  sbd_source :: Source
  sbd_cursor :: SourceCursor

record SnapshotBatch =
  sb_source :: Source
  sb_schema :: string
  sb_table :: string
  sb_rows :: "ColumnDatum list list"
  sb_last_in_table :: bool

definition source_complete :: "Source \<Rightarrow> bool" where
  "source_complete s \<longleftrightarrow> src_kind s \<noteq> [] \<and> src_version s \<noteq> [] \<and> src_id s \<noteq> []"

definition validate_snapshot_boundary :: "SnapshotBoundary \<Rightarrow> ValidationError + unit" where
  "validate_snapshot_boundary boundary =
     and_then (ensure (source_complete (sbd_source boundary)) ''incomplete snapshot source'') (\<lambda>_.
     ensure (sc_format (sbd_cursor boundary) \<noteq> [] \<and> sc_value (sbd_cursor boundary) \<noteq> [])
       ''snapshot cursor is incomplete'')"

datatype ValidatedSnapshotBatch = ValidatedSnapshotBatch (batch: SnapshotBatch)

definition snapshot_row :: "codec \<Rightarrow> ColumnDatum list \<Rightarrow> ValidationError + unit" where
  "snapshot_row C row =
     and_then (image C row Insert False) (\<lambda>_.
     and_then (ensure (list_all (\<lambda>c. case col_datum c of D_Null \<Rightarrow> True | D_Value _ \<Rightarrow> True | _ \<Rightarrow> False) row)
                 ''snapshot rows must contain complete values'') (\<lambda>_.
     ensure (list_ex (\<lambda>c. col_primary_key_ordinal c \<noteq> None) row) ''snapshot requires primary keys''))"

definition validate_snapshot :: "codec \<Rightarrow> SnapshotBatch \<Rightarrow> ValidationError + ValidatedSnapshotBatch" where
  "validate_snapshot C b =
     and_then (ensure (source_complete (sb_source b)) ''incomplete snapshot source'') (\<lambda>_.
     and_then (ensure (sb_schema b \<noteq> [] \<and> sb_table b \<noteq> []
                 \<and> NUL \<notin> set (sb_schema b) \<and> NUL \<notin> set (sb_table b)) ''invalid snapshot table'') (\<lambda>_.
     and_then (ensure (sb_rows b \<noteq> [] \<or> sb_last_in_table b) ''empty non-final snapshot batch'') (\<lambda>_.
     and_then (each (snapshot_row C) (sb_rows b)) (\<lambda>_.
     Ok (ValidatedSnapshotBatch b)))))"

section \<open>What an accepted batch is\<close>

definition snapshot_row_ok :: "codec \<Rightarrow> ColumnDatum list \<Rightarrow> bool" where
  "snapshot_row_ok C row \<longleftrightarrow>
     image_ok C Insert False row \<and> key_ordinals row \<noteq> []
     \<and> (\<forall>c \<in> set row. col_datum c = D_Null \<or> (\<exists>v. col_datum c = D_Value v))"

definition snapshot_ok :: "codec \<Rightarrow> SnapshotBatch \<Rightarrow> bool" where
  "snapshot_ok C b \<longleftrightarrow>
     source_complete (sb_source b)
     \<and> sb_schema b \<noteq> [] \<and> sb_table b \<noteq> [] \<and> NUL \<notin> set (sb_schema b) \<and> NUL \<notin> set (sb_table b)
     \<and> (sb_rows b = [] \<longrightarrow> sb_last_in_table b) \<and> (\<forall>row \<in> set (sb_rows b). snapshot_row_ok C row)"

lemma key_ordinals_empty_iff: "key_ordinals row = [] \<longleftrightarrow> (\<forall>c \<in> set row. col_primary_key_ordinal c = None)"
  by (induction row) (auto split: option.splits)

lemma snapshot_row_Ok_iff [ok_iff]: "snapshot_row C row = Inr u \<longleftrightarrow> snapshot_row_ok C row"
proof -
  have "(case d of D_Null \<Rightarrow> True | D_Value _ \<Rightarrow> True | _ \<Rightarrow> False) \<longleftrightarrow> d = D_Null \<or> (\<exists>v. d = D_Value v)" for d
    by (cases d) simp_all
  then show ?thesis
    by (auto simp: snapshot_row_def snapshot_row_ok_def ok_iff key_ordinals_empty_iff list_all_iff list_ex_iff)
qed

lemma validate_snapshot_Ok_iff [ok_iff]:
  "validate_snapshot C b = Inr v \<longleftrightarrow> snapshot_ok C b \<and> v = ValidatedSnapshotBatch b"
  by (auto simp: validate_snapshot_def snapshot_ok_def ok_iff)

end
