(* ===== verification/Apply_Errors.thy ===== *)
theory Apply_Errors
  imports Change_Model
begin

text \<open>
  The failure taxonomy shared by the sinks and the worker: the categories of
  \<^verbatim>\<open>crates/change_event/src/lib.rs\<close>, the classes, phases and retry classification of
  \<^verbatim>\<open>compatibility.rs\<close> and the capability failure of \<^verbatim>\<open>validate.rs\<close>.
  Diagnostic text is a list of Unicode code points here, because it is cut by characters.
\<close>

datatype FailureClass =
    FC_ChangeEventValidation | FC_SourceContract | FC_InvalidInput | FC_TargetCapability
  | FC_MissingConfirmation | FC_StaleInput | FC_TransientTarget | FC_CommitUnknown

datatype FailurePhase =
    FP_InputValidation | FP_SourceContract | FP_CapabilityQualification | FP_PlanConstruction
  | FP_Conversion | FP_Locator | FP_Apply | FP_Commit

datatype RetryClassification = NotRetryable | Retryable | RC_CommitUnknown

datatype CommitResolution = Applied | NotApplied | Unprovable

datatype TargetApplyErrorKind =
    Conversion | Capability | Constraint | Sql | Connection | LockTimeout | CommitUnknown | CheckpointConflict

fun is_retryable :: "TargetApplyErrorKind \<Rightarrow> bool" where
  "is_retryable Connection = True"
| "is_retryable LockTimeout = True"
| "is_retryable _ = False"

fun retry_classification :: "TargetApplyErrorKind \<Rightarrow> RetryClassification" where
  "retry_classification Connection = Retryable"
| "retry_classification LockTimeout = Retryable"
| "retry_classification CommitUnknown = RC_CommitUnknown"
| "retry_classification Conversion = NotRetryable"
| "retry_classification Capability = NotRetryable"
| "retry_classification Constraint = NotRetryable"
| "retry_classification Sql = NotRetryable"
| "retry_classification CheckpointConflict = NotRetryable"

fun failure_class :: "TargetApplyErrorKind \<Rightarrow> FailureClass" where
  "failure_class Connection = FC_TransientTarget"
| "failure_class LockTimeout = FC_TransientTarget"
| "failure_class CommitUnknown = FC_CommitUnknown"
| "failure_class Conversion = FC_TargetCapability"
| "failure_class Capability = FC_TargetCapability"
| "failure_class Constraint = FC_InvalidInput"
| "failure_class Sql = FC_InvalidInput"
| "failure_class CheckpointConflict = FC_InvalidInput"

fun failure_phase :: "TargetApplyErrorKind \<Rightarrow> FailurePhase" where
  "failure_phase Conversion = FP_Conversion"
| "failure_phase Capability = FP_CapabilityQualification"
| "failure_phase Constraint = FP_Apply"
| "failure_phase Sql = FP_Apply"
| "failure_phase CheckpointConflict = FP_Apply"
| "failure_phase Connection = FP_Apply"
| "failure_phase LockTimeout = FP_Apply"
| "failure_phase CommitUnknown = FP_Commit"

fun stable_code :: "TargetApplyErrorKind \<Rightarrow> string" where
  "stable_code Conversion = ''target_apply.conversion_failed''"
| "stable_code Capability = ''target_apply.capability_failed''"
| "stable_code Constraint = ''target_apply.constraint_failed''"
| "stable_code Sql = ''target_apply.sql_error''"
| "stable_code Connection = ''target_apply.connection_failed''"
| "stable_code LockTimeout = ''target_apply.lock_timeout''"
| "stable_code CommitUnknown = ''target_apply.commit_unknown''"
| "stable_code CheckpointConflict = ''target_apply.checkpoint_conflict''"

section \<open>Capability failures\<close>

record RuleReference =
  rr_id :: string
  rr_version :: string

datatype QualificationLevel = Exact | RangeChecked | ExplicitConversion | Q_Unsupported

type_synonym code_points = "nat list"

record TargetCapabilityFailure =
  tcf_class :: FailureClass
  tcf_code :: string
  tcf_route_id :: "string option"
  tcf_source :: "ConnectorIdentity option"
  tcf_sink :: "ConnectorIdentity option"
  tcf_source_transaction_id :: "string option"
  tcf_event_identity :: "string option"
  tcf_source_table_lineage :: "string option"
  tcf_source_field_lineage :: "string option"
  tcf_target_field_lineage :: "string option"
  tcf_source_definition_fingerprint :: "string option"
  tcf_target_definition_fingerprint :: "string option"
  tcf_target_schema_fingerprint :: "string option"
  tcf_target_server_build :: "ServerBuildIdentity option"
  tcf_capability_identity :: "string option"
  tcf_conversion_rule :: "RuleReference option"
  tcf_plan_digest :: "string option"
  tcf_qualification :: "QualificationLevel option"
  tcf_risk_code :: "string option"
  tcf_phase :: FailurePhase
  tcf_retry :: RetryClassification
  tcf_vendor_code :: "string option"
  tcf_cause :: "code_points option"

text \<open>\<^verbatim>\<open>char::is_control\<close>: the general category Cc.\<close>

definition is_control :: "nat \<Rightarrow> bool" where
  "is_control c \<longleftrightarrow> c < 0x20 \<or> 0x7F \<le> c \<and> c < 0xA0"

definition sanitize_cause :: "code_points \<Rightarrow> code_points" where
  "sanitize_cause message = take 512 (filter (\<lambda>c. \<not> is_control c) message)"

definition tcf_new :: "code_points \<Rightarrow> TargetCapabilityFailure" where
  "tcf_new message =
     \<lparr>tcf_class = FC_TargetCapability, tcf_code = ''target_capability.unspecified'',
      tcf_route_id = None, tcf_source = None, tcf_sink = None, tcf_source_transaction_id = None,
      tcf_event_identity = None, tcf_source_table_lineage = None, tcf_source_field_lineage = None,
      tcf_target_field_lineage = None, tcf_source_definition_fingerprint = None,
      tcf_target_definition_fingerprint = None, tcf_target_schema_fingerprint = None,
      tcf_target_server_build = None, tcf_capability_identity = None, tcf_conversion_rule = None,
      tcf_plan_digest = None, tcf_qualification = None, tcf_risk_code = None,
      tcf_phase = FP_CapabilityQualification, tcf_retry = NotRetryable, tcf_vendor_code = None,
      tcf_cause = Some (sanitize_cause message)\<rparr>"

definition tcf_manifest :: "code_points \<Rightarrow> TargetCapabilityFailure" where
  "tcf_manifest message = (tcf_new message)\<lparr>tcf_code := ''target_capability.invalid_manifest''\<rparr>"

definition with_code :: "string \<Rightarrow> TargetCapabilityFailure \<Rightarrow> TargetCapabilityFailure" where
  "with_code code f = f\<lparr>tcf_code := code\<rparr>"

definition with_route :: "string \<Rightarrow> TargetCapabilityFailure \<Rightarrow> TargetCapabilityFailure" where
  "with_route route_id f = f\<lparr>tcf_route_id := Some route_id\<rparr>"

definition with_plan_digest :: "string \<Rightarrow> TargetCapabilityFailure \<Rightarrow> TargetCapabilityFailure" where
  "with_plan_digest digest f = f\<lparr>tcf_plan_digest := Some digest\<rparr>"

definition tcf_is_retryable :: "TargetCapabilityFailure \<Rightarrow> bool" where
  "tcf_is_retryable f \<longleftrightarrow> tcf_retry f = Retryable"

section \<open>Properties\<close>

lemma retry_agrees: "is_retryable k \<longleftrightarrow> retry_classification k = Retryable"
  by (cases k) simp_all

lemma transient_agrees: "is_retryable k \<longleftrightarrow> failure_class k = FC_TransientTarget"
  by (cases k) simp_all

lemma commit_unknown_agrees:
  "retry_classification k = RC_CommitUnknown \<longleftrightarrow> failure_class k = FC_CommitUnknown"
  "failure_phase k = FP_Commit \<longleftrightarrow> failure_class k = FC_CommitUnknown"
  by (cases k; simp)+

lemma stable_code_inj: "stable_code j = stable_code k \<Longrightarrow> j = k"
  by (cases j; cases k; simp)

lemma sanitize_cause_idem: "sanitize_cause (sanitize_cause m) = sanitize_cause m"
proof -
  have "filter (\<lambda>c. \<not> is_control c) (take 512 (filter (\<lambda>c. \<not> is_control c) m))
      = take 512 (filter (\<lambda>c. \<not> is_control c) m)"
    by (intro filter_True) (auto dest: in_set_takeD)
  then show ?thesis by (simp add: sanitize_cause_def)
qed

lemma sanitize_cause_clean:
  "length (sanitize_cause m) \<le> 512" "c \<in> set (sanitize_cause m) \<Longrightarrow> \<not> is_control c \<and> c \<in> set m"
  by (auto simp: sanitize_cause_def dest: in_set_takeD)

end
