(* ===== verification/Io_Error.thy ===== *)
theory Io_Error
  imports Validate Apply_Errors
begin

text \<open>
  The \<^verbatim>\<open>io::Error\<close> values of the PostgreSQL sink by what they carry, and their classification
  (\<^verbatim>\<open>classify_apply_error\<close> and \<^verbatim>\<open>commit_error\<close> in \<^verbatim>\<open>crates/postgresql_15/src/sql.rs\<close>).
\<close>

text \<open>The errors of the driver: one the server reported, with its SQLSTATE, or any other (the
  connection is gone, a reply is malformed).\<close>

datatype sqlx_error =
    SE_Database "string option" string
  | SE_Other string

datatype ErrorKind = EK_Other | TimedOut | ConnectionReset | ConnectionAborted | BrokenPipe | UnexpectedEof

text \<open>\<^verbatim>\<open>io::Error::other\<close> of a message or of another error; \<open>Os\<close> is an error with a kind of its
  own; \<open>Panic\<close> stands for a panic (an index out of range).\<close>

datatype io_error =
    Other string
  | ParseInt
  | Base64
  | Utf8
  | Json
  | Validation ValidationError
  | Capability_Failure string
  | Target_Not_Empty string string
  | Sqlx sqlx_error
  | Commit_Unknown string
  | Os ErrorKind
  | Panic

definition capability_failure :: "string \<Rightarrow> io_error" where
  "capability_failure message = Capability_Failure (''Target Capability Failure: '' @ message)"

fun sqlx_display :: "sqlx_error \<Rightarrow> string" where
  "sqlx_display (SE_Database _ m) = m"
| "sqlx_display (SE_Other m) = m"

definition commit_error :: "sqlx_error \<Rightarrow> io_error" where
  "commit_error e = (case e of SE_Database _ _ \<Rightarrow> Sqlx e | SE_Other _ \<Rightarrow> Commit_Unknown (sqlx_display e))"

definition commit_outcome_unknown :: "io_error \<Rightarrow> bool" where
  "commit_outcome_unknown e = (case e of Commit_Unknown _ \<Rightarrow> True | _ \<Rightarrow> False)"

definition classify_apply_error :: "io_error \<Rightarrow> TargetApplyErrorKind" where
  "classify_apply_error e =
     (if commit_outcome_unknown e then CommitUnknown
      else case e of
        Capability_Failure _ \<Rightarrow> Capability
      | Sqlx (SE_Database code _) \<Rightarrow>
          if code \<in> {Some ''40001'', Some ''40P01'', Some ''55P03''} then LockTimeout
          else if (case code of None \<Rightarrow> False | Some c \<Rightarrow> starts_with ''23'' c) then Constraint
          else Sql
      | Sqlx (SE_Other _) \<Rightarrow> Connection
      | Os k \<Rightarrow> if k \<in> {TimedOut, ConnectionReset, ConnectionAborted, BrokenPipe, UnexpectedEof}
                then Connection else Sql
      | _ \<Rightarrow> Sql)"

lemma commit_error_unknown:
  "commit_outcome_unknown (commit_error e) \<longleftrightarrow> (\<exists>m. e = SE_Other m)"
  by (cases e) (simp_all add: commit_error_def commit_outcome_unknown_def)

lemma unknown_never_retryable:
  "commit_outcome_unknown e \<Longrightarrow> \<not> is_retryable (classify_apply_error e)"
  by (simp add: classify_apply_error_def)

lemma retryable_iff:
  "is_retryable (classify_apply_error e) \<longleftrightarrow>
     (\<exists>m. e = Sqlx (SE_Other m))
     \<or> (\<exists>m. \<exists>c \<in> {''40001'', ''40P01'', ''55P03''}. e = Sqlx (SE_Database (Some c) m))
     \<or> (\<exists>k. k \<noteq> EK_Other \<and> e = Os k)"
proof (cases e)
  case (Sqlx s)
  then show ?thesis
    by (cases s) (auto simp: classify_apply_error_def commit_outcome_unknown_def)
next
  case (Os k)
  then show ?thesis
    by (cases k) (simp_all add: classify_apply_error_def commit_outcome_unknown_def)
qed (simp_all add: classify_apply_error_def commit_outcome_unknown_def)

end
