(* ===== verification/Gtid.thy ===== *)
theory Gtid
  imports Io_Error "HOL-Library.Product_Lexorder" "HOL-Library.Option_ord"
begin

text \<open>
  MySQL GTID sets as the PostgreSQL sink stores them
  (\<^verbatim>\<open>crates/postgresql_15/src/checkpoint.rs\<close>): parsing, the merging of intervals, rendering,
  union and membership of one transaction. A GTID set means a set of pairs of a key (server
  identity and optional tag) and a transaction number; every operation is shown to be the
  operation on these sets, and the rendered text to be a normal form.
\<close>

section \<open>Types\<close>

type_synonym gtid_key = "string \<times> string option"
type_synonym interval = "nat \<times> nat"
type_synonym GtidMap = "(gtid_key \<times> interval list) list"

section \<open>Operations\<close>

definition all_digits :: "string \<Rightarrow> bool" where
  "all_digits s \<longleftrightarrow> s \<noteq> [] \<and> list_all is_ascii_digit s"

definition is_gtid_interval :: "string \<Rightarrow> bool" where
  "is_gtid_interval v =
     (case split_once CHR ''-'' v of
        Some (start, finish) \<Rightarrow> all_digits start \<and> all_digits finish
      | None \<Rightarrow> all_digits v)"

definition parse_u64 :: "string \<Rightarrow> io_error + nat" where
  "parse_u64 s = ok_or (parse_unsigned 64 s) ParseInt"

definition parse_interval :: "string \<Rightarrow> io_error + interval" where
  "parse_interval part =
     and_then
       (case split_once CHR ''-'' part of
          Some (a, b) \<Rightarrow> and_then (parse_u64 a) (\<lambda>a. and_then (parse_u64 b) (\<lambda>b. Ok (a, b)))
        | None \<Rightarrow> and_then (parse_u64 part) (\<lambda>n. Ok (n, n))) (\<lambda>(a, b).
     if a = 0 \<or> b < a then Err (Other ''invalid GTID interval'') else Ok (a, b))"

definition tag_char :: "char \<Rightarrow> bool" where
  "tag_char c \<longleftrightarrow> is_ascii_alphanumeric c \<or> c = CHR ''_''"

definition parse_gtid_key :: "string list \<Rightarrow> io_error + gtid_key \<times> string list" where
  "parse_gtid_key parts =
     (if length parts < 2 then Err (Other ''invalid GTID set'')
      else
        let uuid = to_ascii_lowercase (parts ! 0) in
        if length uuid \<noteq> 36 then Err (Other ''invalid GTID UUID'')
        else if is_gtid_interval (parts ! 1) then Ok ((uuid, None), drop 1 parts)
        else if length parts < 3 \<or> parts ! 1 = [] \<or> \<not> list_all tag_char (parts ! 1)
        then Err (Other ''invalid tagged GTID'')
        else Ok ((uuid, Some (to_ascii_lowercase (parts ! 1))), drop 2 parts))"

definition parse_gtid_group :: "string \<Rightarrow> io_error + gtid_key \<times> interval list" where
  "parse_gtid_group g =
     and_then (parse_gtid_key (split_on CHR '':'' g)) (\<lambda>(key, parts).
     and_then (map_result parse_interval parts) (\<lambda>ranges. Ok (key, ranges)))"

text \<open>\<^verbatim>\<open>map.entry(key).or_default()\<close> and the pushes.\<close>

definition push_ranges :: "gtid_key \<Rightarrow> interval list \<Rightarrow> GtidMap \<Rightarrow> GtidMap" where
  "push_ranges key ranges m =
     bt_insert key ((case bt_get m key of None \<Rightarrow> [] | Some old \<Rightarrow> old) @ ranges) m"

definition saturating_succ :: "nat \<Rightarrow> nat" where
  "saturating_succ n = min (n + 1) (2 ^ 64 - 1)"

definition push_merged :: "interval list \<Rightarrow> interval \<Rightarrow> interval list" where
  "push_merged merged ab =
     (if merged \<noteq> [] \<and> fst ab \<le> saturating_succ (snd (last merged))
      then butlast merged @ [(fst (last merged), max (snd (last merged)) (snd ab))]
      else merged @ [ab])"

definition merge_intervals :: "interval list \<Rightarrow> interval list" where
  "merge_intervals ranges = foldl push_merged [] (sort ranges)"

definition parse_gtids :: "string \<Rightarrow> io_error + GtidMap" where
  "parse_gtids v =
     and_then (try_fold (\<lambda>m g. and_then (parse_gtid_group g) (\<lambda>(key, ranges).
                  Ok (push_ranges key ranges m)))
                [] (filter (\<lambda>part. part \<noteq> []) (split_on CHR '','' v))) (\<lambda>m.
     Ok (map (\<lambda>(key, ranges). (key, merge_intervals ranges)) m))"

definition render_interval :: "interval \<Rightarrow> string" where
  "render_interval ab =
     (if fst ab = snd ab then show_nat (fst ab)
      else show_nat (fst ab) @ CHR ''-'' # show_nat (snd ab))"

definition render_group :: "gtid_key \<times> interval list \<Rightarrow> string" where
  "render_group = (\<lambda>((uuid, tag), ranges).
     uuid @ (case tag of None \<Rightarrow> [] | Some t \<Rightarrow> CHR '':'' # t)
       @ concat (map (\<lambda>r. CHR '':'' # render_interval r) ranges))"

definition render_gtids :: "GtidMap \<Rightarrow> string" where
  "render_gtids m = join_with '','' (map render_group m)"

definition canonical_gtids :: "string \<Rightarrow> io_error + string" where
  "canonical_gtids v = and_then (parse_gtids v) (\<lambda>m. Ok (render_gtids m))"

definition canonical_single_gtid :: "string \<Rightarrow> io_error + string" where
  "canonical_single_gtid v =
     and_then (parse_gtids v) (\<lambda>m.
     if length m \<noteq> 1 \<or>
        (case m of [] \<Rightarrow> True
         | (k, ranges) # _ \<Rightarrow> length ranges \<noteq> 1 \<or> fst (ranges ! 0) \<noteq> snd (ranges ! 0))
     then Err (Other ''invalid single transaction GTID'')
     else Ok (render_gtids m))"

definition merge_gtids :: "string option \<Rightarrow> string \<Rightarrow> io_error + string" where
  "merge_gtids left right =
     canonical_gtids (join_with '',''
       (filter (\<lambda>part. part \<noteq> []) [case left of None \<Rightarrow> [] | Some l \<Rightarrow> l, right]))"

definition gtid_contains :: "string \<Rightarrow> string \<Rightarrow> io_error + bool" where
  "gtid_contains gtids one =
     and_then (parse_gtids gtids) (\<lambda>m.
     and_then (parse_gtids one) (\<lambda>o'.
     case o' of
       [] \<Rightarrow> Err (Other ''empty GTID'')
     | (key, []) # _ \<Rightarrow> Err Panic
     | (key, (start, finish) # _) # _ \<Rightarrow>
         Ok (case bt_get m key of None \<Rightarrow> False
             | Some items \<Rightarrow> list_ex (\<lambda>(a, b). a \<le> start \<and> finish \<le> b) items)))"

section \<open>Meaning\<close>

definition interval_set :: "interval list \<Rightarrow> nat set" where
  "interval_set rs = (\<Union>(a, b) \<in> set rs. {a..b})"

definition gtids_of :: "GtidMap \<Rightarrow> (gtid_key \<times> nat) set" where
  "gtids_of m = {(k, n). \<exists>rs. bt_get m k = Some rs \<and> n \<in> interval_set rs}"

definition gtid_set_of :: "string \<Rightarrow> (gtid_key \<times> nat) set" where
  "gtid_set_of v = (case parse_gtids v of Inl _ \<Rightarrow> {} | Inr m \<Rightarrow> gtids_of m)"

definition proper_interval :: "interval \<Rightarrow> bool" where
  "proper_interval ab \<longleftrightarrow> 0 < fst ab \<and> fst ab \<le> snd ab \<and> snd ab < 2 ^ 64"

text \<open>Canonical lists of intervals: increasing, and neither overlapping nor adjacent.\<close>

fun canonical_intervals :: "interval list \<Rightarrow> bool" where
  "canonical_intervals [] = True"
| "canonical_intervals [ab] = proper_interval ab"
| "canonical_intervals (ab # cd # rs) =
     (proper_interval ab \<and> snd ab + 1 < fst cd \<and> canonical_intervals (cd # rs))"

definition key_ok :: "gtid_key \<Rightarrow> bool" where
  "key_ok k \<longleftrightarrow>
     length (fst k) = 36 \<and> to_ascii_lowercase (fst k) = fst k
     \<and> CHR '','' \<notin> set (fst k) \<and> CHR '':'' \<notin> set (fst k)
     \<and> (\<forall>t. snd k = Some t \<longrightarrow> t \<noteq> [] \<and> to_ascii_lowercase t = t \<and> list_all tag_char t \<and> \<not> all_digits t)"

definition gtid_map_ok :: "GtidMap \<Rightarrow> bool" where
  "gtid_map_ok m \<longleftrightarrow> bt_ok m \<and> (\<forall>(k, rs) \<in> set m. key_ok k \<and> rs \<noteq> [] \<and> canonical_intervals rs)"

section \<open>Merging intervals\<close>

lemma interval_set_simps [simp]:
  "interval_set [] = {}" "interval_set (ab # rs) = {fst ab..snd ab} \<union> interval_set rs"
  "interval_set (rs @ ss) = interval_set rs \<union> interval_set ss"
  by (auto simp: interval_set_def split: prod.splits)

lemma canonical_append:
  "canonical_intervals (rs @ [ab]) \<longleftrightarrow>
     canonical_intervals rs \<and> proper_interval ab \<and> (rs \<noteq> [] \<longrightarrow> snd (last rs) + 1 < fst ab)"
  by (induction rs rule: canonical_intervals.induct) auto

lemma canonical_proper: "canonical_intervals rs \<Longrightarrow> ab \<in> set rs \<Longrightarrow> proper_interval ab"
  by (induction rs rule: canonical_intervals.induct) auto

text \<open>One push keeps the list canonical and adds exactly the interval, as long as the intervals
  come in order of their start.\<close>

lemma push_merged_step:
  assumes "canonical_intervals rs" and "proper_interval ab"
    and "\<forall>cd \<in> set rs. fst cd \<le> fst ab"
  shows "canonical_intervals (push_merged rs ab)
    \<and> interval_set (push_merged rs ab) = interval_set rs \<union> {fst ab..snd ab}
    \<and> (\<forall>cd \<in> set (push_merged rs ab). fst cd \<le> fst ab) \<and> push_merged rs ab \<noteq> []"
proof (cases rs rule: rev_cases)
  case Nil
  with assms(2) show ?thesis by (simp add: push_merged_def)
next
  case (snoc ss cd)
  have canonical: "canonical_intervals ss" "proper_interval cd" "ss \<noteq> [] \<longrightarrow> snd (last ss) + 1 < fst cd"
    using assms(1) by (simp_all add: snoc canonical_append)
  have le: "fst cd \<le> fst ab" using assms(3) by (simp add: snoc)
  show ?thesis
  proof (cases "fst ab \<le> saturating_succ (snd cd)")
    case True
    then have "{fst cd..max (snd cd) (snd ab)} = {fst cd..snd cd} \<union> {fst ab..snd ab}"
      using le assms(2) canonical(2) by (auto simp: saturating_succ_def proper_interval_def)
    with True canonical assms(2,3) le show ?thesis
      by (auto simp: snoc push_merged_def canonical_append proper_interval_def)
  next
    case False
    then have "snd cd + 1 < fst ab"
      using assms(2) by (auto simp: saturating_succ_def proper_interval_def split: if_splits)
    moreover have "push_merged rs ab = rs @ [ab]" using False by (simp add: snoc push_merged_def)
    ultimately show ?thesis using assms by (auto simp: canonical_append) (auto simp: snoc)
  qed
qed

lemma push_merged_fold:
  assumes "canonical_intervals rs" and "\<forall>ab \<in> set xs. proper_interval ab" and "sorted (map fst xs)"
    and "\<forall>cd \<in> set rs. \<forall>ab \<in> set xs. fst cd \<le> fst ab"
  shows "canonical_intervals (foldl push_merged rs xs)
    \<and> interval_set (foldl push_merged rs xs) = interval_set rs \<union> interval_set xs"
  using assms
proof (induction xs arbitrary: rs)
  case (Cons x xs)
  have step: "canonical_intervals (push_merged rs x)"
    "interval_set (push_merged rs x) = interval_set rs \<union> {fst x..snd x}"
    "\<forall>cd \<in> set (push_merged rs x). fst cd \<le> fst x"
    using push_merged_step [of rs x] Cons.prems by auto
  have "\<forall>cd \<in> set (push_merged rs x). \<forall>ab \<in> set xs. fst cd \<le> fst ab"
    using step(3) Cons.prems(3) by fastforce
  with Cons.IH [of "push_merged rs x"] step Cons.prems show ?case by auto
qed simp

lemma sorted_map_fst: "sorted (xs :: interval list) \<Longrightarrow> sorted (map fst xs)"
  by (induction xs) (auto simp: less_eq_prod_def)

lemma merge_intervals_canonical:
  assumes "\<forall>ab \<in> set rs. proper_interval ab"
  shows "canonical_intervals (merge_intervals rs)" and "interval_set (merge_intervals rs) = interval_set rs"
proof -
  have "interval_set (sort rs) = interval_set rs" by (simp add: interval_set_def)
  then show "canonical_intervals (merge_intervals rs)" "interval_set (merge_intervals rs) = interval_set rs"
    using push_merged_fold [of "[]" "sort rs"] assms by (auto simp: merge_intervals_def sorted_map_fst)
qed

text \<open>A canonical list is determined by the numbers in it.\<close>

lemma canonical_Cons:
  "canonical_intervals (ab # rs) \<longleftrightarrow>
     proper_interval ab \<and> canonical_intervals rs \<and> (\<forall>n \<in> interval_set rs. snd ab + 1 < n)"
proof (induction rs arbitrary: ab)
  case (Cons cd rs)
  show ?case
    using Cons.IH [of cd] by (auto simp: proper_interval_def) fastforce
qed simp

lemma canonical_first:
  assumes "canonical_intervals (ab # rs)" and "interval_set (ab # rs) = interval_set (cd # ss)"
    and "canonical_intervals (cd # ss)"
  shows "ab = cd \<and> interval_set rs = interval_set ss"
proof -
  note a = assms(1) [unfolded canonical_Cons proper_interval_def]
  note c = assms(3) [unfolded canonical_Cons proper_interval_def]
  have mem: "n \<in> {fst ab..snd ab} \<union> interval_set rs \<longleftrightarrow> n \<in> {fst cd..snd cd} \<union> interval_set ss" for n
    using assms(2) by simp
  have fst: "fst ab = fst cd"
    using mem [of "fst ab"] mem [of "fst cd"] a c by fastforce
  have "\<not> snd ab < snd cd" using mem [of "snd ab + 1"] a c fst by fastforce
  moreover have "\<not> snd cd < snd ab" using mem [of "snd cd + 1"] a c fst by fastforce
  ultimately have eq: "ab = cd" using fst by (simp add: prod_eq_iff)
  have "interval_set rs \<inter> {fst ab..snd ab} = {}" "interval_set ss \<inter> {fst ab..snd ab} = {}"
    using a c eq by fastforce+
  with assms(2) eq have "interval_set rs = interval_set ss" by (simp add: set_eq_iff) blast
  with eq show ?thesis by simp
qed

lemma canonical_unique:
  "canonical_intervals rs \<Longrightarrow> canonical_intervals ss \<Longrightarrow> interval_set rs = interval_set ss \<Longrightarrow> rs = ss"
proof (induction rs arbitrary: ss)
  case Nil
  then show ?case by (cases ss) (auto simp: canonical_Cons proper_interval_def)
next
  case (Cons ab rs)
  from Cons.prems obtain cd ts where ss: "ss = cd # ts"
    by (cases ss) (auto simp: canonical_Cons proper_interval_def)
  with Cons.prems have "ab = cd \<and> interval_set rs = interval_set ts"
    by (intro canonical_first) simp_all
  with Cons ss show ?case by (simp add: canonical_Cons)
qed

lemma merge_intervals_id:
  assumes "canonical_intervals rs"
  shows "merge_intervals rs = rs"
proof -
  have proper: "\<forall>ab \<in> set rs. proper_interval ab" using assms by (simp add: canonical_proper)
  show ?thesis
    using merge_intervals_canonical [OF proper] assms by (intro canonical_unique)
qed

text \<open>An interval inside a canonical list lies inside one of its intervals.\<close>

lemma canonical_covers:
  "canonical_intervals rs \<Longrightarrow> s \<le> f \<Longrightarrow>
     {s..f} \<subseteq> interval_set rs \<longleftrightarrow> (\<exists>(a, b) \<in> set rs. a \<le> s \<and> f \<le> b)"
proof (induction rs)
  case (Cons ab rs)
  then have rs: "{s..f} \<subseteq> interval_set rs \<longleftrightarrow> (\<exists>(a, b) \<in> set rs. a \<le> s \<and> f \<le> b)"
    and gap: "\<forall>n \<in> interval_set rs. snd ab + 1 < n" and ab: "fst ab \<le> snd ab"
    by (auto simp: canonical_Cons proper_interval_def)
  have "{s..f} \<subseteq> interval_set (ab # rs) \<longleftrightarrow> fst ab \<le> s \<and> f \<le> snd ab \<or> {s..f} \<subseteq> interval_set rs"
  proof
    assume sub: "{s..f} \<subseteq> interval_set (ab # rs)"
    show "fst ab \<le> s \<and> f \<le> snd ab \<or> {s..f} \<subseteq> interval_set rs"
    proof (cases "s \<le> snd ab")
      case True
      then have "fst ab \<le> s" using sub gap Cons.prems(2) by force
      moreover have "f \<le> snd ab"
        using sub gap Cons.prems(2) True subsetD [OF sub, of "snd ab + 1"] by force
      ultimately show ?thesis by simp
    next
      case False
      with sub show ?thesis by force
    qed
  qed (auto simp: subset_iff)
  with rs show ?case by (auto split: prod.splits)
qed simp

section \<open>Parsing\<close>

lemma lower_char_special: "c \<in> {CHR '','', CHR '':''} \<Longrightarrow> lower_char d = c \<longleftrightarrow> d = c"
proof -
  assume c: "c \<in> {CHR '','', CHR '':''}"
  then have "ord c < 65" by (auto simp: ord_def)
  then have "ord (lower_char d) = ord c \<longleftrightarrow> ord d = ord c"
    by (auto simp: ord_lower_char is_ascii_upper_def simp del: ord_inject)
  then show ?thesis by simp
qed

lemma lowercase_special:
  "c \<in> {CHR '','', CHR '':''} \<Longrightarrow> c \<in> set (to_ascii_lowercase s) \<longleftrightarrow> c \<in> set s"
  unfolding to_ascii_lowercase_def set_map image_iff
  by (metis lower_char_special)

lemma tag_char_lower: "tag_char (lower_char c) = tag_char c"
  by (auto simp: tag_char_def ascii_defs lower_char_def ord_def)

lemma is_digit_lower: "is_ascii_digit (lower_char c) = is_ascii_digit c"
  by (auto simp: is_ascii_digit_def lower_char_def is_ascii_upper_def)

lemma tag_lower:
  "list_all tag_char (to_ascii_lowercase t) = list_all tag_char t"
  "all_digits (to_ascii_lowercase t) = all_digits t" "to_ascii_lowercase t = [] \<longleftrightarrow> t = []"
  by (simp_all add: to_ascii_lowercase_def all_digits_def list_all_iff tag_char_lower is_digit_lower)

lemma tag_no_hyphen: "list_all tag_char t \<Longrightarrow> CHR ''-'' \<notin> set t \<and> CHR '':'' \<notin> set t \<and> CHR '','' \<notin> set t"
  by (auto simp: list_all_iff tag_char_def ascii_defs ord_def)

lemma is_gtid_interval_tag: "list_all tag_char t \<Longrightarrow> is_gtid_interval t = all_digits t"
  using tag_no_hyphen [of t] split_once_None_iff [of "CHR ''-''" t] by (simp add: is_gtid_interval_def)

lemma split_on_parts: "p \<in> set (split_on c s) \<Longrightarrow> set p \<subseteq> set s - {c}"
proof (induction s arbitrary: p)
  case (Cons x s)
  from Cons.IH [of "hd (split_on c s)"] Cons.IH [of p] Cons.prems show ?case
    by (cases "split_on c s") (auto split: if_splits)
qed simp

lemma parse_interval_proper: "parse_interval part = Inr ab \<Longrightarrow> proper_interval ab"
  by (auto simp: parse_interval_def parse_u64_def proper_interval_def ok_iff
      dest!: parse_unsigned_bound split: option.splits prod.splits if_splits)

lemma parse_gtid_key_ok:
  assumes "parse_gtid_key (split_on CHR '':'' g) = Inr (k, parts)" and "CHR '','' \<notin> set g"
  shows "key_ok k \<and> parts \<noteq> []"
proof -
  let ?ps = "split_on CHR '':'' g"
  from assms(1) have len: "2 \<le> length ?ps"
    by (auto simp: parse_gtid_key_def not_less split: if_splits)
  then have uuid: "CHR '':'' \<notin> set (?ps ! 0)" "CHR '','' \<notin> set (?ps ! 0)"
    using split_on_parts [of "?ps ! 0" "CHR '':''" g] nth_mem [of 0 ?ps] assms(2) by auto
  show ?thesis
    using assms(1) len uuid
    by (auto simp: parse_gtid_key_def Let_def key_ok_def lowercase_special tag_lower
        is_gtid_interval_tag split: if_splits)
qed

lemma parse_gtid_group_ok:
  assumes "parse_gtid_group g = Inr (k, rs)" and "CHR '','' \<notin> set g"
  shows "key_ok k \<and> rs \<noteq> [] \<and> (\<forall>ab \<in> set rs. proper_interval ab)"
proof -
  from assms(1) obtain parts where key: "parse_gtid_key (split_on CHR '':'' g) = Inr (k, parts)"
    and ranges: "list_all2 (\<lambda>p ab. parse_interval p = Inr ab) parts rs"
    by (auto simp: parse_gtid_group_def ok_iff)
  have "\<forall>ab \<in> set rs. proper_interval ab"
    using ranges by (induction rule: list_all2_induct) (auto dest: parse_interval_proper)
  moreover have "rs \<noteq> []" "key_ok k"
    using parse_gtid_key_ok [OF key assms(2)] ranges by auto
  ultimately show ?thesis by simp
qed

section \<open>The map of a GTID set\<close>

declare split_paired_All [simp del] split_paired_Ex [simp del]

definition raw_map_ok :: "GtidMap \<Rightarrow> bool" where
  "raw_map_ok m \<longleftrightarrow>
     bt_ok m \<and> (\<forall>k rs. bt_get m k = Some rs \<longrightarrow> key_ok k \<and> rs \<noteq> [] \<and> (\<forall>ab \<in> set rs. proper_interval ab))"

lemma push_ranges_get:
  "bt_ok m \<Longrightarrow> bt_get (push_ranges k rs m) k' =
     (if k' = k then Some ((case bt_get m k of None \<Rightarrow> [] | Some old \<Rightarrow> old) @ rs) else bt_get m k')"
  by (simp add: push_ranges_def btree.get_insert)

lemma push_ranges_ok:
  "raw_map_ok m \<Longrightarrow> key_ok k \<Longrightarrow> rs \<noteq> [] \<Longrightarrow> \<forall>ab \<in> set rs. proper_interval ab \<Longrightarrow>
     raw_map_ok (push_ranges k rs m)"
proof -
  assume m: "raw_map_ok m" and new: "key_ok k" "rs \<noteq> []" "\<forall>ab \<in> set rs. proper_interval ab"
  then have ok: "bt_ok m" "bt_ok (push_ranges k rs m)"
    by (simp_all add: raw_map_ok_def push_ranges_def btree.ok_insert)
  with m new show ?thesis
    by (cases "bt_get m k") (auto simp: raw_map_ok_def push_ranges_get split: if_splits)
qed

lemma push_ranges_gtids:
  "bt_ok m \<Longrightarrow> gtids_of (push_ranges k rs m) = gtids_of m \<union> {k} \<times> interval_set rs"
  by (auto simp: gtids_of_def push_ranges_get split: option.splits if_splits)

abbreviation add_group :: "GtidMap \<Rightarrow> string \<Rightarrow> io_error + GtidMap" where
  "add_group m g \<equiv> and_then (parse_gtid_group g) (\<lambda>(key, ranges). Ok (push_ranges key ranges m))"

text \<open>The transactions one comma-separated group names.\<close>

definition group_gtids :: "string \<Rightarrow> (gtid_key \<times> nat) set" where
  "group_gtids g = (case parse_gtid_group g of Inl _ \<Rightarrow> {} | Inr (k, rs) \<Rightarrow> {k} \<times> interval_set rs)"

lemma add_groups_ok_iff:
  "is_ok (try_fold add_group m gs) \<longleftrightarrow> (\<forall>g \<in> set gs. is_ok (parse_gtid_group g))"
proof (induction gs arbitrary: m)
  case (Cons g gs)
  then show ?case by (cases "parse_gtid_group g") (auto simp: is_ok_def split: prod.splits)
qed (simp add: is_ok_def)

lemma add_groups_gtids:
  assumes "try_fold add_group m gs = Inr m'" and "raw_map_ok m" and "\<forall>g \<in> set gs. CHR '','' \<notin> set g"
  shows "raw_map_ok m' \<and> gtids_of m' = gtids_of m \<union> (\<Union>g \<in> set gs. group_gtids g)"
  using assms
proof (induction gs arbitrary: m)
  case (Cons g gs)
  from Cons.prems(1) obtain k rs where g: "parse_gtid_group g = Inr (k, rs)"
    and rest: "try_fold add_group (push_ranges k rs m) gs = Inr m'"
    by (auto simp: ok_iff split: prod.splits)
  have "raw_map_ok (push_ranges k rs m)"
    using parse_gtid_group_ok [OF g] Cons.prems by (intro push_ranges_ok) auto
  with Cons.IH [OF rest] Cons.prems have "raw_map_ok m'
      \<and> gtids_of m' = gtids_of (push_ranges k rs m) \<union> (\<Union>g \<in> set gs. group_gtids g)" by simp
  with push_ranges_gtids [of m k rs] Cons.prems(2) g show ?case
    by (auto simp: group_gtids_def raw_map_ok_def)
qed simp

definition groups_of :: "string \<Rightarrow> string list" where
  "groups_of v = filter (\<lambda>part. part \<noteq> []) (split_on CHR '','' v)"

lemma groups_of_no_comma: "g \<in> set (groups_of v) \<Longrightarrow> CHR '','' \<notin> set g"
  using split_on_parts [of g "CHR '',''" v] by (auto simp: groups_of_def)

abbreviation normalise :: "GtidMap \<Rightarrow> GtidMap" where
  "normalise \<equiv> map (\<lambda>(key, ranges). (key, merge_intervals ranges))"

lemma normalise_get: "bt_get (normalise m) k = map_option merge_intervals (bt_get m k)"
  by (induction m) (auto simp: bt_get_def)

lemma interval_set_empty_iff: "\<forall>ab \<in> set rs. proper_interval ab \<Longrightarrow> interval_set rs = {} \<longleftrightarrow> rs = []"
  by (cases rs) (auto simp: proper_interval_def)

lemma normalise_ok:
  assumes "raw_map_ok m"
  shows "gtid_map_ok (normalise m)" and "gtids_of (normalise m) = gtids_of m"
proof -
  have "map fst (normalise m) = map fst m" by (induction m) auto
  then have bt: "bt_ok (normalise m)" using assms unfolding raw_map_ok_def bt_ok_def by metis
  have entry: "key_ok k \<and> rs \<noteq> [] \<and> (\<forall>ab \<in> set rs. proper_interval ab)" if "(k, rs) \<in> set m" for k rs
    using assms that bt_ok_distinct [of m] by (auto simp: raw_map_ok_def bt_get_def)
  have "merge_intervals rs \<noteq> []" if "(k, rs) \<in> set m" for k rs
    using entry [OF that] merge_intervals_canonical(2) [of rs] interval_set_empty_iff [of rs] by auto
  with entry merge_intervals_canonical(1) bt show "gtid_map_ok (normalise m)"
    by (auto simp: gtid_map_ok_def)
  have "interval_set (merge_intervals rs) = interval_set rs" if "bt_get m k = Some rs" for k rs
    using assms that by (intro merge_intervals_canonical(2)) (auto simp: raw_map_ok_def)
  then show "gtids_of (normalise m) = gtids_of m"
    by (auto simp: gtids_of_def normalise_get)
qed

lemma parse_gtids_groups:
  "parse_gtids v = and_then (try_fold add_group [] (groups_of v)) (\<lambda>m. Ok (normalise m))"
  by (simp add: parse_gtids_def groups_of_def)

lemma parse_gtids_sound:
  assumes "parse_gtids v = Inr m"
  shows "gtid_map_ok m" and "gtids_of m = (\<Union>g \<in> set (groups_of v). group_gtids g)"
proof -
  from assms obtain raw where raw: "try_fold add_group [] (groups_of v) = Inr raw" and m: "m = normalise raw"
    by (auto simp: parse_gtids_groups ok_iff)
  have "raw_map_ok []" by (simp add: raw_map_ok_def btree.ok_empty btree.get_empty)
  from add_groups_gtids [OF raw this] groups_of_no_comma [of _ v]
  have "raw_map_ok raw" and "gtids_of raw = (\<Union>g \<in> set (groups_of v). group_gtids g)"
    by (auto simp: gtids_of_def btree.get_empty)
  with normalise_ok [of raw] m show "gtid_map_ok m"
    and "gtids_of m = (\<Union>g \<in> set (groups_of v). group_gtids g)" by simp_all
qed

lemma parse_gtids_ok_iff: "is_ok (parse_gtids v) \<longleftrightarrow> (\<forall>g \<in> set (groups_of v). is_ok (parse_gtid_group g))"
proof -
  have "is_ok (parse_gtids v) \<longleftrightarrow> is_ok (try_fold add_group [] (groups_of v))"
    by (simp add: parse_gtids_groups is_ok_def and_then_def split: sum.splits)
  then show ?thesis by (simp add: add_groups_ok_iff)
qed

section \<open>Rendering\<close>

lemma show_nat_chars: "c \<in> {CHR ''-'', CHR '':'', CHR '',''} \<Longrightarrow> c \<notin> set (show_nat n)"
  using show_nat_no_sign [of c n] by (auto simp: is_ascii_digit_def ord_def)

lemma render_interval_chars: "c \<in> {CHR '':'', CHR '',''} \<Longrightarrow> c \<notin> set (render_interval ab)"
  using show_nat_chars [of c] by (auto simp: render_interval_def)

lemma parse_u64_show: "n < 2 ^ 64 \<Longrightarrow> parse_u64 (show_nat n) = Inr n"
  by (simp add: parse_u64_def ok_or_def)

lemma split_once_show [simp]:
  "split_once CHR ''-'' (show_nat n) = None"
  "split_once CHR ''-'' (show_nat m @ CHR ''-'' # show_nat n) = Some (show_nat m, show_nat n)"
  by (simp_all add: split_once_None_iff split_once_Some_iff show_nat_chars)

lemma parse_render_interval: "proper_interval ab \<Longrightarrow> parse_interval (render_interval ab) = Inr ab"
  by (cases ab) (auto simp: parse_interval_def render_interval_def proper_interval_def parse_u64_show)

lemma all_digits_show [simp]: "all_digits (show_nat n)"
  by (simp add: all_digits_def show_nat_digits)

lemma is_gtid_interval_render: "is_gtid_interval (render_interval ab)"
  by (simp add: is_gtid_interval_def render_interval_def)

definition group_parts :: "gtid_key \<times> interval list \<Rightarrow> string list" where
  "group_parts = (\<lambda>((uuid, tag), ranges).
     uuid # (case tag of None \<Rightarrow> [] | Some t \<Rightarrow> [t]) @ map render_interval ranges)"

lemma join_with_Cons: "join_with sep (s # ss) = s @ concat (map (\<lambda>t. sep @ t) ss)"
  by (induction ss arbitrary: s) auto

lemma render_group_join: "render_group e = join_with '':'' (group_parts e)"
  by (auto simp: render_group_def group_parts_def join_with_Cons comp_def split: prod.splits option.splits)

lemma split_render_group:
  assumes "key_ok (fst e)"
  shows "split_on CHR '':'' (render_group e) = group_parts e"
  unfolding render_group_join
  using assms render_interval_chars [of "CHR '':''"] tag_no_hyphen
  by (intro split_on_join) (auto simp: group_parts_def key_ok_def split: prod.splits option.splits)

lemma render_group_no_comma: "key_ok (fst e) \<Longrightarrow> CHR '','' \<notin> set (render_group e)"
  using render_interval_chars [of "CHR '',''"] tag_no_hyphen
  by (auto simp: render_group_def key_ok_def split: prod.splits option.splits)

lemma render_group_nonempty: "key_ok (fst e) \<Longrightarrow> render_group e \<noteq> []"
  by (auto simp: render_group_def key_ok_def split: prod.splits)

lemma map_result_render: "\<forall>ab \<in> set rs. proper_interval ab \<Longrightarrow> map_result parse_interval (map render_interval rs) = Inr rs"
  by (induction rs) (auto simp: parse_render_interval)

lemma parse_render_group:
  assumes "key_ok k" and "rs \<noteq> []" and "\<forall>ab \<in> set rs. proper_interval ab"
  shows "parse_gtid_group (render_group (k, rs)) = Inr (k, rs)"
proof -
  obtain uuid tag where k: "k = (uuid, tag)" by force
  obtain r rs' where rs: "rs = r # rs'" using assms(2) by (cases rs) auto
  have "parse_gtid_key (group_parts (k, rs)) = Inr (k, map render_interval rs)"
    using assms(1) by (cases tag)
      (auto simp: k rs group_parts_def parse_gtid_key_def Let_def key_ok_def is_gtid_interval_render is_gtid_interval_tag)
  with assms show ?thesis
    by (simp add: parse_gtid_group_def split_render_group map_result_render)
qed

lemma bt_insert_last: "\<forall>a \<in> fst ` set m. a < k \<Longrightarrow> bt_insert k v m = m @ [(k, v)]"
  by (induction k v m rule: bt_insert.induct) (auto dest: order_less_imp_not_less)

lemma push_ranges_last:
  assumes "\<forall>a \<in> fst ` set m. a < k"
  shows "push_ranges k rs m = m @ [(k, rs)]"
proof -
  have "bt_get m k = None" using assms by (auto simp: bt_get_def map_of_eq_None_iff)
  with assms show ?thesis by (simp add: push_ranges_def bt_insert_last)
qed

lemma add_groups_render:
  assumes "bt_ok (m @ n)" and "\<forall>(k, rs) \<in> set n. key_ok k \<and> rs \<noteq> [] \<and> canonical_intervals rs"
  shows "try_fold add_group m (map render_group n) = Inr (m @ n)"
  using assms
proof (induction n arbitrary: m)
  case (Cons e n)
  obtain k rs where e: "e = (k, rs)" by (cases e)
  have "\<forall>a \<in> fst ` set m. a < k" using Cons.prems(1) by (auto simp: bt_ok_def e sorted_wrt_append)
  moreover have "parse_gtid_group (render_group (k, rs)) = Inr (k, rs)"
    using Cons.prems(2) by (intro parse_render_group) (auto simp: e canonical_proper)
  ultimately show ?case
    using Cons.IH [of "m @ [(k, rs)]"] Cons.prems by (simp add: e push_ranges_last)
qed simp

lemma groups_of_render:
  assumes "\<forall>(k, rs) \<in> set m. key_ok k"
  shows "groups_of (render_gtids m) = map render_group m"
proof (cases m)
  case (Cons e m')
  have "split_on CHR '','' (render_gtids m) = map render_group m"
    unfolding render_gtids_def using assms Cons
    by (intro split_on_join) (auto simp: render_group_no_comma)
  moreover have "filter (\<lambda>part. part \<noteq> []) (map render_group m) = map render_group m"
    using assms by (intro filter_True) (auto simp: render_group_nonempty)
  ultimately show ?thesis by (simp add: groups_of_def)
qed (simp add: groups_of_def render_gtids_def)

lemma parse_render_gtids:
  assumes "gtid_map_ok m"
  shows "parse_gtids (render_gtids m) = Inr m"
proof -
  have "groups_of (render_gtids m) = map render_group m"
    using assms by (intro groups_of_render) (auto simp: gtid_map_ok_def)
  moreover have "try_fold add_group [] (map render_group m) = Inr m"
    using add_groups_render [of "[]" m] assms by (simp add: gtid_map_ok_def)
  moreover have "normalise m = m"
    using assms by (intro map_idI) (auto simp: gtid_map_ok_def merge_intervals_id)
  ultimately show ?thesis by (simp add: parse_gtids_groups)
qed

section \<open>GTID sets as sets\<close>

lemma gtid_set_of_Inr: "parse_gtids v = Inr m \<Longrightarrow> gtid_set_of v = gtids_of m"
  by (simp add: gtid_set_of_def)

lemma gtids_of_slice:
  "bt_get m k = Some rs \<Longrightarrow> {n. (k, n) \<in> gtids_of m} = interval_set rs"
  "bt_get m k = None \<Longrightarrow> {n. (k, n) \<in> gtids_of m} = {}"
  by (auto simp: gtids_of_def)

lemma gtid_map_ok_get:
  "gtid_map_ok m \<Longrightarrow> bt_get m k = Some rs \<Longrightarrow> key_ok k \<and> rs \<noteq> [] \<and> canonical_intervals rs"
  by (auto simp: gtid_map_ok_def bt_get_def dest: map_of_SomeD)

lemma gtids_of_inj:
  assumes "gtid_map_ok m" and "gtid_map_ok n" and "gtids_of m = gtids_of n"
  shows "m = n"
proof (rule bt_ext)
  fix k
  have nonempty: "interval_set rs \<noteq> {}" if "gtid_map_ok m'" "bt_get m' k = Some rs" for m' rs
    using gtid_map_ok_get [OF that] interval_set_empty_iff [of rs] canonical_proper [of rs] by blast
  show "bt_get m k = bt_get n k"
    using assms nonempty [of m] nonempty [of n] gtids_of_slice [of m k] gtids_of_slice [of n k]
      gtid_map_ok_get [of m k] gtid_map_ok_get [of n k]
    by (cases "bt_get m k"; cases "bt_get n k") (auto intro: canonical_unique)
qed (use assms in \<open>simp_all add: gtid_map_ok_def\<close>)

lemma canonical_gtids_Ok:
  assumes "canonical_gtids v = Inr s"
  obtains m where "parse_gtids v = Inr m" and "gtid_map_ok m" and "s = render_gtids m" and "parse_gtids s = Inr m"
  using assms parse_gtids_sound(1) parse_render_gtids by (auto simp: canonical_gtids_def ok_iff)

lemma canonical_gtids_set:
  "canonical_gtids v = Inr s \<Longrightarrow> gtid_set_of s = gtid_set_of v \<and> canonical_gtids s = Inr s"
  by (erule canonical_gtids_Ok) (simp add: gtid_set_of_def canonical_gtids_def)

lemma canonical_gtids_eq_iff:
  assumes "canonical_gtids v = Inr s" and "canonical_gtids w = Inr t"
  shows "s = t \<longleftrightarrow> gtid_set_of v = gtid_set_of w"
  using assms
  by (elim canonical_gtids_Ok) (metis gtid_set_of_Inr gtids_of_inj Inr_inject)

lemma split_on_append_sep: "split_on c (s @ c # t) = split_on c s @ split_on c t"
  by (induction s) (auto split: list.splits)

lemma groups_of_join:
  "groups_of (join_with '','' (filter (\<lambda>part. part \<noteq> []) [l, r])) = groups_of l @ groups_of r"
  by (auto simp: groups_of_def split_on_append_sep)

lemma gtid_set_of_groups: "is_ok (parse_gtids v) \<Longrightarrow> gtid_set_of v = (\<Union>g \<in> set (groups_of v). group_gtids g)"
  by (cases "parse_gtids v") (simp_all add: gtid_set_of_def parse_gtids_sound(2))

abbreviation gtid_text :: "string option \<Rightarrow> string" where
  "gtid_text v \<equiv> (case v of None \<Rightarrow> [] | Some l \<Rightarrow> l)"

lemma merge_gtids_ok_iff:
  "is_ok (merge_gtids l r) \<longleftrightarrow> is_ok (parse_gtids (gtid_text l)) \<and> is_ok (parse_gtids r)"
proof -
  have "is_ok (canonical_gtids v) = is_ok (parse_gtids v)" for v
    by (simp add: canonical_gtids_def and_then_def is_ok_def split: sum.splits)
  then show ?thesis
    by (simp only: merge_gtids_def parse_gtids_ok_iff groups_of_join) auto
qed

lemma merge_gtids_set:
  assumes "merge_gtids l r = Inr s"
  shows "gtid_set_of s = gtid_set_of (gtid_text l) \<union> gtid_set_of r" and "canonical_gtids s = Inr s"
proof -
  let ?v = "join_with '','' (filter (\<lambda>part. part \<noteq> []) [gtid_text l, r])"
  have s: "canonical_gtids ?v = Inr s" using assms by (simp only: merge_gtids_def)
  then have "is_ok (parse_gtids ?v)" by (elim canonical_gtids_Ok) simp
  then have "gtid_set_of ?v = (\<Union>g \<in> set (groups_of (gtid_text l) @ groups_of r). group_gtids g)"
    by (simp only: gtid_set_of_groups groups_of_join)
  moreover have "is_ok (parse_gtids (gtid_text l))" "is_ok (parse_gtids r)"
    using merge_gtids_ok_iff [of l r] assms by simp_all
  ultimately have "gtid_set_of ?v = gtid_set_of (gtid_text l) \<union> gtid_set_of r"
    by (simp only: gtid_set_of_groups set_append UN_Un)
  with canonical_gtids_set [OF s] show "gtid_set_of s = gtid_set_of (gtid_text l) \<union> gtid_set_of r"
    and "canonical_gtids s = Inr s" by simp_all
qed

lemma gtids_of_single [simp]: "gtids_of [(k, [(n, n)])] = {(k, n)}"
  by (auto simp: gtids_of_def bt_get_def split: if_splits)

lemma single_map:
  assumes "gtid_map_ok m"
  shows "(\<exists>k n. m = [(k, [(n, n)])]) \<longleftrightarrow> (\<exists>k n. gtids_of m = {(k, n)})"
proof
  assume "\<exists>k n. gtids_of m = {(k, n)}"
  then obtain k n where g: "gtids_of m = {(k, n)}" by blast
  then have "(k, n) \<in> gtids_of m" by simp
  then obtain rs where rs: "bt_get m k = Some rs" "n \<in> interval_set rs" by (auto simp: gtids_of_def)
  then have "key_ok k" "proper_interval (n, n)"
    using gtid_map_ok_get [OF assms rs(1)] canonical_proper [of rs]
    by (force simp: interval_set_def proper_interval_def)+
  then have "gtid_map_ok [(k, [(n, n)])]" by (simp add: gtid_map_ok_def bt_ok_def)
  then have "m = [(k, [(n, n)])]" using assms g by (intro gtids_of_inj) simp_all
  then show "\<exists>k n. m = [(k, [(n, n)])]" by blast
qed auto

lemma canonical_single_gtid_Ok_iff:
  "canonical_single_gtid v = Inr s \<longleftrightarrow>
     (\<exists>k n. parse_gtids v = Inr [(k, [(n, n)])] \<and> s = render_gtids [(k, [(n, n)])])"
proof -
  have "\<not> (length m \<noteq> 1 \<or> (case m of [] \<Rightarrow> True
      | (k, ranges) # _ \<Rightarrow> length ranges \<noteq> 1 \<or> fst (ranges ! 0) \<noteq> snd (ranges ! 0)))
    \<longleftrightarrow> (\<exists>k n. m = [(k, [(n, n)])])" for m :: GtidMap
    by (cases m) (auto simp: length_Suc_conv)
  then show ?thesis
    by (cases "parse_gtids v") (auto simp: canonical_single_gtid_def)
qed

text \<open>Membership of one transaction.\<close>

lemma gtid_contains_single:
  assumes "canonical_single_gtid v = Inr one" and "is_ok (parse_gtids gtids)"
  shows "\<exists>k n. gtid_set_of v = {(k, n)} \<and> gtid_contains gtids one = Inr ((k, n) \<in> gtid_set_of gtids)"
proof -
  from assms(1) obtain k n where v: "parse_gtids v = Inr [(k, [(n, n)])]" and one: "one = render_gtids [(k, [(n, n)])]"
    by (auto simp: canonical_single_gtid_Ok_iff)
  then have parsed: "parse_gtids one = Inr [(k, [(n, n)])]"
    using parse_gtids_sound(1) parse_render_gtids by blast
  obtain m where m: "parse_gtids gtids = Inr m" using assms(2) by (cases "parse_gtids gtids") auto
  have "list_ex (\<lambda>(a, b). a \<le> n \<and> n \<le> b) rs \<longleftrightarrow> n \<in> interval_set rs" for rs
    by (induction rs) auto
  then have "gtid_contains gtids one = Inr ((k, n) \<in> gtid_set_of gtids)"
    by (simp add: gtid_contains_def m parsed gtid_set_of_def gtids_of_def split: option.split)
  moreover have "gtid_set_of v = {(k, n)}"
    using v by (simp add: gtid_set_of_def)
  ultimately show ?thesis by blast
qed

end
