(* ===== verification/Position.thy ===== *)
theory Position
  imports Io_Error
begin

text \<open>
  Source positions as the PostgreSQL sink reads, checks and compares them
  (\<^verbatim>\<open>crates/postgresql_15/src/checkpoint.rs\<close>): MySQL binary log file and offset, or a PostgreSQL
  log sequence number. Positions of one history are ordered strictly; the progress of a task rests
  on this order.
\<close>

datatype ordering = Less | Equal | Greater

definition cmp :: "nat \<Rightarrow> nat \<Rightarrow> ordering" where
  "cmp a b = (if a < b then Less else if a = b then Equal else Greater)"

definition ord_then :: "ordering \<Rightarrow> ordering \<Rightarrow> ordering" where
  "ord_then o1 o2 = (if o1 = Equal then o2 else o1)"

definition parse_postgresql_lsn :: "string \<Rightarrow> io_error + nat" where
  "parse_postgresql_lsn v =
     and_then (ok_or (split_once CHR ''/'' v) (Other ''invalid PostgreSQL LSN'')) (\<lambda>(upper, lower).
     and_then (ok_or (parse_hex 64 upper) ParseInt) (\<lambda>upper.
     and_then (ok_or (parse_hex 64 lower) ParseInt) (\<lambda>lower.
     if upper > 2 ^ 32 - 1 \<or> lower > 2 ^ 32 - 1 then Err (Other ''invalid PostgreSQL LSN'')
     else Ok (upper * 2 ^ 32 + lower))))"

definition validate_position :: "string \<Rightarrow> nat \<Rightarrow> io_error + unit" where
  "validate_position file position =
     (if file = [] \<or> length file > 255 \<or> \<not> is_ascii file
         \<or> list_ex (\<lambda>c. c \<in> {NUL, CHR ''/'', CHR 0x5C}) file
         \<or> \<not> (4 \<le> position \<and> position \<le> 2 ^ 32 - 1)
      then Err (Other ''invalid binlog file or position'')
      else Ok ())"

definition validate_checkpoint_position :: "string \<Rightarrow> string \<Rightarrow> nat \<Rightarrow> io_error + unit" where
  "validate_checkpoint_position mode file position =
     (if mode = ''postgresql_lsn'' then
        and_then (parse_postgresql_lsn file) (\<lambda>p.
        if p \<noteq> position then Err (Other ''PostgreSQL LSN and checkpoint position disagree'')
        else Ok ())
      else validate_position file position)"

definition split_file :: "string \<Rightarrow> io_error + string \<times> nat" where
  "split_file file =
     and_then (ok_or (rsplit_once CHR ''.'' file) (Other ''cannot compare binlog files'')) (\<lambda>(prefix, number).
     and_then (ok_or (parse_unsigned 64 number) ParseInt) (\<lambda>n. Ok (prefix, n)))"

definition compare_position :: "string \<Rightarrow> nat \<Rightarrow> string \<Rightarrow> nat \<Rightarrow> io_error + ordering" where
  "compare_position a ap b bp =
     (if a = b then Ok (cmp ap bp)
      else
        and_then (split_file a) (\<lambda>(prefix_a, number_a).
        and_then (split_file b) (\<lambda>(prefix_b, number_b).
        if prefix_a \<noteq> prefix_b then Err (Other ''binlog history prefix changed'')
        else Ok (ord_then (cmp number_a number_b) (cmp ap bp)))))"

definition compare_checkpoint_position ::
  "string option \<Rightarrow> string \<Rightarrow> nat \<Rightarrow> string \<Rightarrow> nat \<Rightarrow> io_error + ordering" where
  "compare_checkpoint_position mode a ap b bp =
     (if mode = Some ''postgresql_lsn'' then
        and_then (parse_postgresql_lsn a) (\<lambda>pa.
        if pa \<noteq> ap then Err (Other ''PostgreSQL LSN and checkpoint position disagree'')
        else and_then (parse_postgresql_lsn b) (\<lambda>pb.
        if pb \<noteq> bp then Err (Other ''PostgreSQL LSN and checkpoint position disagree'')
        else Ok (cmp ap bp)))
      else compare_position a ap b bp)"

text \<open>The bytes before and after the first zero byte of a decoded MySQL cursor.\<close>

definition file_position :: "codec \<Rightarrow> SourceCursor \<Rightarrow> io_error + string \<times> nat" where
  "file_position C cursor =
     (if sc_format cursor = ''postgresql.lsn.v1'' then
        and_then (parse_postgresql_lsn (sc_value cursor)) (\<lambda>position. Ok (sc_value cursor, position))
      else if sc_format cursor \<noteq> ''mysql.binlog.file-position.v1'' then
        Err (Other ''unsupported source cursor'')
      else
        and_then (ok_or (b64_decode C (sc_value cursor)) Base64) (\<lambda>bs.
        and_then (ok_or (split_once NUL bs) (Other ''invalid source cursor'')) (\<lambda>(file, rest).
        if \<not> valid_utf8 file then Err Utf8
        else if length rest \<noteq> 4 then Err (Other ''invalid cursor position'')
        else
          let position = be_u32 rest in
          and_then (validate_position file position) (\<lambda>_. Ok (file, position)))))"

section \<open>The order of positions\<close>

text \<open>A sequence in which every position is beyond the one before it.\<close>

fun advancing :: "('p \<Rightarrow> 'p \<Rightarrow> ordering option) \<Rightarrow> 'p list \<Rightarrow> bool" where
  "advancing c [] = True"
| "advancing c [p] = True"
| "advancing c (p # q # ps) = (c q p = Some Greater \<and> advancing c (q # ps))"

text \<open>
  An order in which two positions may be incomparable: comparable ones belong to one history and
  are ranked by it. This is what a client of positions relies on.
\<close>

locale position_order =
  fixes compare :: "'p \<Rightarrow> 'p \<Rightarrow> ordering option"
  assumes refl_equal: "compare a b \<noteq> None \<Longrightarrow> compare a a = Some Equal"
    and flip: "compare a b = Some Less \<longleftrightarrow> compare b a = Some Greater"
    and trans_greater: "compare a b = Some Greater \<Longrightarrow> compare b c = Some Greater \<Longrightarrow> compare a c = Some Greater"
begin

lemma advancing_Cons: "advancing compare (p # ps) \<longleftrightarrow> (\<forall>q \<in> set ps. compare q p = Some Greater) \<and> advancing compare ps"
proof (induction ps arbitrary: p)
  case (Cons q ps)
  then show ?case by (auto intro: trans_greater)
qed simp

lemma not_greater_self: "compare a a \<noteq> Some Greater"
  using flip [of a a] refl_equal [of a a] by auto

lemma advancing_distinct: "advancing compare ps \<Longrightarrow> distinct ps"
  by (induction ps) (auto simp: advancing_Cons not_greater_self)

text \<open>Once the sequence has moved on, every earlier position is recognised as passed.\<close>

lemma advancing_passed:
  assumes "advancing compare (ps @ [q])" and "p \<in> set ps"
  shows "compare p q = Some Less"
  using assms by (induction ps) (auto simp: advancing_Cons flip)

lemma advancing_snoc:
  "advancing compare ps \<Longrightarrow> ps \<noteq> [] \<Longrightarrow> compare r (last ps) = Some Greater \<Longrightarrow> advancing compare (ps @ [r])"
  by (induction compare ps rule: advancing.induct) auto

end

text \<open>The rank of a position: the history it belongs to, the number of its file and the offset.\<close>

definition history :: "string \<Rightarrow> string \<Rightarrow> nat \<Rightarrow> ((string + string) \<times> nat \<times> nat) option" where
  "history mode file position =
     (if mode = ''postgresql_lsn''
      then if parse_postgresql_lsn file = Inr position then Some (Inl [], 0, position) else None
      else case split_file file of
        Inr (prefix, n) \<Rightarrow> Some (Inl prefix, n, position)
      | Inl _ \<Rightarrow> Some (Inr file, 0, position))"

definition rank_cmp :: "nat \<times> nat \<Rightarrow> nat \<times> nat \<Rightarrow> ordering" where
  "rank_cmp x y = ord_then (cmp (fst x) (fst y)) (cmp (snd x) (snd y))"

definition compare_in :: "string \<Rightarrow> string \<times> nat \<Rightarrow> string \<times> nat \<Rightarrow> ordering option" where
  "compare_in mode p q =
     (case compare_checkpoint_position (Some mode) (fst p) (snd p) (fst q) (snd q) of
        Inl _ \<Rightarrow> None | Inr r \<Rightarrow> Some r)"

lemma cmp_same [simp]: "cmp a a = Equal"
  by (simp add: cmp_def)

lemma compare_in_history:
  "compare_in mode (a, ap) (b, bp) =
     (case (history mode a ap, history mode b bp) of
        (Some (h, x), Some (h', y)) \<Rightarrow> if h = h' then Some (rank_cmp x y) else None
      | _ \<Rightarrow> None)"
  by (cases "split_file a"; cases "split_file b"; cases "parse_postgresql_lsn a"; cases "parse_postgresql_lsn b")
    (auto simp: compare_in_def compare_checkpoint_position_def compare_position_def history_def rank_cmp_def ord_then_def)

lemma rank_cmp_greater: "rank_cmp x y = Greater \<longleftrightarrow> fst y < fst x \<or> fst x = fst y \<and> snd y < snd x"
  by (auto simp: rank_cmp_def ord_then_def cmp_def)

lemma rank_cmp_less: "rank_cmp x y = Less \<longleftrightarrow> fst x < fst y \<or> fst x = fst y \<and> snd x < snd y"
  by (auto simp: rank_cmp_def ord_then_def cmp_def)

lemma rank_cmp_same: "rank_cmp x x = Equal"
  by (simp add: rank_cmp_def ord_then_def)

interpretation checkpoint_order: position_order "compare_in mode" for mode
proof
  fix a b c :: "string \<times> nat"
  obtain af ap bf bp cf cp where p: "a = (af, ap)" "b = (bf, bp)" "c = (cf, cp)" by (metis surj_pair)
  show "compare_in mode a b \<noteq> None \<Longrightarrow> compare_in mode a a = Some Equal"
    by (auto simp: p compare_in_history rank_cmp_same split: option.splits)
  show "compare_in mode a b = Some Less \<longleftrightarrow> compare_in mode b a = Some Greater"
    by (auto simp: p compare_in_history rank_cmp_greater rank_cmp_less split: option.splits if_splits)
  show "compare_in mode a b = Some Greater \<Longrightarrow> compare_in mode b c = Some Greater \<Longrightarrow> compare_in mode a c = Some Greater"
    by (auto simp: p compare_in_history rank_cmp_greater split: option.splits if_splits)
qed

text \<open>A comparison that succeeds compares positions that are valid together.\<close>

lemma lsn_comparable:
  "compare_checkpoint_position (Some ''postgresql_lsn'') a ap b bp = Inr r \<Longrightarrow>
     parse_postgresql_lsn a = Inr ap \<and> parse_postgresql_lsn b = Inr bp"
  by (auto simp: compare_checkpoint_position_def ok_iff split: if_splits)

lemma parse_lsn_bound: "parse_postgresql_lsn v = Inr n \<Longrightarrow> n < 2 ^ 64"
  by (auto simp: parse_postgresql_lsn_def ok_iff split: if_splits)

lemma file_position_valid:
  assumes "file_position C cursor = Inr (file, position)"
  shows "parse_postgresql_lsn file = Inr position \<or> validate_position file position = Inr ()"
  using assms by (auto simp: file_position_def ok_iff Let_def split: if_splits)

lemma validate_position_no_slash: "validate_position file position = Inr () \<Longrightarrow> CHR ''/'' \<notin> set file"
  by (auto simp: validate_position_def list_ex_iff split: if_splits)

lemma parse_lsn_slash: "parse_postgresql_lsn file = Inr n \<Longrightarrow> CHR ''/'' \<in> set file"
  by (auto simp: parse_postgresql_lsn_def ok_iff split_once_Some_iff)

lemma parse_lsn_no_split:
  assumes "parse_postgresql_lsn file = Inr n"
  shows "CHR ''.'' \<notin> set file"
proof -
  have hex: "CHR ''.'' \<notin> set s" if "parse_hex 64 s = Some k" for s k
  proof -
    have "set s \<subseteq> insert CHR ''+'' (set (unsigned_digits s))"
      by (cases s; cases "hd s = CHR ''+'' \<and> tl s \<noteq> []") (simp_all add: unsigned_digits_def subset_insertI, blast)
    moreover have "list_all is_ascii_hexdigit (unsigned_digits s)"
      using that by (simp add: parse_hex_def Let_def split: if_splits)
    moreover have "\<not> is_ascii_hexdigit CHR ''.''" by (simp add: is_ascii_hexdigit_def is_ascii_digit_def ord_def)
    ultimately show ?thesis by (auto simp: list_all_iff)
  qed
  show ?thesis
    using assms by (auto simp: parse_postgresql_lsn_def ok_iff split_once_Some_iff dest: hex)
qed

lemma split_file_dot: "split_file file = Inr r \<Longrightarrow> CHR ''.'' \<in> set file"
  by (auto simp: split_file_def ok_iff rsplit_once_Some_iff)

text \<open>A cursor that compares with a valid checkpoint is itself valid in the mode of the checkpoint.\<close>

lemma comparable_valid:
  assumes "file_position C cursor = Inr (file, position)"
    and "validate_checkpoint_position mode b bp = Inr ()"
    and "compare_checkpoint_position (Some mode) file position b bp = Inr r"
  shows "validate_checkpoint_position mode file position = Inr ()"
proof (cases "mode = ''postgresql_lsn''")
  case True
  with assms(3) show ?thesis
    by (auto simp: validate_checkpoint_position_def dest: lsn_comparable)
next
  case False
  then have b: "validate_position b bp = Inr ()" and cmp: "compare_position file position b bp = Inr r"
    using assms(2,3) by (simp_all add: validate_checkpoint_position_def compare_checkpoint_position_def)
  have "parse_postgresql_lsn file \<noteq> Inr position"
  proof
    assume lsn: "parse_postgresql_lsn file = Inr position"
    then have "file \<noteq> b" using parse_lsn_slash validate_position_no_slash [OF b] by blast
    with cmp have "\<exists>r. split_file file = Inr r" by (auto simp: compare_position_def ok_iff)
    with lsn show False using split_file_dot parse_lsn_no_split by blast
  qed
  with assms(1) False show ?thesis
    by (auto simp: validate_checkpoint_position_def dest: file_position_valid)
qed

end
