(* ===== verification/Sql_Exec.thy ===== *)
theory Sql_Exec
  imports Io_Error Snapshot
begin

text \<open>
  Executing planned statements on a PostgreSQL connection
  (\<^verbatim>\<open>crates/postgresql_15/src/sql.rs\<close>: \<^verbatim>\<open>execute_statements\<close>, \<^verbatim>\<open>verify_carrier_readback\<close>,
  \<^verbatim>\<open>check_tables\<close>, \<^verbatim>\<open>execute_snapshot\<close>, \<^verbatim>\<open>snapshot_targets\<close>).

  The database has two parts: the progress table \<^verbatim>\<open>cdc.log_info\<close> and the business data of a type
  \<open>'d\<close>. What the server makes of one statement is the record \<open>engine\<close>, a parameter: statements with
  their bound parameters change the business data and report a row count, queries return rows. A
  connection holds the committed database, the contents seen inside the open transaction, and the
  replies that the calls to come will get: any call may be refused or lose its connection, and a
  commit may take effect although its acknowledgement is lost.
\<close>

section \<open>Connections and transactions\<close>

record log_row =
  lr_task_id :: string
  lr_source_uuid :: string
  lr_sink_uuid :: string
  lr_binding :: string
  lr_mode :: string
  lr_binlog_file :: string
  lr_binlog_position :: int
  lr_gtid_set :: "string option"
  lr_last_transaction_id :: "string option"
  lr_revision :: int
  lr_applied_transactions :: int
  lr_applied_rows :: int
  lr_phase :: string
  lr_snapshot_rows :: int
  lr_snapshot_gtids :: "string option"

record 'd sink_db =
  log_info :: "string \<Rightarrow> log_row option"
  business :: 'd

datatype reply =
    Fine
  | Refused "string option" string
  | Lost string
  | Lost_After string

record 'd conn =
  cn_committed :: "'d sink_db"
  cn_working :: "'d sink_db"
  cn_replies :: "reply list"

fun reply_error :: "reply \<Rightarrow> sqlx_error option" where
  "reply_error Fine = None"
| "reply_error (Refused code m) = Some (SE_Database code m)"
| "reply_error (Lost m) = Some (SE_Other m)"
| "reply_error (Lost_After m) = Some (SE_Other m)"

text \<open>The reply to the next call; a connection without trouble ahead has none left.\<close>

definition next_reply :: "'d conn \<Rightarrow> reply \<times> 'd conn" where
  "next_reply c =
     (case cn_replies c of
        [] \<Rightarrow> (Fine, c)
      | r # rs \<Rightarrow> (r, c\<lparr>cn_replies := rs\<rparr>))"

type_synonym ('d, 'a) db = "'d conn \<Rightarrow> (io_error + 'a) \<times> 'd conn"

definition db_return :: "'a \<Rightarrow> ('d, 'a) db" where
  "db_return x c = (Ok x, c)"

definition db_result :: "io_error + 'a \<Rightarrow> ('d, 'a) db" where
  "db_result r c = (r, c)"

definition db_then :: "('d, 'a) db \<Rightarrow> ('a \<Rightarrow> ('d, 'b) db) \<Rightarrow> ('d, 'b) db" where
  "db_then m f c = (case m c of (Inl e, c') \<Rightarrow> (Inl e, c') | (Inr x, c') \<Rightarrow> f x c')"

fun db_each :: "('a \<Rightarrow> ('d, unit) db) \<Rightarrow> 'a list \<Rightarrow> ('d, unit) db" where
  "db_each f [] = db_return ()"
| "db_each f (x # xs) = db_then (f x) (\<lambda>_. db_each f xs)"

definition db_call :: "('d sink_db \<Rightarrow> sqlx_error + 'a \<times> 'd sink_db) \<Rightarrow> ('d, 'a) db" where
  "db_call f c =
     (case next_reply c of (r, c) \<Rightarrow>
        case reply_error r of
          Some e \<Rightarrow> (Err (Sqlx e), c)
        | None \<Rightarrow>
            (case f (cn_working c) of
               Inl e \<Rightarrow> (Err (Sqlx e), c)
             | Inr (x, d) \<Rightarrow> (Ok x, c\<lparr>cn_working := d\<rparr>)))"

definition tx_begin :: "('d, unit) db" where
  "tx_begin c =
     (case next_reply c of (r, c) \<Rightarrow>
        case reply_error r of
          Some e \<Rightarrow> (Err (Sqlx e), c)
        | None \<Rightarrow> (Ok (), c\<lparr>cn_working := cn_committed c\<rparr>))"

definition tx_rollback :: "('d, unit) db" where
  "tx_rollback c =
     (case next_reply c of (r, c) \<Rightarrow>
        case reply_error r of
          Some e \<Rightarrow> (Err (Sqlx e), c)
        | None \<Rightarrow> (Ok (), c\<lparr>cn_working := cn_committed c\<rparr>))"

definition tx_commit :: "('d, unit) db" where
  "tx_commit c =
     (case next_reply c of (r, c) \<Rightarrow>
        let done = c\<lparr>cn_committed := cn_working c\<rparr> in
        case r of
          Fine \<Rightarrow> (Ok (), done)
        | Refused code m \<Rightarrow> (Err (commit_error (SE_Database code m)), c)
        | Lost m \<Rightarrow> (Err (commit_error (SE_Other m)), c)
        | Lost_After m \<Rightarrow> (Err (commit_error (SE_Other m)), done))"

section \<open>Statements\<close>

record relation =
  rel_kind :: string
  rel_persistence :: string
  rel_row_security :: bool
  rel_force_row_security :: bool

record ('d, 'p, 'r) engine =
  en_execute :: "string \<Rightarrow> 'p list \<Rightarrow> 'd \<Rightarrow> sqlx_error + nat \<times> 'd"
  en_fetch :: "string \<Rightarrow> 'p list \<Rightarrow> 'd \<Rightarrow> sqlx_error + 'r list"
  en_text :: "'r \<Rightarrow> sqlx_error + string option"
  en_bytes :: "'r \<Rightarrow> sqlx_error + bytes option"
  en_relation :: "string \<Rightarrow> string \<Rightarrow> 'd \<Rightarrow> relation option"
  en_trigger_count :: "string \<Rightarrow> string \<Rightarrow> 'd \<Rightarrow> int"
  en_foreign_keys :: "string \<Rightarrow> string \<Rightarrow> 'd \<Rightarrow> int"

record 'p PreparedQuery =
  pq_sql :: string
  pq_parameters :: "'p list"

datatype CarrierReadbackExpected =
    SqlNull bool
  | Expected_LogicalValue LogicalValue
  | Expected_SourceRepresentation bytes

record 'p CarrierReadbackCheck =
  crc_query :: "'p PreparedQuery"
  crc_column :: string
  crc_expected :: CarrierReadbackExpected

record 'p PlannedStatement =
  ps_sql :: string
  ps_diagnostic_sql :: string
  ps_parameters :: "'p list"
  ps_probe :: "'p PreparedQuery option"
  ps_verification :: "'p PreparedQuery option"
  ps_carrier_readbacks :: "'p CarrierReadbackCheck list"

record 'p SqlTransaction =
  sq_source_uuid :: string
  sq_source_transaction_id :: string
  sq_commit_cursor :: SourceCursor
  sq_target_version :: string
  sq_tables :: "(string \<times> string) list"
  sq_statements :: "'p PlannedStatement list"

record 'p SnapshotSql =
  ss_statements :: "string list"
  ss_parameters :: "'p list list"

text \<open>\<open>json_logical\<close> and \<open>json_envelope\<close> are \<^verbatim>\<open>serde_json\<close> at the two types read back.\<close>

record carrier_json =
  json_logical :: "string \<Rightarrow> LogicalValue option"
  json_envelope :: "bytes \<Rightarrow> SourceRepresentationEnvelope option"

definition quote_identifier :: "string \<Rightarrow> string" where
  "quote_identifier identifier =
     CHR 0x22 # concat (map (\<lambda>c. if c = CHR 0x22 then [CHR 0x22, CHR 0x22] else [c]) identifier) @ [CHR 0x22]"

definition qualified_table :: "string \<Rightarrow> string \<Rightarrow> string" where
  "qualified_table schema table = quote_identifier schema @ ''.'' @ quote_identifier table"

definition run_execute :: "('d, 'p, 'r) engine \<Rightarrow> string \<Rightarrow> 'p list \<Rightarrow> ('d, nat) db" where
  "run_execute E sql parameters = db_call (\<lambda>d.
     and_then (en_execute E sql parameters (business d)) (\<lambda>(n, b). Ok (n, d\<lparr>business := b\<rparr>)))"

definition run_query :: "('d \<Rightarrow> sqlx_error + 'a) \<Rightarrow> ('d, 'a) db" where
  "run_query q = db_call (\<lambda>d. and_then (q (business d)) (\<lambda>x. Ok (x, d)))"

definition run_fetch :: "('d, 'p, 'r) engine \<Rightarrow> 'p PreparedQuery \<Rightarrow> ('d, 'r list) db" where
  "run_fetch E q = run_query (en_fetch E (pq_sql q) (pq_parameters q))"

definition db_ensure :: "bool \<Rightarrow> io_error \<Rightarrow> ('d, unit) db" where
  "db_ensure ok e = db_result (require ok e)"

abbreviation sqlx :: "sqlx_error + 'a \<Rightarrow> io_error + 'a" where
  "sqlx r \<equiv> map_err Sqlx r"

definition readback_matches ::
  "codec \<Rightarrow> carrier_json \<Rightarrow> ('d, 'p, 'r) engine \<Rightarrow> 'r \<Rightarrow> CarrierReadbackExpected \<Rightarrow> io_error + bool" where
  "readback_matches C J E row expected =
     (case expected of
        SqlNull is_text \<Rightarrow>
          if is_text then and_then (sqlx (en_text E row)) (\<lambda>actual. Ok (actual = None))
          else and_then (sqlx (en_bytes E row)) (\<lambda>actual. Ok (actual = None))
      | Expected_LogicalValue v \<Rightarrow>
          and_then (sqlx (en_text E row)) (\<lambda>actual.
            Ok (Option.bind actual (json_logical J) = Some v))
      | Expected_SourceRepresentation bs \<Rightarrow>
          and_then (sqlx (en_bytes E row)) (\<lambda>actual.
            Ok (case actual of None \<Rightarrow> False
                | Some bytes \<Rightarrow>
                    (case json_envelope J bytes of None \<Rightarrow> False
                     | Some envelope \<Rightarrow> is_ok (env_validate C envelope) \<and> bytes = bs))))"

definition verify_carrier_readback ::
  "codec \<Rightarrow> carrier_json \<Rightarrow> ('d, 'p, 'r) engine \<Rightarrow> 'p CarrierReadbackCheck \<Rightarrow> ('d, unit) db" where
  "verify_carrier_readback C J E check =
     db_then (run_fetch E (crc_query check)) (\<lambda>rows.
     if length rows \<noteq> 1
     then db_result (Err (capability_failure (''carrier read-back for column '' @ crc_column check
            @ '' matched '' @ show_nat (length rows) @ '' rows; transaction rolled back'')))
     else db_then (db_result (readback_matches C J E (rows ! 0) (crc_expected check))) (\<lambda>matches.
     db_ensure matches (capability_failure (''carrier read-back for column '' @ crc_column check
       @ '' changed or invalidated its stored value; transaction rolled back''))))"

definition execute_statement ::
  "codec \<Rightarrow> carrier_json \<Rightarrow> ('d, 'p, 'r) engine \<Rightarrow> 'p PlannedStatement \<Rightarrow> ('d, unit) db" where
  "execute_statement C J E statement =
     db_then (case ps_probe statement of
                None \<Rightarrow> db_return ()
              | Some probe \<Rightarrow> db_then (run_fetch E probe) (\<lambda>rows.
                  db_ensure (length rows = 1)
                    (Other (''row locator matched '' @ show_nat (length rows) @ '' rows; transaction rolled back'')))) (\<lambda>_.
     db_then (run_execute E (ps_sql statement) (ps_parameters statement)) (\<lambda>affected.
     db_then (db_ensure (affected = 1)
       (Other (''unexpected affected row count '' @ show_nat affected @ ''; transaction rolled back''))) (\<lambda>_.
     db_then (case ps_verification statement of
                None \<Rightarrow> db_return ()
              | Some verification \<Rightarrow> db_then (run_fetch E verification) (\<lambda>rows.
                  db_ensure (length rows = 1)
                    (Other ''generated-column observation disagrees with target; transaction rolled back''))) (\<lambda>_.
     db_each (verify_carrier_readback C J E) (ps_carrier_readbacks statement)))))"

definition check_table :: "('d, 'p, 'r) engine \<Rightarrow> string \<times> string \<Rightarrow> ('d, unit) db" where
  "check_table E = (\<lambda>(schema, table).
     db_then (db_ensure (\<not> eq_ignore_ascii_case schema ''cdc'')
       (capability_failure ''cdc schema is reserved for replication control data'')) (\<lambda>_.
     db_then (run_execute E (''LOCK TABLE '' @ qualified_table schema table @ '' IN ROW EXCLUSIVE MODE'') []) (\<lambda>_.
     db_then (run_query (\<lambda>d. Ok (en_relation E schema table d))) (\<lambda>relation.
     case relation of
       None \<Rightarrow> db_result (Err (capability_failure (''target table '' @ schema @ ''.'' @ table @ '' does not exist'')))
     | Some rel \<Rightarrow>
         db_then (db_ensure (rel_kind rel = ''r'' \<and> rel_persistence rel = ''p'')
           (capability_failure (''target '' @ schema @ ''.'' @ table @ '' must be an ordinary permanent table''))) (\<lambda>_.
         db_then (db_ensure (\<not> (rel_row_security rel \<or> rel_force_row_security rel))
           (capability_failure (''target '' @ schema @ ''.'' @ table @ '' uses row-level security''))) (\<lambda>_.
         db_then (run_query (\<lambda>d. Ok (en_trigger_count E schema table d))) (\<lambda>count.
         db_ensure (count = 0)
           (capability_failure (''target '' @ schema @ ''.'' @ table @ '' has user triggers'')))))))))"

definition check_tables :: "('d, 'p, 'r) engine \<Rightarrow> (string \<times> string) list \<Rightarrow> ('d, unit) db" where
  "check_tables E tables = db_each (check_table E) tables"

definition execute_statements ::
  "codec \<Rightarrow> carrier_json \<Rightarrow> ('d, 'p, 'r) engine \<Rightarrow> 'p SqlTransaction \<Rightarrow> ('d, unit) db" where
  "execute_statements C J E plan =
     db_then (check_tables E (sq_tables plan)) (\<lambda>_.
     db_each (execute_statement C J E) (sq_statements plan))"

definition execute_snapshot :: "('d, 'p, 'r) engine \<Rightarrow> 'p SnapshotSql \<Rightarrow> ('d, unit) db" where
  "execute_snapshot E plan =
     db_each (\<lambda>(statement, parameters).
       db_then (run_execute E statement parameters) (\<lambda>affected.
       db_ensure (affected = 1)
         (Other ''snapshot INSERT affected an unexpected number of rows; rolling back'')))
       (zip (ss_statements plan) (ss_parameters plan))"

definition snapshot_target :: "('d, 'p, 'r) engine \<Rightarrow> bool \<Rightarrow> SnapshotTable \<Rightarrow> ('d, unit) db" where
  "snapshot_target E lock table =
     db_then (run_query (en_fetch E (''SELECT 1 FROM '' @ qualified_table (st_schema table) (st_table table)
       @ '' LIMIT 1'' @ (if lock then '' FOR UPDATE'' else [])) [])) (\<lambda>present.
     db_then (db_ensure (present = []) (Target_Not_Empty (st_schema table) (st_table table))) (\<lambda>_.
     db_then (run_query (\<lambda>d. Ok (en_foreign_keys E (st_schema table) (st_table table) d))) (\<lambda>foreign_keys.
     db_ensure (foreign_keys = 0)
       (capability_failure (''snapshot target '' @ st_schema table @ ''.'' @ st_table table @ '' has foreign keys'')))))"

definition snapshot_targets :: "('d, 'p, 'r) engine \<Rightarrow> SnapshotTable list \<Rightarrow> bool \<Rightarrow> ('d, unit) db" where
  "snapshot_targets E tables lock =
     db_then (db_ensure (tables \<noteq> []) (capability_failure ''snapshot scope is empty'')) (\<lambda>_.
     db_then (check_tables E (map (\<lambda>t. (st_schema t, st_table t)) tables)) (\<lambda>_.
     db_each (snapshot_target E lock) tables))"

section \<open>Statements stay inside their transaction\<close>

text \<open>Whatever the replies, a statement leaves the committed database and the progress table
  alone.\<close>

named_theorems inside_intros

definition inside :: "('d, 'a) db \<Rightarrow> bool" where
  "inside m \<longleftrightarrow>
     (\<forall>c r c'. m c = (r, c') \<longrightarrow>
        cn_committed c' = cn_committed c \<and> log_info (cn_working c') = log_info (cn_working c))"

lemma insideD:
  "inside m \<Longrightarrow> m c = (r, c') \<Longrightarrow>
     cn_committed c' = cn_committed c \<and> log_info (cn_working c') = log_info (cn_working c)"
  by (simp add: inside_def)

lemma next_reply_frame:
  "next_reply c = (r, c') \<Longrightarrow> cn_committed c' = cn_committed c \<and> cn_working c' = cn_working c"
  by (auto simp: next_reply_def split: list.splits)

lemma inside_return [inside_intros]: "inside (db_return x)"
  by (simp add: inside_def db_return_def)

lemma inside_result [inside_intros]: "inside (db_result r)"
  by (simp add: inside_def db_result_def)

lemma inside_ensure [inside_intros]: "inside (db_ensure b e)"
  unfolding db_ensure_def by (rule inside_result)

lemma inside_then [inside_intros]: "inside m \<Longrightarrow> (\<And>x. inside (f x)) \<Longrightarrow> inside (db_then m f)"
  unfolding inside_def db_then_def by (fastforce split: prod.splits sum.splits)

lemma inside_each [inside_intros]: "(\<And>x. inside (f x)) \<Longrightarrow> inside (db_each f xs)"
  by (induction xs) (simp_all add: inside_intros)

lemma inside_call:
  assumes "\<And>d x d'. f d = Inr (x, d') \<Longrightarrow> log_info d' = log_info d"
  shows "inside (db_call f)"
  using assms unfolding inside_def db_call_def
  by (fastforce split: prod.splits sum.splits option.splits dest: next_reply_frame)

lemma inside_execute [inside_intros]: "inside (run_execute E sql ps)"
  unfolding run_execute_def by (rule inside_call) (auto simp: ok_iff)

lemma inside_query [inside_intros]: "inside (run_query q)"
  unfolding run_query_def by (rule inside_call) (auto simp: ok_iff)

lemma inside_fetch [inside_intros]: "inside (run_fetch E q)"
  unfolding run_fetch_def by (rule inside_query)

lemma inside_readback [inside_intros]: "inside (verify_carrier_readback C J E check)"
  unfolding verify_carrier_readback_def by (intro inside_intros) (simp add: inside_intros)

lemma inside_statement [inside_intros]: "inside (execute_statement C J E st)"
  unfolding execute_statement_def by (intro inside_intros) (auto intro!: inside_intros split: option.split)

lemma inside_check_table [inside_intros]: "inside (check_table E t)"
  unfolding check_table_def
  by (cases t) (auto intro!: inside_intros split: option.split)

lemma inside_statements [inside_intros]: "inside (execute_statements C J E plan)"
  unfolding execute_statements_def check_tables_def by (intro inside_intros)

lemma inside_snapshot [inside_intros]: "inside (execute_snapshot E plan)"
  unfolding execute_snapshot_def by (intro inside_each) (auto intro!: inside_intros)

lemma inside_targets [inside_intros]: "inside (snapshot_targets E tables lock)"
  unfolding snapshot_targets_def check_tables_def snapshot_target_def by (intro inside_intros)

section \<open>The effect of a plan\<close>

text \<open>What the statements of a plan do to the business data when the server accepts all of them.\<close>

definition lock_effect :: "('d, 'p, 'r) engine \<Rightarrow> string \<times> string \<Rightarrow> 'd \<Rightarrow> 'd option" where
  "lock_effect E t d =
     (case en_execute E (''LOCK TABLE '' @ qualified_table (fst t) (snd t) @ '' IN ROW EXCLUSIVE MODE'') [] d of
        Inl _ \<Rightarrow> None | Inr (n, d') \<Rightarrow> Some d')"

definition row_effect :: "('d, 'p, 'r) engine \<Rightarrow> string \<Rightarrow> 'p list \<Rightarrow> 'd \<Rightarrow> 'd option" where
  "row_effect E sql parameters d =
     (case en_execute E sql parameters d of Inl _ \<Rightarrow> None | Inr (n, d') \<Rightarrow> if n = 1 then Some d' else None)"

fun effects :: "('a \<Rightarrow> 'd \<Rightarrow> 'd option) \<Rightarrow> 'a list \<Rightarrow> 'd \<Rightarrow> 'd option" where
  "effects f [] d = Some d"
| "effects f (x # xs) d = Option.bind (f x d) (effects f xs)"

definition plan_effect :: "('d, 'p, 'r) engine \<Rightarrow> 'p SqlTransaction \<Rightarrow> 'd \<Rightarrow> 'd option" where
  "plan_effect E plan d =
     Option.bind (effects (lock_effect E) (sq_tables plan) d)
       (effects (\<lambda>st. row_effect E (ps_sql st) (ps_parameters st)) (sq_statements plan))"

definition has_effect :: "('d, 'a) db \<Rightarrow> ('d \<Rightarrow> 'd option) \<Rightarrow> bool" where
  "has_effect m f \<longleftrightarrow>
     (\<forall>c x c'. m c = (Inr x, c') \<longrightarrow> f (business (cn_working c)) = Some (business (cn_working c')))"

lemma has_effectD:
  "has_effect m f \<Longrightarrow> m c = (Inr x, c') \<Longrightarrow> f (business (cn_working c)) = Some (business (cn_working c'))"
  by (simp add: has_effect_def)

lemma effect_then:
  "has_effect m f \<Longrightarrow> (\<And>x. has_effect (k x) g) \<Longrightarrow> has_effect (db_then m k) (\<lambda>d. Option.bind (f d) g)"
  unfolding has_effect_def db_then_def by (fastforce split: prod.splits sum.splits)

lemma effect_each: "(\<And>x. has_effect (k x) (f x)) \<Longrightarrow> has_effect (db_each k xs) (effects f xs)"
proof (induction xs)
  case (Cons x xs)
  then have "has_effect (db_then (k x) (\<lambda>_. db_each k xs)) (\<lambda>d. Option.bind (f x d) (effects f xs))"
    by (intro effect_then Cons.IH Cons.prems)
  then show ?case by (simp add: has_effect_def)
qed (simp add: has_effect_def db_return_def)

text \<open>Reading, checking and returning change nothing.\<close>

named_theorems pure_intros

abbreviation is_pure :: "('d, 'a) db \<Rightarrow> bool" where
  "is_pure m \<equiv> has_effect m Some"

lemma pure_result [pure_intros]: "is_pure (db_result r)" "is_pure (db_return x)" "is_pure (db_ensure b e)"
  by (simp_all add: has_effect_def db_result_def db_return_def db_ensure_def)

lemma pure_query [pure_intros]: "is_pure (run_query q)" "is_pure (run_fetch E p)"
  unfolding has_effect_def run_query_def run_fetch_def db_call_def
  by (auto simp: ok_iff split: prod.splits sum.splits option.splits dest!: next_reply_frame)

lemma pure_then [pure_intros]: "is_pure m \<Longrightarrow> (\<And>x. is_pure (k x)) \<Longrightarrow> is_pure (db_then m k)"
  using effect_then [of m Some k Some] by simp

lemma effects_Some: "effects (\<lambda>_. Some) xs d = Some d"
  by (induction xs) simp_all

lemma pure_each [pure_intros]: "(\<And>x. is_pure (k x)) \<Longrightarrow> is_pure (db_each k xs)"
  using effect_each [of k "\<lambda>_. Some" xs] by (simp add: effects_Some [abs_def])

lemma effect_after: "has_effect m f \<Longrightarrow> (\<And>x. is_pure (k x)) \<Longrightarrow> has_effect (db_then m k) f"
  using effect_then [of m f k Some] by simp

lemma effect_before: "is_pure m \<Longrightarrow> (\<And>x. has_effect (k x) f) \<Longrightarrow> has_effect (db_then m k) f"
  using effect_then [of m Some k f] by simp

lemma effect_execute:
  "run_execute E sql ps c = (Inr n, c') \<Longrightarrow>
     en_execute E sql ps (business (cn_working c)) = Inr (n, business (cn_working c'))"
  unfolding run_execute_def db_call_def
  by (auto simp: ok_iff split: prod.splits sum.splits option.splits dest!: next_reply_frame)

lemma effect_row:
  assumes "\<And>u. is_pure (k u)"
  shows "has_effect (db_then (run_execute E sql ps) (\<lambda>n. db_then (db_ensure (n = 1) (e n)) k)) (row_effect E sql ps)"
proof -
  have "row_effect E sql ps (business (cn_working c)) = Some (business (cn_working c'))"
    if run: "run_execute E sql ps c = (Inr n, d)" and rest: "db_then (db_ensure (n = 1) (e n)) k d = (Inr x, c')"
    for c c' d n x
  proof -
    have "n = 1" using rest by (auto simp: db_then_def db_ensure_def db_result_def require_def split: if_splits)
    moreover have "is_pure (db_then (db_ensure (n = 1) (e n)) k)" by (intro pure_intros assms)
    ultimately show ?thesis
      using effect_execute [OF run] rest by (auto simp: row_effect_def dest: has_effectD)
  qed
  then show ?thesis
    unfolding has_effect_def db_then_def [of "run_execute E sql ps"] by (auto split: prod.splits sum.splits)
qed

lemma effect_lock: "has_effect (check_table E t) (lock_effect E t)"
proof -
  obtain schema table where t: "t = (schema, table)" by force
  let ?sql = "''LOCK TABLE '' @ qualified_table schema table @ '' IN ROW EXCLUSIVE MODE''"
  have "has_effect (run_execute E ?sql []) (lock_effect E t)"
    by (auto simp: has_effect_def lock_effect_def t dest!: effect_execute)
  then show ?thesis
    unfolding check_table_def t prod.case
    by (intro effect_before [OF pure_result(3)] effect_after) (auto intro!: pure_intros split: option.split)
qed

lemma effect_statement:
  "has_effect (execute_statement C J E st) (row_effect E (ps_sql st) (ps_parameters st))"
proof -
  have readback: "is_pure (verify_carrier_readback C J E check)" for check
    unfolding verify_carrier_readback_def by (intro pure_intros) (simp add: pure_intros)
  show ?thesis
    unfolding execute_statement_def
    by (intro effect_before effect_row) (auto intro!: pure_intros readback split: option.split)
qed

lemma effect_statements: "has_effect (execute_statements C J E plan) (plan_effect E plan)"
  unfolding execute_statements_def check_tables_def plan_effect_def [abs_def]
  by (intro effect_then effect_each effect_lock effect_statement)

end
