(* ===== verification/Checkpoint.thy ===== *)
theory Checkpoint
  imports Gtid Position Sql_Exec
begin

text \<open>
  The checkpoint writer of the PostgreSQL sink (\<^verbatim>\<open>crates/postgresql_15/src/checkpoint.rs\<close>):
  progress is committed in the transaction that changes the business data. One definition per
  method; the writer's own fields are the record \<open>CheckpointWriter\<close>, whose connection carries the
  database and the replies to come.
\<close>

section \<open>Snapshot boundaries\<close>

text \<open>\<^verbatim>\<open>serde_json::Value\<close>; \<open>SV_Number\<close> is a number that is not a \<^verbatim>\<open>u64\<close>.\<close>

datatype SerdeValue =
    SV_Null
  | SV_Bool bool
  | SV_U64 nat
  | SV_Number string
  | SV_String string
  | SV_Array "SerdeValue list"
  | SV_Object "(string \<times> SerdeValue) list"

definition sv_get :: "SerdeValue \<Rightarrow> string \<Rightarrow> SerdeValue option" where
  "sv_get v name = (case v of SV_Object kvs \<Rightarrow> map_of kvs name | _ \<Rightarrow> None)"

definition sv_str :: "SerdeValue \<Rightarrow> string option" where
  "sv_str v = (case v of SV_String s \<Rightarrow> Some s | _ \<Rightarrow> None)"

definition sv_u64 :: "SerdeValue \<Rightarrow> nat option" where
  "sv_u64 v = (case v of SV_U64 n \<Rightarrow> Some n | _ \<Rightarrow> None)"

definition boundary_field :: "SerdeValue \<Rightarrow> string \<Rightarrow> io_error + SerdeValue" where
  "boundary_field v name = ok_or (sv_get v name) (Other (''snapshot boundary is missing '' @ name))"

definition decode_snapshot_boundary ::
  "(string \<Rightarrow> SerdeValue option) \<Rightarrow> SourceCursor \<Rightarrow> io_error + string \<times> string \<times> nat \<times> string" where
  "decode_snapshot_boundary from_str cursor =
     (if sc_format cursor \<noteq> ''mysql.snapshot-boundary.v1''
      then Err (Other ''unsupported snapshot boundary cursor'')
      else
        and_then (ok_or (from_str (sc_value cursor)) Json) (\<lambda>v.
        and_then (boundary_field v ''mode'') (\<lambda>m.
        and_then (ok_or (sv_str m) (Other ''snapshot boundary mode is not text'')) (\<lambda>mode.
        and_then (boundary_field v ''file'') (\<lambda>f.
        and_then (ok_or (sv_str f) (Other ''snapshot boundary file is not text'')) (\<lambda>file.
        and_then (boundary_field v ''position'') (\<lambda>p.
        and_then (ok_or (sv_u64 p) (Other ''snapshot boundary position is not an integer'')) (\<lambda>position.
        and_then (boundary_field v ''executed_gtids'') (\<lambda>g.
        and_then (ok_or (sv_str g) (Other ''snapshot boundary GTID set is not text'')) (\<lambda>executed_gtids.
        Ok (mode, file, position, executed_gtids)))))))))))"

section \<open>Rows and checkpoints\<close>

record ReplicationCheckpoint =
  cp_task_id :: string
  cp_source_uuid :: string
  cp_sink_uuid :: string
  cp_binding :: string
  cp_mode :: string
  cp_file :: string
  cp_position :: nat
  cp_gtid_set :: "string option"
  cp_last_transaction_id :: "string option"
  cp_revision :: nat
  cp_applied_transactions :: nat
  cp_applied_rows :: nat
  cp_phase :: string
  cp_snapshot_rows :: nat
  cp_snapshot_gtids :: "string option"

definition to_i64 :: "nat \<Rightarrow> io_error + int" where
  "to_i64 v = (if v < 2 ^ 63 then Ok (int v) else Err (Other ''checkpoint exceeds PostgreSQL bigint''))"

definition to_u64 :: "int \<Rightarrow> io_error + nat" where
  "to_u64 v = (if 0 \<le> v then Ok (nat v) else Err (Other ''negative checkpoint number''))"

definition checkpoint_from_row :: "log_row \<Rightarrow> io_error + ReplicationCheckpoint" where
  "checkpoint_from_row row =
     and_then (to_u64 (lr_binlog_position row)) (\<lambda>position.
     and_then (to_u64 (lr_revision row)) (\<lambda>revision.
     and_then (to_u64 (lr_applied_transactions row)) (\<lambda>applied_transactions.
     and_then (to_u64 (lr_applied_rows row)) (\<lambda>applied_rows.
     and_then (to_u64 (lr_snapshot_rows row)) (\<lambda>snapshot_rows.
     Ok \<lparr>cp_task_id = lr_task_id row, cp_source_uuid = lr_source_uuid row, cp_sink_uuid = lr_sink_uuid row,
         cp_binding = lr_binding row, cp_mode = lr_mode row, cp_file = lr_binlog_file row,
         cp_position = position, cp_gtid_set = lr_gtid_set row,
         cp_last_transaction_id = lr_last_transaction_id row, cp_revision = revision,
         cp_applied_transactions = applied_transactions, cp_applied_rows = applied_rows,
         cp_phase = lr_phase row, cp_snapshot_rows = snapshot_rows,
         cp_snapshot_gtids = lr_snapshot_gtids row\<rparr>)))))"

definition load :: "string \<Rightarrow> ('d, ReplicationCheckpoint option) db" where
  "load task_id =
     db_then (db_call (\<lambda>d. Ok (log_info d task_id, d))) (\<lambda>row.
     case row of
       None \<Rightarrow> db_return None
     | Some row \<Rightarrow> db_then (db_result (checkpoint_from_row row)) (\<lambda>cp. db_return (Some cp)))"

definition update_row :: "string \<Rightarrow> (log_row \<Rightarrow> sqlx_error + log_row) \<Rightarrow> ('d, unit) db" where
  "update_row task_id f = db_call (\<lambda>d.
     case log_info d task_id of
       None \<Rightarrow> Ok ((), d)
     | Some row \<Rightarrow> and_then (f row) (\<lambda>row. Ok ((), d\<lparr>log_info := (log_info d)(task_id \<mapsto> row)\<rparr>)))"

text \<open>\<^verbatim>\<open>revision=revision+1\<close> in SQL: the server refuses a result outside \<^verbatim>\<open>bigint\<close>.\<close>

definition bigint_succ :: "int \<Rightarrow> sqlx_error + int" where
  "bigint_succ n = (if n + 1 < 2 ^ 63 then Ok (n + 1) else Err (SE_Database (Some ''22003'') ''bigint out of range''))"

definition insert_row :: "log_row \<Rightarrow> ('d, unit) db" where
  "insert_row row = db_call (\<lambda>d.
     if log_info d (lr_task_id row) \<noteq> None
     then Err (SE_Database (Some ''23505'') ''duplicate key value violates unique constraint'')
     else Ok ((), d\<lparr>log_info := (log_info d)(lr_task_id row \<mapsto> row)\<rparr>))"

definition validate_identity :: "string \<Rightarrow> string \<Rightarrow> string \<Rightarrow> io_error + unit" where
  "validate_identity task source binding =
     (if task = [] \<or> length task > 128
         \<or> \<not> list_all (\<lambda>c. is_ascii_alphanumeric c \<or> c \<in> {CHR ''_'', CHR ''-''}) task
         \<or> source = [] \<or> length source > 255 \<or> \<not> is_ascii source
         \<or> length binding \<noteq> 64 \<or> \<not> list_all is_ascii_hexdigit binding
      then Err (Other ''invalid task identity or configuration binding'')
      else Ok ())"

definition mode_agrees :: "string \<Rightarrow> string option \<Rightarrow> bool" where
  "mode_agrees mode gtid_set \<longleftrightarrow>
     \<not> (mode \<notin> {''gtid'', ''binlog'', ''postgresql_lsn''}
        \<or> (mode = ''gtid'') \<noteq> (gtid_set \<noteq> None)
        \<or> (mode = ''postgresql_lsn'' \<and> gtid_set \<noteq> None))"

definition check_binding ::
  "ReplicationCheckpoint \<Rightarrow> string \<Rightarrow> string \<Rightarrow> string \<Rightarrow> io_error + unit" where
  "check_binding cp source sink binding =
     (if cp_source_uuid cp \<noteq> source \<or> cp_sink_uuid cp \<noteq> sink \<or> cp_binding cp \<noteq> binding
      then Err (Other ''saved checkpoint belongs to a different source, sink or task configuration'')
      else if cp_phase cp \<notin> {''snapshot'', ''incremental''} then Err (Other ''invalid checkpoint phase'')
      else
        and_then (validate_checkpoint_position (cp_mode cp) (cp_file cp) (cp_position cp)) (\<lambda>_.
        if \<not> mode_agrees (cp_mode cp) (cp_gtid_set cp) then Err (Other ''invalid saved checkpoint mode'')
        else Ok ()))"

section \<open>The writer\<close>

record 'd CheckpointWriter =
  wr_conn :: "'d conn"
  wr_task_id :: string
  wr_source_uuid :: string
  wr_sink_uuid :: string
  wr_binding :: string
  wr_checkpoint :: "ReplicationCheckpoint option"
  wr_observed_gtids :: "string option"
  wr_observed_position :: "(string \<times> nat) option"

record CheckpointApplyResult =
  ar_checkpoint :: ReplicationCheckpoint
  ar_statements_executed :: nat
  ar_already_applied :: bool

definition require_row :: "string \<Rightarrow> 'a option \<Rightarrow> ('d, 'a) db" where
  "require_row message x = db_result (ok_or x (Other message))"

text \<open>Opening a writer: \<open>sink_uuid\<close> is the identity the sink reports and \<open>owned\<close> whether the
  advisory lock of the task was free.\<close>

definition open_writer ::
  "'d conn \<Rightarrow> string \<Rightarrow> bool \<Rightarrow> string \<Rightarrow> string \<Rightarrow> string \<Rightarrow>
     (io_error + 'd CheckpointWriter)" where
  "open_writer conn sink_uuid owned task_id source_uuid binding =
     and_then (validate_identity task_id source_uuid binding) (\<lambda>_.
     if \<not> owned then Err (Other ''task is already owned by another writer'')
     else case load task_id (conn\<lparr>cn_working := cn_committed conn\<rparr>) of
       (Inl e, _) \<Rightarrow> Err e
     | (Inr checkpoint, conn) \<Rightarrow>
         if sink_uuid = source_uuid then Err (Other ''source and sink identities must differ'')
         else
           and_then (case checkpoint of None \<Rightarrow> Ok ()
                     | Some cp \<Rightarrow> check_binding cp source_uuid sink_uuid binding) (\<lambda>_.
           Ok \<lparr>wr_conn = conn, wr_task_id = task_id, wr_source_uuid = source_uuid,
               wr_sink_uuid = sink_uuid, wr_binding = binding, wr_checkpoint = checkpoint,
               wr_observed_gtids = None, wr_observed_position = None\<rparr>))"

definition resolve_tx ::
  "'d CheckpointWriter \<Rightarrow> string \<Rightarrow> string \<Rightarrow> nat \<Rightarrow> ('d, CommitResolution) db" where
  "resolve_tx w tid file position =
     db_then tx_begin (\<lambda>_.
     db_then (load (wr_task_id w)) (\<lambda>row.
     db_then (require_row ''cdc.log_info checkpoint is missing'' row) (\<lambda>cp.
     db_then (db_result (check_binding cp (wr_source_uuid w) (wr_sink_uuid w) (wr_binding w))) (\<lambda>_.
     if cp_last_transaction_id cp = Some tid
     then db_then tx_rollback (\<lambda>_. db_return Applied)
     else
       db_then (db_result (compare_checkpoint_position (Some (cp_mode cp)) file position (cp_file cp) (cp_position cp))) (\<lambda>order.
       db_then (db_result (if cp_mode cp = ''gtid''
         then and_then (canonical_single_gtid tid) (\<lambda>one. gtid_contains (gtid_text (cp_gtid_set cp)) one)
         else Ok False)) (\<lambda>applied_by_gtid.
       db_then tx_rollback (\<lambda>_. db_return
         (if applied_by_gtid \<or> order = Less then Applied
          else if order = Greater then NotApplied
          else Unprovable))))))))"

definition resolve_commit_unknown ::
  "codec \<Rightarrow> 'd CheckpointWriter \<Rightarrow> ChangeTransaction \<Rightarrow> (io_error + CommitResolution) \<times> 'd CheckpointWriter" where
  "resolve_commit_unknown C w tx =
     (if src_id (tx_source tx) \<noteq> wr_source_uuid w \<or> tx_id tx = []
      then (Err (Other ''commit resolution source identity mismatch''), w)
      else case file_position C (tx_commit_cursor tx) of
        Inl e \<Rightarrow> (Err e, w)
      | Inr (file, position) \<Rightarrow>
          (case resolve_tx w (tx_id tx) file position (wr_conn w) of
             (r, conn) \<Rightarrow> (r, w\<lparr>wr_conn := conn\<rparr>)))"

definition observe ::
  "codec \<Rightarrow> 'd CheckpointWriter \<Rightarrow> ChangeTransaction \<Rightarrow> io_error + 'd CheckpointWriter" where
  "observe C w tx =
     (if tx_changes tx \<noteq> [] \<or> src_id (tx_source tx) \<noteq> wr_source_uuid w
      then Err (Other ''observe requires an empty projection from this source'')
      else
        and_then (file_position C (tx_commit_cursor tx)) (\<lambda>(file, position).
        and_then (case wr_observed_position w of
                    None \<Rightarrow> Ok ()
                  | Some (old_file, old_position) \<Rightarrow>
                      and_then (compare_checkpoint_position (map_option cp_mode (wr_checkpoint w))
                                  file position old_file old_position) (\<lambda>order.
                      require (order = Greater)
                        (Other ''filtered transactions must be observed in source order''))) (\<lambda>_.
        and_then (if (case wr_checkpoint w of None \<Rightarrow> False | Some cp \<Rightarrow> cp_mode cp = ''gtid'')
                  then and_then (merge_gtids (wr_observed_gtids w) (tx_id tx)) (\<lambda>s. Ok (Some s))
                  else Ok (wr_observed_gtids w)) (\<lambda>gtids.
        Ok (w\<lparr>wr_observed_gtids := gtids, wr_observed_position := Some (file, position)\<rparr>)))))"

definition new_row :: "'d CheckpointWriter \<Rightarrow> string \<Rightarrow> string \<Rightarrow> int \<Rightarrow> string option \<Rightarrow> log_row" where
  "new_row w mode file position gtid_set =
     \<lparr>lr_task_id = wr_task_id w, lr_source_uuid = wr_source_uuid w, lr_sink_uuid = wr_sink_uuid w,
      lr_binding = wr_binding w, lr_mode = mode, lr_binlog_file = file, lr_binlog_position = position,
      lr_gtid_set = gtid_set, lr_last_transaction_id = None, lr_revision = 0,
      lr_applied_transactions = 0, lr_applied_rows = 0, lr_phase = ''incremental'',
      lr_snapshot_rows = 0, lr_snapshot_gtids = None\<rparr>"

definition store :: "'d CheckpointWriter \<Rightarrow> (io_error + ReplicationCheckpoint) \<times> 'd conn \<Rightarrow>
    (io_error + ReplicationCheckpoint) \<times> 'd CheckpointWriter" where
  "store w r =
     (case r of
        (Inl e, conn) \<Rightarrow> (Err e, w\<lparr>wr_conn := conn\<rparr>)
      | (Inr cp, conn) \<Rightarrow> (Ok cp, w\<lparr>wr_conn := conn, wr_checkpoint := Some cp\<rparr>))"

definition initialize ::
  "'d CheckpointWriter \<Rightarrow> string \<Rightarrow> string \<Rightarrow> nat \<Rightarrow> string option \<Rightarrow>
     (io_error + ReplicationCheckpoint) \<times> 'd CheckpointWriter" where
  "initialize w mode file position gtid_set =
     (case wr_checkpoint w of
        Some cp \<Rightarrow> (Ok cp, w)
      | None \<Rightarrow>
        (case and_then (validate_checkpoint_position mode file position) (\<lambda>_.
              if \<not> mode_agrees mode gtid_set then Err (Other ''checkpoint mode and GTID set disagree'')
              else case gtid_set of
                None \<Rightarrow> Ok None
              | Some g \<Rightarrow> and_then (canonical_gtids g) (\<lambda>g. Ok (Some g))) of
           Inl e \<Rightarrow> (Err e, w)
         | Inr gtids \<Rightarrow>
             store w (db_then tx_begin (\<lambda>_.
               db_then (db_result (to_i64 position)) (\<lambda>p.
               db_then (insert_row (new_row w mode file p gtids)) (\<lambda>_.
               db_then (load (wr_task_id w)) (\<lambda>row.
               db_then (require_row ''checkpoint insert failed'' row) (\<lambda>cp.
               db_then tx_commit (\<lambda>_. db_return cp)))))) (wr_conn w))))"

definition prepare_snapshot ::
  "(string \<Rightarrow> SerdeValue option) \<Rightarrow> 'd CheckpointWriter \<Rightarrow> SnapshotBoundary \<Rightarrow>
     (io_error + ReplicationCheckpoint) \<times> 'd CheckpointWriter" where
  "prepare_snapshot from_str w boundary =
     (if src_id (sbd_source boundary) \<noteq> wr_source_uuid w
      then (Err (Other ''snapshot source identity mismatch''), w)
      else case and_then (decode_snapshot_boundary from_str (sbd_cursor boundary)) (\<lambda>(mode, file, position, executed_gtids).
          and_then (validate_position file position) (\<lambda>_.
          and_then (require (mode \<in> {''gtid'', ''binlog''}) (Other ''invalid snapshot mode'')) (\<lambda>_.
          and_then (require (\<not> (case wr_checkpoint w of None \<Rightarrow> False | Some cp \<Rightarrow> cp_phase cp \<noteq> ''snapshot''))
                      (Other ''incremental checkpoint cannot be replaced by a snapshot'')) (\<lambda>_.
          and_then (canonical_gtids executed_gtids) (\<lambda>executed.
          Ok (mode, file, position, executed)))))) of
        Inl e \<Rightarrow> (Err e, w)
      | Inr (mode, file, position, executed) \<Rightarrow>
          let gtids = (if mode = ''gtid'' then Some executed else None) in
          store w (db_then tx_begin (\<lambda>_.
            db_then (load (wr_task_id w)) (\<lambda>actual.
            db_then (db_ensure (actual = wr_checkpoint w) (Other ''snapshot checkpoint changed outside its owner'')) (\<lambda>_.
            db_then (db_result (to_i64 position)) (\<lambda>p.
            db_then (if actual \<noteq> None
                     then update_row (wr_task_id w) (\<lambda>r. and_then (bigint_succ (lr_revision r)) (\<lambda>revision.
                            Ok (r\<lparr>lr_mode := mode, lr_binlog_file := file, lr_binlog_position := p,
                              lr_gtid_set := gtids, lr_snapshot_gtids := Some executed, lr_revision := revision\<rparr>)))
                     else insert_row ((new_row w mode file p gtids)\<lparr>lr_phase := ''snapshot'',
                            lr_snapshot_gtids := Some executed\<rparr>)) (\<lambda>_.
            db_then (load (wr_task_id w)) (\<lambda>row.
            db_then (require_row ''snapshot checkpoint missing'' row) (\<lambda>cp.
            db_then tx_commit (\<lambda>_. db_return cp)))))))) (wr_conn w)))"

text \<open>The loop over the batches: the table that is due and the rows so far. \<open>snapshot_sql\<close> plans a
  batch; \<open>progress\<close> is the callback.\<close>

fun copy_batches ::
  "codec \<Rightarrow> ('d, 'p, 'r) engine \<Rightarrow> (ValidatedSnapshotBatch \<Rightarrow> io_error + 'p SnapshotSql) \<Rightarrow>
     (SnapshotBatch \<Rightarrow> nat \<Rightarrow> io_error + unit) \<Rightarrow> string \<Rightarrow> SnapshotTable list \<Rightarrow> nat \<Rightarrow> nat \<Rightarrow>
     (io_error + SnapshotBatch) list \<Rightarrow> ('d, nat \<times> nat) db" where
  "copy_batches C E snapshot_sql progress source_uuid tables table_index row_count [] =
     db_return (table_index, row_count)"
| "copy_batches C E snapshot_sql progress source_uuid tables table_index row_count (b # bs) =
     db_then (db_result b) (\<lambda>batch.
     if \<not> table_index < length tables then db_result (Err (Other ''unexpected extra snapshot table''))
     else
       db_then (db_ensure (\<not> (src_id (sb_source batch) \<noteq> source_uuid
           \<or> sb_schema batch \<noteq> st_schema (tables ! table_index)
           \<or> sb_table batch \<noteq> st_table (tables ! table_index)))
         (Other ''snapshot batch identity/order mismatch'')) (\<lambda>_.
       db_then (db_result (map_err Validation (validate_snapshot C batch))) (\<lambda>validated.
       db_then (db_result (snapshot_sql validated)) (\<lambda>plan.
       db_then (execute_snapshot E plan) (\<lambda>_.
       let rows = row_count + length (sb_rows batch) in
       db_then (db_ensure (rows < 2 ^ 64) (Other ''snapshot row count overflow'')) (\<lambda>_.
       db_then (db_result (progress batch rows)) (\<lambda>_.
       copy_batches C E snapshot_sql progress source_uuid tables
         (if sb_last_in_table batch then table_index + 1 else table_index) rows bs)))))))"

definition copy_snapshot ::
  "codec \<Rightarrow> ('d, 'p, 'r) engine \<Rightarrow> (ValidatedSnapshotBatch \<Rightarrow> io_error + 'p SnapshotSql) \<Rightarrow>
     (SnapshotBatch \<Rightarrow> nat \<Rightarrow> io_error + unit) \<Rightarrow> 'd CheckpointWriter \<Rightarrow> SnapshotTable list \<Rightarrow>
     (io_error + SnapshotBatch) list \<Rightarrow> (io_error + ReplicationCheckpoint) \<times> 'd CheckpointWriter" where
  "copy_snapshot C E snapshot_sql progress w tables batches =
     (case wr_checkpoint w of
        None \<Rightarrow> (Err (Other ''snapshot was not prepared''), w)
      | Some expected \<Rightarrow>
          if cp_phase expected \<noteq> ''snapshot'' then (Err (Other ''snapshot phase required''), w)
          else
            store w (db_then tx_begin (\<lambda>_.
              db_then (load (wr_task_id w)) (\<lambda>actual.
              db_then (db_ensure (actual = Some expected) (Other ''snapshot checkpoint changed'')) (\<lambda>_.
              db_then (snapshot_targets E tables True) (\<lambda>_.
              db_then (copy_batches C E snapshot_sql progress (wr_source_uuid w) tables 0 0 batches) (\<lambda>(table_index, row_count).
              db_then (db_ensure (table_index = length tables)
                (Other ''snapshot stream ended before all tables completed'')) (\<lambda>_.
              db_then (db_result (to_i64 row_count)) (\<lambda>rows.
              db_then (update_row (wr_task_id w) (\<lambda>r. and_then (bigint_succ (lr_revision r)) (\<lambda>revision.
                Ok (r\<lparr>lr_phase := ''incremental'', lr_snapshot_rows := rows, lr_revision := revision\<rparr>)))) (\<lambda>_.
              db_then (load (wr_task_id w)) (\<lambda>row.
              db_then (require_row ''snapshot checkpoint disappeared'' row) (\<lambda>cp.
              db_then tx_commit (\<lambda>_. db_return cp))))))))))) (wr_conn w)))"

definition check_snapshot_targets ::
  "('d, 'p, 'r) engine \<Rightarrow> 'd CheckpointWriter \<Rightarrow> SnapshotTable list \<Rightarrow> (io_error + unit) \<times> 'd CheckpointWriter" where
  "check_snapshot_targets E w tables =
     (case db_then tx_begin (\<lambda>_. db_then (snapshot_targets E tables False) (\<lambda>_. tx_rollback)) (wr_conn w) of
        (r, conn) \<Rightarrow> (r, w\<lparr>wr_conn := conn\<rparr>))"

section \<open>Applying a transaction\<close>

text \<open>Whether the row already covers the transaction.\<close>

definition already_applied :: "ReplicationCheckpoint \<Rightarrow> string \<Rightarrow> ordering \<Rightarrow> io_error + bool" where
  "already_applied cp transaction_id order =
     (if cp_mode cp = ''gtid'' then
        and_then (canonical_single_gtid transaction_id) (\<lambda>one.
        and_then (gtid_contains (gtid_text (cp_gtid_set cp)) one) (\<lambda>included.
        if \<not> included \<and> order \<noteq> Greater then Err (Other ''GTID and binlog history disagree'')
        else Ok included))
      else Ok (order \<noteq> Greater))"

text \<open>Observations of filtered transactions must not run ahead of the cursor.\<close>

definition observations_behind ::
  "'d CheckpointWriter \<Rightarrow> ReplicationCheckpoint \<Rightarrow> string \<Rightarrow> nat \<Rightarrow> io_error + unit" where
  "observations_behind w cp file position =
     (case wr_observed_position w of
        None \<Rightarrow> Ok ()
      | Some (observed_file, observed_position) \<Rightarrow>
          and_then (compare_checkpoint_position (Some (cp_mode cp)) file position observed_file observed_position) (\<lambda>order.
          require (order \<noteq> Less) (Other ''cannot commit ahead-of-cursor GTID observations'')))"

text \<open>The checkpoint after a transaction of \<open>rows\<close> statements. The counters are \<^verbatim>\<open>u64\<close>; the revision is
  added with a check, the others wrap.\<close>

definition advanced ::
  "'d CheckpointWriter \<Rightarrow> ReplicationCheckpoint \<Rightarrow> string \<Rightarrow> string \<Rightarrow> nat \<Rightarrow> nat \<Rightarrow> io_error + ReplicationCheckpoint" where
  "advanced w cp transaction_id file position rows =
     and_then (if cp_mode cp = ''gtid''
               then and_then (merge_gtids (cp_gtid_set cp) (gtid_text (wr_observed_gtids w))) (\<lambda>merged.
                    and_then (merge_gtids (Some merged) transaction_id) (\<lambda>s. Ok (Some s)))
               else Ok (cp_gtid_set cp)) (\<lambda>gtids.
     if \<not> cp_revision cp + 1 < 2 ^ 64 then Err (Other ''checkpoint revision overflow'')
     else Ok (cp\<lparr>cp_gtid_set := gtids, cp_file := file, cp_position := position,
                cp_last_transaction_id := Some transaction_id, cp_revision := cp_revision cp + 1,
                cp_applied_transactions := (cp_applied_transactions cp + (if rows > 0 then 1 else 0)) mod 2 ^ 64,
                cp_applied_rows := (cp_applied_rows cp + rows) mod 2 ^ 64\<rparr>))"

definition advance_row :: "ReplicationCheckpoint \<Rightarrow> io_error + (log_row \<Rightarrow> sqlx_error + log_row)" where
  "advance_row cp =
     and_then (to_i64 (cp_position cp)) (\<lambda>position.
     and_then (to_i64 (cp_revision cp)) (\<lambda>revision.
     and_then (to_i64 (cp_applied_transactions cp)) (\<lambda>applied_transactions.
     and_then (to_i64 (cp_applied_rows cp)) (\<lambda>applied_rows.
     Ok (\<lambda>r. Ok (r\<lparr>lr_binlog_file := cp_file cp, lr_binlog_position := position, lr_gtid_set := cp_gtid_set cp,
       lr_last_transaction_id := cp_last_transaction_id cp, lr_revision := revision,
       lr_applied_transactions := applied_transactions, lr_applied_rows := applied_rows\<rparr>))))))"

text \<open>The transaction of one apply: the row is locked, checked and compared; then the statements run
  and the row moves in the same transaction.\<close>

definition apply_check ::
  "'d CheckpointWriter \<Rightarrow> ReplicationCheckpoint \<Rightarrow> string \<Rightarrow> string \<Rightarrow> nat \<Rightarrow> ('d, ReplicationCheckpoint \<times> bool) db" where
  "apply_check w expected transaction_id file position =
     db_then tx_begin (\<lambda>_.
     db_then (load (wr_task_id w)) (\<lambda>row.
     db_then (require_row ''cdc.log_info checkpoint is missing'' row) (\<lambda>cp.
     db_then (db_result (check_binding cp (wr_source_uuid w) (wr_sink_uuid w) (wr_binding w))) (\<lambda>_.
     db_then (db_ensure (cp = expected) (Other ''checkpoint changed outside this writer'')) (\<lambda>_.
     db_then (db_result (compare_checkpoint_position (Some (cp_mode cp)) file position (cp_file cp) (cp_position cp))) (\<lambda>order.
     db_then (db_result (already_applied cp transaction_id order)) (\<lambda>already.
     db_return (cp, already))))))))"

definition apply_write ::
  "codec \<Rightarrow> carrier_json \<Rightarrow> ('d, 'p, 'r) engine \<Rightarrow> 'd CheckpointWriter \<Rightarrow> ReplicationCheckpoint \<Rightarrow> string \<Rightarrow>
     string \<Rightarrow> nat \<Rightarrow> 'p SqlTransaction option \<Rightarrow> ('d, CheckpointApplyResult) db" where
  "apply_write C J E w cp transaction_id file position plan =
     db_then (db_result (observations_behind w cp file position)) (\<lambda>_.
     db_then (case plan of None \<Rightarrow> db_return () | Some p \<Rightarrow> execute_statements C J E p) (\<lambda>_.
     let rows = (case plan of None \<Rightarrow> 0 | Some p \<Rightarrow> length (sq_statements p)) in
     db_then (db_result (advanced w cp transaction_id file position rows)) (\<lambda>cp.
     db_then (db_result (advance_row cp)) (\<lambda>f.
     db_then (update_row (wr_task_id w) f) (\<lambda>_.
     db_then tx_commit (\<lambda>_. db_return
       \<lparr>ar_checkpoint = cp, ar_statements_executed = rows, ar_already_applied = False\<rparr>))))))"

definition apply_tx ::
  "codec \<Rightarrow> carrier_json \<Rightarrow> ('d, 'p, 'r) engine \<Rightarrow> 'd CheckpointWriter \<Rightarrow> ReplicationCheckpoint \<Rightarrow> string \<Rightarrow>
     string \<Rightarrow> nat \<Rightarrow> 'p SqlTransaction option \<Rightarrow> ('d, CheckpointApplyResult) db" where
  "apply_tx C J E w expected transaction_id file position plan =
     db_then (apply_check w expected transaction_id file position) (\<lambda>(cp, already).
     if already
     then db_then tx_rollback (\<lambda>_. db_return
            \<lparr>ar_checkpoint = cp, ar_statements_executed = 0, ar_already_applied = True\<rparr>)
     else apply_write C J E w cp transaction_id file position plan)"

definition apply_inner ::
  "codec \<Rightarrow> carrier_json \<Rightarrow> ('d, 'p, 'r) engine \<Rightarrow> 'd CheckpointWriter \<Rightarrow> string \<Rightarrow> string \<Rightarrow> SourceCursor \<Rightarrow>
     'p SqlTransaction option \<Rightarrow> (io_error + CheckpointApplyResult) \<times> 'd CheckpointWriter" where
  "apply_inner C J E w source_uuid transaction_id cursor plan =
     (if source_uuid \<noteq> wr_source_uuid w \<or> transaction_id = [] \<or> length transaction_id > 512
         \<or> \<not> is_ascii transaction_id
      then (Err (Other ''transaction source identity mismatch''), w)
      else if (case wr_checkpoint w of None \<Rightarrow> False | Some cp \<Rightarrow> cp_phase cp \<noteq> ''incremental'')
      then (Err (Other ''snapshot is not committed yet''), w)
      else case file_position C cursor of
        Inl e \<Rightarrow> (Err e, w)
      | Inr (file, position) \<Rightarrow>
          (case wr_checkpoint w of
             None \<Rightarrow> (Err (Other ''initialize checkpoint before apply''), w)
           | Some expected \<Rightarrow>
               (case apply_tx C J E w expected transaction_id file position plan (wr_conn w) of
                  (Inl e, conn) \<Rightarrow> (Err e, w\<lparr>wr_conn := conn\<rparr>)
                | (Inr result, conn) \<Rightarrow>
                    if ar_already_applied result then (Ok result, w\<lparr>wr_conn := conn\<rparr>)
                    else (Ok result, w\<lparr>wr_conn := conn, wr_checkpoint := Some (ar_checkpoint result),
                            wr_observed_gtids := None, wr_observed_position := None\<rparr>))))"

definition apply_plan ::
  "codec \<Rightarrow> carrier_json \<Rightarrow> ('d, 'p, 'r) engine \<Rightarrow> 'd CheckpointWriter \<Rightarrow> 'p SqlTransaction \<Rightarrow>
     (io_error + CheckpointApplyResult) \<times> 'd CheckpointWriter" where
  "apply_plan C J E w plan =
     apply_inner C J E w (sq_source_uuid plan) (sq_source_transaction_id plan) (sq_commit_cursor plan) (Some plan)"

definition advance ::
  "codec \<Rightarrow> carrier_json \<Rightarrow> ('d, 'p, 'r) engine \<Rightarrow> 'd CheckpointWriter \<Rightarrow> ChangeTransaction \<Rightarrow>
     (io_error + CheckpointApplyResult) \<times> 'd CheckpointWriter" where
  "advance C J E w tx =
     (if tx_changes tx \<noteq> [] then (Err (Other ''advance requires an empty route projection''), w)
      else apply_inner C J E w (src_id (tx_source tx)) (tx_id tx) (tx_commit_cursor tx) None)"

end
