(* ===== verification/Checkpoint_Spec.thy ===== *)
theory Checkpoint_Spec
  imports Checkpoint
begin

text \<open>
  What the checkpoint writer guarantees: data and progress move together or not at all, whatever
  the connection does; positions of committed transactions strictly increase; an unknown commit is
  resolved correctly; a snapshot is copied as a whole.
\<close>

section \<open>The calls of the connection\<close>

lemma db_thenE:
  assumes "db_then m f c = (r, c')"
  obtains (err) e where "m c = (Inl e, c')" and "r = Inl e"
    | (ok) x c1 where "m c = (Inr x, c1)" and "f x c1 = (r, c')"
  using assms by (auto simp: db_then_def split: prod.splits sum.splits)

lemma db_then_Ok_iff:
  "db_then m f c = (Inr y, c') \<longleftrightarrow> (\<exists>x c1. m c = (Inr x, c1) \<and> f x c1 = (Inr y, c'))"
  by (auto simp: db_then_def split: prod.splits sum.splits)

lemma db_result_iff [simp]: "db_result r c = (r', c') \<longleftrightarrow> r' = r \<and> c' = c"
  by (auto simp: db_result_def)

lemma db_return_iff [simp]: "db_return x c = (r, c') \<longleftrightarrow> r = Inr x \<and> c' = c"
  by (auto simp: db_return_def)

lemma db_ensure_iff [simp]: "db_ensure b e c = (r, c') \<longleftrightarrow> r = (if b then Inr () else Inl e) \<and> c' = c"
  by (auto simp: db_ensure_def require_def)

lemma db_then_assoc: "db_then (db_then m f) g = db_then m (\<lambda>x. db_then (f x) g)"
  by (auto simp: db_then_def fun_eq_iff split: prod.split sum.split)

lemma db_then_return: "db_then (db_return x) f = f x"
  by (simp add: db_then_def db_return_def fun_eq_iff)

lemma db_then_return_right: "db_then m db_return = m"
  by (auto simp: db_then_def db_return_def fun_eq_iff split: prod.split sum.split)

text \<open>A computation that never commits.\<close>

definition uncommitting :: "('d, 'a) db \<Rightarrow> bool" where
  "uncommitting m \<longleftrightarrow> (\<forall>c r c'. m c = (r, c') \<longrightarrow> cn_committed c' = cn_committed c)"

named_theorems uncommitting_intros

lemma uncommittingD: "uncommitting m \<Longrightarrow> m c = (r, c') \<Longrightarrow> cn_committed c' = cn_committed c"
  by (simp add: uncommitting_def)

lemma inside_uncommitting: "inside m \<Longrightarrow> uncommitting m"
  by (simp add: inside_def uncommitting_def)

lemma uncommitting_then [uncommitting_intros]:
  "uncommitting m \<Longrightarrow> (\<And>x. uncommitting (f x)) \<Longrightarrow> uncommitting (db_then m f)"
  unfolding uncommitting_def by (auto elim!: db_thenE)

lemma uncommitting_call [uncommitting_intros]: "uncommitting (db_call f)"
  by (auto simp: uncommitting_def db_call_def split: prod.splits option.splits sum.splits dest!: next_reply_frame)

lemma uncommitting_tx [uncommitting_intros]: "uncommitting tx_begin" "uncommitting tx_rollback"
  by (auto simp: uncommitting_def tx_begin_def tx_rollback_def split: prod.splits option.splits dest!: next_reply_frame)

lemma uncommitting_pure [uncommitting_intros]:
  "uncommitting (db_result r)" "uncommitting (db_return x)" "uncommitting (db_ensure b e)" "uncommitting (require_row m y)"
  by (simp_all add: uncommitting_def require_row_def)

lemma uncommitting_rows [uncommitting_intros]: "uncommitting (update_row t g)" "uncommitting (insert_row row)"
  unfolding update_row_def insert_row_def by (rule uncommitting_call)+

lemma uncommitting_load [uncommitting_intros]: "uncommitting (load t)"
  unfolding load_def by (rule uncommitting_then) (auto intro!: uncommitting_intros split: option.split)

lemmas uncommitting_inside [uncommitting_intros] =
  inside_statements [THEN inside_uncommitting] inside_snapshot [THEN inside_uncommitting]
  inside_targets [THEN inside_uncommitting]

lemma tx_begin_Ok: "tx_begin c = (Inr u, c') \<Longrightarrow> cn_working c' = cn_committed c \<and> cn_committed c' = cn_committed c"
  by (auto simp: tx_begin_def split: prod.splits option.splits dest!: next_reply_frame)

lemma db_call_Ok:
  "db_call f c = (Inr x, c') \<Longrightarrow> f (cn_working c) = Inr (x, cn_working c') \<and> cn_committed c' = cn_committed c"
  by (auto simp: db_call_def split: prod.splits option.splits sum.splits dest!: next_reply_frame)

definition stored :: "'d sink_db \<Rightarrow> string \<Rightarrow> ReplicationCheckpoint \<Rightarrow> bool" where
  "stored d task cp \<longleftrightarrow> (\<exists>row. log_info d task = Some row \<and> checkpoint_from_row row = Inr cp)"

lemma stored_unique: "stored d task cp \<Longrightarrow> stored d task cp' \<Longrightarrow> cp' = cp"
  by (auto simp: stored_def)

lemma load_Ok:
  assumes "load t c = (Inr x, c')"
  shows "cn_working c' = cn_working c \<and> cn_committed c' = cn_committed c
    \<and> (case x of None \<Rightarrow> log_info (cn_working c) t = None | Some cp \<Rightarrow> stored (cn_working c) t cp)"
  using assms
  by (auto simp: load_def db_then_Ok_iff stored_def split: option.splits dest!: db_call_Ok)

lemma update_row_Ok:
  assumes "update_row t f c = (Inr u, c')"
  shows "cn_committed c' = cn_committed c \<and>
    (case log_info (cn_working c) t of
       None \<Rightarrow> cn_working c' = cn_working c
     | Some row \<Rightarrow> \<exists>row'. f row = Inr row'
         \<and> cn_working c' = (cn_working c)\<lparr>log_info := (log_info (cn_working c))(t \<mapsto> row')\<rparr>)"
  using assms by (auto simp: update_row_def ok_iff split: option.splits dest!: db_call_Ok)

lemma tx_commit_cases:
  assumes "tx_commit c = (r, c')"
  obtains (committed) "r = Inr ()" and "cn_committed c' = cn_working c"
    | (not_committed) e where "r = Inl e" and "cn_committed c' = cn_committed c"
    | (unknown) m where "r = Inl (Commit_Unknown m)" and "cn_committed c' = cn_working c"
  using assms
  by (auto simp: tx_commit_def Let_def commit_error_def split: prod.splits reply.splits dest!: next_reply_frame)

text \<open>A transaction that ends in its commit: it has no effect, or it got through all its checks and its
  contents are committed.\<close>

lemma commit_last:
  assumes "db_then pre (\<lambda>x. db_then tx_commit (\<lambda>_. db_return (g x))) c = (r, c')" and "uncommitting pre"
  obtains (unchanged) "cn_committed c' = cn_committed c" and "\<forall>y. r \<noteq> Inr y"
    | (committed) x c2 where "pre c = (Inr x, c2)" and "cn_committed c2 = cn_committed c"
      and "cn_committed c' = cn_working c2" and "r = Inr (g x) \<or> (\<exists>m. r = Inl (Commit_Unknown m))"
  using assms(1)
proof (cases rule: db_thenE)
  case (err e)
  then show ?thesis using unchanged assms(2) by (auto dest: uncommittingD)
next
  case (ok x c2)
  have same: "cn_committed c2 = cn_committed c" using ok(1) assms(2) by (auto dest: uncommittingD)
  obtain q where q: "tx_commit c2 = (q, c')" and r: "r = (case q of Inl e \<Rightarrow> Inl e | Inr _ \<Rightarrow> Inr (g x))"
    using ok(2) by (elim db_thenE) auto
  from q show ?thesis
    by (cases rule: tx_commit_cases) (use r same ok(1) in \<open>auto intro: unchanged committed\<close>)
qed

section \<open>Applying\<close>

lemma apply_check_uncommitting: "uncommitting (apply_check w expected tid file position)"
  unfolding apply_check_def by (intro uncommitting_intros)

lemma apply_check_Ok:
  assumes "apply_check w expected tid file position c = (Inr (cp, already), c')"
  shows "cn_committed c' = cn_committed c" and "cn_working c' = cn_committed c" and "cp = expected"
    and "stored (cn_committed c) (wr_task_id w) cp"
    and "check_binding cp (wr_source_uuid w) (wr_sink_uuid w) (wr_binding w) = Inr ()"
    and "\<exists>order. compare_checkpoint_position (Some (cp_mode cp)) file position (cp_file cp) (cp_position cp) = Inr order
      \<and> already_applied cp tid order = Inr already"
  using assms
  by (auto simp: apply_check_def db_then_Ok_iff require_row_def ok_iff split: if_splits
      dest!: tx_begin_Ok load_Ok sym [of _ "compare_checkpoint_position _ _ _ _ _"]
        sym [of _ "already_applied _ _ _"] sym [of _ "check_binding _ _ _ _"] sym [of _ "ok_or _ _"])

text \<open>The row that a successful write stores is the advanced checkpoint.\<close>

lemma checkpoint_from_row_bounds:
  "checkpoint_from_row row = Inr cp \<Longrightarrow>
     int (cp_position cp) = lr_binlog_position row \<and> int (cp_revision cp) = lr_revision row
     \<and> int (cp_applied_transactions cp) = lr_applied_transactions row
     \<and> int (cp_applied_rows cp) = lr_applied_rows row \<and> int (cp_snapshot_rows cp) = lr_snapshot_rows row"
  by (auto simp: checkpoint_from_row_def to_u64_def ok_iff split: if_splits)

lemma advanced_fields:
  assumes "advanced w cp tid file position rows = Inr cp'"
  obtains gtids at ar where
    "cp' = cp\<lparr>cp_gtid_set := gtids, cp_file := file, cp_position := position,
       cp_last_transaction_id := Some tid, cp_revision := cp_revision cp + 1,
       cp_applied_transactions := at, cp_applied_rows := ar\<rparr>"
proof -
  from assms obtain gtids where
    "(if \<not> cp_revision cp + 1 < 2 ^ 64 then Err (Other ''checkpoint revision overflow'')
      else Ok (cp\<lparr>cp_gtid_set := gtids, cp_file := file, cp_position := position,
        cp_last_transaction_id := Some tid, cp_revision := cp_revision cp + 1,
        cp_applied_transactions := (cp_applied_transactions cp + (if rows > 0 then 1 else 0)) mod 2 ^ 64,
        cp_applied_rows := (cp_applied_rows cp + rows) mod 2 ^ 64\<rparr>)) = Inr cp'"
    unfolding advanced_def and_then_Ok_iff by blast
  then show ?thesis
    by (cases "cp_revision cp + 1 < 2 ^ 64") (auto intro: that)
qed

lemma advance_row_fields:
  assumes "advance_row cp = Inr f"
  shows "f row = Inr (row\<lparr>lr_binlog_file := cp_file cp, lr_binlog_position := int (cp_position cp),
    lr_gtid_set := cp_gtid_set cp, lr_last_transaction_id := cp_last_transaction_id cp,
    lr_revision := int (cp_revision cp), lr_applied_transactions := int (cp_applied_transactions cp),
    lr_applied_rows := int (cp_applied_rows cp)\<rparr>)"
  using assms by (auto simp: advance_row_def to_i64_def ok_iff split: if_splits)

lemma to_u64_int [simp]: "to_u64 (int n) = Inr n" "to_u64 (1 + int n) = Inr (Suc n)"
  by (simp_all add: to_u64_def nat_add_distrib)

lemma advance_row_stores:
  assumes row: "checkpoint_from_row row = Inr cp" and adv: "advanced w cp tid file position rows = Inr cp'"
    and f: "advance_row cp' = Inr f" and row': "f row = Inr row'"
  shows "checkpoint_from_row row' = Inr cp'"
proof -
  obtain gtids at ar where cp': "cp' = cp\<lparr>cp_gtid_set := gtids, cp_file := file, cp_position := position,
       cp_last_transaction_id := Some tid, cp_revision := cp_revision cp + 1,
       cp_applied_transactions := at, cp_applied_rows := ar\<rparr>"
    using adv by (rule advanced_fields)
  from row obtain sr where "to_u64 (lr_snapshot_rows row) = Inr sr"
    and "cp_snapshot_rows cp = sr \<and> cp_task_id cp = lr_task_id row \<and> cp_source_uuid cp = lr_source_uuid row
      \<and> cp_sink_uuid cp = lr_sink_uuid row \<and> cp_binding cp = lr_binding row \<and> cp_mode cp = lr_mode row
      \<and> cp_phase cp = lr_phase row \<and> cp_snapshot_gtids cp = lr_snapshot_gtids row"
    by (auto simp: checkpoint_from_row_def ok_iff)
  with row' [unfolded advance_row_fields [OF f]] show ?thesis
    unfolding checkpoint_from_row_def by (cases cp) (auto simp: cp')
qed

definition executed :: "('d, 'p, 'r) engine \<Rightarrow> 'p SqlTransaction option \<Rightarrow> 'd \<Rightarrow> 'd \<Rightarrow> bool" where
  "executed E plan b b' \<longleftrightarrow> (case plan of None \<Rightarrow> b' = b | Some p \<Rightarrow> plan_effect E p b = Some b')"

definition row_count :: "'p SqlTransaction option \<Rightarrow> nat" where
  "row_count plan = (case plan of None \<Rightarrow> 0 | Some p \<Rightarrow> length (sq_statements p))"

text \<open>One committed step: the data and the row of this task move together, and nothing else.\<close>

definition moved ::
  "('d, 'p, 'r) engine \<Rightarrow> 'd CheckpointWriter \<Rightarrow> ReplicationCheckpoint \<Rightarrow> string \<Rightarrow> string \<Rightarrow> nat \<Rightarrow> 'p SqlTransaction option \<Rightarrow>
     ReplicationCheckpoint \<Rightarrow> 'd sink_db \<Rightarrow> 'd sink_db \<Rightarrow> bool" where
  "moved E w cp tid file position plan cp' d d' \<longleftrightarrow>
     advanced w cp tid file position (row_count plan) = Inr cp'
     \<and> stored d' (wr_task_id w) cp'
     \<and> (\<forall>t. t \<noteq> wr_task_id w \<longrightarrow> log_info d' t = log_info d t)
     \<and> executed E plan (business d) (business d')"

lemma apply_write_cases:
  assumes "apply_write C J E w cp tid file position plan c = (r, c')"
    and "stored (cn_working c) (wr_task_id w) cp"
  shows "cn_committed c' = cn_committed c \<and> (\<forall>x. r \<noteq> Inr x)
    \<or> (\<exists>cp'. moved E w cp tid file position plan cp' (cn_working c) (cn_committed c')
        \<and> observations_behind w cp file position = Inr ()
        \<and> (r = Inr \<lparr>ar_checkpoint = cp', ar_statements_executed = row_count plan, ar_already_applied = False\<rparr>
            \<or> (\<exists>m. r = Inl (Commit_Unknown m))))"
proof -
  from assms(2) obtain row where row: "log_info (cn_working c) (wr_task_id w) = Some row" "checkpoint_from_row row = Inr cp"
    by (auto simp: stored_def)
  let ?exec = "case plan of None \<Rightarrow> db_return () | Some p \<Rightarrow> execute_statements C J E p"
  let ?result = "\<lambda>cp'. \<lparr>ar_checkpoint = cp', ar_statements_executed = row_count plan, ar_already_applied = False\<rparr>"
  have inside: "inside ?exec" by (auto intro: inside_intros split: option.split)
  let ?pre = "db_then (db_result (observations_behind w cp file position)) (\<lambda>_. db_then ?exec (\<lambda>_.
    db_then (db_result (advanced w cp tid file position (row_count plan))) (\<lambda>cp'.
    db_then (db_result (advance_row cp')) (\<lambda>f. db_then (update_row (wr_task_id w) f) (\<lambda>_. db_return cp')))))"
  have "apply_write C J E w cp tid file position plan
      = db_then ?pre (\<lambda>cp'. db_then tx_commit (\<lambda>_. db_return (?result cp')))"
    by (simp add: apply_write_def Let_def row_count_def db_then_assoc db_then_return)
  with assms(1) have "db_then ?pre (\<lambda>cp'. db_then tx_commit (\<lambda>_. db_return (?result cp'))) c = (r, c')" by simp
  moreover have "uncommitting ?pre" by (intro uncommitting_intros inside_uncommitting [OF inside])
  ultimately show ?thesis
  proof (cases rule: commit_last)
    case (committed cp' c2)
    from committed(1) obtain c1 f where obs: "observations_behind w cp file position = Inr ()"
      and ex: "?exec c = (Inr (), c1)"
      and adv: "advanced w cp tid file position (row_count plan) = Inr cp'" and f: "advance_row cp' = Inr f"
      and upd: "update_row (wr_task_id w) f c1 = (Inr (), c2)"
      by (auto simp: db_then_Ok_iff dest!: sym [of "Inr _"])
    note frame = insideD [OF inside ex]
    have log: "log_info (cn_working c1) (wr_task_id w) = Some row" using frame row by simp
    from update_row_Ok [OF upd] log obtain row' where f': "f row = Inr row'"
      and work: "cn_working c2 = (cn_working c1)\<lparr>log_info := (log_info (cn_working c1))(wr_task_id w \<mapsto> row')\<rparr>"
      by auto
    have "executed E plan (business (cn_working c)) (business (cn_working c1))"
      using ex by (cases plan) (auto simp: executed_def dest: has_effectD [OF effect_statements])
    then have "moved E w cp tid file position plan cp' (cn_working c) (cn_working c2)"
      using adv advance_row_stores [OF row(2) adv f f'] frame
      by (simp add: moved_def stored_def work)
    with committed(3,4) obs show ?thesis by auto
  qed simp
qed

text \<open>
  Whatever the connection does, one apply either leaves the committed database as it was, or makes
  one step from the stored checkpoint to a position beyond it. The result tells which, unless the
  commit was lost.
\<close>

definition fresh :: "ReplicationCheckpoint \<Rightarrow> string \<Rightarrow> string \<Rightarrow> nat \<Rightarrow> bool" where
  "fresh cp tid file position \<longleftrightarrow>
     compare_checkpoint_position (Some (cp_mode cp)) file position (cp_file cp) (cp_position cp) = Inr Greater
     \<and> (cp_mode cp = ''gtid'' \<longrightarrow> (\<exists>one. canonical_single_gtid tid = Inr one
          \<and> gtid_contains (gtid_text (cp_gtid_set cp)) one = Inr False))"

lemma already_applied_False: "already_applied cp tid order = Inr False \<Longrightarrow>
    order = Greater \<and> (cp_mode cp = ''gtid'' \<longrightarrow> (\<exists>one. canonical_single_gtid tid = Inr one
      \<and> gtid_contains (gtid_text (cp_gtid_set cp)) one = Inr False))"
  by (auto simp: already_applied_def ok_iff split: if_splits)

lemma apply_inner_cases:
  assumes "apply_inner C J E w source tid cursor plan = (r, w')"
  obtains (unchanged) "cn_committed (wr_conn w') = cn_committed (wr_conn w)"
      and "\<forall>res. r = Inr res \<longrightarrow> ar_already_applied res"
    | (stepped) expected cp' fl position where "wr_checkpoint w = Some expected"
      and "stored (cn_committed (wr_conn w)) (wr_task_id w) expected"
      and "check_binding expected (wr_source_uuid w) (wr_sink_uuid w) (wr_binding w) = Inr ()"
      and "cp_phase expected = ''incremental''" and "source = wr_source_uuid w"
      and "tid \<noteq> []" and "file_position C cursor = Inr (fl, position)" and "fresh expected tid fl position"
      and "observations_behind w expected fl position = Inr ()"
      and "moved E w expected tid fl position plan cp' (cn_committed (wr_conn w)) (cn_committed (wr_conn w'))"
      and "r = Inr \<lparr>ar_checkpoint = cp', ar_statements_executed = row_count plan, ar_already_applied = False\<rparr>
        \<or> (\<exists>m. r = Inl (Commit_Unknown m))"
proof (cases "source \<noteq> wr_source_uuid w \<or> tid = [] \<or> length tid > 512 \<or> \<not> is_ascii tid
    \<or> (case wr_checkpoint w of None \<Rightarrow> True | Some cp \<Rightarrow> cp_phase cp \<noteq> ''incremental'')
    \<or> (\<exists>e. file_position C cursor = Inl e)")
  case True
  with assms have "w' = w \<and> (\<exists>e. r = Inl e)"
    by (auto simp: apply_inner_def split: if_splits option.splits sum.splits prod.splits)
  then show ?thesis using unchanged by auto
next
  case False
  then obtain expected fl position where ex: "wr_checkpoint w = Some expected" "cp_phase expected = ''incremental''"
    and pos: "file_position C cursor = Inr (fl, position)"
    by (cases "file_position C cursor") (auto split: option.splits)
  let ?c = "wr_conn w"
  obtain q c' where q: "apply_tx C J E w expected tid fl position plan ?c = (q, c')" by force
  have w': "cn_committed (wr_conn w') = cn_committed c'" "r = q"
    using assms False ex pos q by (auto simp: apply_inner_def split: sum.splits if_splits)
  from q [unfolded apply_tx_def] show ?thesis
  proof (cases rule: db_thenE)
    case (err e)
    then have "cn_committed c' = cn_committed (wr_conn w)"
      by (intro uncommittingD [OF apply_check_uncommitting])
    with err w' show ?thesis by (intro unchanged) simp_all
  next
    case (ok x c1)
    obtain cp already where x: "x = (cp, already)" by force
    note check = apply_check_Ok [OF ok(1) [unfolded x]]
    show ?thesis
    proof (cases already)
      case True
      have "uncommitting (db_then tx_rollback (\<lambda>_. db_return \<lparr>ar_checkpoint = cp, ar_statements_executed = 0, ar_already_applied = True\<rparr>))"
        by (intro uncommitting_intros)
      with True ok(2) x check(1) w' have "cn_committed (wr_conn w') = cn_committed (wr_conn w)"
        by (auto dest: uncommittingD)
      moreover have "\<forall>res. r = Inr res \<longrightarrow> ar_already_applied res"
        using True ok(2) x w' by (auto simp: db_then_Ok_iff)
      ultimately show ?thesis by (rule unchanged)
    next
      case fresh: False
      have wrote: "apply_write C J E w expected tid fl position plan c1 = (q, c')"
        using ok(2) x fresh check(3) by simp
      have store: "stored (cn_working c1) (wr_task_id w) expected" using check(2-4) by simp
      have "fresh expected tid fl position"
        using check(3,6) fresh already_applied_False by (auto simp: fresh_def)
      then show ?thesis
        using apply_write_cases [OF wrote store] check w' ex pos False
        by (auto intro: unchanged stepped)
    qed
  qed
qed

section \<open>Every operation of the writer\<close>

text \<open>Once the row of a task is incremental, only an apply changes the committed database.\<close>

definition incremental_at :: "'d sink_db \<Rightarrow> string \<Rightarrow> ReplicationCheckpoint \<Rightarrow> bool" where
  "incremental_at d task cp \<longleftrightarrow> stored d task cp \<and> cp_phase cp = ''incremental''"

lemma initialize_incremental:
  assumes "initialize w mode fl position gtids = (r, w')"
    and "stored (cn_committed (wr_conn w)) (wr_task_id w) cp"
  shows "cn_committed (wr_conn w') = cn_committed (wr_conn w)"
proof -
  let ?pre = "\<lambda>gtids. db_then tx_begin (\<lambda>_. db_then (db_result (to_i64 position)) (\<lambda>p.
    db_then (insert_row (new_row w mode fl p gtids)) (\<lambda>_. db_then (load (wr_task_id w)) (\<lambda>row.
    require_row ''checkpoint insert failed'' row))))"
  have "cn_committed c' = cn_committed (wr_conn w)"
    if tx: "db_then (?pre gtids) (\<lambda>cp. db_then tx_commit (\<lambda>_. db_return cp)) (wr_conn w) = (q, c')" for gtids q c'
  proof -
    have "uncommitting (?pre gtids)" by (intro uncommitting_intros)
    with tx show ?thesis
    proof (cases rule: commit_last)
      case (committed x c2)
      then obtain c1 c3 p where "tx_begin (wr_conn w) = (Inr (), c1)"
        and "insert_row (new_row w mode fl p gtids) c1 = (Inr (), c3)"
        by (auto simp: db_then_Ok_iff)
      then show ?thesis using assms(2)
        by (auto simp: insert_row_def new_row_def stored_def split: if_splits dest!: tx_begin_Ok db_call_Ok)
    qed simp
  qed
  with assms(1) show ?thesis
    by (auto simp: initialize_def store_def db_then_assoc split: option.splits sum.splits prod.splits)
qed

lemma require_row_Ok [simp]: "require_row m x c = (Inr y, c') \<longleftrightarrow> x = Some y \<and> c' = c"
  by (cases x) (auto simp: require_row_def ok_or_def)

lemma prepare_snapshot_cases:
  assumes "prepare_snapshot from_str w boundary = (r, w')"
  obtains "cn_committed (wr_conn w') = cn_committed (wr_conn w)"
    | "wr_checkpoint w = None" and "log_info (cn_committed (wr_conn w)) (wr_task_id w) = None"
    | cp where "stored (cn_committed (wr_conn w)) (wr_task_id w) cp" and "cp_phase cp = ''snapshot''"
proof -
  let ?row = "\<lambda>mode fl gtids executed p actual. if actual \<noteq> None
     then update_row (wr_task_id w) (\<lambda>r. and_then (bigint_succ (lr_revision r)) (\<lambda>revision.
            Ok (r\<lparr>lr_mode := mode, lr_binlog_file := fl, lr_binlog_position := p,
              lr_gtid_set := gtids, lr_snapshot_gtids := Some executed, lr_revision := revision\<rparr>)))
     else insert_row ((new_row w mode fl p gtids)\<lparr>lr_phase := ''snapshot'', lr_snapshot_gtids := Some executed\<rparr>)"
  let ?pre = "\<lambda>mode fl position gtids executed. db_then tx_begin (\<lambda>_. db_then (load (wr_task_id w)) (\<lambda>actual.
    db_then (db_ensure (actual = wr_checkpoint w) (Other ''snapshot checkpoint changed outside its owner'')) (\<lambda>_.
    db_then (db_result (to_i64 position)) (\<lambda>p. db_then (?row mode fl gtids executed p actual) (\<lambda>_.
    db_then (load (wr_task_id w)) (\<lambda>row. require_row ''snapshot checkpoint missing'' row))))))"
  have cases: "cn_committed c' = cn_committed (wr_conn w)
      \<or> (\<exists>c1 c3. tx_begin (wr_conn w) = (Inr (), c1) \<and> load (wr_task_id w) c1 = (Inr (wr_checkpoint w), c3))"
    if tx: "db_then (?pre mode fl position gtids executed) (\<lambda>cp. db_then tx_commit (\<lambda>_. db_return cp)) (wr_conn w) = (q, c')"
    for mode fl position gtids executed q c'
  proof -
    have "uncommitting (?pre mode fl position gtids executed)"
      by (auto intro!: uncommitting_intros)
    with tx show ?thesis
      by (cases rule: commit_last) (fastforce simp: db_then_Ok_iff split: if_splits)+
  qed
  have "cn_committed (wr_conn w') = cn_committed (wr_conn w)
      \<or> (case wr_checkpoint w of None \<Rightarrow> True | Some cp \<Rightarrow> cp_phase cp = ''snapshot'')
        \<and> (\<exists>c1 c3. tx_begin (wr_conn w) = (Inr (), c1) \<and> load (wr_task_id w) c1 = (Inr (wr_checkpoint w), c3))"
    using assms cases
    by (auto simp: prepare_snapshot_def store_def db_then_assoc Let_def ok_iff
        split: if_splits option.splits sum.splits prod.splits)
  then show ?thesis
    using that by (auto split: option.splits dest!: tx_begin_Ok load_Ok)
qed

section \<open>Copying a snapshot\<close>

text \<open>The batches complete the tables of the scope one after the other, each with a last batch.\<close>

fun covers :: "string \<Rightarrow> SnapshotTable list \<Rightarrow> SnapshotBatch list \<Rightarrow> bool" where
  "covers source [] bs = (bs = [])"
| "covers source (t # ts) [] = False"
| "covers source (t # ts) (b # bs) =
     (src_id (sb_source b) = source \<and> sb_schema b = st_schema t \<and> sb_table b = st_table t
      \<and> covers source (if sb_last_in_table b then ts else t # ts) bs)"

definition total_rows :: "SnapshotBatch list \<Rightarrow> nat" where
  "total_rows bs = sum_list (map (\<lambda>b. length (sb_rows b)) bs)"

fun batches_effect ::
  "('d, 'p, 'r) engine \<Rightarrow> (ValidatedSnapshotBatch \<Rightarrow> io_error + 'p SnapshotSql) \<Rightarrow> SnapshotBatch list \<Rightarrow> 'd \<Rightarrow> 'd option" where
  "batches_effect E snapshot_sql [] d = Some d"
| "batches_effect E snapshot_sql (b # bs) d =
     (case snapshot_sql (ValidatedSnapshotBatch b) of
        Inl _ \<Rightarrow> None
      | Inr plan \<Rightarrow>
          Option.bind (effects (\<lambda>(sql, ps). row_effect E sql ps) (zip (ss_statements plan) (ss_parameters plan)) d)
            (batches_effect E snapshot_sql bs))"

lemma effect_snapshot:
  "has_effect (execute_snapshot E plan)
     (effects (\<lambda>(sql, ps). row_effect E sql ps) (zip (ss_statements plan) (ss_parameters plan)))"
proof -
  have row: "has_effect (db_then (run_execute E sql ps) (\<lambda>n. db_ensure (n = 1) e)) (row_effect E sql ps)" for sql ps e
    using effect_row [of db_return E sql ps "\<lambda>_. e"]
    by (simp add: db_then_return_right pure_intros)
  show ?thesis
    unfolding execute_snapshot_def by (rule effect_each) (simp only: split_def row)
qed

lemma effect_targets: "has_effect (snapshot_targets E tables lock)
    (effects (lock_effect E) (map (\<lambda>t. (st_schema t, st_table t)) tables))"
  unfolding snapshot_targets_def check_tables_def
  by (intro effect_before pure_intros effect_after effect_each effect_lock)
    (auto simp: snapshot_target_def intro!: pure_intros)

lemma inside_batches: "inside (copy_batches C E snapshot_sql progress source tables i n bs)"
  by (induction bs arbitrary: i n) (auto simp: Let_def intro!: inside_intros)

lemma copy_batches_Ok:
  assumes "copy_batches C E snapshot_sql progress source tables i n bs c = (Inr (length tables, m), c')"
    and "i \<le> length tables"
  shows "\<exists>bs'. bs = map Inr bs' \<and> covers source (drop i tables) bs' \<and> (\<forall>b \<in> set bs'. snapshot_ok C b)
    \<and> m = n + total_rows bs'
    \<and> batches_effect E snapshot_sql bs' (business (cn_working c)) = Some (business (cn_working c'))"
  using assms
proof (induction bs arbitrary: i n c)
  case Nil
  then show ?case by (intro exI [of _ "[]"]) (simp add: total_rows_def)
next
  case (Cons rb bs)
  obtain b where rb: "rb = Inr b" using Cons.prems(1) by (cases rb) (auto simp: db_then_Ok_iff)
  let ?i = "if sb_last_in_table b then i + 1 else i"
  from Cons.prems(1) rb obtain plan c1 where i: "i < length tables"
    and ident: "src_id (sb_source b) = source" "sb_schema b = st_schema (tables ! i)" "sb_table b = st_table (tables ! i)"
    and valid: "snapshot_ok C b" and plan: "snapshot_sql (ValidatedSnapshotBatch b) = Inr plan"
    and ex: "execute_snapshot E plan c = (Inr (), c1)"
    and rest: "copy_batches C E snapshot_sql progress source tables ?i (n + length (sb_rows b)) bs c1 = (Inr (length tables, m), c')"
    by (auto simp: db_then_Ok_iff Let_def ok_iff split: if_splits dest!: sym [of "Inr _"])
  have "?i \<le> length tables" using i by simp
  from Cons.IH [OF rest this] obtain bs' where bs': "bs = map Inr bs'" "covers source (drop ?i tables) bs'"
    "\<forall>b \<in> set bs'. snapshot_ok C b" "m = n + length (sb_rows b) + total_rows bs'"
    "batches_effect E snapshot_sql bs' (business (cn_working c1)) = Some (business (cn_working c'))" by blast
  have "drop i tables = tables ! i # drop (i + 1) tables" using i by (simp add: Cons_nth_drop_Suc)
  with bs' ident valid plan has_effectD [OF effect_snapshot ex] show ?case
    by (intro exI [of _ "b # bs'"]) (auto simp: rb total_rows_def split: if_splits)
qed

text \<open>A copy has no effect, or everything of it is committed: all tables, complete, in the order of the
  scope, with valid rows only, their number stored, and the task incremental from then on.\<close>

definition copied ::
  "codec \<Rightarrow> ('d, 'p, 'r) engine \<Rightarrow> (ValidatedSnapshotBatch \<Rightarrow> io_error + 'p SnapshotSql) \<Rightarrow> 'd CheckpointWriter \<Rightarrow>
     SnapshotTable list \<Rightarrow> SnapshotBatch list \<Rightarrow> 'd sink_db \<Rightarrow> 'd sink_db \<Rightarrow> bool" where
  "copied C E snapshot_sql w tables bs d d' \<longleftrightarrow>
     covers (wr_source_uuid w) tables bs \<and> (\<forall>b \<in> set bs. snapshot_ok C b)
     \<and> Option.bind (effects (lock_effect E) (map (\<lambda>t. (st_schema t, st_table t)) tables) (business d))
         (batches_effect E snapshot_sql bs) = Some (business d')
     \<and> (\<forall>t. t \<noteq> wr_task_id w \<longrightarrow> log_info d' t = log_info d t)
     \<and> (\<exists>cp. stored d (wr_task_id w) cp \<and> cp_phase cp = ''snapshot''
         \<and> stored d' (wr_task_id w) (cp\<lparr>cp_phase := ''incremental'', cp_snapshot_rows := total_rows bs,
              cp_revision := cp_revision cp + 1\<rparr>))"

lemma finish_row:
  assumes "checkpoint_from_row row = Inr cp" and "to_i64 n = Inr rows" and "bigint_succ (lr_revision row) = Inr rv"
  shows "checkpoint_from_row (row\<lparr>lr_phase := ''incremental'', lr_snapshot_rows := rows, lr_revision := rv\<rparr>)
    = Inr (cp\<lparr>cp_phase := ''incremental'', cp_snapshot_rows := n, cp_revision := cp_revision cp + 1\<rparr>)"
  using assms
  by (auto simp: checkpoint_from_row_def to_i64_def bigint_succ_def to_u64_def ok_iff split: if_splits)

lemma copy_snapshot_cases:
  assumes "copy_snapshot C E snapshot_sql progress w tables batches = (r, w')"
  obtains (unchanged) "cn_committed (wr_conn w') = cn_committed (wr_conn w)" and "\<forall>cp. r \<noteq> Inr cp"
    | (copied) bs where "batches = map Inr bs"
      and "copied C E snapshot_sql w tables bs (cn_committed (wr_conn w)) (cn_committed (wr_conn w'))"
      and "(\<exists>cp. r = Inr cp \<and> stored (cn_committed (wr_conn w')) (wr_task_id w) cp \<and> wr_checkpoint w' = Some cp)
        \<or> (\<exists>m. r = Inl (Commit_Unknown m))"
proof (cases "\<exists>expected. wr_checkpoint w = Some expected \<and> cp_phase expected = ''snapshot''")
  case False
  with assms have "w' = w \<and> (\<exists>e. r = Inl e)" by (auto simp: copy_snapshot_def split: option.splits if_splits)
  then show ?thesis using unchanged by auto
next
  case True
  then obtain expected where ex: "wr_checkpoint w = Some expected" "cp_phase expected = ''snapshot''" by blast
  let ?upd = "\<lambda>rows. update_row (wr_task_id w) (\<lambda>r. and_then (bigint_succ (lr_revision r)) (\<lambda>revision.
    Ok (r\<lparr>lr_phase := ''incremental'', lr_snapshot_rows := rows, lr_revision := revision\<rparr>)))"
  let ?pre = "db_then tx_begin (\<lambda>_. db_then (load (wr_task_id w)) (\<lambda>actual.
    db_then (db_ensure (actual = Some expected) (Other ''snapshot checkpoint changed'')) (\<lambda>_.
    db_then (snapshot_targets E tables True) (\<lambda>_.
    db_then (copy_batches C E snapshot_sql progress (wr_source_uuid w) tables 0 0 batches) (\<lambda>x.
    db_then (db_ensure (fst x = length tables) (Other ''snapshot stream ended before all tables completed'')) (\<lambda>_.
    db_then (db_result (to_i64 (snd x))) (\<lambda>rows. db_then (?upd rows) (\<lambda>_.
    db_then (load (wr_task_id w)) (\<lambda>row. require_row ''snapshot checkpoint disappeared'' row)))))))))"
  obtain q c' where q: "db_then ?pre (\<lambda>cp. db_then tx_commit (\<lambda>_. db_return cp)) (wr_conn w) = (q, c')" by force
  have w': "store w (q, c') = (r, w')"
    using assms ex q by (simp add: copy_snapshot_def db_then_assoc split_def)
  have "uncommitting ?pre" by (intro uncommitting_intros inside_uncommitting [OF inside_batches])
  with q show ?thesis
  proof (cases rule: commit_last)
    case unchanged
    then show ?thesis using w' that(1) by (auto simp: store_def split: sum.splits)
  next
    case (committed cp c2)
    from committed(1) obtain c0 c1 c3 c4 c5 m rows where b: "tx_begin (wr_conn w) = (Inr (), c0)"
      and l: "load (wr_task_id w) c0 = (Inr (Some expected), c1)"
      and t: "snapshot_targets E tables True c1 = (Inr (), c3)"
      and copy: "copy_batches C E snapshot_sql progress (wr_source_uuid w) tables 0 0 batches c3 = (Inr (length tables, m), c4)"
      and rows: "to_i64 m = Inr rows" and u: "?upd rows c4 = (Inr (), c5)"
      and fin: "load (wr_task_id w) c5 = (Inr (Some cp), c2)"
      by (auto simp: db_then_Ok_iff split: if_splits dest!: sym [of "Inr _"])
    have start: "cn_working c1 = cn_committed (wr_conn w)" "stored (cn_committed (wr_conn w)) (wr_task_id w) expected"
      using tx_begin_Ok [OF b] load_Ok [OF l] by auto
    have log: "log_info (cn_working c4) = log_info (cn_committed (wr_conn w))"
      using insideD [OF inside_targets t] insideD [OF inside_batches copy] start by simp
    from start(2) obtain row where row: "log_info (cn_working c4) (wr_task_id w) = Some row" "checkpoint_from_row row = Inr expected"
      using log by (auto simp: stored_def)
    from update_row_Ok [OF u] row obtain rv where rv: "bigint_succ (lr_revision row) = Inr rv"
      and work: "cn_working c5 = (cn_working c4)\<lparr>log_info := (log_info (cn_working c4))(wr_task_id w \<mapsto>
        row\<lparr>lr_phase := ''incremental'', lr_snapshot_rows := rows, lr_revision := rv\<rparr>)\<rparr>"
      by (auto simp: ok_iff)
    from copy_batches_Ok [OF copy] obtain bs where bs: "batches = map Inr bs" "covers (wr_source_uuid w) tables bs"
      "\<forall>b \<in> set bs. snapshot_ok C b" "m = total_rows bs"
      "batches_effect E snapshot_sql bs (business (cn_working c3)) = Some (business (cn_working c4))" by auto
    have "copied C E snapshot_sql w tables bs (cn_committed (wr_conn w)) (cn_working c2)"
      using bs start ex log load_Ok [OF fin] has_effectD [OF effect_targets t] finish_row [OF row(2) rows rv]
      by (auto simp: copied_def work stored_def)
    moreover have "stored (cn_working c2) (wr_task_id w) cp" using load_Ok [OF fin] by simp
    ultimately show ?thesis
      using w' committed(3,4) bs(1) by (intro that(2)) (auto simp: store_def)
  qed
qed

section \<open>Histories\<close>

lemma resolve_uncommitting: "uncommitting (resolve_tx w tid fl position)"
  unfolding resolve_tx_def by (auto intro!: uncommitting_intros)

lemma resolve_committed:
  "resolve_commit_unknown C w tx = (r, w') \<Longrightarrow> cn_committed (wr_conn w') = cn_committed (wr_conn w)"
  by (auto simp: resolve_commit_unknown_def split: if_splits sum.splits prod.splits
      dest: uncommittingD [OF resolve_uncommitting])

lemma check_targets_committed:
  assumes "check_snapshot_targets E w tables = (r, w')"
  shows "cn_committed (wr_conn w') = cn_committed (wr_conn w)"
proof -
  have "uncommitting (db_then tx_begin (\<lambda>_. db_then (snapshot_targets E tables False) (\<lambda>_. tx_rollback)))"
    by (intro uncommitting_intros)
  with assms show ?thesis
    by (auto simp: check_snapshot_targets_def split: prod.splits dest: uncommittingD)
qed

lemma observe_conn: "observe C w tx = Inr w' \<Longrightarrow> wr_conn w' = wr_conn w \<and> wr_task_id w' = wr_task_id w"
  by (auto simp: observe_def ok_iff split: if_splits)

lemma open_writer_conn:
  assumes "open_writer conn sink owned task source binding = Inr w"
  shows "cn_committed (wr_conn w) = cn_committed conn" and "wr_task_id w = task"
  using assms
  by (auto simp: open_writer_def ok_iff split: if_splits prod.splits sum.splits
      dest: uncommittingD [OF uncommitting_load])

text \<open>
  One call of any method of a writer, a new writer for the task on the same database, or any change
  of what the connection will reply.
\<close>

inductive writer_step :: "codec \<Rightarrow> ('d, 'p, 'r) engine \<Rightarrow> 'd CheckpointWriter \<Rightarrow> 'd CheckpointWriter \<Rightarrow> bool" for C E where
  op_apply: "apply_inner C J E w source tid cursor plan = (r, w') \<Longrightarrow> writer_step C E w w'"
| op_observe: "observe C w tx = Inr w' \<Longrightarrow> writer_step C E w w'"
| op_resolve: "resolve_commit_unknown C w tx = (r, w') \<Longrightarrow> writer_step C E w w'"
| op_initialize: "initialize w mode fl position gtids = (r, w') \<Longrightarrow> writer_step C E w w'"
| op_prepare: "prepare_snapshot from_str w boundary = (r, w') \<Longrightarrow> writer_step C E w w'"
| op_copy: "copy_snapshot C E snapshot_sql progress w tables batches = (r, w') \<Longrightarrow> writer_step C E w w'"
| op_targets: "check_snapshot_targets E w tables = (r, w') \<Longrightarrow> writer_step C E w w'"
| op_reopen: "cn_committed conn = cn_committed (wr_conn w) \<Longrightarrow>
    open_writer conn sink owned (wr_task_id w) source binding = Inr w' \<Longrightarrow> writer_step C E w w'"
| op_network: "writer_step C E w (w\<lparr>wr_conn := (wr_conn w)\<lparr>cn_replies := replies\<rparr>\<rparr>)"

text \<open>The positions a run of such steps commits, in order.\<close>

inductive sink_run :: "codec \<Rightarrow> ('d, 'p, 'r) engine \<Rightarrow> 'd CheckpointWriter \<Rightarrow> (string \<times> nat) list \<Rightarrow> 'd CheckpointWriter \<Rightarrow> bool" for C E w where
  run_start: "sink_run C E w [] w"
| run_quiet: "sink_run C E w ps u \<Longrightarrow> writer_step C E u v \<Longrightarrow>
    cn_committed (wr_conn v) = cn_committed (wr_conn u) \<Longrightarrow> sink_run C E w ps v"
| run_commit: "sink_run C E w ps u \<Longrightarrow> writer_step C E u v \<Longrightarrow>
    cn_committed (wr_conn v) \<noteq> cn_committed (wr_conn u) \<Longrightarrow>
    stored (cn_committed (wr_conn v)) (wr_task_id w) cp \<Longrightarrow> sink_run C E w (ps @ [(cp_file cp, cp_position cp)]) v"

lemma writer_step_task: "writer_step C E w w' \<Longrightarrow> wr_task_id w' = wr_task_id w"
proof (induction rule: writer_step.induct)
  case (op_apply J w source tid cursor plan r w')
  then show ?case
    by (auto simp: apply_inner_def split: if_splits option.splits sum.splits prod.splits)
next
  case (op_prepare from_str w boundary r w')
  then show ?case
    by (auto simp: prepare_snapshot_def store_def Let_def split: if_splits sum.splits prod.splits)
next
  case (op_copy snapshot_sql progress w tables batches r w')
  then show ?case
    by (auto simp: copy_snapshot_def store_def split: if_splits option.splits sum.splits prod.splits)
next
  case (op_initialize w mode fl position gtids r w')
  then show ?case by (auto simp: initialize_def store_def split: option.splits sum.splits prod.splits)
qed (auto simp: resolve_commit_unknown_def check_snapshot_targets_def dest: observe_conn open_writer_conn
    split: if_splits sum.splits prod.splits)

lemma advanced_mode_phase:
  "advanced w cp tid fl position rows = Inr cp' \<Longrightarrow>
     cp_mode cp' = cp_mode cp \<and> cp_phase cp' = cp_phase cp \<and> cp_file cp' = fl \<and> cp_position cp' = position
     \<and> cp_last_transaction_id cp' = Some tid \<and> cp_revision cp' = cp_revision cp + 1
     \<and> cp_task_id cp' = cp_task_id cp \<and> cp_source_uuid cp' = cp_source_uuid cp
     \<and> cp_sink_uuid cp' = cp_sink_uuid cp \<and> cp_binding cp' = cp_binding cp"
  by (erule advanced_fields) simp

text \<open>From an incremental row, a step that commits anything moves the row beyond its position.\<close>

lemma writer_step_incremental:
  assumes "writer_step C E w w'" and "incremental_at (cn_committed (wr_conn w)) (wr_task_id w) cp"
  shows "cn_committed (wr_conn w') = cn_committed (wr_conn w)
    \<or> (\<exists>cp'. incremental_at (cn_committed (wr_conn w')) (wr_task_id w) cp' \<and> cp_mode cp' = cp_mode cp
        \<and> compare_in (cp_mode cp) (cp_file cp', cp_position cp') (cp_file cp, cp_position cp) = Some Greater)"
  using assms
proof (induction rule: writer_step.induct)
  case (op_apply J w source tid cursor plan r w')
  from op_apply.hyps show ?case
  proof (cases rule: apply_inner_cases)
    case (stepped expected cp' fl position)
    have "expected = cp" using stepped(2) op_apply.prems stored_unique by (auto simp: incremental_at_def)
    with stepped op_apply.prems advanced_mode_phase [of w expected tid fl position "row_count plan" cp'] show ?thesis
      by (intro disjI2 exI [of _ cp']) (auto simp: moved_def incremental_at_def fresh_def compare_in_def)
  qed simp
next
  case (op_prepare from_str w boundary r w')
  from op_prepare.hyps show ?case
  proof (cases rule: prepare_snapshot_cases)
    case (3 cp')
    then show ?thesis using op_prepare.prems stored_unique unfolding incremental_at_def by fastforce
  qed (use op_prepare.prems in \<open>auto simp: incremental_at_def stored_def\<close>)
next
  case (op_copy snapshot_sql progress w tables batches r w')
  from op_copy.hyps show ?case
  proof (cases rule: copy_snapshot_cases)
    case (copied bs)
    then obtain cp' where "stored (cn_committed (wr_conn w)) (wr_task_id w) cp'" "cp_phase cp' = ''snapshot''"
      unfolding copied_def by blast
    then show ?thesis using op_copy.prems stored_unique unfolding incremental_at_def by fastforce
  qed simp
next
  case (op_initialize w mode fl position gtids r w')
  then show ?case using initialize_incremental by (auto simp: incremental_at_def)
qed (auto dest: observe_conn resolve_committed check_targets_committed open_writer_conn)

lemma sink_run_advancing:
  assumes "sink_run C E w ps w'" and "incremental_at (cn_committed (wr_conn w)) (wr_task_id w) cp"
  shows "wr_task_id w' = wr_task_id w \<and>
    (\<exists>cp'. incremental_at (cn_committed (wr_conn w')) (wr_task_id w) cp' \<and> cp_mode cp' = cp_mode cp
      \<and> last ((cp_file cp, cp_position cp) # ps) = (cp_file cp', cp_position cp')
      \<and> advancing (compare_in (cp_mode cp)) ((cp_file cp, cp_position cp) # ps))"
  using assms
proof (induction rule: sink_run.induct)
  case (run_quiet ps u v)
  then show ?case using writer_step_task by metis
next
  case (run_commit ps u v cpv)
  let ?p = "(cp_file cp, cp_position cp)"
  from run_commit obtain cpu where u: "incremental_at (cn_committed (wr_conn u)) (wr_task_id u) cpu"
    and task: "wr_task_id u = wr_task_id w" "wr_task_id v = wr_task_id w" and mode: "cp_mode cpu = cp_mode cp"
    and last: "last (?p # ps) = (cp_file cpu, cp_position cpu)" and adv: "advancing (compare_in (cp_mode cp)) (?p # ps)"
    using writer_step_task by metis
  from writer_step_incremental [OF run_commit.hyps(2) u] run_commit.hyps(3,4) task mode stored_unique
  have v: "incremental_at (cn_committed (wr_conn v)) (wr_task_id w) cpv" "cp_mode cpv = cp_mode cp"
    "compare_in (cp_mode cp) (cp_file cpv, cp_position cpv) (cp_file cpu, cp_position cpu) = Some Greater"
    by (auto simp: incremental_at_def)
  have "advancing (compare_in (cp_mode cp)) ((?p # ps) @ [(cp_file cpv, cp_position cpv)])"
    using adv v(3) by (intro checkpoint_order.advancing_snoc) (simp_all only: last list.distinct not_False_eq_True)
  with v task show ?case by auto
qed auto

end
