(* ===== verification/Checkpoint_Recovery.thy ===== *)
theory Checkpoint_Recovery
  imports Checkpoint_Spec
begin

text \<open>
  Repeating and recovering: the stored row stays valid, GTID sets grow by exactly the transactions
  committed and observed, a transaction applied again is recognised, and a commit whose
  acknowledgement was lost is resolved by what the database holds.
\<close>

section \<open>What a committed step stores\<close>

lemma moved_valid:
  assumes "check_binding cp source sink binding = Inr ()" and "file_position C cursor = Inr (fl, position)"
    and "fresh cp tid fl position" and "advanced w cp tid fl position rows = Inr cp'"
  shows "check_binding cp' source sink binding = Inr ()"
proof -
  note fields = advanced_mode_phase [OF assms(4)]
  have old: "validate_checkpoint_position (cp_mode cp) (cp_file cp) (cp_position cp) = Inr ()"
    and agree: "mode_agrees (cp_mode cp) (cp_gtid_set cp)"
    using assms(1) by (auto simp: check_binding_def ok_iff split: if_splits)
  have "validate_checkpoint_position (cp_mode cp) fl position = Inr ()"
    using comparable_valid [OF assms(2) old] assms(3) by (auto simp: fresh_def)
  moreover have "mode_agrees (cp_mode cp) (cp_gtid_set cp')"
    using agree assms(4) by (auto simp: advanced_def mode_agrees_def ok_iff split: if_splits)
  ultimately show ?thesis
    using assms(1) fields by (auto simp: check_binding_def split: if_splits)
qed

lemma advanced_gtids:
  assumes "advanced w cp tid fl position rows = Inr cp'" and "cp_mode cp = ''gtid''"
  shows "\<exists>s. cp_gtid_set cp' = Some s \<and> canonical_gtids s = Inr s
    \<and> gtid_set_of s = gtid_set_of (gtid_text (cp_gtid_set cp)) \<union> gtid_set_of (gtid_text (wr_observed_gtids w))
        \<union> gtid_set_of tid"
proof -
  from assms obtain merged s where "merge_gtids (cp_gtid_set cp) (gtid_text (wr_observed_gtids w)) = Inr merged"
    and "merge_gtids (Some merged) tid = Inr s" and "cp_gtid_set cp' = Some s"
    by (auto simp: advanced_def ok_iff split: if_splits)
  then show ?thesis using merge_gtids_set by (intro exI [of _ s]) simp
qed

lemma observe_gtids:
  assumes "observe C w tx = Inr w'" and "wr_checkpoint w = Some cp" and "cp_mode cp = ''gtid''"
  shows "gtid_set_of (gtid_text (wr_observed_gtids w')) =
    gtid_set_of (gtid_text (wr_observed_gtids w)) \<union> gtid_set_of (tx_id tx)"
  using assms merge_gtids_set(1) by (auto simp: observe_def ok_iff split: if_splits)

lemma moved_differs:
  assumes "moved E w cp tid fl position plan cp' d d'" and "stored d (wr_task_id w) cp"
  shows "d' \<noteq> d"
proof
  assume "d' = d"
  with assms have "cp' = cp" using stored_unique by (auto simp: moved_def)
  with assms(1) advanced_mode_phase [of w cp tid fl position "row_count plan" cp'] show False
    by (simp add: moved_def)
qed

section \<open>A connection without trouble\<close>

lemma next_reply_quiet: "cn_replies c = [] \<Longrightarrow> next_reply c = (Fine, c)"
  by (simp add: next_reply_def)

lemma tx_quiet [simp]:
  "cn_replies c = [] \<Longrightarrow> tx_begin c = (Inr (), c\<lparr>cn_working := cn_committed c\<rparr>)"
  "cn_replies c = [] \<Longrightarrow> tx_rollback c = (Inr (), c\<lparr>cn_working := cn_committed c\<rparr>)"
  "cn_replies c = [] \<Longrightarrow> tx_commit c = (Inr (), c\<lparr>cn_committed := cn_working c\<rparr>)"
  by (simp_all add: tx_begin_def tx_rollback_def tx_commit_def next_reply_quiet)

lemma load_quiet [simp]:
  "cn_replies c = [] \<Longrightarrow> stored (cn_working c) t cp \<Longrightarrow> load t c = (Inr (Some cp), c)"
  by (auto simp: load_def stored_def db_call_def next_reply_quiet db_then_def db_return_def db_result_def)

lemma db_then_Inr [simp]: "m c = (Inr x, c') \<Longrightarrow> db_then m f c = f x c'"
  by (simp add: db_then_def)

lemma apply_check_quiet:
  assumes "cn_replies c = []" and "stored (cn_committed c) (wr_task_id w) cp"
    and "check_binding cp (wr_source_uuid w) (wr_sink_uuid w) (wr_binding w) = Inr ()"
    and "compare_checkpoint_position (Some (cp_mode cp)) fl position (cp_file cp) (cp_position cp) = Inr order"
    and "already_applied cp tid order = Inr already"
  shows "apply_check w cp tid fl position c = (Inr (cp, already), c\<lparr>cn_working := cn_committed c\<rparr>)"
  using assms
  by (simp add: apply_check_def db_then_def db_result_def db_return_def db_ensure_def require_row_def ok_or_def require_def)

text \<open>A transaction that the stored row covers is recognised and changes nothing.\<close>

lemma apply_covered:
  assumes "cn_replies (wr_conn w) = []" and "wr_checkpoint w = Some cp"
    and "stored (cn_committed (wr_conn w)) (wr_task_id w) cp" and "cp_phase cp = ''incremental''"
    and "check_binding cp (wr_source_uuid w) (wr_sink_uuid w) (wr_binding w) = Inr ()"
    and "source = wr_source_uuid w" and "tid \<noteq> []" and "length tid \<le> 512" and "is_ascii tid"
    and "file_position C cursor = Inr (fl, position)"
    and "compare_checkpoint_position (Some (cp_mode cp)) fl position (cp_file cp) (cp_position cp) = Inr order"
    and "already_applied cp tid order = Inr True"
  shows "apply_inner C J E w source tid cursor plan =
    (Inr \<lparr>ar_checkpoint = cp, ar_statements_executed = 0, ar_already_applied = True\<rparr>,
     w\<lparr>wr_conn := (wr_conn w)\<lparr>cn_working := cn_committed (wr_conn w)\<rparr>\<rparr>)"
  using assms(2-) apply_check_quiet [OF assms(1,3,5,11,12)] assms(1)
  by (simp add: apply_inner_def apply_tx_def db_then_def db_return_def)

section \<open>Repeating a transaction\<close>

lemma compare_self:
  assumes "fresh cp tid fl position"
  shows "compare_checkpoint_position (Some (cp_mode cp)) fl position fl position = Inr Equal"
proof -
  have "compare_in (cp_mode cp) (fl, position) (fl, position) = Some Equal"
    using assms by (intro checkpoint_order.refl_equal [of _ _ "(cp_file cp, cp_position cp)"])
      (simp add: fresh_def compare_in_def)
  then show ?thesis by (simp add: compare_in_def split: sum.splits)
qed

lemma covered_after_step:
  assumes "fresh cp tid fl position" and "advanced w cp tid fl position rows = Inr cp'"
  shows "already_applied cp' tid Equal = Inr True"
proof (cases "cp_mode cp = ''gtid''")
  case True
  from advanced_gtids [OF assms(2) True] obtain s where s: "cp_gtid_set cp' = Some s" "canonical_gtids s = Inr s"
    and grown: "gtid_set_of tid \<subseteq> gtid_set_of s" by auto
  from assms(1) True obtain one where one: "canonical_single_gtid tid = Inr one" by (auto simp: fresh_def)
  have "is_ok (parse_gtids s)" using s(2) by (auto elim: canonical_gtids_Ok)
  from gtid_contains_single [OF one this] grown have "gtid_contains s one = Inr True" by auto
  with one s(1) True advanced_mode_phase [OF assms(2)] show ?thesis by (simp add: already_applied_def)
next
  case False
  with advanced_mode_phase [OF assms(2)] show ?thesis by (simp add: already_applied_def)
qed

lemma apply_inner_frame:
  assumes "apply_inner C J E w source tid cursor plan = (r, w')"
  shows "wr_task_id w' = wr_task_id w" "wr_source_uuid w' = wr_source_uuid w" "wr_sink_uuid w' = wr_sink_uuid w"
    "wr_binding w' = wr_binding w"
    "r = Inr res \<Longrightarrow> \<not> ar_already_applied res \<Longrightarrow> wr_checkpoint w' = Some (ar_checkpoint res)"
    "r = Inr res \<Longrightarrow> ar_already_applied res \<Longrightarrow> wr_checkpoint w' = wr_checkpoint w"
    "r = Inl e \<Longrightarrow> wr_checkpoint w' = wr_checkpoint w"
    "r = Inr res \<Longrightarrow> source = wr_source_uuid w \<and> tid \<noteq> [] \<and> length tid \<le> 512 \<and> is_ascii tid"
  using assms
  by (auto simp: apply_inner_def not_less split: if_splits option.splits sum.splits prod.splits)

lemma apply_again:
  assumes first: "apply_inner C J E w source tid cursor plan = (Inr res, w')" and "\<not> ar_already_applied res"
    and quiet: "cn_replies (wr_conn w') = []"
  shows "\<exists>w''. apply_inner C J E w' source tid cursor plan' =
      (Inr \<lparr>ar_checkpoint = ar_checkpoint res, ar_statements_executed = 0, ar_already_applied = True\<rparr>, w'')
    \<and> cn_committed (wr_conn w'') = cn_committed (wr_conn w')"
  using first
proof (cases rule: apply_inner_cases)
  case unchanged
  with assms(2) show ?thesis by simp
next
  case (stepped cp cp' fl position)
  note frame = apply_inner_frame [OF first]
  have res: "ar_checkpoint res = cp'" using stepped(11) by auto
  have adv: "advanced w cp tid fl position (row_count plan) = Inr cp'"
    and st: "stored (cn_committed (wr_conn w')) (wr_task_id w) cp'" using stepped(10) by (simp_all add: moved_def)
  note fields = advanced_mode_phase [OF adv]
  have "check_binding cp' (wr_source_uuid w) (wr_sink_uuid w) (wr_binding w) = Inr ()"
    using stepped(3,7,8) adv by (rule moved_valid)
  then show ?thesis
    using apply_covered [of w' cp' source tid C cursor fl position Equal J E plan'] quiet st frame assms(2) res
      fields stepped(4,7) compare_self [OF stepped(8)] covered_after_step [OF stepped(8) adv]
    by auto
qed

section \<open>Resolving a lost acknowledgement\<close>

text \<open>Only the commit itself reports an unknown outcome.\<close>

definition known :: "io_error + 'a \<Rightarrow> bool" where
  "known r \<longleftrightarrow> (\<forall>e. r = Inl e \<longrightarrow> \<not> commit_outcome_unknown e)"

definition reports_known :: "('d, 'a) db \<Rightarrow> bool" where
  "reports_known m \<longleftrightarrow> (\<forall>c r c'. m c = (r, c') \<longrightarrow> known r)"

named_theorems known_intros

lemma known_base [known_intros]:
  "known (Inr x)" "known (Inl (Other s))" "known (Inl ParseInt)" "known (Inl Base64)" "known (Inl Utf8)"
  "known (Inl (Capability_Failure s))" "known (Inl (capability_failure s))" "known (Inl Panic)"
  "known (Inl (Sqlx e))" "known (map_err Sqlx q)"
  by (cases q; simp add: known_def commit_outcome_unknown_def capability_failure_def map_err_def)+

lemma known_then [known_intros]: "known r \<Longrightarrow> (\<And>x. known (f x)) \<Longrightarrow> known (and_then r f)"
  by (cases r) (auto simp: known_def)

lemma known_ok_or [known_intros]: "known (Inl e :: io_error + 'a) \<Longrightarrow> known (ok_or x e :: io_error + 'a)"
  by (cases x) (auto simp: known_def ok_or_def)

lemma known_require [known_intros]: "known (Inl e :: io_error + unit) \<Longrightarrow> known (require b e)"
  by (auto simp: known_def require_def)

lemma known_map_result [known_intros]: "(\<And>x. known (f x)) \<Longrightarrow> known (map_result f xs)"
  by (induction xs) (auto intro!: known_intros)

lemma known_try_fold [known_intros]: "(\<And>a x. known (f a x)) \<Longrightarrow> known (try_fold f a xs)"
  by (induction xs arbitrary: a) (auto intro!: known_intros)

lemma known_position [known_intros]:
  "known (parse_postgresql_lsn v)" "known (validate_position fl p)" "known (split_file fl)"
  "known (compare_position a ap b bp)" "known (compare_checkpoint_position m a ap b bp)"
  "known (validate_checkpoint_position md fl p)" "known (file_position C cursor)"
proof -
  show lsn: "known (parse_postgresql_lsn v)" for v
    by (auto simp: parse_postgresql_lsn_def intro!: known_intros)
  show val: "known (validate_position fl p)" for fl p
    by (auto simp: validate_position_def intro!: known_intros)
  show sp: "known (split_file fl)" for fl
    by (auto simp: split_file_def intro!: known_intros)
  show cp: "known (compare_position a ap b bp)" for a ap b bp
    by (auto simp: compare_position_def intro!: known_intros sp)
  show "known (compare_checkpoint_position m a ap b bp)"
    by (auto simp: compare_checkpoint_position_def intro!: known_intros lsn cp)
  show "known (validate_checkpoint_position md fl p)"
    by (auto simp: validate_checkpoint_position_def intro!: known_intros lsn val)
  show "known (file_position C cursor)"
    by (auto simp: file_position_def Let_def intro!: known_intros lsn val)
qed

lemma known_gtids [known_intros]:
  "known (parse_gtids v)" "known (canonical_gtids v)" "known (canonical_single_gtid v)" "known (merge_gtids l r)"
  "known (gtid_contains a b)"
proof -
  have "known (parse_interval p)" for p
    by (auto simp: parse_interval_def parse_u64_def intro!: known_intros split: option.split prod.split)
  then have "known (parse_gtid_group g)" for g
    by (auto simp: parse_gtid_group_def parse_gtid_key_def Let_def intro!: known_intros split: prod.split)
  then show parse: "known (parse_gtids v)" for v
    by (auto simp: parse_gtids_def intro!: known_intros split: prod.split)
  show canon: "known (canonical_gtids v)" for v
    by (auto simp: canonical_gtids_def intro!: known_intros parse)
  show "known (canonical_single_gtid v)"
    unfolding canonical_single_gtid_def by (intro known_then parse) (simp add: known_intros)
  show "known (merge_gtids l r)"
    unfolding merge_gtids_def by (rule canon)
  show "known (gtid_contains a b)"
    unfolding gtid_contains_def
    by (intro known_then parse) (auto intro!: known_intros split: list.split prod.split)
qed

lemma known_checkpoint [known_intros]:
  "known (check_binding cp a b c)" "known (already_applied cp tid order)" "known (observations_behind w cp fl p)"
  "known (advanced w cp tid fl p n)" "known (advance_row cp)" "known (checkpoint_from_row row)"
  unfolding check_binding_def already_applied_def observations_behind_def advanced_def advance_row_def
    checkpoint_from_row_def to_i64_def to_u64_def
  by (auto intro!: known_intros split: option.split)

lemma reports_then [known_intros]:
  assumes "reports_known m" and "\<And>x. reports_known (f x)"
  shows "reports_known (db_then m f)"
  unfolding reports_known_def
proof (intro allI impI)
  fix c r c'
  assume "db_then m f c = (r, c')"
  then show "known r"
    by (cases rule: db_thenE) (use assms in \<open>force simp: reports_known_def known_def\<close>)+
qed

lemma reports_base [known_intros]:
  "known r \<Longrightarrow> reports_known (db_result r)" "reports_known (db_return x)"
  "known (Inl e :: io_error + unit) \<Longrightarrow> reports_known (db_ensure b e)"
  by (auto simp: reports_known_def known_def)

lemma reports_call [known_intros]: "reports_known (db_call f)"
  by (auto simp: reports_known_def db_call_def split: prod.splits option.splits sum.splits intro: known_intros)

lemma reports_tx [known_intros]: "reports_known tx_begin" "reports_known tx_rollback"
  by (auto simp: reports_known_def tx_begin_def tx_rollback_def split: prod.splits option.splits intro: known_intros)

lemma reports_rows [known_intros]:
  "reports_known (update_row t f)" "reports_known (load t)" "reports_known (require_row m x)"
  unfolding update_row_def load_def require_row_def by (auto intro!: known_intros split: option.split)

lemma reports_each [known_intros]: "(\<And>x. reports_known (f x)) \<Longrightarrow> reports_known (db_each f xs)"
  by (induction xs) (auto intro!: known_intros)

lemma reports_queries [known_intros]:
  "reports_known (run_execute E sql ps)" "reports_known (run_query q)" "reports_known (run_fetch E p)"
  unfolding run_execute_def run_query_def run_fetch_def by (rule reports_call)+

lemma reports_readback [known_intros]: "reports_known (verify_carrier_readback C J E check)"
  unfolding verify_carrier_readback_def readback_matches_def
  by (auto intro!: known_intros split: CarrierReadbackExpected.split)

lemma reports_statements [known_intros]: "reports_known (execute_statements C J E plan)"
  unfolding execute_statements_def check_tables_def check_table_def execute_statement_def
  by (auto intro!: known_intros split: option.split prod.split)

lemma apply_tx_unknown:
  assumes "apply_tx C J E w cp tid fl position plan c = (Inl (Commit_Unknown m), c')"
  obtains c1 where "apply_check w cp tid fl position c = (Inr (cp, False), c1)"
    and "apply_write C J E w cp tid fl position plan c1 = (Inl (Commit_Unknown m), c')"
proof -
  have check: "reports_known (apply_check w cp tid fl position)"
    unfolding apply_check_def by (intro known_intros)
  have rollback: "reports_known (db_then tx_rollback (\<lambda>_. db_return y))" for y :: CheckpointApplyResult
    by (intro known_intros)
  from assms [unfolded apply_tx_def] show ?thesis
  proof (cases rule: db_thenE)
    case (err e)
    then show ?thesis using check by (force simp: reports_known_def known_def commit_outcome_unknown_def)
  next
    case (ok x c1)
    obtain cp1 already where x: "x = (cp1, already)" by force
    have "cp1 = cp" using apply_check_Ok(3) ok(1) x by blast
    moreover have "\<not> already"
      using ok(2) x rollback by (cases already) (force simp: reports_known_def known_def commit_outcome_unknown_def)+
    ultimately show ?thesis using ok x that by simp
  qed
qed

text \<open>
  After a lost acknowledgement the row of the database decides: the transaction counts as applied
  exactly when its data is committed.
\<close>

lemma resolve_exact:
  assumes applied: "apply_inner C J E w (src_id (tx_source tx)) (tx_id tx) (tx_commit_cursor tx) plan = (Inl (Commit_Unknown m), w')"
    and other: "\<forall>cp. wr_checkpoint w = Some cp \<longrightarrow> cp_last_transaction_id cp \<noteq> Some (tx_id tx)"
    and quiet: "cn_replies (wr_conn w') = []"
  shows "\<exists>w''. resolve_commit_unknown C w' tx =
    (Inr (if cn_committed (wr_conn w') = cn_committed (wr_conn w) then NotApplied else Applied), w'')"
proof -
  from applied obtain cp fl position c' where cp: "wr_checkpoint w = Some cp" "src_id (tx_source tx) = wr_source_uuid w" "tx_id tx \<noteq> []"
    and pos: "file_position C (tx_commit_cursor tx) = Inr (fl, position)"
    and tx: "apply_tx C J E w cp (tx_id tx) fl position plan (wr_conn w) = (Inl (Commit_Unknown m), c')"
    and w': "w' = w\<lparr>wr_conn := c'\<rparr>"
    using known_position(7) [of C "tx_commit_cursor tx"]
    by (auto simp: apply_inner_def known_def commit_outcome_unknown_def split: if_splits option.splits sum.splits prod.splits)
  from apply_tx_unknown [OF tx] obtain c1 where c1: "apply_check w cp (tx_id tx) fl position (wr_conn w) = (Inr (cp, False), c1)"
    and wrote: "apply_write C J E w cp (tx_id tx) fl position plan c1 = (Inl (Commit_Unknown m), c')" by blast
  note check = apply_check_Ok [OF c1]
  obtain order where order: "compare_checkpoint_position (Some (cp_mode cp)) fl position (cp_file cp) (cp_position cp) = Inr order"
    and new: "already_applied cp (tx_id tx) order = Inr False" using check(6) by blast
  note fresh = already_applied_False [OF new]
  have resolve: "resolve_commit_unknown C w' tx =
      (r, w'\<lparr>wr_conn := c'\<lparr>cn_working := cn_committed c'\<rparr>\<rparr>)"
    if "resolve_tx w' (tx_id tx) fl position c' = (r, c'\<lparr>cn_working := cn_committed c'\<rparr>)" for r
    using that cp pos by (simp add: resolve_commit_unknown_def w')
  have quiet': "cn_replies c' = []" using quiet w' by simp
  have "stored (cn_working c1) (wr_task_id w) cp" using check(2,4) by simp
  from apply_write_cases [OF wrote this] show ?thesis
  proof
    assume "cn_committed c' = cn_committed c1 \<and> (\<forall>x. (Inl (Commit_Unknown m) :: io_error + CheckpointApplyResult) \<noteq> Inr x)"
    then have same: "cn_committed c' = cn_committed (wr_conn w)" using check(1) by simp
    have "resolve_tx w' (tx_id tx) fl position c' = (Inr NotApplied, c'\<lparr>cn_working := cn_committed c'\<rparr>)"
      using quiet' check(4,5) same other cp(1) order fresh
      by (auto simp: resolve_tx_def w' db_then_def db_result_def db_return_def require_row_def ok_or_def)
    with resolve same w' show ?thesis by auto
  next
    assume "\<exists>cp'. moved E w cp (tx_id tx) fl position plan cp' (cn_working c1) (cn_committed c')
        \<and> observations_behind w cp fl position = Inr ()
        \<and> (Inl (Commit_Unknown m) = Inr \<lparr>ar_checkpoint = cp', ar_statements_executed = row_count plan, ar_already_applied = False\<rparr>
            \<or> (\<exists>m'. (Inl (Commit_Unknown m) :: io_error + CheckpointApplyResult) = Inl (Commit_Unknown m')))"
    then obtain cp' where moved: "moved E w cp (tx_id tx) fl position plan cp' (cn_committed (wr_conn w)) (cn_committed c')"
      using check(2) by auto
    have adv: "advanced w cp (tx_id tx) fl position (row_count plan) = Inr cp'"
      and st: "stored (cn_committed c') (wr_task_id w) cp'" using moved by (simp_all add: moved_def)
    have "fresh cp (tx_id tx) fl position" using order fresh by (auto simp: fresh_def)
    with check(5) pos have "check_binding cp' (wr_source_uuid w) (wr_sink_uuid w) (wr_binding w) = Inr ()"
      using adv by (rule moved_valid)
    then have "resolve_tx w' (tx_id tx) fl position c' = (Inr Applied, c'\<lparr>cn_working := cn_committed c'\<rparr>)"
      using quiet' st advanced_mode_phase [OF adv]
      by (simp add: resolve_tx_def w' db_then_def db_result_def db_return_def require_row_def ok_or_def)
    moreover have "cn_committed c' \<noteq> cn_committed (wr_conn w)" using moved check(4) by (rule moved_differs)
    ultimately show ?thesis using resolve w' by auto
  qed
qed

section \<open>Progress on a working connection\<close>

lemma update_row_quiet:
  assumes "cn_replies c = []" and "log_info (cn_working c) t = Some row" and "f row = Inr row'"
  shows "update_row t f c = (Inr (), c\<lparr>cn_working := (cn_working c)\<lparr>log_info := (log_info (cn_working c))(t \<mapsto> row')\<rparr>\<rparr>)"
  using assms by (simp add: update_row_def db_call_def next_reply_quiet)

lemma advance_commits:
  assumes "cn_replies (wr_conn w) = []" and "wr_checkpoint w = Some cp"
    and "stored (cn_committed (wr_conn w)) (wr_task_id w) cp" and "cp_phase cp = ''incremental''"
    and "check_binding cp (wr_source_uuid w) (wr_sink_uuid w) (wr_binding w) = Inr ()"
    and "source = wr_source_uuid w" and "tid \<noteq> []" and "length tid \<le> 512" and "is_ascii tid"
    and "file_position C cursor = Inr (fl, position)" and "fresh cp tid fl position"
    and "observations_behind w cp fl position = Inr ()"
    and "advanced w cp tid fl position 0 = Inr cp'" and "advance_row cp' = Inr f"
  shows "\<exists>w'. apply_inner C J E w source tid cursor None =
      (Inr \<lparr>ar_checkpoint = cp', ar_statements_executed = 0, ar_already_applied = False\<rparr>, w')
    \<and> stored (cn_committed (wr_conn w')) (wr_task_id w) cp' \<and> wr_checkpoint w' = Some cp'"
proof -
  from assms(3) obtain row where row: "log_info (cn_committed (wr_conn w)) (wr_task_id w) = Some row"
    and from_row: "checkpoint_from_row row = Inr cp" by (auto simp: stored_def)
  obtain row' where row': "f row = Inr row'" using advance_row_fields [OF assms(14)] by blast
  have new: "checkpoint_from_row row' = Inr cp'" using from_row assms(13,14) row' by (rule advance_row_stores)
  have "already_applied cp tid Greater = Inr False"
    using assms(11) by (auto simp: fresh_def already_applied_def)
  then have check: "apply_check w cp tid fl position (wr_conn w)
      = (Inr (cp, False), (wr_conn w)\<lparr>cn_working := cn_committed (wr_conn w)\<rparr>)"
    using assms(1,3,5,11) by (intro apply_check_quiet [where order = Greater]) (simp_all add: fresh_def)
  have upd: "update_row (wr_task_id w) f ((wr_conn w)\<lparr>cn_working := cn_committed (wr_conn w)\<rparr>)
      = (Inr (), (wr_conn w)\<lparr>cn_working := (cn_committed (wr_conn w))\<lparr>log_info :=
          (log_info (cn_committed (wr_conn w)))(wr_task_id w \<mapsto> row')\<rparr>\<rparr>)"
    using assms(1) row row' by (subst update_row_quiet) simp_all
  show ?thesis
    using assms(1,2,4,6-14) check upd new
    by (simp add: apply_inner_def apply_tx_def apply_write_def db_then_def db_return_def db_result_def stored_def)
qed

end
