(* ===== verification/Source_Contract.thy ===== *)
theory Source_Contract
  imports Checkpoint_Recovery
begin

text \<open>
  What the native Source Contracts of the database crates have in common: their error
  (\<^verbatim>\<open>SourceContractError\<close> of \<^verbatim>\<open>crates/change_event/src/validate.rs\<close>) and the promise that the
  checkpoint writer needs from them. A contract locates the cursors of the transactions it accepts;
  the locale says that the checkpoint writer reads the same positions from those cursors and that a
  transaction ends beyond where it begins.
\<close>

section \<open>Errors\<close>

datatype SourceContractError =
    SC_Msg string
  | SC_Column string string string

definition contract_ensure :: "bool \<Rightarrow> string \<Rightarrow> SourceContractError + unit" where
  "contract_ensure condition message = (if condition then Ok () else Err (SC_Msg message))"

lemma contract_ensure_Ok_iff [ok_iff]: "contract_ensure c m = Inr u \<longleftrightarrow> c"
  by (simp add: contract_ensure_def)

lemma contract_ensure_simps [simp]:
  "contract_ensure True m = Inr ()" "contract_ensure False m = Inl (SC_Msg m)"
  by (simp_all add: contract_ensure_def)

section \<open>The interface to the checkpoint writer\<close>

locale source_contract =
  fixes accepts :: "codec \<Rightarrow> ValidatedTransaction \<Rightarrow> bool"
    and locate :: "codec \<Rightarrow> SourceCursor \<Rightarrow> (string \<times> nat) option"
    and modes :: "string set"
  assumes same_position: "locate C c = Some p \<Longrightarrow> file_position C c = Inr p"
    and ordered: "accepts C vt \<Longrightarrow> mode \<in> modes \<Longrightarrow>
      \<exists>p q. locate C (tx_begin_cursor (transaction vt)) = Some p
        \<and> locate C (tx_commit_cursor (transaction vt)) = Some q
        \<and> compare_in mode q p = Some Greater"
begin

text \<open>A checkpoint at the begin cursor of an accepted transaction, or before it, does not yet cover
  the transaction.\<close>

lemma commit_beyond_begin:
  assumes "accepts C vt" and "mode \<in> modes"
  obtains p q where "file_position C (tx_begin_cursor (transaction vt)) = Inr p"
    and "file_position C (tx_commit_cursor (transaction vt)) = Inr q"
    and "compare_in mode q p = Some Greater"
  using ordered [OF assms] same_position by blast

lemma commit_beyond_checkpoint:
  assumes "accepts C vt" and "mode \<in> modes"
    and "file_position C (tx_begin_cursor (transaction vt)) = Inr p"
    and "p = r \<or> compare_in mode p r = Some Greater"
  shows "\<exists>q. file_position C (tx_commit_cursor (transaction vt)) = Inr q \<and> compare_in mode q r = Some Greater"
  using assms(1,2)
proof (rule commit_beyond_begin)
  fix p' q
  assume "file_position C (tx_begin_cursor (transaction vt)) = Inr p'"
    and q: "file_position C (tx_commit_cursor (transaction vt)) = Inr q" "compare_in mode q p' = Some Greater"
  with assms(3) have "p' = p" by simp
  with q assms(4) have "compare_in mode q r = Some Greater"
    using checkpoint_order.trans_greater by blast
  with q show ?thesis by blast
qed

text \<open>Two accepted transactions of which the second begins where the first ends, or later, are
  committed in their order.\<close>

lemma chain_advances:
  assumes "\<forall>vt \<in> set vts. accepts C vt" and "mode \<in> modes"
    and "map (\<lambda>vt. file_position C (tx_commit_cursor (transaction vt))) vts = map Inr ps"
    and "\<forall>i. Suc i < length vts \<longrightarrow> (\<exists>p. file_position C (tx_begin_cursor (transaction (vts ! Suc i))) = Inr p
      \<and> (p = ps ! i \<or> compare_in mode p (ps ! i) = Some Greater))"
  shows "advancing (compare_in mode) ps"
  using assms(1,3,4)
proof (induction vts arbitrary: ps)
  case (Cons vt vts)
  then obtain p ps' where ps: "ps = p # ps'" by (cases ps) auto
  have tail: "advancing (compare_in mode) ps'"
  proof (rule Cons.IH)
    show "\<forall>i. Suc i < length vts \<longrightarrow> (\<exists>p. file_position C (tx_begin_cursor (transaction (vts ! Suc i))) = Inr p
      \<and> (p = ps' ! i \<or> compare_in mode p (ps' ! i) = Some Greater))"
    proof (intro allI impI)
      fix i
      assume "Suc i < length vts"
      then show "\<exists>p. file_position C (tx_begin_cursor (transaction (vts ! Suc i))) = Inr p
        \<and> (p = ps' ! i \<or> compare_in mode p (ps' ! i) = Some Greater)"
        using Cons.prems(3) [rule_format, of "Suc i"] by (simp add: ps)
    qed
  qed (use Cons.prems ps in auto)
  show ?case
  proof (cases ps')
    case (Cons q qs)
    then obtain wt wts where vts: "vts = wt # wts" using Cons.prems(2) ps by (cases vts) auto
    have q: "file_position C (tx_commit_cursor (transaction wt)) = Inr q"
      using Cons.prems(2) ps vts Cons by simp
    have "\<exists>b. file_position C (tx_begin_cursor (transaction wt)) = Inr b
        \<and> (b = p \<or> compare_in mode b p = Some Greater)"
      using Cons.prems(3) [rule_format, of 0] by (simp add: ps vts)
    then obtain b where "file_position C (tx_begin_cursor (transaction wt)) = Inr b"
      "b = p \<or> compare_in mode b p = Some Greater" by blast
    then have "compare_in mode q p = Some Greater"
      using commit_beyond_checkpoint [of C wt mode b p] Cons.prems(1) vts assms(2) q by auto
    with tail show ?thesis by (simp add: ps Cons)
  qed (simp add: ps)
qed simp

end

end
