(* ===== verification/Mysql_Source_Contract.thy ===== *)
theory Mysql_Source_Contract
  imports Source_Contract
begin

text \<open>
  The MySQL Source Contract of \<^verbatim>\<open>crates/mysql_source_contract/src/lib.rs\<close>: the version family and
  server UUID of a MySQL source, anonymous and tagged transaction identifiers, binlog cursors, and
  the agreement of every captured value with the declared type of its column.
\<close>

section \<open>Identifiers and cursors\<close>

datatype MysqlVersion = V57 | V80 | V84

definition mysql_uuid :: "string \<Rightarrow> bool" where
  "mysql_uuid v \<longleftrightarrow>
     length v = 36
     \<and> list_all (\<lambda>(i, b). if i \<in> {8, 13, 18, 23} then b = CHR ''-'' else is_ascii_hexdigit b)
         (enumerate 0 v)"

definition mysql_family :: "MysqlVersion \<Rightarrow> string \<times> string" where
  "mysql_family v = (case v of V57 \<Rightarrow> (''5'', ''7'') | V80 \<Rightarrow> (''8'', ''0'') | V84 \<Rightarrow> (''8'', ''4''))"

definition check_version :: "Source \<Rightarrow> MysqlVersion \<Rightarrow> SourceContractError + unit" where
  "check_version source expected =
     (let numeric = hd (split_on CHR ''-'' (src_version source));
          parts = split_on CHR ''.'' numeric in
      and_then (contract_ensure (length parts = 3 \<and> parse_unsigned 32 (parts ! 2) \<noteq> None)
                  ''invalid MySQL source version'') (\<lambda>_.
      contract_ensure ((parts ! 0, parts ! 1) = mysql_family expected) ''unexpected MySQL source version''))"

definition gtid_tag :: "string \<Rightarrow> bool" where
  "gtid_tag tag \<longleftrightarrow>
     tag \<noteq> [] \<and> length tag \<le> 32
     \<and> (is_ascii_alphabetic (hd tag) \<or> hd tag = CHR ''_'')
     \<and> list_all (\<lambda>b. is_ascii_alphanumeric b \<or> b = CHR ''_'') tag"

definition check_transaction_id :: "ChangeTransaction \<Rightarrow> MysqlVersion \<Rightarrow> SourceContractError + unit" where
  "check_transaction_id tx expected =
     (case strip_prefix ''anonymous:'' (tx_id tx) of
        Some position \<Rightarrow>
          contract_ensure
            (case rsplit_once CHR '':'' position of
               None \<Rightarrow> False
             | Some (file, p) \<Rightarrow> file \<noteq> []
                 \<and> (case parse_unsigned 32 p of None \<Rightarrow> False | Some n \<Rightarrow> 4 \<le> n))
            ''invalid anonymous MySQL transaction id''
      | None \<Rightarrow>
          let parts = split_on CHR '':'' (tx_id tx) in
          and_then (contract_ensure (length parts = 2 \<or> length parts = 3) ''invalid MySQL GTID'') (\<lambda>_.
          and_then (contract_ensure (mysql_uuid (parts ! 0)) ''invalid GTID source UUID'') (\<lambda>_.
          and_then (contract_ensure (eq_ignore_ascii_case (parts ! 0) (src_id (tx_source tx)))
                      ''MySQL GTID source UUID does not match source identity'') (\<lambda>_.
          and_then (contract_ensure
                      (case parse_signed 64 (last parts) of None \<Rightarrow> False | Some n \<Rightarrow> 0 < n)
                      ''invalid GTID sequence'') (\<lambda>_.
          if length parts = 3 then
            and_then (contract_ensure (expected = V84) ''tagged GTID requires MySQL 8.4'') (\<lambda>_.
            contract_ensure (gtid_tag (parts ! 1)) ''invalid MySQL 8.4 GTID tag'')
          else Ok ())))))"

text \<open>The position is the last four bytes, big-endian, behind a zero byte and the file name.\<close>

definition mysql_position :: "codec \<Rightarrow> SourceCursor \<Rightarrow> SourceContractError + string \<times> nat" where
  "mysql_position C cursor =
     and_then (contract_ensure (sc_format cursor = ''mysql.binlog.file-position.v1'')
                 ''invalid MySQL cursor format'') (\<lambda>_.
     and_then (ok_or (b64_decode C (sc_value cursor)) (SC_Msg ''invalid MySQL cursor encoding'')) (\<lambda>bs.
     and_then (contract_ensure (6 \<le> length bs) ''truncated MySQL cursor'') (\<lambda>_.
     let split = length bs - 5; file = take split bs in
     and_then (contract_ensure (bs ! split = NUL \<and> NUL \<notin> set file) ''invalid MySQL cursor filename'') (\<lambda>_.
     and_then (contract_ensure (valid_utf8 file) ''invalid MySQL cursor filename UTF-8'') (\<lambda>_.
     and_then (contract_ensure (length file \<le> 255 \<and> is_ascii file
                 \<and> \<not> list_ex (\<lambda>c. c \<in> {NUL, CHR ''/'', CHR 0x5C}) file)
                 ''invalid MySQL cursor filename'') (\<lambda>_.
     let pos = be_u32 (drop (split + 1) bs) in
     and_then (contract_ensure (4 \<le> pos \<and> sc_display cursor = file @ '':'' @ show_nat pos)
                 ''MySQL cursor display/value mismatch'') (\<lambda>_.
     Ok (file, pos))))))))"

section \<open>Declared column types\<close>

definition type_base :: "string \<Rightarrow> string" where
  "type_base native = takeWhile (\<lambda>c. c \<notin> {CHR ''('', CHR '' '', CHR 0x09}) native"

text \<open>The text between the first parenthesis and the next closing one.\<close>

definition type_parameters :: "string \<Rightarrow> string option" where
  "type_parameters native =
     (case split_once CHR ''('' native of
        None \<Rightarrow> None
      | Some (_, rest) \<Rightarrow> map_option fst (split_once CHR '')'' rest))"

definition decimal_scale :: "string \<Rightarrow> nat option" where
  "decimal_scale native =
     (case (case strip_prefix ''decimal('' native of
              Some p \<Rightarrow> Some p | None \<Rightarrow> strip_prefix ''numeric('' native) of
        None \<Rightarrow> None
      | Some parameters \<Rightarrow>
          (case strip_suffix '')'' parameters of
             None \<Rightarrow> None
           | Some parameters \<Rightarrow>
               (case split_once CHR '','' parameters of
                  None \<Rightarrow> None
                | Some (_, scale) \<Rightarrow> parse_unsigned 64 (trim scale))))"

definition binary_length_matches :: "string \<Rightarrow> string \<Rightarrow> nat \<Rightarrow> bool" where
  "binary_length_matches native base len =
     (let declared = (case type_parameters native of
                        None \<Rightarrow> None | Some v \<Rightarrow> parse_unsigned 64 (trim v)) in
      if base = ''binary'' then len = (case declared of None \<Rightarrow> 1 | Some n \<Rightarrow> n)
      else if base = ''varbinary'' then (case declared of None \<Rightarrow> True | Some m \<Rightarrow> len \<le> m)
      else if base = ''tinyblob'' then len \<le> 255
      else if base = ''blob'' then len \<le> 65535
      else if base = ''mediumblob'' then len \<le> 16777215
      else base = ''longblob'')"

definition double_threshold :: "MysqlVersion \<Rightarrow> nat" where
  "double_threshold v = (case v of V57 \<Rightarrow> 24 | V84 \<Rightarrow> 24 | V80 \<Rightarrow> 25)"

definition float_bits :: "string \<Rightarrow> MysqlVersion \<Rightarrow> u8 option" where
  "float_bits native version =
     (let base = type_base native in
      if base = ''float'' then
        (case (case strip_prefix ''float('' native of
                 None \<Rightarrow> None | Some v \<Rightarrow> map_option (trim \<circ> fst) (split_once CHR '')'' v)) of
           None \<Rightarrow> Some 32
         | Some parameters \<Rightarrow>
             if CHR '','' \<in> set parameters then Some 32
             else map_option (\<lambda>precision. if double_threshold version \<le> precision then 64 else 32)
                    (parse_unsigned 16 parameters))
      else if base \<in> {''double'', ''real''} then Some 64
      else None)"

definition integer_bits :: "string \<Rightarrow> u8" where
  "integer_bits base =
     (if base \<in> {''tinyint'', ''int1'', ''bool'', ''boolean''} then 8
      else if base \<in> {''smallint'', ''int2''} then 16
      else if base \<in> {''mediumint'', ''int3''} then 24
      else if base \<in> {''int'', ''integer'', ''int4''} then 32
      else if base \<in> {''bigint'', ''int8''} then 64
      else 0)"

definition spatial_declared :: "string \<Rightarrow> string \<Rightarrow> u8 \<Rightarrow> bool" where
  "spatial_declared base geometry_type dimensions \<longleftrightarrow>
     to_ascii_lowercase geometry_type \<in> {''point'', ''linestring'', ''polygon'', ''multipoint'',
       ''multilinestring'', ''multipolygon'', ''geometrycollection''}
     \<and> (base = ''geometry'' \<or> eq_ignore_ascii_case base geometry_type
         \<or> (base = ''geomcollection'' \<and> eq_ignore_ascii_case geometry_type ''geometrycollection''))
     \<and> 2 \<le> dimensions \<and> dimensions \<le> 4"

text \<open>Does the value agree with the declared type? The two byte decodings have errors of their own.\<close>

definition value_declared ::
  "codec \<Rightarrow> string \<Rightarrow> MysqlVersion \<Rightarrow> LogicalValue \<Rightarrow> SourceContractError + bool" where
  "value_declared C native version v =
     (let base = type_base native in
      case v of
        LV_Integer sgd bits _ \<Rightarrow>
          Ok (integer_bits base = bits
              \<and> sgd = (\<not> (contains_sub '' unsigned'' native \<or> contains_sub '' zerofill'' native)))
      | LV_Decimal unscaled scale \<Rightarrow>
          Ok (unscaled \<notin> {''NaN'', ''Infinity'', ''-Infinity''}
              \<and> base \<in> {''decimal'', ''numeric'', ''dec'', ''fixed''}
              \<and> (case decimal_scale native of
                   None \<Rightarrow> True
                 | Some declared \<Rightarrow> declared < 2 ^ 31 \<and> int declared = scale))
      | LV_Float bits _ \<Rightarrow> Ok (float_bits native version = Some bits)
      | LV_Text charset _ _ \<Rightarrow>
          Ok (base \<in> {''char'', ''varchar'', ''tinytext'', ''text'', ''mediumtext'', ''longtext''}
              \<and> charset \<noteq> [] \<and> charset \<noteq> ''unknown'')
      | LV_Binary encoded \<Rightarrow>
          and_then (ok_or (b64_decode C encoded) (SC_Msg ''binary value is not valid base64url bytes''))
            (\<lambda>bs. Ok (binary_length_matches native base (length bs)))
      | LV_BitString encoded bit_length _ _ \<Rightarrow>
          let declared = parse_unsigned 64
                (case type_parameters native of None \<Rightarrow> ''1'' | Some p \<Rightarrow> p) in
          and_then (ok_or (b64_decode C encoded) (SC_Msg ''BIT value is not valid base64url bytes''))
            (\<lambda>bs. Ok (base = ''bit'' \<and> declared = Some (unat bit_length)
                      \<and> length bs = (unat bit_length + 7) div 8))
      | LV_Date _ _ _ \<Rightarrow> Ok (base = ''date'')
      | LV_LocalDatetime _ _ _ _ _ _ _ \<Rightarrow> Ok (base = ''datetime'')
      | LV_Instant _ _ \<Rightarrow> Ok (base = ''timestamp'')
      | LV_Duration _ _ _ _ _ \<Rightarrow> Ok (base = ''time'')
      | LV_Year _ \<Rightarrow> Ok (base = ''year'')
      | LV_Json _ \<Rightarrow> Ok (base = ''json'')
      | LV_Enum label \<Rightarrow> Ok (base = ''enum'' \<and> label \<noteq> [] \<and> NUL \<notin> set label)
      | LV_Set members \<Rightarrow>
          Ok (base = ''set'' \<and> list_all (\<lambda>m. m \<noteq> [] \<and> NUL \<notin> set m) members)
      | LV_Spatial _ _ geometry_type dimensions _ _ \<Rightarrow>
          Ok (spatial_declared base geometry_type dimensions)
      | LV_InvalidTemporal kind raw \<Rightarrow>
          Ok (base \<in> {''date'', ''datetime'', ''timestamp''} \<and> \<not> blank kind \<and> \<not> blank raw)
      | _ \<Rightarrow> Ok False)"

definition validate_column :: "codec \<Rightarrow> ColumnDatum \<Rightarrow> MysqlVersion \<Rightarrow> SourceContractError + unit" where
  "validate_column C column version =
     (case col_datum column of
        D_Value v \<Rightarrow>
          let native = to_ascii_lowercase (trim (col_native_type column)) in
          and_then (value_declared C native version v) (\<lambda>valid.
          if valid then Ok ()
          else Err (SC_Column ''MySQL column does not match its captured LogicalValue''
                      (col_name column) (col_native_type column)))
      | _ \<Rightarrow> Ok ())"

section \<open>Transactions\<close>

definition mysql_image :: "codec \<Rightarrow> MysqlVersion \<Rightarrow> ColumnDatum list \<Rightarrow> SourceContractError + unit" where
  "mysql_image C expected cols =
     and_then (contract_ensure (list_all (\<lambda>c. case col_datum c of D_Null \<Rightarrow> True | D_Value _ \<Rightarrow> True | _ \<Rightarrow> False) cols)
                 ''MySQL FULL images cannot contain unavailable or unchanged values'') (\<lambda>_.
     and_then (contract_ensure (list_all (\<lambda>(i, c). col_ordinal c = i) (enumerate 0 cols))
                 ''MySQL FULL row image must contain every column in ordinal order'') (\<lambda>_.
     and_then (contract_ensure (list_ex (\<lambda>c. col_primary_key_ordinal c \<noteq> None) cols)
                 ''MySQL capture requires a primary key Row Locator'') (\<lambda>_.
     each (\<lambda>c. validate_column C c expected) cols)))"

definition mysql_change ::
  "codec \<Rightarrow> MysqlVersion \<Rightarrow> string \<Rightarrow> nat \<Rightarrow> nat \<Rightarrow> nat \<Rightarrow> RowChange \<Rightarrow> SourceContractError + nat" where
  "mysql_change C expected file start commit previous change =
     and_then (contract_ensure (rw_database change = None) ''MySQL database is carried in schema'') (\<lambda>_.
     and_then (mysql_position C (rw_source_cursor change)) (\<lambda>(row_file, row).
     and_then (contract_ensure (file = row_file \<and> start < row \<and> previous \<le> row \<and> row < commit)
                 ''MySQL row cursor is outside its transaction or out of order'') (\<lambda>_.
     and_then (each (mysql_image C expected)
                 (List.map_filter (\<lambda>x. x) [rw_before change, rw_after change])) (\<lambda>_.
     Ok row))))"

definition validate_source ::
  "codec \<Rightarrow> ValidatedTransaction \<Rightarrow> MysqlVersion \<Rightarrow> SourceContractError + unit" where
  "validate_source C vt expected =
     (let tx = transaction vt in
      and_then (contract_ensure (src_kind (tx_source tx) = ''mysql'')
                  ''MySQL Source Contract requires source kind mysql'') (\<lambda>_.
      and_then (check_version (tx_source tx) expected) (\<lambda>_.
      and_then (contract_ensure (mysql_uuid (src_id (tx_source tx))) ''invalid MySQL server UUID'') (\<lambda>_.
      and_then (check_transaction_id tx expected) (\<lambda>_.
      and_then (mysql_position C (tx_begin_cursor tx)) (\<lambda>(file, start).
      and_then (mysql_position C (tx_commit_cursor tx)) (\<lambda>(commit_file, commit).
      and_then (contract_ensure (file = commit_file \<and> start < commit)
                  ''MySQL transaction must have ordered begin/commit positions in one file'') (\<lambda>_.
      and_then (try_fold (mysql_change C expected file start commit) start (tx_changes tx)) (\<lambda>_.
      Ok ())))))))))"

section \<open>Cursors are read alike by the contract and the checkpoint\<close>

lemma take_nth_drop: "6 \<le> length bs \<Longrightarrow> bs = take (length bs - 5) bs @ bs ! (length bs - 5) # drop (length bs - 5 + 1) bs"
  using id_take_nth_drop [of "length bs - 5" bs] by simp

text \<open>An accepted cursor is the file name, a zero byte and four bytes, and displays what it encodes.\<close>

lemma mysql_position_Ok_iff:
  "mysql_position C cursor = Inr (file, pos) \<longleftrightarrow>
     sc_format cursor = ''mysql.binlog.file-position.v1''
     \<and> (\<exists>word. b64_decode C (sc_value cursor) = Some (file @ NUL # word) \<and> length word = 4 \<and> pos = be_u32 word)
     \<and> validate_position file pos = Inr () \<and> valid_utf8 file
     \<and> sc_display cursor = file @ '':'' @ show_nat pos" (is "?l \<longleftrightarrow> ?r")
proof
  assume ?l
  then obtain bs where bs: "b64_decode C (sc_value cursor) = Some bs" "6 \<le> length bs"
    and form: "bs ! (length bs - 5) = NUL" "file = take (length bs - 5) bs" "pos = be_u32 (drop (length bs - 5 + 1) bs)"
    and rest: "sc_format cursor = ''mysql.binlog.file-position.v1''" "valid_utf8 file" "length file \<le> 255" "is_ascii file"
      "\<not> list_ex (\<lambda>c. c \<in> {NUL, CHR ''/'', CHR 0x5C}) file" "4 \<le> pos" "sc_display cursor = file @ '':'' @ show_nat pos"
    by (auto simp: mysql_position_def ok_iff Let_def)
  let ?word = "drop (length bs - 5 + 1) bs"
  have word: "length ?word = 4" using bs(2) by simp
  have split: "bs = file @ NUL # ?word" using take_nth_drop [OF bs(2)] form by simp
  have "pos < 256 ^ 4" using be_u32_bound [of ?word] word form(3) by simp
  moreover have "file \<noteq> []" using form(2) bs(2) by auto
  ultimately have "validate_position file pos = Inr ()"
    using rest by (simp add: validate_position_def)
  moreover have "b64_decode C (sc_value cursor) = Some (file @ NUL # ?word)" using bs(1) split by simp
  ultimately show ?r using rest word form(3) by blast
next
  assume ?r
  then obtain word where word: "b64_decode C (sc_value cursor) = Some (file @ NUL # word)" "length word = 4" "pos = be_u32 word"
    and rest: "sc_format cursor = ''mysql.binlog.file-position.v1''" "validate_position file pos = Inr ()" "valid_utf8 file"
      "sc_display cursor = file @ '':'' @ show_nat pos" by blast
  have "file \<noteq> []" "NUL \<notin> set file" using rest(2)
    by (auto simp: validate_position_def list_ex_iff split: if_splits)
  moreover have "length (file @ NUL # word) - 5 = length file" using word(2) by simp
  moreover have "6 \<le> length (file @ NUL # word)" using word(2) \<open>file \<noteq> []\<close> by (cases "file") auto
  ultimately show ?l using word rest
    by (auto simp: mysql_position_def ok_iff Let_def validate_position_def split: if_splits)
qed

lemma mysql_position_file_position:
  assumes "mysql_position C cursor = Inr (file, pos)"
  shows "file_position C cursor = Inr (file, pos)"
proof -
  from assms obtain word where word: "sc_format cursor = ''mysql.binlog.file-position.v1''"
    "b64_decode C (sc_value cursor) = Some (file @ NUL # word)" "length word = 4" "pos = be_u32 word"
    and valid: "validate_position file pos = Inr ()" "valid_utf8 file"
    by (auto simp: mysql_position_Ok_iff)
  have "NUL \<notin> set file" using valid(1) by (auto simp: validate_position_def list_ex_iff split: if_splits)
  then have "split_once NUL (file @ NUL # word) = Some (file, word)" by (simp add: split_once_Some_iff)
  with word valid show ?thesis by (simp add: file_position_def ok_iff)
qed

section \<open>What an accepted transaction promises\<close>

text \<open>The offset of a cursor in its file, as the contract reads it.\<close>

definition offset_in :: "codec \<Rightarrow> string \<Rightarrow> SourceCursor \<Rightarrow> nat \<Rightarrow> bool" where
  "offset_in C file cursor n \<longleftrightarrow> mysql_position C cursor = Inr (file, n)"

lemma mysql_change_Ok_iff [ok_iff]:
  "mysql_change C v file start commit previous change = Inr row \<longleftrightarrow>
     rw_database change = None \<and> offset_in C file (rw_source_cursor change) row
     \<and> start < row \<and> previous \<le> row \<and> row < commit
     \<and> (\<forall>cols \<in> set (List.map_filter (\<lambda>x. x) [rw_before change, rw_after change]). mysql_image C v cols = Inr ())"
  by (auto simp: mysql_change_def offset_in_def ok_iff)

lemma mysql_changes_sorted:
  "try_fold (mysql_change C v file start commit) previous changes = Inr final \<Longrightarrow>
     \<exists>rows. list_all2 (\<lambda>change row. offset_in C file (rw_source_cursor change) row) changes rows
       \<and> sorted (previous # rows) \<and> (\<forall>row \<in> set rows. start < row \<and> row < commit)
       \<and> (\<forall>change \<in> set changes. rw_database change = None
           \<and> (\<forall>cols \<in> set (List.map_filter (\<lambda>x. x) [rw_before change, rw_after change]). mysql_image C v cols = Inr ()))"
proof (induction changes arbitrary: previous)
  case (Cons change changes)
  then obtain row where row: "mysql_change C v file start commit previous change = Inr row"
    and tail: "try_fold (mysql_change C v file start commit) row changes = Inr final"
    by (auto simp: ok_iff)
  from Cons.IH [OF tail] obtain rows where
    "list_all2 (\<lambda>change row. offset_in C file (rw_source_cursor change) row) changes rows"
    "sorted (row # rows)" "\<forall>row \<in> set rows. start < row \<and> row < commit"
    "\<forall>change \<in> set changes. rw_database change = None
       \<and> (\<forall>cols \<in> set (List.map_filter (\<lambda>x. x) [rw_before change, rw_after change]). mysql_image C v cols = Inr ())"
    by blast
  with row show ?case by (intro exI [of _ "row # rows"]) (auto simp: mysql_change_Ok_iff)
qed simp

lemma validate_source_Ok:
  assumes "validate_source C vt v = Inr u"
  obtains fl start commit final where
    "mysql_position C (tx_begin_cursor (transaction vt)) = Inr (fl, start)"
    and "mysql_position C (tx_commit_cursor (transaction vt)) = Inr (fl, commit)" and "start < commit"
    and "check_transaction_id (transaction vt) v = Inr ()"
    and "try_fold (mysql_change C v fl start commit) start (tx_changes (transaction vt)) = Inr final"
  using assms by (auto simp: validate_source_def Let_def ok_iff)

lemma binlog_same_file: "mode \<noteq> ''postgresql_lsn'' \<Longrightarrow> a < b \<Longrightarrow> compare_in mode (file, b) (file, a) = Some Greater"
  by (simp add: compare_in_def compare_checkpoint_position_def compare_position_def cmp_def)

interpretation mysql_contract: source_contract
  "\<lambda>C vt. is_ok (validate_source C vt v)"
  "\<lambda>C c. case mysql_position C c of Inr p \<Rightarrow> Some p | Inl _ \<Rightarrow> None" "{''binlog'', ''gtid''}" for v
proof
  fix C c p
  assume "(case mysql_position C c of Inr p \<Rightarrow> Some p | Inl _ \<Rightarrow> None) = Some p"
  then show "file_position C c = Inr p"
    by (cases p) (auto intro: mysql_position_file_position split: sum.splits)
next
  fix C vt mode
  assume "is_ok (validate_source C vt v)" and mode: "mode \<in> {''binlog'', ''gtid''}"
  then have "validate_source C vt v = Inr ()" by (cases "validate_source C vt v") auto
  then show "\<exists>p q. (case mysql_position C (tx_begin_cursor (transaction vt)) of Inr p \<Rightarrow> Some p | Inl _ \<Rightarrow> None) = Some p
    \<and> (case mysql_position C (tx_commit_cursor (transaction vt)) of Inr p \<Rightarrow> Some p | Inl _ \<Rightarrow> None) = Some q
    \<and> compare_in mode q p = Some Greater"
  proof (rule validate_source_Ok)
    fix fl start commit final
    assume "mysql_position C (tx_begin_cursor (transaction vt)) = Inr (fl, start)"
      "mysql_position C (tx_commit_cursor (transaction vt)) = Inr (fl, commit)" "start < commit"
    with mode show ?thesis by (auto intro: binlog_same_file)
  qed
qed

end
