(* ===== verification/Example.thy ===== *)
theory Example
  imports Json_Reader Canonical Snapshot Mysql_Source_Contract "HOL-Library.Code_Target_Nat"
begin

text \<open>
  A concrete instance of the parameters and a small run, on which the properties of the development
  are evaluated: a codec, a database engine that records the statements it executes, a task with its
  row, a plan of one statement, and a transaction of one row.
\<close>

definition plain_codec :: codec where
  "plain_codec = \<lparr>b64_decode = Some, b64_encode = (\<lambda>bs. bs), sha256 = (\<lambda>_. replicate 32 CHR ''0'')\<rparr>"

definition at_position :: "nat \<Rightarrow> SourceCursor" where
  "at_position n = \<lparr>sc_format = ''mysql.binlog.file-position.v1'',
     sc_value = ''bin.000001'' @ [NUL, NUL, NUL, NUL, char_of n], sc_display = ''bin.000001:'' @ show_nat n\<rparr>"

definition server :: string where
  "server = ''3e11fa47-71ca-11e1-9e33-c80aa9429562''"

definition row_of :: "string \<Rightarrow> string option \<Rightarrow> string \<Rightarrow> log_row" where
  "row_of mode gtids phase = \<lparr>lr_task_id = ''task'', lr_source_uuid = server, lr_sink_uuid = ''sink'', lr_binding = ''b'',
     lr_mode = mode, lr_binlog_file = ''bin.000001'', lr_binlog_position = 4, lr_gtid_set = gtids,
     lr_last_transaction_id = None, lr_revision = 0, lr_applied_transactions = 0, lr_applied_rows = 0,
     lr_phase = phase, lr_snapshot_rows = 0, lr_snapshot_gtids = None\<rparr>"

definition recorder :: "(string list, unit, unit) engine" where
  "recorder = \<lparr>en_execute = (\<lambda>sql ps d. Inr (1, d @ [sql])), en_fetch = (\<lambda>sql ps d. Inr []),
     en_text = (\<lambda>_. Inr None), en_bytes = (\<lambda>_. Inr None),
     en_relation = (\<lambda>s t d. Some \<lparr>rel_kind = ''r'', rel_persistence = ''p'', rel_row_security = False,
       rel_force_row_security = False\<rparr>),
     en_trigger_count = (\<lambda>s t d. 0), en_foreign_keys = (\<lambda>s t d. 0)\<rparr>"

definition no_carriers :: carrier_json where
  "no_carriers = \<lparr>json_logical = (\<lambda>_. None), json_envelope = (\<lambda>_. None)\<rparr>"

definition db_of :: "log_row \<Rightarrow> string list sink_db" where
  "db_of row = \<lparr>log_info = (\<lambda>t. if t = ''task'' then Some row else None), business = []\<rparr>"

definition cp_of :: "log_row \<Rightarrow> ReplicationCheckpoint" where
  "cp_of row = (case checkpoint_from_row row of Inr cp \<Rightarrow> cp)"

definition writer_on :: "log_row \<Rightarrow> reply list \<Rightarrow> string list CheckpointWriter" where
  "writer_on row replies = \<lparr>wr_conn = \<lparr>cn_committed = db_of row, cn_working = db_of row, cn_replies = replies\<rparr>,
     wr_task_id = ''task'', wr_source_uuid = server, wr_sink_uuid = ''sink'', wr_binding = ''b'',
     wr_checkpoint = Some (cp_of row), wr_observed_gtids = None, wr_observed_position = None\<rparr>"

abbreviation binlog_row :: log_row where
  "binlog_row \<equiv> row_of ''binlog'' None ''incremental''"

abbreviation gtid_row :: log_row where
  "gtid_row \<equiv> row_of ''gtid'' (Some (server @ '':1-4'')) ''incremental''"

definition insert_plan :: "string \<Rightarrow> unit SqlTransaction" where
  "insert_plan tid = \<lparr>sq_source_uuid = server, sq_source_transaction_id = tid, sq_commit_cursor = at_position 100,
     sq_target_version = ''15'', sq_tables = [(''app'', ''orders'')],
     sq_statements = [\<lparr>ps_sql = ''INSERT'', ps_diagnostic_sql = [], ps_parameters = [], ps_probe = None,
       ps_verification = None, ps_carrier_readbacks = []\<rparr>]\<rparr>"

definition run_insert :: "log_row \<Rightarrow> reply list \<Rightarrow> string \<Rightarrow>
    (io_error + CheckpointApplyResult) \<times> string list CheckpointWriter" where
  "run_insert row replies tid =
     apply_inner plain_codec no_carriers recorder (writer_on row replies) server tid (at_position 100) (Some (insert_plan tid))"

definition sample_source :: Source where
  "sample_source = \<lparr>src_kind = ''mysql'', src_version = ''8.0.36'', src_id = server\<rparr>"

definition sample_column :: "LogicalValue \<Rightarrow> ColumnDatum" where
  "sample_column v = \<lparr>col_ordinal = 0, col_name = ''id'', col_native_type = ''int'',
     col_primary_key_ordinal = Some 0, col_generated = False, col_collation = None, col_datum = D_Value v\<rparr>"

definition sample_row :: "ColumnDatum list" where
  "sample_row = [sample_column (LV_Integer True 32 ''7'')]"

definition sample_tx :: ChangeTransaction where
  "sample_tx = \<lparr>tx_source = sample_source, tx_id = ''tx-1'', tx_begin_cursor = at_position 50,
     tx_commit_cursor = at_position 100,
     tx_changes = [\<lparr>rw_database = None, rw_operation = Insert, rw_schema = ''app'', rw_table = ''orders'',
       rw_source_cursor = at_position 60, rw_source_timestamp = 0, rw_schema_basis = ''catalog'', rw_before = None,
       rw_after = Some sample_row\<rparr>]\<rparr>"

definition sample_to_vec :: "ChangeEvent \<Rightarrow> bytes option" where
  "sample_to_vec e = Some (show_nat (th_sequence (ev_transaction e)))"

definition sample_from_slice :: "bytes \<Rightarrow> ChangeEvent option" where
  "sample_from_slice l = find (\<lambda>e. show_nat (th_sequence (ev_transaction e)) @ [newline] = l) (json_events sample_tx)"

definition sample_batch :: SnapshotBatch where
  "sample_batch = \<lparr>sb_source = sample_source, sb_schema = ''app'', sb_table = ''orders'',
     sb_rows = [sample_row], sb_last_in_table = True\<rparr>"

definition insert_sql :: "ValidatedSnapshotBatch \<Rightarrow> io_error + unit SnapshotSql" where
  "insert_sql v = Inr \<lparr>ss_statements = map (\<lambda>_. ''INSERT'') (sb_rows (batch v)),
     ss_parameters = map (\<lambda>_. []) (sb_rows (batch v))\<rparr>"

abbreviation preparing_row :: log_row where
  "preparing_row \<equiv> row_of ''binlog'' None ''snapshot''"

definition orders_scope :: "SnapshotTable list" where
  "orders_scope = [\<lparr>st_schema = ''app'', st_table = ''orders'', st_columns = []\<rparr>]"

definition run_copy :: "(io_error + ReplicationCheckpoint) \<times> string list CheckpointWriter" where
  "run_copy = copy_snapshot plain_codec recorder insert_sql (\<lambda>_ _. Inr ()) (writer_on preparing_row []) orders_scope
     [Inr sample_batch]"

definition after_insert :: "string list CheckpointWriter" where
  "after_insert = snd (run_insert binlog_row [] ''tx-1'')"

definition inserted_cp :: ReplicationCheckpoint where
  "inserted_cp = (cp_of binlog_row)\<lparr>cp_position := 100, cp_last_transaction_id := Some ''tx-1'', cp_revision := 1,
     cp_applied_transactions := 1, cp_applied_rows := 1\<rparr>"

definition mysql_tx :: ChangeTransaction where
  "mysql_tx = sample_tx\<lparr>tx_id := server @ '':5''\<rparr>"

definition sample_context :: SourceRepresentationContext where
  "sample_context = \<lparr>ctx_connector = \<lparr>ci_kind = ''postgresql'', ci_version = ''15''\<rparr>,
     ctx_server_build = \<lparr>sb_product = ''postgresql'', sb_distribution = ''community'', sb_version = ''15.4'', sb_build = ''b''\<rparr>,
     ctx_source_type_identity = ''t'', ctx_source_type_definition_digest = ''sha256:'' @ replicate 64 CHR ''0'',
     ctx_protocol = ''pgoutput.v1'', ctx_format = Repr_Text, ctx_type_metadata = [],
     ctx_source_cursor = \<lparr>sc_format = ''postgresql.lsn.v1'', sc_value = ''0/10'', sc_display = ''0/10''\<rparr>\<rparr>"

definition sample_carrier :: RawValueCarrier where
  "sample_carrier = rc_new ''codec'' ''money'' (''sha256:'' @ replicate 64 CHR ''0'') ''UTF-8'' ''42'' None"

lemma sample_valid: "validate plain_codec sample_tx = Inr (ValidatedTransaction sample_tx)"
  by code_simp

lemma sample_json: "json sample_to_vec (ValidatedTransaction sample_tx) = Inr (''0'' @ [newline] @ ''1'' @ [newline] @ ''2'' @ [newline])"
  by code_simp

lemma sample_batch_valid: "validate_snapshot plain_codec sample_batch = Inr (ValidatedSnapshotBatch sample_batch)"
  by code_simp

lemma sample_accepted: "validate_source plain_codec (ValidatedTransaction mysql_tx) V80 = Inr ()"
  by code_simp

text \<open>The run of one plan, and what it stores.\<close>

lemma stored_by_evaluation:
  "(case log_info d t of None \<Rightarrow> None | Some row \<Rightarrow> (case checkpoint_from_row row of Inl _ \<Rightarrow> None | Inr cp \<Rightarrow> Some cp)) = Some cp
     \<Longrightarrow> stored d t cp"
  by (auto simp: stored_def split: option.splits sum.splits)

lemma binlog_row_stored: "stored (cn_committed (wr_conn (writer_on binlog_row rs))) ''task'' (cp_of binlog_row)"
  by (rule stored_by_evaluation) (simp add: writer_on_def db_of_def, code_simp)

lemma inserted_stored: "stored (cn_committed (wr_conn after_insert)) ''task'' inserted_cp"
  by (rule stored_by_evaluation) code_simp

lemma insert_run: "sink_run plain_codec recorder (writer_on binlog_row []) [(''bin.000001'', 100)] after_insert"
proof -
  have "writer_step plain_codec recorder (writer_on binlog_row []) after_insert"
    unfolding after_insert_def run_insert_def by (rule op_apply, rule surjective_pairing)
  moreover have "business (cn_committed (wr_conn after_insert)) \<noteq> business (cn_committed (wr_conn (writer_on binlog_row [])))"
    by code_simp
  moreover have "stored (cn_committed (wr_conn after_insert)) (wr_task_id (writer_on binlog_row [])) inserted_cp"
    using inserted_stored by (simp add: writer_on_def)
  ultimately have "sink_run plain_codec recorder (writer_on binlog_row []) ([] @ [(cp_file inserted_cp, cp_position inserted_cp)]) after_insert"
    by (intro run_commit [OF run_start]) auto
  moreover have "(cp_file inserted_cp, cp_position inserted_cp) = (''bin.000001'', 100)" by code_simp
  ultimately show ?thesis by simp
qed

end
