(* ===== verification/Logical_Type.thy ===== *)
theory Logical_Type
  imports Validate_Spec
begin

text \<open>
  The logical types of \<^verbatim>\<open>crates/change_event/src/compatibility.rs\<close>: the declared shape of a column
  without its database, when a declaration is valid, and which logical values it admits. The second
  half gives the numeric meaning of the decimal check, which the source makes on digit strings.
\<close>

section \<open>Declarations\<close>

datatype LengthUnit = LU_Bytes | LU_Characters

datatype DuplicateKeyPolicy = DK_Reject | DK_PreserveLast

record JsonProfile =
  jp_normalized :: bool
  jp_duplicate_keys :: DuplicateKeyPolicy

definition default_json_profile :: JsonProfile where
  "default_json_profile = \<lparr>jp_normalized = True, jp_duplicate_keys = DK_Reject\<rparr>"

datatype (plugins only: code size) LogicalType =
    LT_Boolean
  | LT_Uuid
  | LT_Integer bool u8
  | LT_Decimal u16 int
  | LT_DecimalUnbounded
  | LT_Float u8
  | LT_Text string "u64 option" LengthUnit "string option"
  | LT_Binary "u64 option"
  | LT_BitString u64
  | LT_VariableBitString "u64 option"
  | LT_Date
  | LT_LocalTime u8
  | LT_OffsetTime u8
  | LT_LocalDatetime u8
  | LT_Instant u8
  | LT_Duration u8
  | LT_CalendarInterval u8
  | LT_Year
  | LT_Json JsonProfile
  | LT_Enum "string list"
  | LT_Set "string list"
  | LT_Spatial string "int option" u8
  | LT_InvalidTemporal string
  | LT_Network string bool
  | LT_Xml
  | LT_Array LogicalType
  | LT_ArrayWithMetadata LogicalType u8 "int list"
  | LT_Struct "LogicalField list"
  | LT_Map LogicalType LogicalType
  | LT_Range LogicalType
  | LT_MultiRange LogicalType
  | LT_Domain string LogicalType "string list" bool "string option" string
  | LT_Opaque string string
  | LT_Raw string string string string
and LogicalField = LogicalField (lf_name: string) (lf_logical_type: LogicalType) (lf_nullable: bool)

lemma size_lf_type: "f \<in> set fs \<Longrightarrow> size (lf_logical_type f) < Suc (size_list size fs)"
proof -
  assume "f \<in> set fs"
  then have "size f \<le> size_list size fs" by (rule size_list_estimation') simp
  moreover have "size (lf_logical_type f) < size f" by (cases f) simp
  ultimately show ?thesis by simp
qed

text \<open>The constructors of the source that are more than a constructor.\<close>

definition lt_text :: "string \<Rightarrow> u64 option \<Rightarrow> LogicalType" where
  "lt_text charset max_length = LT_Text charset max_length LU_Bytes None"

definition lt_json :: LogicalType where
  "lt_json = LT_Json default_json_profile"

definition temporal_precision :: "LogicalType \<Rightarrow> u8 option" where
  "temporal_precision t =
     (case t of
        LT_LocalTime p \<Rightarrow> Some p
      | LT_OffsetTime p \<Rightarrow> Some p
      | LT_LocalDatetime p \<Rightarrow> Some p
      | LT_Instant p \<Rightarrow> Some p
      | LT_Duration p \<Rightarrow> Some p
      | LT_CalendarInterval p \<Rightarrow> Some p
      | _ \<Rightarrow> None)"

text \<open>The declarations without parts.\<close>

definition lt_validate_leaf :: "LogicalType \<Rightarrow> string + unit" where
  "lt_validate_leaf t =
     (case t of
        LT_Integer _ bits \<Rightarrow> require (bits \<in> {8, 16, 24, 32, 64}) ''integer width is invalid''
      | LT_Decimal precision scale \<Rightarrow>
          require (precision \<noteq> 0 \<and> -1000 \<le> scale \<and> scale \<le> 1000) ''decimal precision or scale is invalid''
      | LT_Float bits \<Rightarrow> require (bits \<in> {32, 64}) ''floating point width is invalid''
      | LT_Text charset _ _ collation \<Rightarrow>
          and_then (require (\<not> (blank charset \<or> NUL \<in> set charset)) ''text charset is invalid'') (\<lambda>_.
          require (case collation of None \<Rightarrow> True | Some v \<Rightarrow> \<not> blank v) ''text collation is invalid'')
      | LT_BitString len \<Rightarrow> require (len \<noteq> 0) ''bit string length must be positive''
      | LT_VariableBitString max_length \<Rightarrow>
          require (max_length \<noteq> Some 0) ''variable bit string maximum length must be positive''
      | LT_Spatial subtype srid dimensions \<Rightarrow>
          let open_spatial_shape = (subtype = ''*'' \<and> srid = None \<and> dimensions = 0) in
          require (\<not> (blank subtype \<or> (\<not> (2 \<le> dimensions \<and> dimensions \<le> 4) \<and> \<not> open_spatial_shape)))
            ''spatial declaration is invalid''
      | LT_InvalidTemporal kind \<Rightarrow> require (\<not> blank kind) ''invalid temporal kind is empty''
      | LT_Network address_family _ \<Rightarrow> require (\<not> blank address_family) ''network family is empty''
      | LT_Raw codec_identity native_type digest encoding \<Rightarrow>
          require (\<not> list_ex (\<lambda>v. blank v \<or> NUL \<in> set v) [codec_identity, native_type, digest, encoding])
            ''raw logical type lacks stable source evidence''
      | _ \<Rightarrow>
          (case temporal_precision t of
             Some p \<Rightarrow> require (p \<le> 6) ''temporal fractional precision is invalid''
           | None \<Rightarrow> Ok ()))"

function lt_validate :: "LogicalType \<Rightarrow> string + unit" where
  "lt_validate t =
     (case t of
        LT_ArrayWithMetadata element dimensions lower_bounds \<Rightarrow>
          and_then (require (dimensions \<noteq> 0 \<and> unat dimensions = length lower_bounds)
                      ''array dimensions and lower bounds do not agree'') (\<lambda>_. lt_validate element)
      | LT_Struct flds \<Rightarrow>
          and_then (try_fold (\<lambda>names f.
            and_then (require (\<not> blank (lf_name f) \<and> lf_name f \<notin> names)
                        ''structured field names must be unique and non-empty'') (\<lambda>_.
            and_then (lt_validate (lf_logical_type f)) (\<lambda>_. Ok (insert (lf_name f) names)))) {} flds) (\<lambda>_. Ok ())
      | LT_Array element \<Rightarrow> lt_validate element
      | LT_Range element \<Rightarrow> lt_validate element
      | LT_MultiRange element \<Rightarrow> lt_validate element
      | LT_Map key v \<Rightarrow> and_then (lt_validate key) (\<lambda>_. lt_validate v)
      | LT_Domain name base _ _ _ definition_digest \<Rightarrow>
          and_then (require (\<not> (blank name \<or> blank definition_digest))
                      ''domain identity or definition digest is empty'') (\<lambda>_. lt_validate base)
      | _ \<Rightarrow> lt_validate_leaf t)"
  by pat_completeness auto
termination
  by (relation "measure size") (auto simp: size_lf_type)

declare lt_validate.simps [simp del]

definition family_name :: "LogicalType \<Rightarrow> string" where
  "family_name t =
     (case t of
        LT_Boolean \<Rightarrow> ''boolean'' | LT_Uuid \<Rightarrow> ''uuid'' | LT_Integer _ _ \<Rightarrow> ''integer''
      | LT_Decimal _ _ \<Rightarrow> ''decimal'' | LT_DecimalUnbounded \<Rightarrow> ''decimal'' | LT_Float _ \<Rightarrow> ''float''
      | LT_Text _ _ _ _ \<Rightarrow> ''text'' | LT_Binary _ \<Rightarrow> ''binary''
      | LT_BitString _ \<Rightarrow> ''bit_string'' | LT_VariableBitString _ \<Rightarrow> ''bit_string''
      | LT_Date \<Rightarrow> ''date'' | LT_LocalTime _ \<Rightarrow> ''local_time'' | LT_OffsetTime _ \<Rightarrow> ''offset_time''
      | LT_LocalDatetime _ \<Rightarrow> ''local_datetime'' | LT_Instant _ \<Rightarrow> ''instant''
      | LT_Duration _ \<Rightarrow> ''duration'' | LT_CalendarInterval _ \<Rightarrow> ''calendar_interval'' | LT_Year \<Rightarrow> ''year''
      | LT_Json _ \<Rightarrow> ''json'' | LT_Enum _ \<Rightarrow> ''enum'' | LT_Set _ \<Rightarrow> ''set'' | LT_Spatial _ _ _ \<Rightarrow> ''spatial''
      | LT_InvalidTemporal _ \<Rightarrow> ''invalid_temporal'' | LT_Network _ _ \<Rightarrow> ''network'' | LT_Xml \<Rightarrow> ''xml''
      | LT_Array _ \<Rightarrow> ''array'' | LT_ArrayWithMetadata _ _ _ \<Rightarrow> ''array'' | LT_Struct _ \<Rightarrow> ''struct''
      | LT_Map _ _ \<Rightarrow> ''map'' | LT_Range _ \<Rightarrow> ''range'' | LT_MultiRange _ \<Rightarrow> ''multi_range''
      | LT_Domain _ _ _ _ _ _ \<Rightarrow> ''domain'' | LT_Opaque _ _ \<Rightarrow> ''opaque'' | LT_Raw _ _ _ _ \<Rightarrow> ''raw'')"

section \<open>Which values a declaration admits\<close>

definition fractional_microseconds_match_signed :: "int \<Rightarrow> u8 \<Rightarrow> bool" where
  "fractional_microseconds_match_signed microseconds precision \<longleftrightarrow>
     precision \<le> 6 \<and> microseconds mod 10 ^ (6 - unat precision) = 0"

definition fractional_microseconds_match :: "u32 \<Rightarrow> u8 \<Rightarrow> bool" where
  "fractional_microseconds_match microseconds precision \<longleftrightarrow>
     fractional_microseconds_match_signed (uint microseconds) precision"

definition fractional_nanoseconds_match :: "u32 \<Rightarrow> u8 \<Rightarrow> bool" where
  "fractional_nanoseconds_match nanoseconds precision \<longleftrightarrow>
     precision \<le> 6 \<and> unat nanoseconds mod 10 ^ (9 - unat precision) = 0"

definition raw_carrier_is_reversible :: "RawValueCarrier \<Rightarrow> bool" where
  "raw_carrier_is_reversible r \<longleftrightarrow>
     rc_reversible r = Some True
     \<and> (case rc_source_context r of
          None \<Rightarrow> False
        | Some x \<Rightarrow> ctx_source_type_definition_digest x = rc_source_definition_digest r)"

abbreviation zero_char :: "char \<Rightarrow> bool" where
  "zero_char c \<equiv> c = CHR ''0''"

text \<open>The digits of a coefficient without its leading zeros, and the number of zeros at its end. String
  lengths stay below the limits at which the additions of the source would saturate; the
  subtraction of the scale from the precision is limited to \<^verbatim>\<open>i32\<close>.\<close>

definition coefficient_of :: "string \<Rightarrow> string" where
  "coefficient_of digits = dropWhile zero_char digits"

definition trailing_zeros :: "string \<Rightarrow> nat" where
  "trailing_zeros digits = length (takeWhile zero_char (rev digits))"

definition decimal_matches :: "u16 \<Rightarrow> int \<Rightarrow> string \<Rightarrow> int \<Rightarrow> bool" where
  "decimal_matches precision scale unscaled value_scale =
     (let digits = (case strip_prefix ''-'' unscaled of Some d \<Rightarrow> d | None \<Rightarrow> unscaled) in
      if unscaled = ''NaN'' then value_scale = 0
      else if unscaled \<in> {''Infinity'', ''-Infinity''} then False
      else
        let scale_matches = (scale = value_scale \<or> (scale < 0 \<and> value_scale = 0));
            coefficient = coefficient_of digits;
            significant_digits =
              (if scale < 0 then max 1 (length (rev (dropWhile zero_char (rev coefficient))))
               else max 1 (length coefficient));
            integer_digits =
              (if coefficient = [] then 0
               else if value_scale < 0 then length coefficient + nat (- value_scale)
               else length coefficient - nat value_scale);
            maximum_integer_digits = nat (max 0 (min (uint precision - scale) (2 ^ 31 - 1)));
            scale_aligned =
              (0 \<le> scale \<or> value_scale \<noteq> 0 \<or> coefficient = []
               \<or> nat (- scale) \<le> trailing_zeros digits) in
        scale_matches \<and> digits \<noteq> [] \<and> significant_digits \<le> unat precision
        \<and> integer_digits \<le> maximum_integer_digits \<and> scale_aligned)"

text \<open>\<^verbatim>\<open>text.chars().count()\<close> of a valid UTF-8 string counts the bytes that start a character.\<close>

definition char_count :: "string \<Rightarrow> nat" where
  "char_count s = length (filter (\<lambda>c. \<not> cont_byte c) s)"

definition text_matches ::
  "codec \<Rightarrow> string \<Rightarrow> u64 option \<Rightarrow> LengthUnit \<Rightarrow> string \<Rightarrow> string \<Rightarrow> string option \<Rightarrow> bool" where
  "text_matches C charset max_length length_unit value_charset encoded txt =
     (if \<not> eq_ignore_ascii_case charset value_charset then False
      else case max_length of
        None \<Rightarrow> True
      | Some m \<Rightarrow>
          (case txt of
             Some s \<Rightarrow> (case length_unit of LU_Bytes \<Rightarrow> length s | LU_Characters \<Rightarrow> char_count s) \<le> unat m
           | None \<Rightarrow> (case b64_decode C encoded of None \<Rightarrow> False | Some bs \<Rightarrow> length bs \<le> unat m)))"

definition binary_matches :: "codec \<Rightarrow> u64 option \<Rightarrow> string \<Rightarrow> bool" where
  "binary_matches C max_length encoded =
     (case max_length of
        None \<Rightarrow> True
      | Some m \<Rightarrow> (case b64_decode C encoded of None \<Rightarrow> False | Some bs \<Rightarrow> length bs \<le> unat m))"

definition set_matches :: "string list \<Rightarrow> string list \<Rightarrow> bool" where
  "set_matches members vs \<longleftrightarrow>
     members \<noteq> [] \<and> list_all (\<lambda>v. list_ex (\<lambda>m. m = v) members) vs
     \<and> list_all (\<lambda>(i, v). v \<notin> set (take i vs)) (enumerate 0 vs)"

definition spatial_matches :: "string \<Rightarrow> int option \<Rightarrow> u8 \<Rightarrow> string \<Rightarrow> int option \<Rightarrow> u8 \<Rightarrow> bool" where
  "spatial_matches subtype srid dimensions geometry_type value_srid value_dimensions \<longleftrightarrow>
     (subtype = ''*'' \<or> eq_ignore_ascii_case subtype geometry_type)
     \<and> (srid = None \<or> srid = value_srid) \<and> (dimensions = 0 \<or> dimensions = value_dimensions)"

definition network_matches :: "string \<Rightarrow> bool \<Rightarrow> string \<Rightarrow> u8 option \<Rightarrow> bool" where
  "network_matches address_family cidr value_family prefix_length \<longleftrightarrow>
     (eq_ignore_ascii_case address_family value_family
      \<or> eq_ignore_ascii_case address_family ''ip'' \<and> value_family \<in> {''ipv4'', ''ipv6''})
     \<and> (if cidr then prefix_length \<noteq> None
        else eq_ignore_ascii_case address_family ''ip'' \<or> prefix_length = None)"

definition temporal_matches :: "LogicalType \<Rightarrow> LogicalValue \<Rightarrow> bool" where
  "temporal_matches t v =
     (case v of
        LV_InvalidTemporal kind _ \<Rightarrow>
          (case t of
             LT_Date \<Rightarrow> eq_ignore_ascii_case kind ''mysql.date''
           | LT_LocalDatetime _ \<Rightarrow> eq_ignore_ascii_case kind ''mysql.datetime''
           | LT_Instant _ \<Rightarrow> eq_ignore_ascii_case kind ''mysql.timestamp''
           | _ \<Rightarrow> False)
      | LV_TemporalInfinity kind _ \<Rightarrow>
          (case t of
             LT_Date \<Rightarrow> kind = TI_Date
           | LT_LocalDatetime _ \<Rightarrow> kind = TI_LocalDatetime
           | LT_Instant _ \<Rightarrow> kind = TI_Instant
           | LT_CalendarInterval _ \<Rightarrow> kind = TI_CalendarInterval
           | _ \<Rightarrow> False)
      | LV_Date _ _ _ \<Rightarrow> t = LT_Date
      | LV_LocalTime _ _ _ us \<Rightarrow>
          (case t of LT_LocalTime p \<Rightarrow> fractional_microseconds_match us p | _ \<Rightarrow> False)
      | LV_OffsetTime _ _ _ us _ \<Rightarrow>
          (case t of LT_OffsetTime p \<Rightarrow> fractional_microseconds_match us p | _ \<Rightarrow> False)
      | LV_Duration _ _ _ _ us \<Rightarrow>
          (case t of LT_Duration p \<Rightarrow> fractional_microseconds_match us p | _ \<Rightarrow> False)
      | LV_LocalDatetime _ _ _ _ _ _ us \<Rightarrow>
          (case t of LT_LocalDatetime p \<Rightarrow> fractional_microseconds_match us p | _ \<Rightarrow> False)
      | LV_CalendarInterval _ _ us \<Rightarrow>
          (case t of LT_CalendarInterval p \<Rightarrow> fractional_microseconds_match_signed us p | _ \<Rightarrow> False)
      | LV_Instant _ ns \<Rightarrow> (case t of LT_Instant p \<Rightarrow> fractional_nanoseconds_match ns p | _ \<Rightarrow> False)
      | LV_Year _ \<Rightarrow> t = LT_Year
      | _ \<Rightarrow> False)"

text \<open>The values without parts. A match on the type and the value in the source is a match on the value
  here, the order of whose branches does not matter: each value kind has one declaration kind.\<close>

definition scalar_matches :: "codec \<Rightarrow> LogicalType \<Rightarrow> LogicalValue \<Rightarrow> bool" where
  "scalar_matches C t v =
     (case v of
        LV_Boolean _ \<Rightarrow> t = LT_Boolean
      | LV_Uuid _ \<Rightarrow> t = LT_Uuid
      | LV_Json _ \<Rightarrow> (case t of LT_Json _ \<Rightarrow> True | _ \<Rightarrow> False)
      | LV_Xml _ _ \<Rightarrow> t = LT_Xml
      | LV_Integer value_signed value_bits _ \<Rightarrow>
          (case t of LT_Integer sgd bits \<Rightarrow> sgd = value_signed \<and> bits = value_bits | _ \<Rightarrow> False)
      | LV_Decimal unscaled value_scale \<Rightarrow>
          (case t of
             LT_DecimalUnbounded \<Rightarrow> True
           | LT_Decimal precision scale \<Rightarrow> decimal_matches precision scale unscaled value_scale
           | _ \<Rightarrow> False)
      | LV_Float value_bits _ \<Rightarrow> (case t of LT_Float bits \<Rightarrow> bits = value_bits | _ \<Rightarrow> False)
      | LV_Text value_charset encoded txt \<Rightarrow>
          (case t of
             LT_Text charset max_length length_unit _ \<Rightarrow>
               text_matches C charset max_length length_unit value_charset encoded txt
           | _ \<Rightarrow> False)
      | LV_Binary encoded \<Rightarrow> (case t of LT_Binary max_length \<Rightarrow> binary_matches C max_length encoded | _ \<Rightarrow> False)
      | LV_BitString _ bit_length _ _ \<Rightarrow>
          (case t of
             LT_BitString len \<Rightarrow> len = bit_length
           | LT_VariableBitString max_length \<Rightarrow>
               (case max_length of None \<Rightarrow> True | Some m \<Rightarrow> bit_length \<le> m)
           | _ \<Rightarrow> False)
      | LV_Enum label \<Rightarrow> (case t of LT_Enum members \<Rightarrow> members \<noteq> [] \<and> label \<in> set members | _ \<Rightarrow> False)
      | LV_Set vs \<Rightarrow> (case t of LT_Set members \<Rightarrow> set_matches members vs | _ \<Rightarrow> False)
      | LV_Spatial _ _ geometry_type value_dimensions value_srid _ \<Rightarrow>
          (case t of
             LT_Spatial subtype srid dimensions \<Rightarrow>
               spatial_matches subtype srid dimensions geometry_type value_srid value_dimensions
           | _ \<Rightarrow> False)
      | LV_Network value_family _ prefix_length \<Rightarrow>
          (case t of
             LT_Network address_family cidr \<Rightarrow> network_matches address_family cidr value_family prefix_length
           | _ \<Rightarrow> False)
      | LV_Raw r \<Rightarrow>
          (case t of
             LT_Raw codec_identity native_type digest encoding \<Rightarrow>
               codec_identity = rc_codec_identity r \<and> native_type = rc_native_type r
               \<and> digest = rc_source_definition_digest r \<and> encoding = rc_encoding r
               \<and> raw_carrier_is_reversible r
           | LT_Opaque source_type format \<Rightarrow>
               source_type = rc_native_type r \<and> format = rc_encoding r \<and> raw_carrier_is_reversible r
           | _ \<Rightarrow> False)
      | LV_InvalidTemporal value_kind _ \<Rightarrow>
          (case t of LT_InvalidTemporal kind \<Rightarrow> kind = value_kind | _ \<Rightarrow> temporal_matches t v)
      | _ \<Rightarrow> temporal_matches t v)"

definition is_null :: "LogicalValue \<Rightarrow> bool" where
  "is_null v = (case v of LV_Null \<Rightarrow> True | _ \<Rightarrow> False)"

definition range_bounds :: "LogicalValue \<Rightarrow> LogicalValue list option" where
  "range_bounds v =
     (case v of
        LV_Range _ lower upper _ _ \<Rightarrow>
          Some ((case lower of None \<Rightarrow> [] | Some x \<Rightarrow> [x]) @ (case upper of None \<Rightarrow> [] | Some x \<Rightarrow> [x]))
      | _ \<Rightarrow> None)"

definition array_parts :: "LogicalValue \<Rightarrow> (LogicalValue list \<times> (u8 \<times> int list) option) option" where
  "array_parts v =
     (case v of
        LV_Array xs \<Rightarrow> Some (xs, None)
      | LV_ArrayWithMetadata xs dimensions lower_bounds _ \<Rightarrow> Some (xs, Some (dimensions, lower_bounds))
      | _ \<Rightarrow> None)"

definition struct_parts :: "LogicalValue \<Rightarrow> StructuredField list option" where
  "struct_parts v = (case v of LV_Struct fs \<Rightarrow> Some fs | _ \<Rightarrow> None)"

definition map_parts :: "LogicalValue \<Rightarrow> MapEntry list option" where
  "map_parts v = (case v of LV_Map es \<Rightarrow> Some es | _ \<Rightarrow> None)"

definition multi_range_parts :: "LogicalValue \<Rightarrow> LogicalValue list option" where
  "multi_range_parts v = (case v of LV_MultiRange rs \<Rightarrow> Some rs | _ \<Rightarrow> None)"

definition domain_value :: "LogicalValue \<Rightarrow> LogicalValue" where
  "domain_value v = (case v of LV_Domain x \<Rightarrow> x | _ \<Rightarrow> v)"

function matches_value :: "codec \<Rightarrow> LogicalType \<Rightarrow> LogicalValue \<Rightarrow> bool" where
  "matches_value C t v =
     (case t of
        LT_Array element \<Rightarrow>
          (case array_parts v of
             None \<Rightarrow> False
           | Some (elements, _) \<Rightarrow> list_all (\<lambda>x. is_null x \<or> matches_value C element x) elements)
      | LT_ArrayWithMetadata element dimensions lower_bounds \<Rightarrow>
          (case array_parts v of
             Some (elements, Some metadata) \<Rightarrow>
               metadata = (dimensions, lower_bounds)
               \<and> list_all (\<lambda>x. is_null x \<or> matches_value C element x) elements
           | _ \<Rightarrow> False)
      | LT_Struct flds \<Rightarrow>
          (case struct_parts v of
             None \<Rightarrow> False
           | Some vs \<Rightarrow> length flds = length vs
               \<and> list_all (\<lambda>(f, x). lf_name f = sf_name x
                     \<and> (is_null (sf_value x) \<and> lf_nullable f \<or> matches_value C (lf_logical_type f) (sf_value x)))
                   (zip flds vs))
      | LT_Map key val \<Rightarrow>
          (case map_parts v of
             None \<Rightarrow> False
           | Some es \<Rightarrow> list_all (\<lambda>e. matches_value C key (me_key e)
                 \<and> (is_null (me_value e) \<or> matches_value C val (me_value e))) es)
      | LT_Range element \<Rightarrow>
          (case range_bounds v of None \<Rightarrow> False | Some bs \<Rightarrow> list_all (matches_value C element) bs)
      | LT_MultiRange element \<Rightarrow>
          (case multi_range_parts v of
             None \<Rightarrow> False
           | Some rs \<Rightarrow> list_all (\<lambda>r. case range_bounds r of
               None \<Rightarrow> False | Some bs \<Rightarrow> list_all (matches_value C element) bs) rs)
      | LT_Domain _ base _ _ _ _ \<Rightarrow> matches_value C base (domain_value v)
      | _ \<Rightarrow> scalar_matches C t v)"
  by pat_completeness auto
termination
  by (relation "measure (\<lambda>(C, t, v). size t)") (auto simp: size_lf_type dest: set_zip_leftD)

declare matches_value.simps [simp del]

section \<open>What the decimal check means\<close>

lemma digit_value_zero_iff: "is_ascii_digit c \<Longrightarrow> digit_value c = 0 \<longleftrightarrow> zero_char c"
proof -
  assume d: "is_ascii_digit c"
  have "digit_value c = 0 \<longleftrightarrow> ord c = ord CHR ''0''"
    using d
    by (auto simp: digit_value_def is_ascii_digit_def ord_def)
  also have "\<dots> \<longleftrightarrow> zero_char c" unfolding ord_def by (rule of_char_eq_iff)
  finally show ?thesis .
qed

lemma digit_value_less: "is_ascii_digit c \<Longrightarrow> digit_value c < 10"
  by (auto simp: digit_value_def is_ascii_digit_def)

lemma radix_value_append: "radix_value 10 (a @ b) = radix_value 10 a * 10 ^ length b + radix_value 10 b"
proof (induction b rule: rev_induct)
  case (snoc c b)
  have "radix_value 10 (a @ b @ [c]) = 10 * radix_value 10 (a @ b) + digit_value c"
    using radix_value_snoc [of 10 "a @ b" c] by simp
  with snoc show ?case by (simp add: radix_value_snoc algebra_simps)
qed (simp add: radix_value_def)

lemma radix_value_bound: "list_all is_ascii_digit d \<Longrightarrow> radix_value 10 d < 10 ^ length d"
proof (induction d rule: rev_induct)
  case (snoc c d)
  then have "radix_value 10 d < 10 ^ length d" "digit_value c < 10" by (simp_all add: digit_value_less)
  then have "10 * radix_value 10 d + digit_value c < 10 * 10 ^ length d" by linarith
  then show ?case by (simp add: radix_value_snoc)
qed (simp add: radix_value_def)

lemma radix_value_zeros: "list_all zero_char d \<Longrightarrow> radix_value 10 d = 0"
proof (induction d rule: rev_induct)
  case (snoc c d)
  have "digit_value CHR ''0'' = 0" by (simp add: digit_value_def is_ascii_digit_def ord_def)
  with snoc show ?case by (simp add: radix_value_snoc)
qed (simp add: radix_value_def)

lemma coefficient_value: "radix_value 10 (coefficient_of d) = radix_value 10 d"
proof -
  have "radix_value 10 (takeWhile zero_char d) = 0"
    by (rule radix_value_zeros) (auto simp: list_all_iff dest: set_takeWhileD)
  with radix_value_append [of "takeWhile zero_char d" "dropWhile zero_char d"] show ?thesis
    by (simp add: coefficient_of_def)
qed

lemma coefficient_digits: "list_all is_ascii_digit d \<Longrightarrow> list_all is_ascii_digit (coefficient_of d)"
  by (auto simp: list_all_iff coefficient_of_def dest: set_dropWhileD)

text \<open>Without leading zeros, the length of a coefficient is its number of decimal digits.\<close>

lemma coefficient_length_le_iff:
  assumes "list_all is_ascii_digit d"
  shows "length (coefficient_of d) \<le> k \<longleftrightarrow> radix_value 10 d < 10 ^ k"
proof (cases "coefficient_of d")
  case Nil
  then show ?thesis using coefficient_value [of d] by (simp add: radix_value_def)
next
  case (Cons c cs)
  have c: "is_ascii_digit c" "\<not> zero_char c"
    using coefficient_digits [OF assms] Cons hd_dropWhile [of zero_char d] by (auto simp: coefficient_of_def)
  then have "1 \<le> digit_value c" using digit_value_zero_iff by (metis less_one not_le)
  then have "10 ^ length cs \<le> digit_value c * 10 ^ length cs" by simp
  also have "\<dots> \<le> radix_value 10 d"
    using coefficient_value [of d] radix_value_append [of "[c]" cs] Cons by (simp add: radix_value_def)
  finally have low: "10 ^ length cs \<le> radix_value 10 d" .
  have high: "radix_value 10 d < 10 ^ Suc (length cs)"
    using radix_value_bound [OF coefficient_digits [OF assms]] coefficient_value [of d] Cons by simp
  show ?thesis
  proof
    assume "length (coefficient_of d) \<le> k"
    then have "(10 :: nat) ^ Suc (length cs) \<le> 10 ^ k" using Cons by (intro power_increasing) auto
    with high show "radix_value 10 d < 10 ^ k" by linarith
  next
    assume "radix_value 10 d < 10 ^ k"
    with low have "(10 :: nat) ^ length cs < 10 ^ k" by linarith
    then have "length cs < k" by (rule power_less_imp_less_exp [rotated]) simp
    then show "length (coefficient_of d) \<le> k" using Cons by simp
  qed
qed

lemma coefficient_empty_iff: "list_all is_ascii_digit d \<Longrightarrow> coefficient_of d = [] \<longleftrightarrow> radix_value 10 d = 0"
  using coefficient_length_le_iff [of d 0] by simp

lemma trailing_zeros_snoc: "trailing_zeros (d @ [c]) = (if zero_char c then Suc (trailing_zeros d) else 0)"
  by (simp add: trailing_zeros_def)

lemma trailing_zeros_iff:
  "list_all is_ascii_digit d \<Longrightarrow> radix_value 10 d \<noteq> 0 \<Longrightarrow> k \<le> trailing_zeros d \<longleftrightarrow> 10 ^ k dvd radix_value 10 d"
proof (induction d arbitrary: k rule: rev_induct)
  case (snoc c d)
  let ?v = "radix_value 10 d"
  have v: "radix_value 10 (d @ [c]) = 10 * ?v + digit_value c" by (rule radix_value_snoc)
  have c: "is_ascii_digit c" "digit_value c < 10" using snoc.prems by (simp_all add: digit_value_less)
  show ?case
  proof (cases k)
    case (Suc j)
    show ?thesis
    proof (cases "zero_char c")
      case True
      then have zero: "digit_value c = 0" using digit_value_zero_iff [OF c(1)] by simp
      then have "?v \<noteq> 0" using snoc.prems v by simp
      then have "j \<le> trailing_zeros d \<longleftrightarrow> 10 ^ j dvd ?v" using snoc by simp
      then show ?thesis using True Suc v zero by (simp add: trailing_zeros_snoc)
    next
      case False
      then have pos: "digit_value c \<noteq> 0" using digit_value_zero_iff [OF c(1)] by simp
      have "\<not> 10 ^ Suc j dvd 10 * ?v + digit_value c"
      proof
        assume "10 ^ Suc j dvd 10 * ?v + digit_value c"
        then have "10 dvd 10 * ?v + digit_value c" using dvd_trans [of 10 "10 ^ Suc j"] by simp
        then have "10 dvd digit_value c" by (simp add: dvd_add_right_iff)
        with pos c(2) show False using dvd_imp_le by fastforce
      qed
      then show ?thesis using False Suc v by (simp add: trailing_zeros_snoc)
    qed
  qed simp
qed (simp add: radix_value_def)

lemma trimmed_length:
  assumes "list_all is_ascii_digit d" and "radix_value 10 d \<noteq> 0"
  shows "length (dropWhile zero_char (rev (coefficient_of d))) + trailing_zeros d = length (coefficient_of d)"
proof -
  let ?c = "coefficient_of d"
  have "d = takeWhile zero_char d @ ?c" by (simp add: coefficient_of_def)
  then have d: "rev d = rev ?c @ rev (takeWhile zero_char d)" by (metis rev_append)
  have "\<exists>x \<in> set (rev ?c). \<not> zero_char x"
    using radix_value_zeros [of ?c] coefficient_value [of d] assms(2) by (auto simp: list_all_iff)
  then have "takeWhile zero_char (rev d) = takeWhile zero_char (rev ?c)"
    unfolding d by (auto simp: takeWhile_append)
  then have "trailing_zeros d = length (takeWhile zero_char (rev ?c))" by (simp add: trailing_zeros_def)
  moreover have "length (takeWhile zero_char (rev ?c)) + length (dropWhile zero_char (rev ?c)) = length (rev ?c)"
    by (metis length_append takeWhile_dropWhile_id)
  ultimately show ?thesis by simp
qed

text \<open>The text of a coefficient: an optional minus sign and decimal digits.\<close>

definition coefficient_text :: "string \<Rightarrow> string \<Rightarrow> bool" where
  "coefficient_text unscaled digits \<longleftrightarrow>
     digits \<noteq> [] \<and> list_all is_ascii_digit digits \<and> (unscaled = digits \<or> unscaled = CHR ''-'' # digits)"

lemma digits_not_special:
  "list_all is_ascii_digit d \<Longrightarrow> d \<noteq> CHR ''N'' # x \<and> d \<noteq> CHR ''I'' # x \<and> d \<noteq> CHR ''-'' # x"
  by (auto simp: is_ascii_digit_def ord_def)

lemma coefficient_text_digits:
  assumes "coefficient_text unscaled digits"
  shows "(case strip_prefix ''-'' unscaled of Some d \<Rightarrow> d | None \<Rightarrow> unscaled) = digits"
    and "unscaled \<noteq> ''NaN''" and "unscaled \<notin> {''Infinity'', ''-Infinity''}"
proof -
  have d: "digits \<noteq> []" "list_all is_ascii_digit digits" using assms by (simp_all add: coefficient_text_def)
  have "strip_prefix ''-'' digits = None"
    using d digits_not_special [of digits] by (cases digits) auto
  then show "(case strip_prefix ''-'' unscaled of Some d \<Rightarrow> d | None \<Rightarrow> unscaled) = digits"
    using assms by (auto simp: coefficient_text_def)
  show "unscaled \<noteq> ''NaN''" "unscaled \<notin> {''Infinity'', ''-Infinity''}"
    using assms digits_not_special [OF d(2)] by (auto simp: coefficient_text_def)
qed

text \<open>
  A declared decimal of a precision and scale admits exactly the numbers \<open>m / 10^scale\<close> whose
  coefficient \<open>m\<close> has at most \<open>precision\<close> digits: written with that scale, or, when the scale is
  negative, as a whole number.
\<close>

lemma decimal_matches_iff:
  assumes coeff: "coefficient_text unscaled digits" and n: "n = radix_value 10 digits"
    and valid: "precision \<noteq> 0" "-1000 \<le> scale" "scale \<le> 1000"
  shows "decimal_matches precision scale unscaled value_scale \<longleftrightarrow>
     (value_scale = scale \<and> n < 10 ^ unat precision)
     \<or> (scale < 0 \<and> value_scale = 0 \<and> (\<exists>m. n = m * 10 ^ nat (- scale) \<and> m < 10 ^ unat precision))"
proof -
  let ?c = "coefficient_of digits" and ?p = "unat precision" and ?k = "nat (- scale)"
  have d: "digits \<noteq> []" "list_all is_ascii_digit digits" using coeff by (simp_all add: coefficient_text_def)
  have p: "1 \<le> ?p" using valid(1) by (simp add: Suc_le_eq unat_gt_0)
  have up: "int ?p = uint precision" by simp
  have "uint precision < 65536" using uint_bounded [of precision] by simp
  then have "uint precision - scale \<le> 2 ^ 31 - 1" using valid(2) by simp
  then have maxd: "nat (max 0 (min (uint precision - scale) (2 ^ 31 - 1))) = nat (max 0 (int ?p - scale))"
    unfolding up by (simp only: min_absorb1)
  have check: "decimal_matches precision scale unscaled vs \<longleftrightarrow>
      (scale = vs \<or> scale < 0 \<and> vs = 0)
      \<and> (if scale < 0 then max 1 (length (dropWhile zero_char (rev ?c))) else max 1 (length ?c)) \<le> ?p
      \<and> (if ?c = [] then 0 else if vs < 0 then length ?c + nat (- vs) else length ?c - nat vs) \<le> nat (max 0 (int ?p - scale))
      \<and> (0 \<le> scale \<or> vs \<noteq> 0 \<or> ?c = [] \<or> ?k \<le> trailing_zeros digits)" for vs
    unfolding decimal_matches_def coefficient_text_digits(1) [OF coeff] Let_def maxd
    using coefficient_text_digits(2,3) [OF coeff] d(1) by (simp del: of_nat_unat)
  have len: "length ?c \<le> k \<longleftrightarrow> n < 10 ^ k" for k using coefficient_length_le_iff [OF d(2)] n by simp
  have empty: "?c = [] \<longleftrightarrow> n = 0" using coefficient_empty_iff [OF d(2)] n by simp
  have same: "decimal_matches precision scale unscaled value_scale \<longleftrightarrow> n < 10 ^ ?p" if "value_scale = scale"
  proof -
    have sig: "length (dropWhile zero_char (rev ?c)) \<le> length ?c" by (metis length_dropWhile_le length_rev)
    have "1 \<le> length ?c" if "?c \<noteq> []" using that by (cases ?c) auto
    then show ?thesis
      unfolding check len [symmetric] using that p sig by (auto simp del: of_nat_unat)
  qed
  have whole: "decimal_matches precision scale unscaled 0 \<longleftrightarrow> (\<exists>m. n = m * 10 ^ ?k \<and> m < 10 ^ ?p)" if neg: "scale < 0"
  proof (cases "n = 0")
    case True
    then have "?c = []" using empty by simp
    then show ?thesis unfolding check using True neg p by (auto simp del: of_nat_unat)
  next
    case False
    then have c: "?c \<noteq> []" "1 \<le> length ?c" using empty by (auto simp: Suc_le_eq)
    have trim: "length (dropWhile zero_char (rev ?c)) + trailing_zeros digits = length ?c"
      using trimmed_length [OF d(2)] False n by simp
    have zeros: "?k \<le> trailing_zeros digits \<longleftrightarrow> 10 ^ ?k dvd n"
      using trailing_zeros_iff [OF d(2)] False n by simp
    have "nat (max 0 (int ?p - scale)) = ?p + ?k" using neg by linarith
    then have "decimal_matches precision scale unscaled 0 \<longleftrightarrow>
        length (dropWhile zero_char (rev ?c)) \<le> ?p \<and> length ?c \<le> ?p + ?k \<and> ?k \<le> trailing_zeros digits"
      unfolding check using neg c p by auto
    also have "\<dots> \<longleftrightarrow> length ?c \<le> ?p + ?k \<and> ?k \<le> trailing_zeros digits" using trim by linarith
    also have "\<dots> \<longleftrightarrow> n < 10 ^ ?p * 10 ^ ?k \<and> 10 ^ ?k dvd n" by (simp add: len zeros power_add)
    also have "\<dots> \<longleftrightarrow> (\<exists>m. n = m * 10 ^ ?k \<and> m < 10 ^ ?p)" by (auto simp: mult.commute elim!: dvdE)
    finally show ?thesis .
  qed
  have other: "\<not> decimal_matches precision scale unscaled value_scale"
    if "value_scale \<noteq> scale" "\<not> (scale < 0 \<and> value_scale = 0)"
    unfolding check using that by auto
  show ?thesis using same whole other by auto
qed

end
