(* ===== verification/Type_Catalog.thy ===== *)
theory Type_Catalog
  imports Logical_Type "HOL-Library.List_Lexorder" "HOL-Library.Char_ord"
begin

text \<open>
  The PostgreSQL type catalog of \<^verbatim>\<open>crates/postgresql_15/src/type_mapping.rs\<close>: type definitions with
  their digests, the closure of a definition under its dependencies, and the check that a closure
  received with a value is complete. The closure is proved to be the set of types reachable from its
  root, and a closure that is built passes the check.
\<close>

section \<open>Definitions\<close>

record SourceTypeField =
  tf_name :: string
  tf_type_oid :: u32
  tf_nullable :: bool

datatype SourceTypeDefinitionKind =
    TK_Pseudo
  | TK_Builtin string
  | TK_Enum "string list"
  | TK_Domain u32 "string list" bool
  | TK_Composite "SourceTypeField list"
  | TK_Array u32 string
  | TK_Range u32
  | TK_MultiRange u32
  | TK_Extension string "string option" string "LogicalType option"

record SourceTypeDefinition =
  td_oid :: u32
  td_schema :: string
  td_name :: string
  td_kind :: SourceTypeDefinitionKind
  td_collation :: "string option"
  td_definition_digest :: string

record SourceExtension =
  ex_name :: string
  ex_version :: string
  ex_schema :: string
  ex_installed :: bool
  ex_available :: bool
  ex_target_compatible :: "bool option"

record SourceTypeCatalog =
  tc_types :: "SourceTypeDefinition list"
  tc_extensions :: "SourceExtension list"

record SourceTypeDefinitionClosure =
  cl_types :: "SourceTypeDefinition list"
  cl_extensions :: "SourceExtension list"

text \<open>The JSON serialisations under the digests.\<close>

type_synonym definition_key = "u32 \<times> string \<times> string \<times> SourceTypeDefinitionKind \<times> string option"

record type_json =
  tj_definition :: "definition_key \<Rightarrow> bytes"
  tj_catalog :: "SourceTypeCatalog \<Rightarrow> bytes"
  tj_closure :: "SourceTypeDefinitionClosure \<Rightarrow> bytes"

definition empty_catalog :: SourceTypeCatalog where
  "empty_catalog = \<lparr>tc_types = [], tc_extensions = []\<rparr>"

definition catalog_evidence_digest :: "codec \<Rightarrow> type_json \<Rightarrow> SourceTypeCatalog \<Rightarrow> string" where
  "catalog_evidence_digest C J catalog = hex_lower (sha256 C (tj_catalog J catalog))"

definition closure_digest :: "codec \<Rightarrow> type_json \<Rightarrow> SourceTypeDefinitionClosure \<Rightarrow> string" where
  "closure_digest C J closure = hex_lower (sha256 C (tj_closure J closure))"

definition expected_definition_digest :: "codec \<Rightarrow> type_json \<Rightarrow> SourceTypeDefinition \<Rightarrow> string" where
  "expected_definition_digest C J d =
     hex_lower (sha256 C (tj_definition J (td_oid d, td_schema d, td_name d, td_kind d, td_collation d)))"

definition finalized :: "codec \<Rightarrow> type_json \<Rightarrow> SourceTypeDefinition \<Rightarrow> SourceTypeDefinition" where
  "finalized C J d = d\<lparr>td_definition_digest := expected_definition_digest C J d\<rparr>"

definition new_definition ::
  "codec \<Rightarrow> type_json \<Rightarrow> u32 \<Rightarrow> string \<Rightarrow> string \<Rightarrow> SourceTypeDefinitionKind \<Rightarrow> string option \<Rightarrow> SourceTypeDefinition" where
  "new_definition C J oid schema name kind collation =
     finalized C J \<lparr>td_oid = oid, td_schema = schema, td_name = name, td_kind = kind,
       td_collation = collation, td_definition_digest = []\<rparr>"

definition def_pseudo :: "codec \<Rightarrow> type_json \<Rightarrow> u32 \<Rightarrow> string \<Rightarrow> string \<Rightarrow> string option \<Rightarrow> SourceTypeDefinition" where
  "def_pseudo C J oid schema name collation = new_definition C J oid schema name TK_Pseudo collation"

definition def_builtin :: "codec \<Rightarrow> type_json \<Rightarrow> u32 \<Rightarrow> string \<Rightarrow> string \<Rightarrow> SourceTypeDefinition" where
  "def_builtin C J oid schema name = new_definition C J oid schema name (TK_Builtin name) None"

definition def_enum :: "codec \<Rightarrow> type_json \<Rightarrow> u32 \<Rightarrow> string \<Rightarrow> string \<Rightarrow> string list \<Rightarrow> SourceTypeDefinition" where
  "def_enum C J oid schema name labels = new_definition C J oid schema name (TK_Enum labels) None"

definition def_domain ::
  "codec \<Rightarrow> type_json \<Rightarrow> u32 \<Rightarrow> string \<Rightarrow> string \<Rightarrow> u32 \<Rightarrow> string list \<Rightarrow> bool \<Rightarrow> string option \<Rightarrow> SourceTypeDefinition" where
  "def_domain C J oid schema name base_oid constraints not_null collation =
     new_definition C J oid schema name (TK_Domain base_oid constraints not_null) collation"

text \<open>Every field of a composite type may be NULL, whatever the table declares.\<close>

definition def_composite ::
  "codec \<Rightarrow> type_json \<Rightarrow> u32 \<Rightarrow> string \<Rightarrow> string \<Rightarrow> SourceTypeField list \<Rightarrow> SourceTypeDefinition" where
  "def_composite C J oid schema name flds =
     new_definition C J oid schema name (TK_Composite (map (\<lambda>f. f\<lparr>tf_nullable := True\<rparr>) flds)) None"

definition def_array ::
  "codec \<Rightarrow> type_json \<Rightarrow> u32 \<Rightarrow> string \<Rightarrow> string \<Rightarrow> u32 \<Rightarrow> string \<Rightarrow> SourceTypeDefinition" where
  "def_array C J oid schema name element_oid delimiter =
     new_definition C J oid schema name (TK_Array element_oid delimiter) None"

definition def_range :: "codec \<Rightarrow> type_json \<Rightarrow> u32 \<Rightarrow> string \<Rightarrow> string \<Rightarrow> u32 \<Rightarrow> SourceTypeDefinition" where
  "def_range C J oid schema name subtype_oid = new_definition C J oid schema name (TK_Range subtype_oid) None"

definition def_multi_range :: "codec \<Rightarrow> type_json \<Rightarrow> u32 \<Rightarrow> string \<Rightarrow> string \<Rightarrow> u32 \<Rightarrow> SourceTypeDefinition" where
  "def_multi_range C J oid schema name range_oid = new_definition C J oid schema name (TK_MultiRange range_oid) None"

definition def_extension ::
  "codec \<Rightarrow> type_json \<Rightarrow> u32 \<Rightarrow> string \<Rightarrow> string \<Rightarrow> string \<Rightarrow> string \<Rightarrow> string \<Rightarrow> LogicalType option \<Rightarrow> SourceTypeDefinition" where
  "def_extension C J oid schema name extension codec_identity encoding logical_type =
     new_definition C J oid schema name (TK_Extension extension (Some codec_identity) encoding logical_type) None"

definition type_definition_dependencies :: "SourceTypeDefinition \<Rightarrow> u32 list" where
  "type_definition_dependencies d =
     (case td_kind d of
        TK_Domain base_oid _ _ \<Rightarrow> [base_oid]
      | TK_Composite flds \<Rightarrow> map tf_type_oid flds
      | TK_Array element_oid _ \<Rightarrow> [element_oid]
      | TK_Range subtype_oid \<Rightarrow> [subtype_oid]
      | TK_MultiRange range_oid \<Rightarrow> [range_oid]
      | _ \<Rightarrow> [])"

definition definition_at :: "SourceTypeDefinition list \<Rightarrow> u32 \<Rightarrow> SourceTypeDefinition option" where
  "definition_at ds oid = find (\<lambda>d. td_oid d = oid) ds"

section \<open>The closure of a definition\<close>

text \<open>
  The recursive visit of the source, with the calls that are still to be made as an agenda: the
  dependencies of a definition come before what its caller has left.
\<close>

definition unseen :: "SourceTypeDefinition list \<Rightarrow> u32 set \<Rightarrow> nat" where
  "unseen ds seen = card (set (map td_oid ds) - seen)"

lemma definition_at_Some: "definition_at ds oid = Some d \<Longrightarrow> d \<in> set ds \<and> td_oid d = oid"
  by (auto simp: definition_at_def find_Some_iff)

lemma definition_at_None: "definition_at ds oid = None \<longleftrightarrow> oid \<notin> td_oid ` set ds"
  by (auto simp: definition_at_def find_None_iff)

lemma unseen_insert:
  assumes "definition_at ds oid = Some d" and "oid \<notin> seen"
  shows "unseen ds (insert oid seen) < unseen ds seen"
proof -
  have "oid \<in> set (map td_oid ds) - seen" using definition_at_Some [OF assms(1)] assms(2) by auto
  then have "set (map td_oid ds) - insert oid seen \<subset> set (map td_oid ds) - seen" by blast
  then show ?thesis unfolding unseen_def by (intro psubset_card_mono) auto
qed

function visit_closure ::
  "SourceTypeDefinition list \<Rightarrow> u32 list \<Rightarrow> u32 set \<Rightarrow> SourceTypeDefinition list \<Rightarrow> string + SourceTypeDefinition list" where
  "visit_closure ds [] seen types = Ok types"
| "visit_closure ds (oid # agenda) seen types =
     (if oid \<in> seen then visit_closure ds agenda seen types
      else case definition_at ds oid of
        None \<Rightarrow> Err (''PostgreSQL type dependency OID '' @ show_nat (unat oid) @ '' is missing'')
      | Some d \<Rightarrow> visit_closure ds (type_definition_dependencies d @ agenda) (insert oid seen) (types @ [d]))"
  by pat_completeness auto
termination
  by (relation "measures [\<lambda>(ds, agenda, seen, types). unseen ds seen, \<lambda>(ds, agenda, seen, types). length agenda]")
    (auto intro: unseen_insert)

definition extension_of :: "SourceTypeDefinition \<Rightarrow> string option" where
  "extension_of d = (case td_kind d of TK_Extension extension _ _ _ \<Rightarrow> Some extension | _ \<Rightarrow> None)"

definition definition_closure :: "SourceTypeCatalog \<Rightarrow> u32 \<Rightarrow> string + SourceTypeDefinitionClosure" where
  "definition_closure catalog root_oid =
     and_then (visit_closure (tc_types catalog) [root_oid] {} []) (\<lambda>types.
     let types = sort_key td_oid types;
         extension_names = remdups_adj (sort (List.map_filter extension_of types)) in
     and_then (map_result (\<lambda>name.
         ok_or (find (\<lambda>extension. eq_ignore_ascii_case (ex_name extension) name) (tc_extensions catalog))
           (''PostgreSQL extension evidence for '' @ name @ '' is missing'')) extension_names) (\<lambda>extensions.
     Ok \<lparr>cl_types = types, cl_extensions = extensions\<rparr>))"

section \<open>The check of a closure\<close>

fun dedup_ignore_case :: "string list \<Rightarrow> string list" where
  "dedup_ignore_case (x # y # ys) =
     (if eq_ignore_ascii_case y x then dedup_ignore_case (x # ys) else x # dedup_ignore_case (y # ys))"
| "dedup_ignore_case xs = xs"

text \<open>\<^verbatim>\<open>windows(2)\<close> of a sequence: no two neighbours are out of order.\<close>

fun strictly_increasing :: "'a::linorder list \<Rightarrow> bool" where
  "strictly_increasing (x # y # ys) \<longleftrightarrow> x < y \<and> strictly_increasing (y # ys)"
| "strictly_increasing xs \<longleftrightarrow> True"

text \<open>The definitions reachable from the agenda, or nothing if one of them is missing. The agenda is a
  stack: the last dependency is visited first.\<close>

function reachable_oids :: "SourceTypeDefinition list \<Rightarrow> u32 list \<Rightarrow> u32 set \<Rightarrow> u32 set option" where
  "reachable_oids ds [] seen = Some seen"
| "reachable_oids ds (oid # pending) seen =
     (if oid \<in> seen then reachable_oids ds pending seen
      else case definition_at ds oid of
        None \<Rightarrow> None
      | Some d \<Rightarrow> reachable_oids ds (rev (type_definition_dependencies d) @ pending) (insert oid seen))"
  by pat_completeness auto
termination
  by (relation "measures [\<lambda>(ds, pending, seen). unseen ds seen, \<lambda>(ds, pending, seen). length pending]")
    (auto intro: unseen_insert)

definition required_extensions :: "SourceTypeDefinition list \<Rightarrow> string list" where
  "required_extensions ds = dedup_ignore_case (sort_key to_ascii_lowercase (List.map_filter extension_of ds))"

definition extensions_agree :: "string list \<Rightarrow> SourceExtension list \<Rightarrow> bool" where
  "extensions_agree required extensions \<longleftrightarrow>
     length required = length extensions
     \<and> list_all (\<lambda>e. ex_installed e \<and> \<not> blank (ex_version e) \<and> \<not> blank (ex_schema e)) extensions
     \<and> strictly_increasing (map (to_ascii_lowercase \<circ> ex_name) extensions)
     \<and> list_all (\<lambda>(r, e). eq_ignore_ascii_case r (ex_name e)) (zip required extensions)"

definition validate_type_definition_closure :: "codec \<Rightarrow> type_json \<Rightarrow> SourceTypeDefinitionClosure \<Rightarrow> u32 \<Rightarrow> bool" where
  "validate_type_definition_closure C J closure root_oid =
     (let ds = cl_types closure; oids = set (map td_oid ds) in
      if card oids \<noteq> length ds \<or> root_oid \<notin> oids \<or> \<not> strictly_increasing (map td_oid ds) then False
      else if list_ex (\<lambda>d. td_definition_digest d \<noteq> expected_definition_digest C J d) ds then False
      else if \<not> extensions_agree (required_extensions ds) (cl_extensions closure) then False
      else case reachable_oids ds [root_oid] {} of
        None \<Rightarrow> False
      | Some reachable \<Rightarrow> card reachable = card oids)"

section \<open>Lemmas\<close>

subsection \<open>Reachability\<close>

definition dependency :: "SourceTypeDefinition list \<Rightarrow> (u32 \<times> u32) set" where
  "dependency ds = {(a, b). \<exists>d. definition_at ds a = Some d \<and> b \<in> set (type_definition_dependencies d)}"

definition reachable_from :: "SourceTypeDefinition list \<Rightarrow> u32 \<Rightarrow> u32 set" where
  "reachable_from ds root_oid = (dependency ds)\<^sup>* `` {root_oid}"

lemma dependency_image:
  "definition_at ds oid = Some d \<Longrightarrow> dependency ds `` {oid} = set (type_definition_dependencies d)"
  by (auto simp: dependency_def)

lemma Image_rtrancl_visit:
  assumes "r `` {x} = D" shows "r\<^sup>* `` (insert x S) = r\<^sup>* `` (insert x (D \<union> S))"
proof -
  have "r\<^sup>* `` D \<subseteq> r\<^sup>* `` {x}"
    using assms by (auto intro: converse_rtrancl_into_rtrancl)
  then show ?thesis by blast
qed

lemma Image_rtrancl_closed: "r `` X \<subseteq> X \<Longrightarrow> r\<^sup>* `` X = X"
  by (rule Image_closed_trancl)

text \<open>Every dependency of a type that has been visited is visited or still to be visited.\<close>

definition frontier_ok :: "SourceTypeDefinition list \<Rightarrow> u32 set \<Rightarrow> u32 list \<Rightarrow> bool" where
  "frontier_ok ds seen agenda \<longleftrightarrow> dependency ds `` seen \<subseteq> seen \<union> set agenda"

lemma frontier_ok_start: "frontier_ok ds {} agenda"
  by (simp add: frontier_ok_def)

lemma frontier_ok_skip: "frontier_ok ds seen (oid # agenda) \<Longrightarrow> oid \<in> seen \<Longrightarrow> frontier_ok ds seen agenda"
  by (auto simp: frontier_ok_def)

lemma frontier_ok_visit:
  "frontier_ok ds seen (oid # agenda) \<Longrightarrow> definition_at ds oid = Some d \<Longrightarrow>
     set deps = set (type_definition_dependencies d) \<Longrightarrow>
     frontier_ok ds (insert oid seen) (deps @ agenda)"
  using dependency_image [of ds oid d] by (auto simp: frontier_ok_def)

lemma frontier_ok_done: "frontier_ok ds seen [] \<Longrightarrow> (dependency ds)\<^sup>* `` seen = seen"
  by (simp add: frontier_ok_def Image_rtrancl_closed)

lemma reachable_visit:
  assumes "definition_at ds oid = Some d" and "set deps = set (type_definition_dependencies d)"
  shows "(dependency ds)\<^sup>* `` (insert oid seen \<union> set (deps @ agenda)) = (dependency ds)\<^sup>* `` (seen \<union> set (oid # agenda))"
proof -
  have "insert oid seen \<union> set (deps @ agenda) = insert oid (set deps \<union> (seen \<union> set agenda))"
    and "seen \<union> set (oid # agenda) = insert oid (seen \<union> set agenda)" by auto
  then show ?thesis
    using Image_rtrancl_visit [OF dependency_image [OF assms(1)], of "seen \<union> set agenda"] assms(2) by simp
qed

lemma reachable_oids_Some:
  "reachable_oids ds pending seen = Some r \<Longrightarrow> frontier_ok ds seen pending \<Longrightarrow>
     r = (dependency ds)\<^sup>* `` (seen \<union> set pending)"
proof (induction ds pending seen rule: reachable_oids.induct)
  case (2 ds oid pending seen)
  show ?case
  proof (cases "oid \<in> seen")
    case True
    then show ?thesis using 2 by (simp add: frontier_ok_skip insert_absorb)
  next
    case False
    then obtain d where d: "definition_at ds oid = Some d" using 2 by (auto split: option.splits)
    show ?thesis
      using 2(2) [OF False d] 2(3,4) False d frontier_ok_visit [OF 2(4) d, of "rev (type_definition_dependencies d)"]
        reachable_visit [OF d, of "rev (type_definition_dependencies d)" seen pending]
      by simp
  qed
qed (simp add: frontier_ok_done)

lemma reachable_oids_total:
  "(dependency ds)\<^sup>* `` (seen \<union> set pending) \<subseteq> td_oid ` set ds \<Longrightarrow> \<exists>r. reachable_oids ds pending seen = Some r"
proof (induction ds pending seen rule: reachable_oids.induct)
  case (2 ds oid pending seen)
  show ?case
  proof (cases "oid \<in> seen")
    case True
    then show ?thesis using 2(1,3) by (simp add: insert_absorb)
  next
    case False
    have "oid \<in> td_oid ` set ds" using 2(3) by auto
    then obtain d where d: "definition_at ds oid = Some d" using definition_at_None [of ds oid] by (cases "definition_at ds oid") auto
    show ?thesis
      using 2(2) [OF False d] 2(3) False d reachable_visit [OF d, of "rev (type_definition_dependencies d)" seen pending]
      by simp
  qed
qed simp

lemma visit_closure_Ok:
  "visit_closure ds agenda seen types = Ok ts \<Longrightarrow> frontier_ok ds seen agenda \<Longrightarrow>
     seen = td_oid ` set types \<Longrightarrow> distinct (map td_oid types) \<Longrightarrow>
     (\<forall>d \<in> set types. definition_at ds (td_oid d) = Some d) \<Longrightarrow>
     td_oid ` set ts = (dependency ds)\<^sup>* `` (seen \<union> set agenda) \<and> distinct (map td_oid ts) \<and>
     (\<forall>d \<in> set ts. definition_at ds (td_oid d) = Some d)"
proof (induction ds agenda seen types rule: visit_closure.induct)
  case (2 ds oid agenda seen types)
  show ?case
  proof (cases "oid \<in> seen")
    case True
    then show ?thesis using 2 by (simp add: frontier_ok_skip insert_absorb)
  next
    case False
    then obtain d where d: "definition_at ds oid = Some d" using 2 by (auto split: option.splits)
    have oid: "td_oid d = oid" using definition_at_Some [OF d] by simp
    have "visit_closure ds (type_definition_dependencies d @ agenda) (insert oid seen) (types @ [d]) = Ok ts"
      using 2(3) False d by simp
    moreover have "insert oid seen = td_oid ` set (types @ [d])" using 2(5) oid by simp
    moreover have "distinct (map td_oid (types @ [d]))" using 2(5,6) False oid by simp
    moreover have "\<forall>d \<in> set (types @ [d]). definition_at ds (td_oid d) = Some d" using 2(7) d oid by simp
    ultimately show ?thesis
      using 2(2) [OF False d _ frontier_ok_visit [OF 2(4) d refl]] reachable_visit [OF d refl, of seen agenda]
      by metis
  qed
qed (simp add: frontier_ok_done)

lemma visit_closure_total:
  "(dependency ds)\<^sup>* `` (seen \<union> set agenda) \<subseteq> td_oid ` set ds \<Longrightarrow> \<exists>ts. visit_closure ds agenda seen types = Ok ts"
proof (induction ds agenda seen types rule: visit_closure.induct)
  case (2 ds oid agenda seen types)
  show ?case
  proof (cases "oid \<in> seen")
    case True
    then show ?thesis using 2(1,3) by (simp add: insert_absorb)
  next
    case False
    have "oid \<in> td_oid ` set ds" using 2(3) by auto
    then obtain d where d: "definition_at ds oid = Some d" using definition_at_None [of ds oid] by (cases "definition_at ds oid") auto
    show ?thesis
      using 2(2) [OF False d] 2(3) False d reachable_visit [OF d refl, of seen agenda] by simp
  qed
qed simp

subsection \<open>What a closure holds\<close>

lemma strictly_increasing_iff: "strictly_increasing xs \<longleftrightarrow> sorted_wrt (<) xs"
  by (induction xs rule: strictly_increasing.induct) (auto intro: order.strict_trans)

lemma set_map_filter: "set (List.map_filter f xs) = {y. \<exists>x \<in> set xs. f x = Some y}"
  by (induction xs) (auto simp: List.map_filter_simps split: option.splits)

lemma sorted_key_distinct:
  assumes "distinct (map f xs)" shows "sorted_wrt (<) (map f (sort_key f xs))"
proof -
  have "distinct (map f (sort_key f xs))"
    using assms by (simp add: distinct_map)
  then show ?thesis by (simp add: strict_sorted_iff)
qed

lemma definition_closure_Ok:
  assumes "definition_closure catalog root_oid = Ok cl"
  shows "td_oid ` set (cl_types cl) = reachable_from (tc_types catalog) root_oid"
    and "sorted_wrt (<) (map td_oid (cl_types cl))"
    and "\<forall>d \<in> set (cl_types cl). definition_at (tc_types catalog) (td_oid d) = Some d"
    and "list_all2 (\<lambda>name e. find (\<lambda>e. eq_ignore_ascii_case (ex_name e) name) (tc_extensions catalog) = Some e)
           (remdups_adj (sort (List.map_filter extension_of (cl_types cl)))) (cl_extensions cl)"
proof -
  obtain ts es where ts: "visit_closure (tc_types catalog) [root_oid] {} [] = Ok ts"
    and cl: "cl = \<lparr>cl_types = sort_key td_oid ts, cl_extensions = es\<rparr>"
    and es: "list_all2 (\<lambda>name e. find (\<lambda>e. eq_ignore_ascii_case (ex_name e) name) (tc_extensions catalog) = Some e)
           (remdups_adj (sort (List.map_filter extension_of (sort_key td_oid ts)))) es"
    using assms by (auto simp: definition_closure_def Let_def ok_iff)
  note * = visit_closure_Ok [OF ts frontier_ok_start]
  show "td_oid ` set (cl_types cl) = reachable_from (tc_types catalog) root_oid"
    using * by (simp add: cl reachable_from_def)
  show "sorted_wrt (<) (map td_oid (cl_types cl))"
    using * by (simp add: cl sorted_key_distinct)
  show "\<forall>d \<in> set (cl_types cl). definition_at (tc_types catalog) (td_oid d) = Some d"
    using * by (simp add: cl)
  show "list_all2 (\<lambda>name e. find (\<lambda>e. eq_ignore_ascii_case (ex_name e) name) (tc_extensions catalog) = Some e)
           (remdups_adj (sort (List.map_filter extension_of (cl_types cl)))) (cl_extensions cl)"
    using es by (simp add: cl)
qed

lemma list_all2_total: "(\<forall>x \<in> set xs. \<exists>y. P x y) \<Longrightarrow> \<exists>ys. list_all2 P xs ys"
  by (induction xs) (auto simp: list_all2_Cons1)

lemma definition_closure_total:
  assumes types: "reachable_from (tc_types catalog) root_oid \<subseteq> td_oid ` set (tc_types catalog)"
    and exts: "\<And>d name. d \<in> set (tc_types catalog) \<Longrightarrow> extension_of d = Some name \<Longrightarrow>
      \<exists>e \<in> set (tc_extensions catalog). eq_ignore_ascii_case (ex_name e) name"
  shows "\<exists>cl. definition_closure catalog root_oid = Ok cl"
proof -
  obtain ts where ts: "visit_closure (tc_types catalog) [root_oid] {} [] = Ok ts"
    using visit_closure_total [of "tc_types catalog" "{}" "[root_oid]"] types by (auto simp: reachable_from_def)
  let ?names = "remdups_adj (sort (List.map_filter extension_of (sort_key td_oid ts)))"
  have "\<exists>e. find (\<lambda>e. eq_ignore_ascii_case (ex_name e) name) (tc_extensions catalog) = Some e" if "name \<in> set ?names" for name
  proof -
    from that obtain d where "d \<in> set ts" "extension_of d = Some name" by (auto simp: set_map_filter)
    then have "\<exists>e \<in> set (tc_extensions catalog). eq_ignore_ascii_case (ex_name e) name"
      using exts visit_closure_Ok [OF ts frontier_ok_start] definition_at_Some by fastforce
    then show ?thesis using find_None_iff [of _ "tc_extensions catalog"] by (metis not_None_eq)
  qed
  then have "\<exists>es. list_all2 (\<lambda>name e. find (\<lambda>e. eq_ignore_ascii_case (ex_name e) name) (tc_extensions catalog) = Some e) ?names es"
    by (intro list_all2_total) blast
  with ts show ?thesis by (auto simp: definition_closure_def Let_def ok_iff)
qed

lemma definition_at_distinct:
  "distinct (map td_oid ds) \<Longrightarrow> d \<in> set ds \<Longrightarrow> definition_at ds (td_oid d) = Some d"
  by (induction ds) (auto simp: definition_at_def)

text \<open>The dependencies inside a closure are those of the catalog it was taken from.\<close>

lemma closure_definitions:
  assumes "distinct (map td_oid ts)" and "\<forall>d \<in> set ts. definition_at ds (td_oid d) = Some d"
  shows "definition_at ts oid = (if oid \<in> td_oid ` set ts then definition_at ds oid else None)"
  using assms definition_at_distinct [OF assms(1)] definition_at_None [of ts oid] by auto

lemma reachable_in_closure:
  assumes "distinct (map td_oid ts)" and "\<forall>d \<in> set ts. definition_at ds (td_oid d) = Some d"
    and "td_oid ` set ts = reachable_from ds root_oid"
  shows "reachable_from ts root_oid = td_oid ` set ts"
proof -
  let ?R = "reachable_from ds root_oid"
  have dep: "(a, b) \<in> dependency ts \<longleftrightarrow> a \<in> ?R \<and> (a, b) \<in> dependency ds" for a b
    using closure_definitions [OF assms(1,2)] assms(3) by (auto simp: dependency_def)
  have "(root_oid, b) \<in> (dependency ts)\<^sup>*" if "(root_oid, b) \<in> (dependency ds)\<^sup>*" for b
    using that by (induction rule: rtrancl_induct) (auto simp: dep reachable_from_def intro: rtrancl_into_rtrancl)
  moreover have "dependency ts \<subseteq> dependency ds" using dep by auto
  ultimately show ?thesis
    using rtrancl_mono [of "dependency ts" "dependency ds"] by (auto simp: assms(3) reachable_from_def)
qed

subsection \<open>Extension names\<close>

definition lower_case :: "string \<Rightarrow> bool" where
  "lower_case s \<longleftrightarrow> to_ascii_lowercase s = s"

lemma dedup_lower_case: "\<forall>x \<in> set xs. lower_case x \<Longrightarrow> dedup_ignore_case xs = remdups_adj xs"
  by (induction xs rule: dedup_ignore_case.induct) (auto simp: lower_case_def eq_ignore_ascii_case_def)

lemma insort_key_cong_on: "(\<forall>y \<in> insert x (set ys). f y = g y) \<Longrightarrow> insort_key f x ys = insort_key g x ys"
  by (induction ys) auto

lemma sort_key_cong_on: "(\<forall>x \<in> set xs. f x = g x) \<Longrightarrow> sort_key f xs = sort_key g xs"
  by (induction xs) (simp_all add: insort_key_cong_on)

lemma required_extensions_lower_case:
  assumes "\<forall>d \<in> set ds. \<forall>name. extension_of d = Some name \<longrightarrow> lower_case name"
  shows "required_extensions ds = remdups_adj (sort (List.map_filter extension_of ds))"
proof -
  let ?names = "List.map_filter extension_of ds"
  have lower: "\<forall>x \<in> set ?names. lower_case x" using assms by (auto simp: set_map_filter)
  then have "sort_key to_ascii_lowercase ?names = sort ?names"
    by (intro sort_key_cong_on) (auto simp: lower_case_def)
  then show ?thesis unfolding required_extensions_def by (simp add: dedup_lower_case lower)
qed

lemma strict_remdups_adj: "sorted xs \<Longrightarrow> sorted_wrt (<) (remdups_adj xs)"
  by (induction xs rule: remdups_adj.induct) (auto simp: order_less_le intro: order.trans)

lemma sorted_remdups_adj_sort: "sorted_wrt (<) (remdups_adj (sort (xs :: 'a::linorder list)))"
  by (simp add: strict_remdups_adj)

lemma extensions_agree_built:
  assumes "\<forall>name \<in> set names. lower_case name" and "sorted_wrt (<) names"
    and found: "list_all2 (\<lambda>name e. e \<in> set evidence \<and> eq_ignore_ascii_case (ex_name e) name) names es"
    and "\<forall>e \<in> set evidence. ex_installed e \<and> \<not> blank (ex_version e) \<and> \<not> blank (ex_schema e)"
  shows "extensions_agree names es"
proof -
  have "map (to_ascii_lowercase \<circ> ex_name) es = names"
    using found assms(1)
    by (induction rule: list_all2_induct) (auto simp: eq_ignore_ascii_case_def lower_case_def)
  moreover have "list_all (\<lambda>e. ex_installed e \<and> \<not> blank (ex_version e) \<and> \<not> blank (ex_schema e)) es"
    using found assms(4) by (induction rule: list_all2_induct) auto
  moreover have "list_all (\<lambda>(r, e). eq_ignore_ascii_case r (ex_name e)) (zip names es)"
    using found by (induction rule: list_all2_induct) (auto simp: eq_ignore_ascii_case_def)
  ultimately show ?thesis
    using assms(2) list_all2_lengthD [OF found]
    by (simp add: extensions_agree_def strictly_increasing_iff)
qed

subsection \<open>What the check accepts\<close>

lemma reachable_oids_defined:
  "reachable_oids ds pending seen = Some r \<Longrightarrow> r \<subseteq> seen \<union> td_oid ` set ds"
proof (induction ds pending seen rule: reachable_oids.induct)
  case (2 ds oid pending seen)
  then show ?case
    by (fastforce split: if_splits option.splits dest: definition_at_Some)
qed simp

lemma card_oids: "card (td_oid ` set ds) = length ds \<longleftrightarrow> distinct (map td_oid ds)"
  by (metis card_distinct distinct_card length_map list.set_map)

lemma strictly_increasing_distinct: "sorted_wrt (<) (xs :: 'a::linorder list) \<Longrightarrow> distinct xs"
  by (simp add: strict_sorted_iff)

lemma reachable_check:
  "(case reachable_oids ds [root_oid] {} of None \<Rightarrow> False | Some r \<Rightarrow> card r = card (td_oid ` set ds)) \<longleftrightarrow>
     reachable_from ds root_oid = td_oid ` set ds"
proof
  assume "case reachable_oids ds [root_oid] {} of None \<Rightarrow> False | Some r \<Rightarrow> card r = card (td_oid ` set ds)"
  then obtain r where r: "reachable_oids ds [root_oid] {} = Some r" and c: "card r = card (td_oid ` set ds)"
    by (auto split: option.splits)
  have "r \<subseteq> td_oid ` set ds" using reachable_oids_defined [OF r] by simp
  with c have "r = td_oid ` set ds" by (metis List.finite_set card_subset_eq finite_imageI)
  with reachable_oids_Some [OF r frontier_ok_start] show "reachable_from ds root_oid = td_oid ` set ds"
    by (simp add: reachable_from_def)
next
  assume all: "reachable_from ds root_oid = td_oid ` set ds"
  then obtain r where r: "reachable_oids ds [root_oid] {} = Some r"
    using reachable_oids_total [of ds "{}" "[root_oid]"] by (auto simp: reachable_from_def)
  with reachable_oids_Some [OF r frontier_ok_start] all
  show "case reachable_oids ds [root_oid] {} of None \<Rightarrow> False | Some r \<Rightarrow> card r = card (td_oid ` set ds)"
    by (simp add: reachable_from_def)
qed

lemma root_reachable: "root_oid \<in> reachable_from ds root_oid"
  by (auto simp: reachable_from_def)

lemma validate_closure_iff:
  "validate_type_definition_closure C J cl root_oid \<longleftrightarrow>
     sorted_wrt (<) (map td_oid (cl_types cl)) \<and>
     (\<forall>d \<in> set (cl_types cl). td_definition_digest d = expected_definition_digest C J d) \<and>
     extensions_agree (required_extensions (cl_types cl)) (cl_extensions cl) \<and>
     reachable_from (cl_types cl) root_oid = td_oid ` set (cl_types cl)"
  using reachable_check [of "cl_types cl" root_oid] root_reachable [of root_oid "cl_types cl"]
    strictly_increasing_distinct [of "map td_oid (cl_types cl)"]
  by (auto simp: validate_type_definition_closure_def Let_def strictly_increasing_iff card_oids list_ex_iff)

definition well_catalogued :: "codec \<Rightarrow> type_json \<Rightarrow> SourceTypeCatalog \<Rightarrow> bool" where
  "well_catalogued C J catalog \<longleftrightarrow>
     list_all (\<lambda>d. td_definition_digest d = expected_definition_digest C J d
       \<and> (case extension_of d of None \<Rightarrow> True | Some name \<Rightarrow> lower_case name)) (tc_types catalog)
     \<and> list_all (\<lambda>e. ex_installed e \<and> \<not> blank (ex_version e) \<and> \<not> blank (ex_schema e)) (tc_extensions catalog)"

lemma built_closure_valid:
  assumes built: "definition_closure catalog root_oid = Ok cl" and good: "well_catalogued C J catalog"
  shows "validate_type_definition_closure C J cl root_oid"
proof -
  note cl = definition_closure_Ok [OF built]
  let ?ts = "cl_types cl"
  have from_catalog: "d \<in> set (tc_types catalog)" if "d \<in> set ?ts" for d
    using that cl(3) definition_at_Some by metis
  have lower: "\<forall>d \<in> set ?ts. \<forall>name. extension_of d = Some name \<longrightarrow> lower_case name"
    using from_catalog good by (fastforce simp: well_catalogued_def list_all_iff)
  have digests: "\<forall>d \<in> set ?ts. td_definition_digest d = expected_definition_digest C J d"
    using from_catalog good by (auto simp: well_catalogued_def list_all_iff)
  have "extensions_agree (required_extensions ?ts) (cl_extensions cl)"
    unfolding required_extensions_lower_case [OF lower]
  proof (rule extensions_agree_built)
    show "\<forall>name \<in> set (remdups_adj (sort (List.map_filter extension_of ?ts))). lower_case name"
      using lower by (auto simp: set_map_filter)
    show "list_all2 (\<lambda>name e. e \<in> set (tc_extensions catalog) \<and> eq_ignore_ascii_case (ex_name e) name)
            (remdups_adj (sort (List.map_filter extension_of ?ts))) (cl_extensions cl)"
      using cl(4) by (rule list_all2_mono) (auto simp: find_Some_iff)
  qed (use good in \<open>auto simp: sorted_remdups_adj_sort well_catalogued_def list_all_iff\<close>)
  moreover have "reachable_from ?ts root_oid = td_oid ` set ?ts"
    using reachable_in_closure [OF strictly_increasing_distinct [OF cl(2)] cl(3,1)] .
  ultimately show ?thesis using cl(2) digests by (simp add: validate_closure_iff)
qed

end
