(* ===== verification/Type_Mapping.thy ===== *)
theory Type_Mapping
  imports Type_Catalog
begin

text \<open>
  The source type mapping of \<^verbatim>\<open>crates/postgresql_15/src/type_mapping.rs\<close>: how the declaration of a
  PostgreSQL column becomes a logical type. A declaration is brought into a normal form, parsed as a
  built-in type with its parameters or looked up in the catalog, and the result is bound to the
  evidence it was taken from. Errors are kept in structured form, because some of their messages quote
  a name with the escapes of Rust's debug format.
\<close>

section \<open>Errors\<close>

datatype SourceTypeMappingError =
    STM_Invalid string string
  | STM_RepeatedField string string
  | STM_Ambiguous string string
  | STM_Unsupported string string
  | STM_MissingCatalog string string
  | STM_MissingCodec string string
  | STM_TargetBlocked string string string

fun stm_code :: "SourceTypeMappingError \<Rightarrow> string" where
  "stm_code (STM_Invalid v _) = ''postgresql'' @ v @ ''.source_type.invalid_declaration''"
| "stm_code (STM_RepeatedField v _) = ''postgresql'' @ v @ ''.source_type.invalid_declaration''"
| "stm_code (STM_Ambiguous v _) = ''postgresql'' @ v @ ''.source_type.invalid_declaration''"
| "stm_code (STM_Unsupported v _) = ''postgresql'' @ v @ ''.source_type.unsupported''"
| "stm_code (STM_MissingCatalog v _) = ''postgresql'' @ v @ ''.source_type.catalog_required''"
| "stm_code (STM_MissingCodec v _) = ''postgresql'' @ v @ ''.source_type.codec_unqualified''"
| "stm_code (STM_TargetBlocked v _ _) = ''postgresql'' @ v @ ''.source_type.extension_target_blocked''"

definition ensure_supported_version :: "string \<Rightarrow> SourceTypeMappingError + unit" where
  "ensure_supported_version v =
     require (v \<in> {''15'', ''16'', ''17''})
       (STM_Invalid v ''PostgreSQL SourceTypeMapping supports only versions 15, 16, and 17'')"

definition mapping_version :: "string \<Rightarrow> string" where
  "mapping_version v = ''postgresql-'' @ v @ ''.source-type-mapping.v3''"

section \<open>The normal form of a declaration\<close>

text \<open>
  The loop over the characters: inside quotes or not, whether white space was seen since the last
  character, the text so far and what is left. Bytes of a multi-byte character take the same branches
  as the character, because all the characters that are compared are ASCII.
\<close>

definition ends_in :: "char list \<Rightarrow> string \<Rightarrow> bool" where
  "ends_in cs s \<longleftrightarrow> s \<noteq> [] \<and> last s \<in> set cs"

definition quote_gap :: "bool \<Rightarrow> string \<Rightarrow> string" where
  "quote_gap pending normalized =
     (if pending \<and> normalized \<noteq> [] \<and> \<not> ends_in ''.('' normalized then '' '' else [])"

definition char_gap :: "bool \<Rightarrow> string \<Rightarrow> char \<Rightarrow> string" where
  "char_gap pending normalized c =
     (if pending \<and> normalized \<noteq> [] \<and> c \<notin> set ''.)[],'' \<and> \<not> ends_in ''.(['' normalized then '' '' else [])"

function normalize_chars :: "bool \<Rightarrow> bool \<Rightarrow> string \<Rightarrow> string \<Rightarrow> string + string \<times> bool" where
  "normalize_chars quoted pending normalized [] = Ok (normalized, quoted)"
| "normalize_chars quoted pending normalized (c # cs) =
     (if c = CHR 0x22 then
        let normalized = normalized @ quote_gap pending normalized @ [CHR 0x22] in
        if quoted \<and> starts_with [CHR 0x22] cs
        then normalize_chars quoted False (normalized @ [CHR 0x22]) (tl cs)
        else normalize_chars (\<not> quoted) False normalized cs
      else if quoted then normalize_chars quoted pending (normalized @ [c]) cs
      else if c = CHR '';'' then Err ''native type declaration contains forbidden syntax''
      else if is_ascii_whitespace c then normalize_chars quoted True normalized cs
      else normalize_chars quoted False (normalized @ char_gap pending normalized c @ [lower_char c]) cs)"
  by pat_completeness auto
termination
  by (relation "measure (\<lambda>(q, p, n, cs). length cs)") auto

definition normalize :: "string \<Rightarrow> string \<Rightarrow> SourceTypeMappingError + string" where
  "normalize native_type v =
     (let raw = trim native_type in
      if raw = [] \<or> NUL \<in> set raw
      then Err (STM_Invalid v ''native type declaration is empty or contains forbidden syntax'')
      else if starts_with ''enum('' (to_ascii_lowercase raw) then Ok raw
      else and_then (map_err (STM_Invalid v) (normalize_chars False False [] raw)) (\<lambda>(normalized, quoted).
        if quoted then Err (STM_Invalid v ''native type declaration has an unterminated quoted identifier'')
        else Ok normalized))"

definition base_name :: "string \<Rightarrow> string" where
  "base_name native_type = takeWhile (\<lambda>c. c \<noteq> CHR ''('' \<and> c \<noteq> CHR '' '') native_type"

section \<open>Declarations with parameters\<close>

definition parse_by :: "(string \<Rightarrow> 'a option) \<Rightarrow> string \<Rightarrow> string \<Rightarrow> string \<Rightarrow> SourceTypeMappingError + 'a" where
  "parse_by p v message s = ok_or (p s) (STM_Invalid v message)"

definition inside_parens :: "string \<Rightarrow> string \<Rightarrow> string option" where
  "inside_parens prefix s = Option.bind (strip_prefix prefix s) (strip_suffix '')'')"

definition numeric :: "string \<Rightarrow> string \<Rightarrow> SourceTypeMappingError + LogicalType" where
  "numeric native_type v =
     (case Option.bind (split_once (CHR ''('') native_type) (\<lambda>(_, s). strip_suffix '')'' s) of
        None \<Rightarrow>
          if native_type \<in> {''numeric'', ''decimal''} then Ok LT_DecimalUnbounded
          else Err (STM_Invalid v ''numeric declaration parameters are malformed'')
      | Some parameters \<Rightarrow>
          let parts = split_on (CHR '','') parameters in
          and_then (parse_by (parse_unsigned 16) v ''numeric precision is invalid'' (trim (hd parts))) (\<lambda>precision.
          and_then (parse_by (parse_signed 32) v ''numeric scale is invalid''
                      (trim (case tl parts of [] \<Rightarrow> ''0'' | s # _ \<Rightarrow> s))) (\<lambda>scale.
          if 2 < length parts \<or> \<not> (1 \<le> precision \<and> precision \<le> 1000) \<or> \<not> (-1000 \<le> scale \<and> scale \<le> 1000)
          then Err (STM_Invalid v ''numeric precision/scale is outside the ChangeEvent range'')
          else Ok (LT_Decimal (of_nat precision) scale))))"

definition parenthesized_u64 :: "string \<Rightarrow> string \<Rightarrow> string \<Rightarrow> SourceTypeMappingError + nat" where
  "parenthesized_u64 native_type prefix v =
     and_then (ok_or (inside_parens (prefix @ ''('') native_type) (STM_Invalid v ''type parameters are malformed'')) (\<lambda>s.
     parse_by (parse_unsigned 64) v ''type length is invalid'' (trim s))"

definition spatial_subtypes :: "string list" where
  "spatial_subtypes = [''point'', ''linestring'', ''polygon'', ''multipoint'', ''multilinestring'',
     ''multipolygon'', ''geometrycollection'']"

definition spatial_shape :: "string \<Rightarrow> string \<times> u8" where
  "spatial_shape declared =
     (case strip_suffix ''zm'' declared of Some s \<Rightarrow> (s, 4)
      | None \<Rightarrow> (case strip_suffix ''z'' declared of Some s \<Rightarrow> (s, 3)
      | None \<Rightarrow> (case strip_suffix ''m'' declared of Some s \<Rightarrow> (s, 3)
      | None \<Rightarrow> (declared, 2))))"

definition spatial_type :: "string \<Rightarrow> string \<Rightarrow> SourceTypeMappingError + LogicalType" where
  "spatial_type native_type v =
     and_then (ok_or (inside_parens ''geometry('' native_type) (STM_Invalid v ''geometry declaration is malformed'')) (\<lambda>parameters.
     let parts = map trim (split_on (CHR '','') parameters) in
     and_then (require (hd parts \<noteq> []) (STM_Invalid v ''geometry subtype is missing'')) (\<lambda>_.
     and_then (require (tl parts \<noteq> [] \<and> hd (tl parts) \<noteq> []) (STM_Invalid v ''geometry SRID is missing'')) (\<lambda>_.
     and_then (parse_by (parse_signed 32) v ''geometry SRID is invalid'' (hd (tl parts))) (\<lambda>srid.
     if 2 < length parts \<or> srid < 0
     then Err (STM_Invalid v ''geometry requires exactly one non-negative SRID'')
     else
       let (subtype, dimensions) = spatial_shape (to_ascii_lowercase (hd parts)) in
       if subtype \<notin> set spatial_subtypes then Err (STM_Unsupported v native_type)
       else Ok (LT_Spatial subtype (Some srid) dimensions)))))"

definition time_type :: "string \<Rightarrow> string \<Rightarrow> SourceTypeMappingError + LogicalType" where
  "time_type native_type v =
     (let with_time_zone = (native_type = ''timetz'' \<or> ends_with ''with time zone'' native_type) in
      and_then
        (case strip_prefix ''time('' native_type of
           None \<Rightarrow> Ok 6
         | Some parameters \<Rightarrow>
             and_then (ok_or (split_once (CHR '')'') parameters) (STM_Invalid v ''time declaration is malformed''))
               (\<lambda>(precision, suffix).
             if suffix \<noteq> [] \<and> suffix \<noteq> '' with time zone'' \<and> suffix \<noteq> '' without time zone''
             then Err (STM_Invalid v ''time declaration has an invalid zone qualifier'')
             else parse_by (parse_unsigned 8) v ''time precision is invalid'' precision)) (\<lambda>precision.
      if 6 < precision then Err (STM_Invalid v ''time precision is outside PostgreSQL limits'')
      else Ok (if with_time_zone then LT_OffsetTime (of_nat precision) else LT_LocalTime (of_nat precision))))"

definition interval_qualifiers :: "string list" where
  "interval_qualifiers = [[], ''year'', ''month'', ''day'', ''hour'', ''minute'', ''second'', ''year to month'',
     ''day to hour'', ''day to minute'', ''day to second'', ''hour to minute'', ''hour to second'',
     ''minute to second'']"

text \<open>The precision, whether it was written, and the rest of the declaration.\<close>

definition interval_precision :: "string \<Rightarrow> string \<Rightarrow> SourceTypeMappingError + (nat \<times> bool \<times> string)" where
  "interval_precision remainder v =
     (if starts_with ''('' remainder then
        (case split_once (CHR '')'') (tl remainder) of
           None \<Rightarrow> Err (STM_Invalid v ''interval precision is malformed'')
         | Some (precision, rest) \<Rightarrow>
             and_then (parse_by (parse_unsigned 8) v ''interval precision is invalid'' precision) (\<lambda>p.
             if \<not> blank rest
             then Err (STM_Invalid v ''interval leading precision cannot be combined with a field qualifier'')
             else Ok (p, True, rest)))
      else case Option.bind (rsplit_once (CHR ''('') remainder)
                  (\<lambda>(front, s). map_option (\<lambda>p. (front, p)) (strip_suffix '')'' s)) of
             None \<Rightarrow> Ok (6, False, remainder)
           | Some (front, precision) \<Rightarrow>
               and_then (parse_by (parse_unsigned 8) v ''interval precision is invalid'' precision) (\<lambda>p.
               Ok (p, True, front)))"

definition interval_type :: "string \<Rightarrow> string \<Rightarrow> SourceTypeMappingError + LogicalType" where
  "interval_type native_type v =
     (case strip_prefix ''interval'' native_type of
        None \<Rightarrow> Err (STM_Unsupported v native_type)
      | Some remainder \<Rightarrow>
          and_then (interval_precision remainder v) (\<lambda>(precision, has_explicit_precision, rest).
          if 6 < precision then Err (STM_Invalid v ''interval precision is outside PostgreSQL limits'')
          else
            let qualifier = trim rest in
            if qualifier \<notin> set interval_qualifiers
            then Err (STM_Invalid v ''interval field qualifier is invalid'')
            else if has_explicit_precision \<and> qualifier \<noteq> [] \<and> \<not> ends_with ''second'' qualifier
            then Err (STM_Invalid v ''interval precision requires a qualifier ending in SECOND'')
            else Ok (LT_CalendarInterval (of_nat precision))))"

definition trim_matches :: "char list \<Rightarrow> string \<Rightarrow> string" where
  "trim_matches cs s = rev (dropWhile (\<lambda>c. c \<in> set cs) (rev (dropWhile (\<lambda>c. c \<in> set cs) s)))"

definition timestamp_type :: "string \<Rightarrow> string \<Rightarrow> SourceTypeMappingError + LogicalType" where
  "timestamp_type native_type v =
     and_then
       (if ends_with '' without time zone'' native_type then Ok '' without time zone''
        else if ends_with '' with time zone'' native_type then Ok '' with time zone''
        else Err (STM_Invalid v ''timestamp must declare its time-zone semantics'')) (\<lambda>zone.
     and_then
       (case map_option (trim_matches ''()'')
               (Option.bind (strip_prefix ''timestamp'' native_type) (strip_suffix zone)) of
          None \<Rightarrow> Ok 6
        | Some s \<Rightarrow>
            if s = [] then Ok 6
            else parse_by (parse_unsigned 8) v ''timestamp precision is invalid'' s) (\<lambda>precision.
     if 6 < precision then Err (STM_Invalid v ''timestamp precision is outside PostgreSQL 15 limits'')
     else Ok (if zone = '' with time zone'' then LT_Instant (of_nat precision)
              else LT_LocalDatetime (of_nat precision))))"

section \<open>Built-in types\<close>

abbreviation utf8_text :: "u64 option \<Rightarrow> LogicalType" where
  "utf8_text max_length \<equiv> LT_Text ''UTF8'' max_length LU_Characters None"

definition builtin_names :: "(string list \<times> string) list" where
  "builtin_names =
     [([''boolean'', ''bool''], ''bool''), ([''smallint'', ''int2''], ''int2''),
      ([''integer'', ''int'', ''int4''], ''int4''), ([''bigint'', ''int8''], ''int8''),
      ([''real'', ''float4''], ''float4''), ([''double precision'', ''float8''], ''float8''),
      ([''numeric'', ''decimal''], ''numeric''), ([''text''], ''text''),
      ([''character varying'', ''varchar''], ''varchar''), ([''character'', ''char'', ''bpchar''], ''bpchar''),
      ([[CHR 0x22] @ ''char'' @ [CHR 0x22]], ''char''), ([''name''], ''name''), ([''bytea''], ''bytea''),
      ([''bit'', [CHR 0x22] @ ''bit'' @ [CHR 0x22]], ''bit''), ([''bit varying'', ''varbit''], ''varbit''),
      ([''date''], ''date''), ([''time'', ''time without time zone''], ''time''),
      ([''time with time zone'', ''timetz''], ''timetz''),
      ([''timestamp'', ''timestamp without time zone''], ''timestamp''),
      ([''timestamp with time zone'', ''timestamptz''], ''timestamptz'')]
     @ map (\<lambda>n. ([n], n))
     [''interval'', ''uuid'', ''json'', ''jsonb'', ''xml'', ''money'', ''point'', ''line'', ''lseg'', ''box'',
      ''path'', ''polygon'', ''circle'', ''cidr'', ''inet'', ''macaddr'', ''macaddr8'', ''tsvector'', ''tsquery'',
      ''oid'', ''oidvector'', ''int2vector'', ''tid'', ''xid'', ''xid8'', ''cid'', ''pg_lsn'', ''pg_snapshot'',
      ''txid_snapshot'', ''regproc'', ''regprocedure'', ''regoper'', ''regoperator'', ''regclass'', ''regtype'',
      ''regconfig'', ''regdictionary'', ''regnamespace'', ''regrole'', ''regcollation'', ''int4range'',
      ''int8range'', ''numrange'', ''tsrange'', ''tstzrange'', ''daterange'', ''int4multirange'',
      ''int8multirange'', ''nummultirange'', ''tsmultirange'', ''tstzmultirange'', ''datemultirange'']"

definition builtin_catalog_name :: "string \<Rightarrow> string option" where
  "builtin_catalog_name native_type =
     map_option snd (find (\<lambda>(aliases, _). to_ascii_lowercase (trim native_type) \<in> set aliases) builtin_names)"

definition bit_length :: "string \<Rightarrow> string \<Rightarrow> string \<Rightarrow> SourceTypeMappingError + u64" where
  "bit_length native_type prefix v =
     and_then (parenthesized_u64 native_type prefix v) (\<lambda>len.
     if \<not> (1 \<le> len \<and> len \<le> 10000000)
     then Err (STM_Invalid v (prefix @ '' length must be positive and bounded''))
     else Ok (of_nat len))"

definition char_length :: "string \<Rightarrow> string \<Rightarrow> string \<Rightarrow> string \<Rightarrow> SourceTypeMappingError + u64" where
  "char_length native_type prefix what v =
     and_then (parenthesized_u64 native_type prefix v) (\<lambda>len.
     if len = 0 then Err (STM_Invalid v (what @ '' length must be positive''))
     else Ok (of_nat len))"

definition quoted_char :: string where
  "quoted_char = [CHR 0x22] @ ''char'' @ [CHR 0x22]"

text \<open>The declarations that are matched as a whole, and those that are parsed.\<close>

definition builtin_constants :: "(string list \<times> LogicalType) list" where
  "builtin_constants =
     [([''boolean'', ''bool''], LT_Boolean),
      ([''smallint'', ''int2''], LT_Integer True 16),
      ([''integer'', ''int'', ''int4''], LT_Integer True 32),
      ([''bigint'', ''int8''], LT_Integer True 64),
      ([''oid'', ''xid'', ''cid''], LT_Integer False 32),
      ([''xid8''], LT_Integer False 64),
      ([''real'', ''float4''], LT_Float 32),
      ([''double precision'', ''float8''], LT_Float 64),
      ([''text'', ''character'', ''char'', quoted_char, ''name'', ''character varying'', ''varchar''], utf8_text None),
      ([''bytea''], LT_Binary None),
      ([''bit''], LT_BitString 1),
      ([''date''], LT_Date),
      ([''uuid''], LT_Uuid),
      ([''jsonb''], LT_Json default_json_profile),
      ([''json''], LT_Json \<lparr>jp_normalized = False, jp_duplicate_keys = DK_PreserveLast\<rparr>),
      ([''inet''], LT_Network ''ip'' False),
      ([''cidr''], LT_Network ''ip'' True),
      ([''macaddr''], LT_Network ''macaddr'' False),
      ([''macaddr8''], LT_Network ''macaddr8'' False),
      ([''xml''], LT_Xml),
      ([''timestamp'', ''timestamp without time zone''], LT_LocalDatetime 6),
      ([''timestamptz'', ''timestamp with time zone''], LT_Instant 6)]"

definition builtin_parsed :: "string \<Rightarrow> string \<Rightarrow> SourceTypeMappingError + LogicalType option" where
  "builtin_parsed t v =
     (let some = \<lambda>r. and_then r (\<lambda>l. Ok (Some l)) in
      if t \<in> {''time without time zone'', ''time'', ''time with time zone'', ''timetz''} then some (time_type t v)
      else if t = ''interval'' then some (interval_type t v)
      else if t \<in> {''numeric'', ''decimal''} then some (numeric t v)
      else if t = ''money'' then Ok None
      else if starts_with ''time('' t then some (time_type t v)
      else if starts_with ''interval'' t then some (interval_type t v)
      else if starts_with ''numeric('' t then some (numeric t v)
      else if starts_with ''decimal('' t then some (numeric t v)
      else if starts_with ''bit('' t then some (and_then (bit_length t ''bit'' v) (\<lambda>n. Ok (LT_BitString n)))
      else if starts_with ''bit varying('' t
      then some (and_then (bit_length t ''bit varying'' v) (\<lambda>n. Ok (LT_VariableBitString (Some n))))
      else if starts_with ''varbit('' t
      then some (and_then (bit_length t ''varbit'' v) (\<lambda>n. Ok (LT_VariableBitString (Some n))))
      else if starts_with ''geometry('' t then some (spatial_type t v)
      else if starts_with ''character varying('' t \<or> starts_with ''varchar('' t
      then some (and_then (char_length t
             (if starts_with ''varchar('' t then ''varchar'' else ''character varying'')
             ''character varying'' v) (\<lambda>n. Ok (utf8_text (Some n))))
      else if starts_with ''character('' t \<or> starts_with ''char('' t
      then some (and_then (char_length t
             (if starts_with ''char('' t then ''char'' else ''character'') ''character'' v)
             (\<lambda>n. Ok (utf8_text (Some n))))
      else if starts_with ''timestamp'' t then some (timestamp_type t v)
      else Ok None)"

definition logical_type_from_builtin :: "string \<Rightarrow> string \<Rightarrow> SourceTypeMappingError + LogicalType option" where
  "logical_type_from_builtin t v =
     (case find (\<lambda>(names, _). t \<in> set names) builtin_constants of
        Some (_, l) \<Rightarrow> Ok (Some l)
      | None \<Rightarrow> builtin_parsed t v)"

definition logical_type_for_catalog_builtin ::
  "u32 \<Rightarrow> string \<Rightarrow> string \<Rightarrow> SourceTypeMappingError + LogicalType option" where
  "logical_type_for_catalog_builtin oid native_type v =
     (if oid = 1083 then Ok (Some (LT_LocalTime 6))
      else if oid = 1114 then Ok (Some (LT_LocalDatetime 6))
      else if oid = 1184 then Ok (Some (LT_Instant 6))
      else if oid = 1266 then Ok (Some (LT_OffsetTime 6))
      else logical_type_from_builtin native_type v)"

section \<open>Names and definitions\<close>

text \<open>The element of an array declaration and its number of dimensions, which is a \<^verbatim>\<open>u8\<close>.\<close>

lemma strip_suffix_shorter [termination_simp]: "strip_suffix p s = Some r \<Longrightarrow> p \<noteq> [] \<Longrightarrow> length r < length s"
  by (auto simp: strip_suffix_Some_iff)

function strip_dimensions :: "string \<Rightarrow> nat \<Rightarrow> (string \<times> nat) option" where
  "strip_dimensions base dimensions =
     (case strip_suffix ''[]'' base of
        None \<Rightarrow> Some (base, dimensions)
      | Some stripped \<Rightarrow> if dimensions = 255 then None else strip_dimensions stripped (Suc dimensions))"
  by pat_completeness auto
termination
  by (relation "measure (\<lambda>(base, dimensions). length base)") (auto simp: strip_suffix_shorter)

declare strip_dimensions.simps [simp del]

definition array_declaration :: "string \<Rightarrow> (string \<times> nat) option" where
  "array_declaration native_type =
     (case strip_dimensions native_type 0 of
        Some (base, dimensions) \<Rightarrow> if 0 < dimensions then Some (base, dimensions) else None
      | None \<Rightarrow> None)"

text \<open>\<^verbatim>\<open>str::replace\<close>: the occurrences from the left.\<close>

fun replace_pair :: "char \<Rightarrow> string \<Rightarrow> string \<Rightarrow> string" where
  "replace_pair q by (a # b # s) =
     (if a = q \<and> b = q then by @ replace_pair q by s else a # replace_pair q by (b # s))"
| "replace_pair q by s = s"

definition has_white_space :: "string \<Rightarrow> bool" where
  "has_white_space s \<longleftrightarrow> list_ex (\<lambda>w. contains_sub w s) white_space"

definition catalog_identifier :: "string \<Rightarrow> string \<Rightarrow> SourceTypeMappingError + string" where
  "catalog_identifier native_type v =
     (let raw = trim native_type in
      case Option.bind (strip_prefix [CHR 0x22] raw) (strip_suffix [CHR 0x22]) of
        Some inner \<Rightarrow>
          if inner = [] \<or> CHR 0x22 \<in> set (replace_pair CHR 0x22 [] inner)
          then Err (STM_Invalid v ''PostgreSQL type contains a malformed quoted identifier'')
          else Ok (replace_pair CHR 0x22 [CHR 0x22] inner)
      | None \<Rightarrow>
          if raw = [] \<or> CHR 0x22 \<in> set raw \<or> has_white_space raw
          then Err (STM_Invalid v ''PostgreSQL type contains a malformed identifier'')
          else Ok raw)"

text \<open>The parts of a qualified name: a dot separates outside of quotes.\<close>

function name_parts :: "bool \<Rightarrow> string list \<Rightarrow> string \<Rightarrow> string \<Rightarrow> string list \<times> bool" where
  "name_parts quoted parts part [] = (parts @ [part], quoted)"
| "name_parts quoted parts part (c # cs) =
     (if c = CHR 0x22 then
        if quoted \<and> starts_with [CHR 0x22] cs
        then name_parts quoted parts (part @ [CHR 0x22, CHR 0x22]) (tl cs)
        else name_parts (\<not> quoted) parts (part @ [CHR 0x22]) cs
      else if c = CHR ''.'' \<and> \<not> quoted then name_parts quoted (parts @ [part]) [] cs
      else name_parts quoted parts (part @ [c]) cs)"
  by pat_completeness auto
termination
  by (relation "measure (\<lambda>(q, ps, p, cs). length cs)") auto

definition qualified_name :: "string \<Rightarrow> string \<Rightarrow> SourceTypeMappingError + (string option \<times> string)" where
  "qualified_name native_type v =
     (case name_parts False [] [] native_type of (parts, quoted) \<Rightarrow>
        if quoted \<or> 2 < length parts then Err (STM_Invalid v ''PostgreSQL type has an invalid qualified name'')
        else if length parts = 2 then
          and_then (catalog_identifier (parts ! 0) v) (\<lambda>schema.
          and_then (catalog_identifier (parts ! 1) v) (\<lambda>name. Ok (Some schema, name)))
        else and_then (catalog_identifier (parts ! 0) v) (\<lambda>name. Ok (None, name)))"

definition find_definition ::
  "string \<Rightarrow> SourceTypeCatalog \<Rightarrow> string \<Rightarrow> SourceTypeMappingError + SourceTypeDefinition" where
  "find_definition native_type catalog v =
     and_then (qualified_name native_type v) (\<lambda>(schema, name).
     case filter (\<lambda>d. td_name d = name \<and> (case schema of None \<Rightarrow> True | Some s \<Rightarrow> td_schema d = s)) (tc_types catalog) of
       [] \<Rightarrow> Err (STM_MissingCatalog v native_type)
     | d # others \<Rightarrow> if others \<noteq> [] \<and> schema = None then Err (STM_Ambiguous v native_type) else Ok d)"

definition full_name :: "SourceTypeDefinition \<Rightarrow> string" where
  "full_name d = td_schema d @ ''.'' @ td_name d"

definition definition_digest ::
  "codec \<Rightarrow> type_json \<Rightarrow> SourceTypeDefinition \<Rightarrow> string \<Rightarrow> SourceTypeMappingError + string" where
  "definition_digest C J d v =
     (if blank (td_definition_digest d)
      then Err (STM_Invalid v (''PostgreSQL type '' @ full_name d @ '' is missing a stable definition digest''))
      else if td_definition_digest d \<noteq> expected_definition_digest C J d
      then Err (STM_Invalid v (''PostgreSQL type '' @ full_name d @ '' has a mismatched definition digest''))
      else Ok (expected_definition_digest C J d))"

definition definition_by_oid ::
  "u32 \<Rightarrow> SourceTypeCatalog \<Rightarrow> string \<Rightarrow> SourceTypeMappingError + SourceTypeDefinition" where
  "definition_by_oid oid catalog v =
     ok_or (definition_at (tc_types catalog) oid)
       (STM_Invalid v (''PostgreSQL type catalog is missing OID '' @ show_nat (unat oid)))"

section \<open>Semantic codecs\<close>

text \<open>\<^verbatim>\<open>types::supported\<close>.\<close>

definition supported :: "u32 \<Rightarrow> bool" where
  "supported oid \<longleftrightarrow>
     oid \<in> {16, 17, 18, 19, 20, 21, 23, 26, 28, 29, 25, 114, 142, 650, 774, 829, 869, 700, 701, 1042, 1043,
       1082, 1083, 1114, 1186, 1184, 1266, 1560, 1562, 1700, 2950, 3802, 5069}"

lemma unseen_push [termination_simp]:
  "definition_at ds oid = Some d \<Longrightarrow> oid \<notin> set stack \<Longrightarrow> unseen ds (insert oid (set stack)) < unseen ds (set stack)"
  by (rule unseen_insert)

function semantic_codec :: "SourceTypeCatalog \<Rightarrow> u32 list \<Rightarrow> u32 \<Rightarrow> bool" where
  "semantic_codec catalog stack oid =
     (if oid \<in> set stack then False
      else case definition_at (tc_types catalog) oid of
        None \<Rightarrow> False
      | Some d \<Rightarrow>
          (case td_kind d of
             TK_Pseudo \<Rightarrow> False
           | TK_Builtin _ \<Rightarrow> supported oid
           | TK_Enum _ \<Rightarrow> True
           | TK_Domain base_oid _ _ \<Rightarrow> semantic_codec catalog (oid # stack) base_oid
           | TK_Composite flds \<Rightarrow> list_all (\<lambda>f. semantic_codec catalog (oid # stack) (tf_type_oid f)) flds
           | TK_Array element_oid _ \<Rightarrow> semantic_codec catalog (oid # stack) element_oid
           | TK_Range subtype_oid \<Rightarrow> semantic_codec catalog (oid # stack) subtype_oid
           | TK_MultiRange range_oid \<Rightarrow>
               (case definition_at (tc_types catalog) range_oid of
                  None \<Rightarrow> False
                | Some rng \<Rightarrow>
                    (case td_kind rng of
                       TK_Range subtype_oid \<Rightarrow> semantic_codec catalog (oid # stack) subtype_oid
                     | _ \<Rightarrow> False))
           | TK_Extension extension _ _ _ \<Rightarrow>
               list_ex (\<lambda>e. eq_ignore_ascii_case (ex_name e) extension \<and> ex_installed e \<and> ex_available e)
                 (tc_extensions catalog)
               \<and> (eq_ignore_ascii_case extension ''hstore'' \<and> eq_ignore_ascii_case (td_name d) ''hstore''
                  \<or> eq_ignore_ascii_case extension ''postgis'' \<and> td_name d \<in> {''geometry'', ''geography''})))"
  by pat_completeness auto
termination
  by (relation "measure (\<lambda>(catalog, stack, oid). unseen (tc_types catalog) (set stack))")
    (auto simp: unseen_push)

declare semantic_codec.simps [simp del]

definition has_semantic_codec :: "SourceTypeCatalog \<Rightarrow> u32 \<Rightarrow> bool" where
  "has_semantic_codec catalog oid = semantic_codec catalog [] oid"

definition captures_source_representation :: "SourceTypeCatalog \<Rightarrow> u32 \<Rightarrow> LogicalType \<Rightarrow> bool" where
  "captures_source_representation catalog oid t \<longleftrightarrow>
     (case t of LT_Raw _ _ _ _ \<Rightarrow> True | _ \<Rightarrow> False) \<or> \<not> has_semantic_codec catalog oid"

section \<open>The logical type of a definition\<close>

definition is_raw :: "LogicalType \<Rightarrow> bool" where
  "is_raw t = (case t of LT_Raw _ _ _ _ \<Rightarrow> True | _ \<Rightarrow> False)"

definition raw_of ::
  "codec \<Rightarrow> type_json \<Rightarrow> string \<Rightarrow> string \<Rightarrow> SourceTypeDefinition \<Rightarrow> string \<Rightarrow> SourceTypeMappingError + LogicalType" where
  "raw_of C J codec_identity encoding d v =
     and_then (definition_digest C J d v) (\<lambda>digest. Ok (LT_Raw codec_identity (full_name d) digest encoding))"

abbreviation text_envelope :: string where
  "text_envelope \<equiv> ''postgresql.pgoutput.text-envelope.v1''"

definition validate_enum_labels :: "string list \<Rightarrow> string \<Rightarrow> SourceTypeMappingError + unit" where
  "validate_enum_labels labels v =
     require (labels \<noteq> [] \<and> list_all (\<lambda>l. l \<noteq> [] \<and> NUL \<notin> set l) labels \<and> distinct labels)
       (STM_Invalid v ''PostgreSQL ENUM labels must be non-empty and unique'')"

definition extension_logical_type ::
  "codec \<Rightarrow> type_json \<Rightarrow> SourceTypeCatalog \<Rightarrow> string \<Rightarrow> SourceTypeDefinition \<Rightarrow> string \<Rightarrow> string option \<Rightarrow> string
     \<Rightarrow> LogicalType option \<Rightarrow> SourceTypeMappingError + LogicalType" where
  "extension_logical_type C J catalog v d extension codec_identity encoding logical_type =
     (case find (\<lambda>e. eq_ignore_ascii_case (ex_name e) extension) (tc_extensions catalog) of
        None \<Rightarrow> Err (STM_MissingCatalog v (''extension '' @ extension @ '' type '' @ td_name d))
      | Some e \<Rightarrow>
          if \<not> ex_installed e then Err (STM_MissingCatalog v (''extension '' @ extension @ '' type '' @ td_name d))
          else if ex_target_compatible e = Some False then Err (STM_TargetBlocked v (td_name d) extension)
          else if \<not> ex_available e then raw_of C J text_envelope ''UTF-8'' d v
          else (case logical_type of
             Some t \<Rightarrow> Ok t
           | None \<Rightarrow>
               (case codec_identity of
                  None \<Rightarrow> raw_of C J text_envelope encoding d v
                | Some identity \<Rightarrow>
                    if blank identity then raw_of C J text_envelope encoding d v
                    else raw_of C J identity encoding d v)))"

definition unseen_with :: "SourceTypeDefinition list \<Rightarrow> SourceTypeDefinition \<Rightarrow> u32 list \<Rightarrow> nat" where
  "unseen_with ds d stack = card (insert (td_oid d) (set (map td_oid ds)) - set stack)"

lemma unseen_with_push:
  assumes "definition_at ds oid = Some b" and "td_oid d \<notin> set stack"
  shows "unseen_with ds b (td_oid d # stack) < unseen_with ds d stack"
  unfolding unseen_with_def
  using assms(2) definition_at_Some [OF assms(1)] by (intro psubset_card_mono) auto

function logical_type_from_definition ::
  "codec \<Rightarrow> type_json \<Rightarrow> SourceTypeCatalog \<Rightarrow> string \<Rightarrow> u32 list \<Rightarrow> SourceTypeDefinition
     \<Rightarrow> SourceTypeMappingError + LogicalType" where
  "logical_type_from_definition C J catalog v stack d =
     (if td_oid d \<in> set stack
      then Err (STM_Invalid v (''PostgreSQL type catalog contains a recursive cycle at OID ''
                  @ show_nat (unat (td_oid d))))
      else
        let stack = td_oid d # stack in
        case td_kind d of
          TK_Pseudo \<Rightarrow> Err (STM_Invalid v (''PostgreSQL pseudo-type '' @ full_name d @ '' is not storable''))
        | TK_Builtin native_type \<Rightarrow>
            and_then (logical_type_for_catalog_builtin (td_oid d) native_type v) (\<lambda>r.
            case r of Some t \<Rightarrow> Ok t | None \<Rightarrow> raw_of C J text_envelope ''UTF-8'' d v)
        | TK_Enum labels \<Rightarrow> and_then (validate_enum_labels labels v) (\<lambda>_. Ok (LT_Enum labels))
        | TK_Domain base_oid constraints not_null \<Rightarrow>
            and_then (definition_by_oid base_oid catalog v) (\<lambda>base.
            and_then (logical_type_from_definition C J catalog v stack base) (\<lambda>t.
            and_then (definition_digest C J d v) (\<lambda>digest.
            Ok (LT_Domain (full_name d) t constraints not_null (td_collation d) digest))))
        | TK_Composite flds \<Rightarrow>
            and_then (try_fold (\<lambda>(names, logical_fields) f.
              and_then (require (to_ascii_lowercase (tf_name f) \<notin> names) (STM_RepeatedField v (tf_name f))) (\<lambda>_.
              and_then (definition_by_oid (tf_type_oid f) catalog v) (\<lambda>field_definition.
              and_then (logical_type_from_definition C J catalog v stack field_definition) (\<lambda>t.
              Ok (insert (to_ascii_lowercase (tf_name f)) names,
                  logical_fields @ [LogicalField (tf_name f) t (tf_nullable f)]))))) ({}, []) flds)
            (\<lambda>(_, logical_fields). Ok (LT_Struct logical_fields))
        | TK_Array element_oid _ \<Rightarrow>
            and_then (definition_by_oid element_oid catalog v) (\<lambda>element.
            and_then (logical_type_from_definition C J catalog v stack element) (\<lambda>t.
            if is_raw t then raw_of C J text_envelope ''UTF-8'' d v else Ok (LT_Array t)))
        | TK_Range subtype_oid \<Rightarrow>
            and_then (definition_by_oid subtype_oid catalog v) (\<lambda>subtype.
            and_then (logical_type_from_definition C J catalog v stack subtype) (\<lambda>t. Ok (LT_Range t)))
        | TK_MultiRange range_oid \<Rightarrow>
            and_then (definition_by_oid range_oid catalog v) (\<lambda>rng.
            case td_kind rng of
              TK_Range subtype_oid \<Rightarrow>
                and_then (definition_by_oid subtype_oid catalog v) (\<lambda>subtype.
                and_then (logical_type_from_definition C J catalog v stack subtype) (\<lambda>t. Ok (LT_MultiRange t)))
            | _ \<Rightarrow> Err (STM_Invalid v (''PostgreSQL multirange OID '' @ show_nat (unat (td_oid d))
                          @ '' does not reference a range type'')))
        | TK_Extension extension codec_identity encoding logical_type \<Rightarrow>
            extension_logical_type C J catalog v d extension codec_identity encoding logical_type)"
  by pat_completeness auto
termination
  by (relation "measure (\<lambda>(C, J, catalog, v, stack, d). unseen_with (tc_types catalog) d stack)")
    (auto simp: definition_by_oid_def ok_iff intro!: unseen_with_push)

declare logical_type_from_definition.simps [simp del]

section \<open>Enumerations declared with their labels\<close>

lemma strip_leading_length [termination_simp]: "length (strip_leading ws s) \<le> length s"
proof (induction ws s rule: strip_leading.induct)
  case (1 ws s)
  then show ?case
    by (subst strip_leading.simps) (fastforce split: option.split)
qed

text \<open>A label after its opening quote: whether it was closed, its text and what follows. A multi-byte
  character after a backslash is taken byte by byte, which gives the same text.\<close>

fun label_chars :: "string \<Rightarrow> string \<Rightarrow> string + (bool \<times> string \<times> string)" where
  "label_chars label [] = Ok (False, label, [])"
| "label_chars label (c # cs) =
     (if c = CHR 0x5C then
        (case cs of
           [] \<Rightarrow> Err ''PostgreSQL ENUM label has a dangling escape''
         | escaped # rest \<Rightarrow> label_chars (label @ [escaped]) rest)
      else if c = CHR 0x27 then
        (case cs of
           [] \<Rightarrow> Ok (True, label, [])
         | d # rest \<Rightarrow> if d = CHR 0x27 then label_chars (label @ [d]) rest else Ok (True, label, cs))
      else label_chars (label @ [c]) cs)"

lemma label_chars_length:
  "label_chars label cs = Inr (closed, label', rest) \<Longrightarrow> length rest \<le> length cs"
proof (induction label cs rule: label_chars.induct)
  case (2 label c cs)
  show ?case
  proof (cases cs)
    case Nil
    then show ?thesis using 2(4) by (simp split: if_splits)
  next
    case (Cons d ds)
    then show ?thesis
      using 2(4) 2(1) [of d ds] 2(2) [of d ds] 2(3) by (auto split: if_splits)
  qed
qed simp

function enum_loop :: "string list \<Rightarrow> string \<Rightarrow> string + string list" where
  "enum_loop members chars =
     (case strip_leading white_space chars of
        [] \<Rightarrow> Ok members
      | c # cs \<Rightarrow>
          if c \<noteq> CHR 0x27 then Err ''PostgreSQL ENUM labels must be quoted''
          else and_then (label_chars [] cs) (\<lambda>(closed, member, rest).
            if \<not> closed \<or> member = [] \<or> NUL \<in> set member
            then Err ''PostgreSQL ENUM label is empty, unterminated, or contains NUL''
            else if member \<in> set members then Err ''PostgreSQL ENUM labels must be unique''
            else case strip_leading white_space rest of
              [] \<Rightarrow> Ok (members @ [member])
            | d # more_labels \<Rightarrow>
                if d = CHR '','' then enum_loop (members @ [member]) more_labels
                else Err ''PostgreSQL ENUM labels must be comma separated''))"
  by pat_completeness auto
termination
proof (relation "measure (\<lambda>(members, chars). length chars)", goal_cases)
  case (2 members chars c cs p closed q member rest d more_labels)
  have "length (strip_leading white_space chars) \<le> length chars"
    "length (strip_leading white_space rest) \<le> length rest" by (rule strip_leading_length)+
  moreover have "length rest \<le> length cs" using 2 label_chars_length by auto
  ultimately show ?case using 2 by simp
qed simp

declare enum_loop.simps [simp del]

definition enum_members :: "string \<Rightarrow> string \<Rightarrow> SourceTypeMappingError + string list" where
  "enum_members native_type v =
     (case split_once (CHR ''('') native_type of
        None \<Rightarrow> Err (STM_Invalid v ''PostgreSQL ENUM declaration has no members'')
      | Some (_, after) \<Rightarrow>
          (case rsplit_once (CHR '')'') after of
             None \<Rightarrow> Err (STM_Invalid v ''PostgreSQL ENUM declaration is malformed'')
           | Some (body, tail) \<Rightarrow>
               if \<not> blank tail then Err (STM_Invalid v ''PostgreSQL ENUM declaration is malformed'')
               else and_then (map_err (STM_Invalid v) (enum_loop [] body)) (\<lambda>members.
                 if members = [] then Err (STM_Invalid v ''PostgreSQL ENUM requires at least one label'')
                 else Ok members)))"

section \<open>The logical type of a declaration\<close>

definition array_definition_for_element ::
  "string \<Rightarrow> SourceTypeCatalog \<Rightarrow> string \<Rightarrow> SourceTypeDefinition option" where
  "array_definition_for_element element catalog v =
     Option.bind
       (case find_definition element catalog v of
          Inr d \<Rightarrow> Some d
        | Inl _ \<Rightarrow> Option.bind (builtin_catalog_name element) (\<lambda>name.
            find (\<lambda>d. td_schema d = ''pg_catalog'' \<and> td_name d = name) (tc_types catalog)))
       (\<lambda>element_definition. find (\<lambda>d. case td_kind d of
          TK_Array known _ \<Rightarrow> known = td_oid element_definition | _ \<Rightarrow> False) (tc_types catalog))"

definition storable :: "SourceTypeCatalog \<Rightarrow> SourceTypeDefinition \<Rightarrow> string \<Rightarrow> SourceTypeMappingError + unit" where
  "storable catalog d v =
     (case td_kind d of
        TK_Pseudo \<Rightarrow> Err (STM_Invalid v (''PostgreSQL pseudo-type '' @ full_name d @ '' is not storable''))
      | TK_Array element_oid _ \<Rightarrow>
          require (\<not> list_ex (\<lambda>e. td_oid e = element_oid \<and> td_kind e = TK_Pseudo) (tc_types catalog))
            (STM_Invalid v (''PostgreSQL array '' @ full_name d
               @ '' has a pseudo-type element and is not storable''))
      | _ \<Rightarrow> Ok ())"

definition logical_type_of_name ::
  "codec \<Rightarrow> type_json \<Rightarrow> string \<Rightarrow> SourceTypeCatalog \<Rightarrow> string \<Rightarrow> SourceTypeMappingError + LogicalType" where
  "logical_type_of_name C J native_type catalog v =
     and_then (find_definition native_type catalog v) (\<lambda>d.
     and_then (storable catalog d v) (\<lambda>_.
     if \<not> has_semantic_codec catalog (td_oid d)
        \<and> (case td_kind d of TK_Extension _ _ _ _ \<Rightarrow> False | _ \<Rightarrow> True)
     then raw_of C J text_envelope ''UTF-8'' d v
     else logical_type_from_definition C J catalog v [] d))"

text \<open>Everything but an array declaration.\<close>

definition logical_type_scalar ::
  "codec \<Rightarrow> type_json \<Rightarrow> string \<Rightarrow> SourceTypeCatalog \<Rightarrow> string \<Rightarrow> SourceTypeMappingError + LogicalType" where
  "logical_type_scalar C J native_type catalog v =
     (if eq_ignore_ascii_case (base_name native_type) ''enum''
      then and_then (enum_members native_type v) (\<lambda>members. Ok (LT_Enum members))
      else and_then (logical_type_from_builtin native_type v) (\<lambda>r.
      case r of
        Some t \<Rightarrow> Ok t
      | None \<Rightarrow>
          (case builtin_catalog_name native_type of
             None \<Rightarrow> logical_type_of_name C J native_type catalog v
           | Some canonical \<Rightarrow>
               and_then (logical_type_from_builtin canonical v) (\<lambda>r.
               case r of
                 Some t \<Rightarrow> Ok t
               | None \<Rightarrow>
                   (case find (\<lambda>d. td_schema d = ''pg_catalog'' \<and> td_name d = canonical) (tc_types catalog) of
                      Some d \<Rightarrow> logical_type_from_definition C J catalog v [] d
                    | None \<Rightarrow> logical_type_of_name C J native_type catalog v)))))"

lemma strip_dimensions_shorter:
  "strip_dimensions s n = Some (t, m) \<Longrightarrow> n \<le> m \<and> length t + 2 * (m - n) = length s"
proof (induction s n rule: strip_dimensions.induct)
  case (1 s n)
  show ?case
  proof (cases "strip_suffix ''[]'' s")
    case None
    then show ?thesis using 1(2) by (subst (asm) strip_dimensions.simps) simp
  next
    case (Some r)
    then have "strip_dimensions r (Suc n) = Some (t, m)" "n \<noteq> 255"
      using 1(2) by (subst (asm) strip_dimensions.simps, simp split: if_splits)+
    moreover have "length s = length r + 2" using Some by (auto simp: strip_suffix_Some_iff)
    ultimately show ?thesis using 1(1) [OF Some] by (auto simp: Suc_diff_le)
  qed
qed

lemma array_declaration_shorter [termination_simp]:
  "array_declaration s = Some (t, m) \<Longrightarrow> length t < length s"
  using strip_dimensions_shorter [of s 0 t m]
  by (auto simp: array_declaration_def split: option.splits if_splits)

function logical_type_with_catalog ::
  "codec \<Rightarrow> type_json \<Rightarrow> string \<Rightarrow> SourceTypeCatalog \<Rightarrow> string \<Rightarrow> SourceTypeMappingError + LogicalType" where
  "logical_type_with_catalog C J native_type catalog v =
     (case array_declaration native_type of
        None \<Rightarrow> logical_type_scalar C J native_type catalog v
      | Some (element, dimensions) \<Rightarrow>
          if tc_types catalog = [] then Err (STM_MissingCatalog v native_type)
          else and_then (logical_type_with_catalog C J element catalog v) (\<lambda>t.
            if is_raw t then
              and_then (ok_or (array_definition_for_element element catalog v)
                          (STM_MissingCatalog v native_type)) (\<lambda>d. raw_of C J text_envelope ''UTF-8'' d v)
            else Ok ((LT_Array ^^ dimensions) t)))"
  by pat_completeness auto
termination
  by (relation "measure (\<lambda>(C, J, native_type, catalog, v). length native_type)")
    (auto simp: array_declaration_shorter)

declare logical_type_with_catalog.simps [simp del]

section \<open>The mapping and its evidence\<close>

record SourceRepresentationTypeEvidence =
  re_source_type_identity :: string
  re_protocol :: string
  re_format :: SourceRepresentationFormat
  re_type_metadata :: "(string \<times> string) list"
  re_allowed_context_metadata_keys :: "string set"

record SourceTypeMapping =
  sm_connector :: ConnectorIdentity
  sm_native_type :: string
  sm_logical_type :: LogicalType
  sm_mapping_id :: string
  sm_mapping_version :: string
  sm_evidence_digest :: "string option"
  sm_source_definition_fingerprint :: "string option"
  sm_source_build :: "ServerBuildIdentity option"
  sm_environment_fingerprint :: "string option"
  sm_source_representation_evidence :: "SourceRepresentationTypeEvidence option"
  sm_value_representation :: "(string \<times> string) list"

text \<open>The serialisations of a definition and of the facts under the evidence digests.\<close>

type_synonym mapping_key =
  "ConnectorIdentity \<times> string \<times> LogicalType \<times> string \<times> string \<times> string option \<times> ServerBuildIdentity option
     \<times> string option \<times> (string \<times> string) list"

record mapping_json = type_json +
  mj_mapping :: "mapping_key \<Rightarrow> bytes"
  mj_definition_text :: "SourceTypeDefinition \<Rightarrow> string"
  mj_evidence :: "string \<times> string \<times> LogicalType \<times> string \<times> (string \<times> string) list \<Rightarrow> bytes"

definition types_json :: "mapping_json \<Rightarrow> type_json" where
  "types_json J = type_json.truncate J"

definition with_source_evidence ::
  "codec \<Rightarrow> mapping_json \<Rightarrow> SourceTypeMapping \<Rightarrow> string \<Rightarrow> ServerBuildIdentity \<Rightarrow> string \<Rightarrow> SourceTypeMapping" where
  "with_source_evidence C J m definition_fingerprint source_build environment_fingerprint =
     m\<lparr>sm_source_definition_fingerprint := Some definition_fingerprint, sm_source_build := Some source_build,
       sm_environment_fingerprint := Some environment_fingerprint,
       sm_evidence_digest := Some (stable_digest C (mj_mapping J)
         (sm_connector m, sm_native_type m, sm_logical_type m, sm_mapping_id m, sm_mapping_version m,
          Some definition_fingerprint, Some source_build, Some environment_fingerprint,
          sm_value_representation m))\<rparr>"

definition evidence_digest ::
  "codec \<Rightarrow> mapping_json \<Rightarrow> string \<Rightarrow> string \<Rightarrow> LogicalType \<Rightarrow> string \<Rightarrow> (string \<times> string) list \<Rightarrow> string" where
  "evidence_digest C J version native_type t catalog_digest representation =
     hex_lower (sha256 C (mj_evidence J (version, native_type, t, catalog_digest, representation)))"

definition value_representation :: "LogicalType \<Rightarrow> (string \<times> string) list" where
  "value_representation t =
     (case t of
        LT_BitString len \<Rightarrow>
          [(''bit_order'', ''msb_first''), (''bit_padding'', if unat len mod 8 = 0 then ''none'' else ''zero'')]
      | LT_VariableBitString _ \<Rightarrow> [(''bit_order'', ''msb_first''), (''bit_padding'', ''variable'')]
      | _ \<Rightarrow> [])"

definition representation_metadata ::
  "codec \<Rightarrow> mapping_json \<Rightarrow> string \<Rightarrow> SourceTypeDefinition \<Rightarrow> SourceTypeDefinitionClosure \<Rightarrow> string
     \<Rightarrow> (string \<times> string) list" where
  "representation_metadata C J source_native_type d closure catalog_digest = bt_from
     [(''column_oid'', show_nat (unat (td_oid d))),
      (''native_type'', source_native_type),
      (''type_schema'', td_schema d),
      (''type_name'', td_name d),
      (''type_definition'', mj_definition_text J d),
      (''type_definition_digest'', ''sha256:'' @ td_definition_digest d),
      (''type_definition_closure'', tj_closure (types_json J) closure),
      (''type_definition_closure_digest'', ''sha256:'' @ closure_digest C (types_json J) closure),
      (''source_catalog_digest'', catalog_digest),
      (''text_output_profile'', ''pgoutput-v1/text/UTF8''),
      (''session.datestyle'', ''ISO, YMD''),
      (''session.intervalstyle'', ''iso_8601''),
      (''session.timezone'', ''UTC''),
      (''session.bytea_output'', ''hex''),
      (''session.extra_float_digits'', ''3''),
      (''session.search_path'', ''pg_catalog'')]"

definition source_representation_evidence ::
  "codec \<Rightarrow> mapping_json \<Rightarrow> string \<Rightarrow> LogicalType \<Rightarrow> SourceTypeCatalog \<Rightarrow> string
     \<Rightarrow> SourceTypeMappingError + SourceRepresentationTypeEvidence option" where
  "source_representation_evidence C J source_native_type t catalog v =
     (case t of
        LT_Raw _ native_type digest _ \<Rightarrow>
          and_then (find_definition native_type catalog v) (\<lambda>d.
          and_then (definition_digest C (types_json J) d v) (\<lambda>expected_digest.
          if (case strip_prefix ''sha256:'' digest of Some s \<Rightarrow> s | None \<Rightarrow> digest) \<noteq> expected_digest
          then Err (STM_Invalid v ''opaque mapping and catalog type definition have different digests'')
          else and_then (map_err (STM_Invalid v) (definition_closure catalog (td_oid d))) (\<lambda>closure.
          Ok (Some \<lparr>re_source_type_identity =
                      ''postgresql.pg_type.v1:'' @ show_nat (unat (td_oid d)) @ '':'' @ full_name d,
                    re_protocol = ''pgoutput.v1'',
                    re_format = Repr_Text,
                    re_type_metadata = representation_metadata C J source_native_type d closure
                      (catalog_evidence_digest C (types_json J) catalog),
                    re_allowed_context_metadata_keys =
                      {''relation_oid'', ''relation_schema'', ''relation_name'', ''column_name'',
                       ''type_modifier'', ''environment.lc_monetary''}\<rparr>))))
      | _ \<Rightarrow> Ok None)"

definition source_definition_fingerprint ::
  "codec \<Rightarrow> type_json \<Rightarrow> string \<Rightarrow> LogicalType \<Rightarrow> SourceTypeCatalog \<Rightarrow> string
     \<Rightarrow> SourceTypeMappingError + string option" where
  "source_definition_fingerprint C J native_type t catalog v =
     (let from_catalog = and_then (find_definition native_type catalog v) (\<lambda>d.
            and_then (definition_digest C J d v) (\<lambda>digest. Ok (Some digest))) in
      case t of
        LT_Raw _ _ digest _ \<Rightarrow> Ok (Some digest)
      | _ \<Rightarrow>
          if array_declaration native_type \<noteq> None \<or> eq_ignore_ascii_case (base_name native_type) ''enum''
          then Ok None
          else and_then (logical_type_from_builtin native_type v) (\<lambda>r.
            if r \<noteq> None then Ok None else from_catalog))"

definition source_type_mapping_with_catalog_for_version ::
  "codec \<Rightarrow> mapping_json \<Rightarrow> string \<Rightarrow> string \<Rightarrow> SourceTypeCatalog \<Rightarrow> SourceTypeMappingError + SourceTypeMapping" where
  "source_type_mapping_with_catalog_for_version C J v declaration catalog =
     and_then (ensure_supported_version v) (\<lambda>_.
     and_then (normalize declaration v) (\<lambda>native_type.
     and_then (logical_type_with_catalog C (types_json J) native_type catalog v) (\<lambda>t.
     and_then (map_err (STM_Invalid v) (lt_validate t)) (\<lambda>_.
     and_then (source_definition_fingerprint C (types_json J) native_type t catalog v) (\<lambda>fingerprint.
     and_then (source_representation_evidence C J (trim declaration) t catalog v) (\<lambda>representation_evidence.
     Ok \<lparr>sm_connector = \<lparr>ci_kind = ''postgresql'', ci_version = v\<rparr>,
         sm_native_type = native_type,
         sm_logical_type = t,
         sm_mapping_id = ''postgresql'' @ v @ ''.source-type.'' @ to_ascii_lowercase (base_name native_type),
         sm_mapping_version = mapping_version v,
         sm_evidence_digest = Some (evidence_digest C J (mapping_version v) native_type t
           (catalog_evidence_digest C (types_json J) catalog) (value_representation t)),
         sm_source_definition_fingerprint = fingerprint,
         sm_source_build = None,
         sm_environment_fingerprint = None,
         sm_source_representation_evidence = representation_evidence,
         sm_value_representation = value_representation t\<rparr>))))))"

definition source_type_mapping_for_version ::
  "codec \<Rightarrow> mapping_json \<Rightarrow> string \<Rightarrow> string \<Rightarrow> SourceTypeMappingError + SourceTypeMapping" where
  "source_type_mapping_for_version C J v native_type =
     source_type_mapping_with_catalog_for_version C J v native_type empty_catalog"

definition source_type_mapping_with_source_evidence_for_version ::
  "codec \<Rightarrow> mapping_json \<Rightarrow> string \<Rightarrow> string \<Rightarrow> SourceTypeCatalog \<Rightarrow> ServerBuildIdentity \<Rightarrow> string
     \<Rightarrow> SourceTypeMappingError + SourceTypeMapping" where
  "source_type_mapping_with_source_evidence_for_version C J v native_type catalog build environment =
     and_then (source_type_mapping_with_catalog_for_version C J v native_type catalog) (\<lambda>m.
     Ok (with_source_evidence C J m
       (case sm_source_definition_fingerprint m of
          Some f \<Rightarrow> f | None \<Rightarrow> catalog_evidence_digest C (types_json J) catalog) build environment))"

definition validate_native_type_for_version ::
  "codec \<Rightarrow> type_json \<Rightarrow> string \<Rightarrow> string \<Rightarrow> SourceTypeMappingError + unit" where
  "validate_native_type_for_version C J v declaration =
     and_then (ensure_supported_version v) (\<lambda>_.
     and_then (normalize declaration v) (\<lambda>native_type.
     and_then (logical_type_with_catalog C J native_type empty_catalog v) (\<lambda>_. Ok ())))"

end
