(* ===== verification/Pg_Text.thy ===== *)
theory Pg_Text
  imports Type_Mapping
begin

text \<open>
  The readers of PostgreSQL's text output in \<^verbatim>\<open>crates/postgresql_15/src/types.rs\<close>: the token reader
  and the syntax of records, arrays, range bounds and multiranges. Quoting is part of the syntax, so
  that a field is either a text of any bytes or NULL. What the source marks as unreachable, and a slice
  inside a multi-byte character, are panics: they are the value \<open>DE_Panic\<close> here.
\<close>

section \<open>Errors\<close>

text \<open>The errors of the standard library that the source passes on are kept by their kind.\<close>

datatype DecodeError =
    DE_Invalid string
  | DE_In string DecodeError
  | DE_Mapping SourceTypeMappingError
  | DE_Utf8
  | DE_ParseInt
  | DE_ParseFloat
  | DE_TryFromInt
  | DE_Json
  | DE_Panic

abbreviation bad :: "string \<Rightarrow> DecodeError + 'a" where
  "bad message \<equiv> Err (DE_Invalid message)"

definition from_utf8 :: "bytes \<Rightarrow> DecodeError + string" where
  "from_utf8 bs = (if valid_utf8 bs then Ok bs else Err DE_Utf8)"

section \<open>The token reader\<close>

text \<open>The offset of the reader, which its messages name, and what is left of the text.\<close>

record text_parser =
  tp_pos :: nat
  tp_rest :: bytes

definition parser_new :: "bytes \<Rightarrow> text_parser" where
  "parser_new bs = \<lparr>tp_pos = 0, tp_rest = bs\<rparr>"

definition step_by :: "nat \<Rightarrow> text_parser \<Rightarrow> text_parser" where
  "step_by n p = \<lparr>tp_pos = tp_pos p + n, tp_rest = drop n (tp_rest p)\<rparr>"

definition peek :: "text_parser \<Rightarrow> char option" where
  "peek p = (case tp_rest p of [] \<Rightarrow> None | b # _ \<Rightarrow> Some b)"

definition take_byte :: "text_parser \<Rightarrow> DecodeError + (char \<times> text_parser)" where
  "take_byte p =
     (case tp_rest p of
        [] \<Rightarrow> bad ''unexpected end of PostgreSQL text value''
      | b # _ \<Rightarrow> Ok (b, step_by 1 p))"

definition consume_byte :: "char \<Rightarrow> text_parser \<Rightarrow> DecodeError + text_parser" where
  "consume_byte expected p =
     and_then (take_byte p) (\<lambda>(actual, p').
     if actual \<noteq> expected
     then bad (''malformed PostgreSQL text value at offset '' @ show_nat (tp_pos p) @ '': expected byte 0x''
            @ hex2 expected @ '', found 0x'' @ hex2 actual)
     else Ok p')"

definition consume_bytes :: "bytes \<Rightarrow> text_parser \<Rightarrow> DecodeError + text_parser" where
  "consume_bytes expected p =
     (if \<not> starts_with expected (tp_rest p) then bad ''malformed PostgreSQL text value''
      else Ok (step_by (length expected) p))"

definition skip_spaces :: "text_parser \<Rightarrow> text_parser" where
  "skip_spaces p = step_by (length (takeWhile is_ascii_whitespace (tp_rest p))) p"

definition number_until :: "char \<Rightarrow> text_parser \<Rightarrow> DecodeError + (string \<times> text_parser)" where
  "number_until stop p =
     (let number = takeWhile (\<lambda>b. b \<noteq> stop) (tp_rest p); p' = step_by (length number) p in
      if peek p' = None then bad ''truncated PostgreSQL array bounds''
      else and_then (from_utf8 number) (\<lambda>s. Ok (s, p')))"

definition finish :: "text_parser \<Rightarrow> DecodeError + unit" where
  "finish p = require (tp_rest p = []) (DE_Invalid ''trailing bytes in PostgreSQL text value'')"

fun token_loop :: "bool \<Rightarrow> char list \<Rightarrow> bytes \<Rightarrow> nat \<Rightarrow> bytes \<Rightarrow> DecodeError + (bytes \<times> text_parser)" where
  "token_loop quoted terminators value_bytes pos [] =
     (if quoted then bad ''unterminated quoted PostgreSQL text value''
      else Ok (value_bytes, \<lparr>tp_pos = pos, tp_rest = []\<rparr>))"
| "token_loop quoted terminators value_bytes pos (b # bs) =
     (if quoted \<and> b = CHR 0x22 then
        (case bs of
           c # cs \<Rightarrow>
             if c = CHR 0x22 then token_loop quoted terminators (value_bytes @ [CHR 0x22]) (pos + 2) cs
             else Ok (value_bytes, \<lparr>tp_pos = pos + 1, tp_rest = bs\<rparr>)
         | [] \<Rightarrow> Ok (value_bytes, \<lparr>tp_pos = pos + 1, tp_rest = []\<rparr>))
      else if \<not> quoted \<and> b \<in> set terminators then Ok (value_bytes, \<lparr>tp_pos = pos, tp_rest = b # bs\<rparr>)
      else if b = CHR 0x5C then
        (case bs of
           [] \<Rightarrow> bad ''unexpected end of PostgreSQL text value''
         | c # cs \<Rightarrow> token_loop quoted terminators (value_bytes @ [c]) (pos + 2) cs)
      else token_loop quoted terminators (value_bytes @ [b]) (pos + 1) bs)"

definition delimited :: "char list \<Rightarrow> text_parser \<Rightarrow> bool" where
  "delimited terminators p \<longleftrightarrow> (case peek p of None \<Rightarrow> True | Some b \<Rightarrow> b \<in> set terminators)"

definition debug_peek :: "text_parser \<Rightarrow> string" where
  "debug_peek p = (case peek p of None \<Rightarrow> ''None'' | Some b \<Rightarrow> ''Some('' @ show_nat (ord b) @ '')'')"

definition token :: "char list \<Rightarrow> text_parser \<Rightarrow> DecodeError + ((bytes \<times> bool) \<times> text_parser)" where
  "token terminators p =
     (let quoted = (peek p = Some CHR 0x22);
          start = (if quoted then step_by 1 p else p) in
      and_then (token_loop quoted terminators [] (tp_pos start) (tp_rest start)) (\<lambda>(v, p').
      if \<not> quoted \<or> delimited terminators p' then Ok ((v, quoted), p')
      else
        let p'' = skip_spaces p' in
        if delimited terminators p'' then Ok ((v, quoted), p'')
        else bad (''quoted PostgreSQL text value at offset '' @ show_nat (tp_pos p'')
               @ '' is followed by non-delimiter byte '' @ debug_peek p'')))"

lemma rest_step_by [simp]: "tp_rest (step_by n p) = drop n (tp_rest p)"
  by (simp add: step_by_def)

lemma take_byte_Ok: "take_byte p = Ok (b, p') \<longleftrightarrow> tp_rest p = b # tp_rest p' \<and> tp_pos p' = Suc (tp_pos p)"
  by (cases p; cases p') (auto simp: take_byte_def step_by_def split: list.split)

lemma take_byte_rest: "take_byte p = Inr (b, p') \<Longrightarrow> tp_rest p = b # tp_rest p'"
  using take_byte_Ok by simp

lemma consume_byte_rest: "consume_byte c p = Inr p' \<Longrightarrow> tp_rest p = c # tp_rest p'"
  by (auto simp: consume_byte_def ok_iff split: if_splits dest: take_byte_rest)

lemma token_loop_length:
  "token_loop q ts v n bs = Inr (w, p) \<Longrightarrow> length (tp_rest p) \<le> length bs"
proof (induction q ts v n bs rule: token_loop.induct)
  case (2 q ts v n b bs)
  then show ?case by (cases bs) (auto split: if_splits)
qed (auto split: if_splits)

lemma token_length:
  assumes "token ts p = Inr (v, p')" shows "length (tp_rest p') \<le> length (tp_rest p)"
proof -
  let ?start = "if peek p = Some CHR 0x22 then step_by 1 p else p"
  obtain w r where "token_loop (peek p = Some CHR 0x22) ts [] (tp_pos ?start) (tp_rest ?start) = Inr (w, r)"
    and "p' = r \<or> p' = skip_spaces r"
    using assms by (auto simp: token_def Let_def ok_iff split: if_splits)
  then show ?thesis using token_loop_length by (fastforce simp: skip_spaces_def split: if_splits)
qed

section \<open>Records\<close>

text \<open>One field and the byte after it; \<open>None\<close> for the fields means NULL.\<close>

definition record_field :: "text_parser \<Rightarrow> DecodeError + (bytes option \<times> char \<times> text_parser)" where
  "record_field p =
     and_then (token '',)'' p) (\<lambda>((v, quoted), p').
     and_then (take_byte p') (\<lambda>(b, p'').
     Ok (if \<not> quoted \<and> v = [] then None else Some v, b, p'')))"

lemma record_field_length:
  "record_field p = Inr (v, b, p') \<Longrightarrow> length (tp_rest p') < length (tp_rest p)"
  by (auto simp: record_field_def ok_iff dest!: take_byte_rest token_length)

function record_loop :: "bytes option list \<Rightarrow> text_parser \<Rightarrow> DecodeError + (bytes option list \<times> text_parser)" where
  "record_loop flds p =
     and_then (record_field p) (\<lambda>(v, b, p').
     if b = CHR '','' then record_loop (flds @ [v]) p'
     else if b = CHR '')'' then Ok (flds @ [v], p')
     else Err DE_Panic)"
  by pat_completeness auto
termination
  by (relation "measure (\<lambda>(flds, p). length (tp_rest p))") (auto simp: record_field_length)

declare record_loop.simps [simp del]

definition parse_record :: "bytes \<Rightarrow> DecodeError + bytes option list" where
  "parse_record bs =
     and_then (consume_byte CHR ''('' (parser_new bs)) (\<lambda>p.
     if peek p = Some CHR '')'' then
       and_then (consume_byte CHR '')'' p) (\<lambda>p. and_then (finish p) (\<lambda>_. Ok []))
     else and_then (record_loop [] p) (\<lambda>(flds, p). and_then (finish p) (\<lambda>_. Ok flds)))"

section \<open>Arrays\<close>

datatype ArrayNode =
    Branch "ArrayNode list"
  | Leaf "bytes option"

lemma peek_Some: "peek p = Some b \<Longrightarrow> \<exists>bs. tp_rest p = b # bs"
  by (auto simp: peek_def split: list.splits)

definition array_leaf :: "char \<Rightarrow> text_parser \<Rightarrow> DecodeError + (ArrayNode \<times> text_parser)" where
  "array_leaf delimiter p =
     and_then (token [delimiter, CHR ''}''] p) (\<lambda>((v, quoted), p').
     Ok (Leaf (if \<not> quoted \<and> eq_ignore_ascii_case v ''NULL'' then None else Some v), p'))"

function parse_array_level :: "char \<Rightarrow> text_parser \<Rightarrow> DecodeError + (ArrayNode \<times> text_parser)"
  and array_items :: "char \<Rightarrow> ArrayNode list \<Rightarrow> text_parser \<Rightarrow> DecodeError + (ArrayNode \<times> text_parser)" where
  "parse_array_level delimiter p =
     and_then (consume_byte CHR ''{'' p) (\<lambda>p.
     if peek p = Some CHR ''}'' then and_then (take_byte p) (\<lambda>(_, p). Ok (Branch [], p))
     else array_items delimiter [] p)"
| "array_items delimiter items p =
     and_then (if peek p = Some CHR ''{'' then parse_array_level delimiter p else array_leaf delimiter p) (\<lambda>(item, p').
     and_then (take_byte p') (\<lambda>(b, p'').
     if b = delimiter then array_items delimiter (items @ [item]) p''
     else if b = CHR ''}'' then Ok (Branch (items @ [item]), p'')
     else Err DE_Panic))"
  by pat_completeness auto

lemma array_leaf_length: "array_leaf d p = Inr (v, p') \<Longrightarrow> length (tp_rest p') \<le> length (tp_rest p)"
  by (auto simp: array_leaf_def ok_iff dest: token_length)

lemma parse_array_shrinks:
  "parse_array_level_array_items_dom (Inl (d, p)) \<Longrightarrow> parse_array_level d p = Inr (v, p') \<Longrightarrow>
     length (tp_rest p') < length (tp_rest p)"
  "parse_array_level_array_items_dom (Inr (d, items, p)) \<Longrightarrow> array_items d items p = Inr (v, p') \<Longrightarrow>
     length (tp_rest p') < length (tp_rest p)"
proof (induction arbitrary: v p' and v p' rule: parse_array_level_array_items.pinduct)
  case (1 d p)
  obtain q where q: "consume_byte CHR ''{'' p = Inr q"
    and rest: "(if peek q = Some CHR ''}'' then and_then (take_byte q) (\<lambda>(_, p). Ok (Branch [], p))
        else array_items d [] q) = Inr (v, p')"
    using 1(1,3) by (auto simp: parse_array_level.psimps ok_iff)
  show ?case
  proof (cases "peek q = Some CHR ''}''")
    case True
    then show ?thesis using rest consume_byte_rest [OF q] by (auto simp: ok_iff dest!: take_byte_rest)
  next
    case False
    then show ?thesis using rest consume_byte_rest [OF q] 1(2) [OF q False, of v p'] by simp
  qed
next
  case (2 d items p)
  obtain item q b r where "if peek p = Some CHR ''{'' then parse_array_level d p = Inr (item, q) else array_leaf d p = Inr (item, q)"
    and b: "take_byte q = Inr (b, r)"
    and rest: "(if b = d then array_items d (items @ [item]) r
        else if b = CHR ''}'' then Ok (Branch (items @ [item]), r) else Err DE_Panic) = Inr (v, p')"
    using 2(1,4) by (auto simp: array_items.psimps ok_iff split: if_splits)
  moreover from this have "length (tp_rest q) \<le> length (tp_rest p)"
    using 2(2) array_leaf_length by (fastforce split: if_splits)
  ultimately show ?case
    using 2(3) [of _ item q _ b r] take_byte_rest [OF b] by (fastforce split: if_splits)
qed

termination parse_array_level
proof (relation "measure (case_sum (\<lambda>(d, p). 2 * length (tp_rest p)) (\<lambda>(d, items, p). Suc (2 * length (tp_rest p))))", goal_cases)
  case (4 d items p x item q y b r)
  then have "length (tp_rest q) \<le> length (tp_rest p)"
    using parse_array_shrinks(1) [of d p item q] array_leaf_length [of d p item q] by (auto split: if_splits)
  with 4 take_byte_rest [of q b r] show ?case by auto
qed (auto dest!: consume_byte_rest)

text \<open>A delimiter is one character, in UTF-8 here; it must fit a byte.\<close>

definition delimiter_byte :: "string \<Rightarrow> DecodeError + char" where
  "delimiter_byte delimiter =
     (case delimiter of
        [c] \<Rightarrow> Ok c
      | [a, b] \<Rightarrow>
          if ord a = 194 then Ok b
          else if ord a = 195 then Ok (char_of (ord b + 64))
          else bad ''PostgreSQL array delimiter is not ASCII''
      | _ \<Rightarrow> bad ''PostgreSQL array delimiter is not ASCII'')"

definition array_bound :: "text_parser \<Rightarrow> DecodeError + (int \<times> text_parser)" where
  "array_bound p =
     and_then (take_byte p) (\<lambda>(_, p).
     and_then (number_until CHR '':'' p) (\<lambda>(lower_text, p).
     and_then (consume_byte CHR '':'' p) (\<lambda>p.
     and_then (number_until CHR '']'' p) (\<lambda>(upper_text, p).
     and_then (consume_byte CHR '']'' p) (\<lambda>p.
     and_then (ok_or (parse_signed 32 lower_text) DE_ParseInt) (\<lambda>lower.
     and_then (ok_or (parse_signed 32 upper_text) DE_ParseInt) (\<lambda>upper.
     if \<not> (0 \<le> upper - lower + 1 \<and> upper - lower + 1 \<le> 10000000)
     then bad ''PostgreSQL array bound has invalid length''
     else Ok (lower, p))))))))"

lemma number_until_length: "number_until c p = Inr (s, p') \<Longrightarrow> length (tp_rest p') \<le> length (tp_rest p)"
  by (auto simp: number_until_def Let_def ok_iff split: if_splits)

lemma array_bound_length: "array_bound p = Inr (lower, p') \<Longrightarrow> length (tp_rest p') < length (tp_rest p)"
  by (auto simp: array_bound_def ok_iff split: if_splits
      dest!: take_byte_rest consume_byte_rest number_until_length)

function array_bounds :: "int list \<Rightarrow> text_parser \<Rightarrow> DecodeError + (int list \<times> text_parser)" where
  "array_bounds bounds p =
     (if peek p = Some CHR ''['' then and_then (array_bound p) (\<lambda>(lower, p'). array_bounds (bounds @ [lower]) p')
      else Ok (bounds, p))"
  by pat_completeness auto
termination
  by (relation "measure (\<lambda>(bounds, p). length (tp_rest p))") (auto simp: array_bound_length)

declare array_bounds.simps [simp del]

definition parse_array :: "bytes \<Rightarrow> string \<Rightarrow> DecodeError + (ArrayNode \<times> int list option)" where
  "parse_array bs delimiter =
     and_then (delimiter_byte delimiter) (\<lambda>delimiter.
     and_then (array_bounds [] (parser_new bs)) (\<lambda>(lower_bounds, p).
     let explicit_bounds = (if lower_bounds = [] then None else Some lower_bounds) in
     and_then (if explicit_bounds \<noteq> None then consume_byte CHR ''='' p else Ok p) (\<lambda>p.
     and_then (parse_array_level delimiter p) (\<lambda>(tree, p).
     and_then (finish p) (\<lambda>_.
     Ok (tree, explicit_bounds))))))"

text \<open>The shape and the elements of an array: the children of a level have the same shape.\<close>

fun flatten_array :: "ArrayNode \<Rightarrow> DecodeError + (u64 list \<times> bytes option list)" where
  "flatten_array (Leaf v) = Ok ([], [v])"
| "flatten_array (Branch children) =
     (if children = [] then Ok ([0], [])
      else and_then (try_fold (\<lambda>known child.
        and_then (flatten_array child) (\<lambda>(shape, values).
        if fst known \<noteq> None \<and> fst known \<noteq> Some shape then bad ''PostgreSQL array value is ragged''
        else Ok (Some shape, snd known @ values))) (None, []) children) (\<lambda>(expected_shape, flat).
      Ok (of_nat (length children) # (case expected_shape of None \<Rightarrow> [] | Some shape \<Rightarrow> shape), flat)))"

section \<open>Ranges and multiranges\<close>

fun find_unquoted_from :: "nat \<Rightarrow> bool \<Rightarrow> bool \<Rightarrow> char \<Rightarrow> bytes \<Rightarrow> nat option" where
  "find_unquoted_from index quoted escaped target [] = None"
| "find_unquoted_from index quoted escaped target (b # bs) =
     (if escaped then find_unquoted_from (Suc index) quoted False target bs
      else if b = CHR 0x5C then find_unquoted_from (Suc index) quoted True target bs
      else if b = CHR 0x22 then find_unquoted_from (Suc index) (\<not> quoted) False target bs
      else if \<not> quoted \<and> b = target then Some index
      else find_unquoted_from (Suc index) quoted False target bs)"

definition find_unquoted :: "bytes \<Rightarrow> char \<Rightarrow> nat option" where
  "find_unquoted bs target = find_unquoted_from 0 False False target bs"

definition unquote_range_bound :: "bytes \<Rightarrow> DecodeError + bytes option" where
  "unquote_range_bound bs =
     (case bs of
        [] \<Rightarrow> Ok None
      | b # _ \<Rightarrow>
          if b = CHR 0x22 then
            and_then (token [] (parser_new bs)) (\<lambda>((v, quoted), p).
            and_then (finish p) (\<lambda>_.
            if quoted then Ok (Some v) else bad ''invalid quoted PostgreSQL range bound''))
          else Ok (Some bs))"

text \<open>The text of a range: the inclusiveness of its bounds and their texts.\<close>

datatype range_text = RT_Empty | RT_Bounds bool "bytes option" "bytes option" bool

definition parse_range :: "bytes \<Rightarrow> DecodeError + range_text" where
  "parse_range bs =
     and_then (from_utf8 bs) (\<lambda>raw.
     if raw = ''empty'' then Ok RT_Empty
     else if length raw < 2 \<or> hd raw \<notin> set ''[('' \<or> last raw \<notin> set ''])'' then bad ''invalid PostgreSQL range text''
     else
       and_then (ok_or (find_unquoted raw CHR '','') (DE_Invalid ''PostgreSQL range is missing its separator'')) (\<lambda>comma.
       and_then (unquote_range_bound (drop 1 (take comma raw))) (\<lambda>lower.
       and_then (unquote_range_bound (drop (comma + 1) (take (length raw - 1) raw))) (\<lambda>upper.
       Ok (RT_Bounds (hd raw = CHR ''['') lower upper (last raw = CHR '']''))))))"

fun multirange_loop :: "string list \<Rightarrow> string \<Rightarrow> bool \<Rightarrow> bool \<Rightarrow> int \<Rightarrow> string \<Rightarrow> DecodeError + string list" where
  "multirange_loop result part quoted escaped depth [] =
     (if quoted \<or> escaped \<or> depth \<noteq> 0 then bad ''invalid PostgreSQL multirange quoting or bounds''
      else Ok (result @ [trim part]))"
| "multirange_loop result part quoted escaped depth (b # bs) =
     (if escaped then multirange_loop result (part @ [b]) quoted False depth bs
      else if b = CHR 0x5C then multirange_loop result (part @ [b]) quoted True depth bs
      else if b = CHR 0x22 then multirange_loop result (part @ [b]) (\<not> quoted) False depth bs
      else if quoted then multirange_loop result (part @ [b]) quoted False depth bs
      else if b \<in> set ''[('' then multirange_loop result (part @ [b]) quoted False (depth + 1) bs
      else if b \<in> set ''])'' then multirange_loop result (part @ [b]) quoted False (depth - 1) bs
      else if b = CHR '','' \<and> depth = 0 then multirange_loop (result @ [trim part]) [] quoted False depth bs
      else multirange_loop result (part @ [b]) quoted False depth bs)"

definition split_multirange :: "string \<Rightarrow> DecodeError + string list" where
  "split_multirange body = (if body = [] then Ok [] else multirange_loop [] [] False False 0 body)"

section \<open>Extension texts\<close>

text \<open>The pairs of an hstore text; \<open>None\<close> for the value means NULL.\<close>

definition hstore_value :: "text_parser \<Rightarrow> DecodeError + (bytes option \<times> text_parser)" where
  "hstore_value p =
     (if starts_with ''NULL'' (tp_rest p)
      then and_then (consume_bytes ''NULL'' p) (\<lambda>p. Ok (None, p))
      else and_then (token '','' p) (\<lambda>((v, quoted), p).
        if \<not> quoted then bad ''PostgreSQL hstore value must be quoted or NULL''
        else and_then (from_utf8 v) (\<lambda>v. Ok (Some v, p))))"

definition hstore_pair :: "text_parser \<Rightarrow> DecodeError + ((bytes \<times> bytes option) \<times> text_parser)" where
  "hstore_pair p =
     and_then (token ''='' p) (\<lambda>((key, quoted), p).
     if \<not> quoted then bad ''PostgreSQL hstore key must be quoted''
     else
       and_then (consume_byte CHR ''='' p) (\<lambda>p.
       and_then (consume_byte CHR ''>'' p) (\<lambda>p.
       and_then (hstore_value p) (\<lambda>(v, p).
       and_then (from_utf8 key) (\<lambda>key.
       Ok ((key, v), p))))))"

lemma hstore_value_length: "hstore_value p = Inr (v, p') \<Longrightarrow> length (tp_rest p') \<le> length (tp_rest p)"
  by (auto simp: hstore_value_def consume_bytes_def ok_iff split: if_splits dest: token_length)

lemma hstore_pair_length: "hstore_pair p = Inr (v, p') \<Longrightarrow> length (tp_rest p') < length (tp_rest p)"
  by (fastforce simp: hstore_pair_def ok_iff split: if_splits
      dest!: consume_byte_rest hstore_value_length token_length)

function hstore_loop :: "(bytes \<times> bytes option) list \<Rightarrow> text_parser \<Rightarrow> DecodeError + (bytes \<times> bytes option) list" where
  "hstore_loop entries p =
     and_then (hstore_pair p) (\<lambda>(entry, p').
     if peek p' = None then and_then (finish p') (\<lambda>_. Ok (entries @ [entry]))
     else and_then (consume_byte CHR '','' p') (\<lambda>p''. hstore_loop (entries @ [entry]) (skip_spaces p'')))"
  by pat_completeness auto
termination
  by (relation "measure (\<lambda>(entries, p). length (tp_rest p))")
    (auto simp: skip_spaces_def dest!: hstore_pair_length consume_byte_rest)

declare hstore_loop.simps [simp del]

definition parse_hstore :: "bytes \<Rightarrow> DecodeError + (bytes \<times> bytes option) list" where
  "parse_hstore bs = (if bs = [] then Ok [] else hstore_loop [] (parser_new bs))"

end
