(* ===== verification/Pg_Types.thy ===== *)
theory Pg_Types
  imports Pg_Text
begin

unbundle bit_operations_syntax

text \<open>
  The value decoders of \<^verbatim>\<open>crates/postgresql_15/src/types.rs\<close>: from the text that PostgreSQL sends for a
  column to a logical value. Parsing a floating-point number and a JSON document is the standard
  library's and \<^verbatim>\<open>serde_json\<close>'s, and a parameter here; a parsed document is a tree.
\<close>

section \<open>Parameters\<close>

datatype (plugins only: code size) JsonTree =
    JT_Null
  | JT_Bool bool
  | JT_Number string
  | JT_String string
  | JT_Array "JsonTree list"
  | JT_Object "JsonMember list"
and JsonMember = JsonMember (jm_key: string) (jm_value: JsonTree)

record text_values =
  parse_f32 :: "string \<Rightarrow> u32 option"
  parse_f64 :: "string \<Rightarrow> u64 option"
  json_from_str :: "string \<Rightarrow> JsonTree option"

text \<open>\<^verbatim>\<open>checked_add\<close> and \<^verbatim>\<open>checked_mul\<close>: the result if it fits the signed width.\<close>

definition checked :: "nat \<Rightarrow> 'e \<Rightarrow> int \<Rightarrow> 'e + int" where
  "checked w e n = (if - (2 ^ (w - 1)) \<le> n \<and> n < 2 ^ (w - 1) then Ok n else Err e)"

definition hex_digits :: "nat \<Rightarrow> nat \<Rightarrow> string" where
  "hex_digits w n = map (\<lambda>i. digit_char (n div 16 ^ (w - 1 - i) mod 16)) [0..<w]"

section \<open>Dates and times\<close>

definition version_major :: "string \<Rightarrow> nat" where
  "version_major version =
     (case parse_unsigned 16 (hd (split_on CHR ''.'' version)) of Some n \<Rightarrow> n | None \<Rightarrow> 0)"

definition temporal_infinity :: "string \<Rightarrow> TemporalInfinityKind \<Rightarrow> LogicalValue option" where
  "temporal_infinity txt kind =
     (if txt = ''infinity'' then Some (LV_TemporalInfinity kind False)
      else if txt = ''-infinity'' then Some (LV_TemporalInfinity kind True)
      else None)"

definition strip_era :: "string \<Rightarrow> string \<times> bool" where
  "strip_era txt =
     (case strip_suffix '' BC'' txt of Some v \<Rightarrow> (v, True)
      | None \<Rightarrow> (case strip_suffix '' AD'' txt of Some v \<Rightarrow> (v, False) | None \<Rightarrow> (txt, False)))"

definition validate_postgres_date :: "int \<Rightarrow> u8 \<Rightarrow> u8 \<Rightarrow> DecodeError + unit" where
  "validate_postgres_date year month day =
     (if \<not> (-4712 \<le> year \<and> year \<le> 5874897) then bad ''PostgreSQL date year is outside the supported range''
      else
        let leap = (year mod 4 = 0 \<and> (year mod 100 \<noteq> 0 \<or> year mod 400 = 0));
            days = (if month \<in> {1, 3, 5, 7, 8, 10, 12} then 31
                    else if month \<in> {4, 6, 9, 11} then 30
                    else if month = 2 \<and> leap then 29
                    else if month = 2 then 28
                    else 0) in
        require (day \<noteq> 0 \<and> day \<le> days) (DE_Invalid ''invalid PostgreSQL calendar date''))"

definition parse_u8 :: "string \<Rightarrow> DecodeError + u8" where
  "parse_u8 s = and_then (ok_or (parse_unsigned 8 s) DE_ParseInt) (\<lambda>n. Ok (of_nat n))"

definition postgres_date :: "string \<Rightarrow> DecodeError + (int \<times> u8 \<times> u8)" where
  "postgres_date txt =
     (let (date_text, bc) = strip_era txt; flds = split_on CHR ''-'' date_text in
      if length flds \<noteq> 3 then bad ''invalid PostgreSQL date''
      else
        and_then (ok_or (parse_signed 32 (flds ! 0)) DE_ParseInt) (\<lambda>display_year.
        if display_year \<le> 0 then bad ''invalid PostgreSQL date year''
        else
          let year = (if bc then 1 - display_year else display_year) in
          and_then (parse_u8 (flds ! 1)) (\<lambda>month.
          and_then (parse_u8 (flds ! 2)) (\<lambda>day.
          and_then (validate_postgres_date year month day) (\<lambda>_. Ok (year, month, day))))))"

definition postgres_date_with_era :: "string \<Rightarrow> bool \<Rightarrow> DecodeError + (int \<times> u8 \<times> u8)" where
  "postgres_date_with_era txt bc = (if bc then postgres_date (txt @ '' BC'') else postgres_date txt)"

definition validate_postgres_timestamp_year :: "int \<Rightarrow> DecodeError + unit" where
  "validate_postgres_timestamp_year year =
     require (-4712 \<le> year \<and> year \<le> 294276) (DE_Invalid ''PostgreSQL timestamp year is outside the supported range'')"

definition microseconds_of :: "string option \<Rightarrow> DecodeError + nat" where
  "microseconds_of fraction =
     (case fraction of
        None \<Rightarrow> Ok 0
      | Some v \<Rightarrow>
          if v \<noteq> [] \<and> length v \<le> 6 \<and> list_all is_ascii_digit v
          then ok_or (parse_unsigned 32 (v @ replicate (6 - length v) CHR ''0'')) DE_ParseInt
          else bad ''PostgreSQL time precision exceeds microseconds'')"

definition clock_time :: "string \<Rightarrow> DecodeError + (u8 \<times> u8 \<times> u8 \<times> u32)" where
  "clock_time txt =
     (let flds = split_on CHR '':'' txt in
      if length flds \<noteq> 3 then bad ''invalid PostgreSQL time''
      else
        and_then (parse_u8 (flds ! 0)) (\<lambda>hour.
        and_then (parse_u8 (flds ! 1)) (\<lambda>minute.
        let (second_text, fraction) = (case split_once CHR ''.'' (flds ! 2) of
               None \<Rightarrow> (flds ! 2, None) | Some (s, f) \<Rightarrow> (s, Some f)) in
        and_then (parse_u8 second_text) (\<lambda>second.
        and_then (microseconds_of fraction) (\<lambda>microsecond.
        if 24 < hour \<or> 60 \<le> minute \<or> 60 \<le> second
           \<or> (hour = 24 \<and> (minute \<noteq> 0 \<or> second \<noteq> 0 \<or> microsecond \<noteq> 0))
        then bad ''invalid PostgreSQL time fields''
        else Ok (hour, minute, second, of_nat microsecond))))))"

definition postgres_datetime :: "string \<Rightarrow> DecodeError + (int \<times> u8 \<times> u8 \<times> u8 \<times> u8 \<times> u8 \<times> u32)" where
  "postgres_datetime txt =
     (let (datetime, bc) = strip_era txt in
      and_then (ok_or (split_once CHR '' '' datetime) (DE_Invalid ''invalid PostgreSQL timestamp'')) (\<lambda>(date_text, time_text).
      and_then (postgres_date_with_era date_text bc) (\<lambda>(year, month, day).
      and_then (validate_postgres_timestamp_year year) (\<lambda>_.
      and_then (clock_time time_text) (\<lambda>(hour, minute, second, microsecond).
      Ok (year, month, day, hour, minute, second, microsecond))))))"

text \<open>The sign that is furthest right, but not in front.\<close>

definition split_time_zone :: "string \<Rightarrow> DecodeError + (string \<times> string)" where
  "split_time_zone txt =
     (let zone = takeWhile (\<lambda>c. c \<noteq> CHR ''+'' \<and> c \<noteq> CHR ''-'') (rev txt);
          index = length txt - length zone - 1 in
      if length zone < length txt \<and> 0 < index then Ok (take index txt, drop index txt)
      else bad ''PostgreSQL time zone offset is missing'')"

text \<open>A slice of a string panics inside a multi-byte character.\<close>

definition char_boundary :: "string \<Rightarrow> nat \<Rightarrow> bool" where
  "char_boundary s i \<longleftrightarrow> i = length s \<or> (i < length s \<and> \<not> cont_byte (s ! i))"

definition offset_parts :: "string \<Rightarrow> DecodeError + string list" where
  "offset_parts v =
     (let n = length v in
      if CHR '':'' \<in> set v then Ok (split_on CHR '':'' v)
      else if n \<in> {1, 2} then Ok [v]
      else if n \<in> {3, 4} then
        (if char_boundary v (n - 2) then Ok [take (n - 2) v, drop (n - 2) v] else Err DE_Panic)
      else if n \<in> {5, 6} then
        (if char_boundary v (n - 4) \<and> char_boundary v (n - 2)
         then Ok [take (n - 4) v, take 2 (drop (n - 4) v), drop (n - 2) v] else Err DE_Panic)
      else bad ''invalid PostgreSQL UTC offset'')"

definition offset_part :: "string list \<Rightarrow> nat \<Rightarrow> DecodeError + int" where
  "offset_part parts i = (if i < length parts then ok_or (parse_signed 32 (parts ! i)) DE_ParseInt else Ok 0)"

definition postgres_offset_seconds :: "string \<Rightarrow> DecodeError + int" where
  "postgres_offset_seconds txt =
     and_then (case txt of
         c # v \<Rightarrow> if c = CHR ''+'' then Ok (1, v) else if c = CHR ''-'' then Ok (-1, v)
                  else bad ''invalid PostgreSQL UTC offset''
       | [] \<Rightarrow> bad ''invalid PostgreSQL UTC offset'') (\<lambda>(sign, v).
     and_then (offset_parts v) (\<lambda>parts.
     if parts = [] \<or> 3 < length parts \<or> [] \<in> set parts then bad ''invalid PostgreSQL UTC offset''
     else
       and_then (offset_part parts 0) (\<lambda>hour.
       and_then (offset_part parts 1) (\<lambda>minute.
       and_then (offset_part parts 2) (\<lambda>second.
       if \<not> (0 \<le> hour \<and> hour \<le> 15) \<or> \<not> (0 \<le> minute \<and> minute < 60) \<or> \<not> (0 \<le> second \<and> second < 60)
       then bad ''PostgreSQL UTC offset is outside the supported range''
       else Ok (sign * (hour * 3600 + minute * 60 + second)))))))"

text \<open>Days since 1970-01-01. The divisions of \<^verbatim>\<open>i64\<close> round to zero; all of them but the one for the era are
  of numbers that are not negative, and that one is shifted for negative years.\<close>

definition days_from_civil :: "int \<Rightarrow> u8 \<Rightarrow> u8 \<Rightarrow> int" where
  "days_from_civil y month day =
     (let year = y - (if month \<le> 2 then 1 else 0);
          era = (if 0 \<le> year then year div 400 else - (- (year - 399) div 400));
          year_of_era = year - era * 400;
          adjusted_month = uint month + (if 2 < month then -3 else 9);
          day_of_year = (153 * adjusted_month + 2) div 5 + uint day - 1;
          day_of_era = year_of_era * 365 + year_of_era div 4 - year_of_era div 100 + day_of_year in
      era * 146097 + day_of_era - 719468)"

definition instant_range :: DecodeError where
  "instant_range = DE_Invalid ''PostgreSQL timestamp is outside the supported range''"

definition postgres_instant :: "string \<Rightarrow> DecodeError + (int \<times> u32)" where
  "postgres_instant txt =
     (let (datetime, bc) = strip_era txt in
      and_then (ok_or (split_once CHR '' '' datetime) (DE_Invalid ''invalid PostgreSQL timestamp with time zone''))
        (\<lambda>(date_text, time_zone_text).
      and_then (postgres_date_with_era date_text bc) (\<lambda>(year, month, day).
      and_then (validate_postgres_timestamp_year year) (\<lambda>_.
      and_then (split_time_zone time_zone_text) (\<lambda>(time_text, offset_text).
      and_then (clock_time time_text) (\<lambda>(hour, minute, second, microsecond).
      and_then (postgres_offset_seconds offset_text) (\<lambda>offset_seconds.
      and_then (checked 64 instant_range (days_from_civil year month day * 86400)) (\<lambda>s.
      and_then (checked 64 instant_range (s + uint hour * 3600)) (\<lambda>s.
      and_then (checked 64 instant_range (s + uint minute * 60)) (\<lambda>s.
      and_then (checked 64 instant_range (s + uint second)) (\<lambda>s.
      and_then (checked 64 instant_range (s - offset_seconds)) (\<lambda>seconds.
      Ok (seconds, microsecond * 1000)))))))))))))"

definition offset_time :: "string \<Rightarrow> DecodeError + LogicalValue" where
  "offset_time txt =
     and_then (split_time_zone txt) (\<lambda>(time_text, offset_text).
     and_then (clock_time time_text) (\<lambda>(hour, minute, second, microsecond).
     and_then (postgres_offset_seconds offset_text) (\<lambda>offset_seconds.
     Ok (LV_OffsetTime hour minute second microsecond offset_seconds))))"

definition local_time :: "string \<Rightarrow> DecodeError + LogicalValue" where
  "local_time txt =
     and_then (clock_time txt) (\<lambda>(hour, minute, second, microsecond).
     Ok (LV_LocalTime hour minute second microsecond))"

section \<open>Intervals\<close>

definition parse_interval_integer :: "string \<Rightarrow> DecodeError + int" where
  "parse_interval_integer quantity =
     (if CHR ''.'' \<in> set quantity then bad ''fractional PostgreSQL interval date unit''
      else ok_or (parse_signed 64 quantity) DE_ParseInt)"

definition time_overflow :: DecodeError where
  "time_overflow = DE_Invalid ''PostgreSQL interval time field overflow''"

definition split_sign :: "string \<Rightarrow> bool \<times> string" where
  "split_sign quantity =
     (case strip_prefix ''-'' quantity of Some v \<Rightarrow> (True, v)
      | None \<Rightarrow> (case strip_prefix ''+'' quantity of Some v \<Rightarrow> (False, v) | None \<Rightarrow> (False, quantity)))"

definition split_fraction :: "string \<Rightarrow> string \<times> string option" where
  "split_fraction quantity =
     (case split_once CHR ''.'' quantity of None \<Rightarrow> (quantity, None) | Some (i, f) \<Rightarrow> (i, Some f))"

definition parse_interval_scaled :: "string \<Rightarrow> int \<Rightarrow> DecodeError + int" where
  "parse_interval_scaled quantity factor =
     (let (negative, magnitude_text) = split_sign quantity;
          (integer_text, fraction) = split_fraction magnitude_text in
      if integer_text = [] \<or> \<not> list_all is_ascii_digit integer_text
      then bad ''invalid PostgreSQL interval quantity''
      else
        and_then (ok_or (parse_signed 64 integer_text) DE_ParseInt) (\<lambda>integer_part.
        and_then (checked 128 time_overflow (integer_part * factor)) (\<lambda>magnitude.
        and_then
          (case fraction of
             None \<Rightarrow> Ok magnitude
           | Some f \<Rightarrow>
               if f = [] \<or> 18 < length f \<or> \<not> list_all is_ascii_digit f
               then bad ''invalid PostgreSQL interval fraction''
               else
                 and_then (ok_or (parse_signed 64 f) DE_ParseInt) (\<lambda>numerator.
                 and_then (checked 128 time_overflow (numerator * factor)) (\<lambda>scaled.
                 if scaled mod 10 ^ length f \<noteq> 0
                 then bad ''PostgreSQL interval fraction exceeds microsecond precision''
                 else checked 128 time_overflow (magnitude + scaled div 10 ^ length f)))) (\<lambda>magnitude.
        checked 64 DE_TryFromInt (if negative then - magnitude else magnitude)))))"

text \<open>The longest run of digits with at most one point.\<close>

fun scan_quantity :: "bool \<Rightarrow> string \<Rightarrow> string \<times> string" where
  "scan_quantity saw_dot [] = ([], [])"
| "scan_quantity saw_dot (c # cs) =
     (if is_ascii_digit c then (case scan_quantity saw_dot cs of (q, r) \<Rightarrow> (c # q, r))
      else if c = CHR ''.'' \<and> \<not> saw_dot then (case scan_quantity True cs of (q, r) \<Rightarrow> (c # q, r))
      else ([], c # cs))"

record interval_state =
  iv_in_time :: bool
  iv_months :: int
  iv_days :: int
  iv_microseconds :: int
  iv_saw_component :: bool

definition month_overflow :: DecodeError where
  "month_overflow = DE_Invalid ''PostgreSQL interval month field overflow''"

definition day_overflow :: DecodeError where
  "day_overflow = DE_Invalid ''PostgreSQL interval day field overflow''"

definition add_months :: "int \<Rightarrow> string \<Rightarrow> interval_state \<Rightarrow> DecodeError + interval_state" where
  "add_months factor quantity s =
     and_then (parse_interval_integer quantity) (\<lambda>n.
     and_then (checked 64 month_overflow (n * factor)) (\<lambda>n.
     and_then (checked 64 month_overflow (iv_months s + n)) (\<lambda>months. Ok (s\<lparr>iv_months := months\<rparr>))))"

definition add_days :: "int \<Rightarrow> string \<Rightarrow> interval_state \<Rightarrow> DecodeError + interval_state" where
  "add_days factor quantity s =
     and_then (parse_interval_integer quantity) (\<lambda>n.
     and_then (checked 64 day_overflow (n * factor)) (\<lambda>n.
     and_then (checked 64 day_overflow (iv_days s + n)) (\<lambda>days. Ok (s\<lparr>iv_days := days\<rparr>))))"

definition add_time :: "int \<Rightarrow> int \<Rightarrow> string \<Rightarrow> interval_state \<Rightarrow> DecodeError + interval_state" where
  "add_time global_sign factor quantity s =
     and_then (parse_interval_scaled quantity factor) (\<lambda>n.
     and_then (checked 64 time_overflow (n * global_sign)) (\<lambda>n.
     and_then (checked 64 time_overflow (iv_microseconds s + n)) (\<lambda>us. Ok (s\<lparr>iv_microseconds := us\<rparr>))))"

definition interval_component :: "int \<Rightarrow> string \<Rightarrow> char \<Rightarrow> interval_state \<Rightarrow> DecodeError + interval_state" where
  "interval_component global_sign quantity unit s =
     (if \<not> iv_in_time s then
        (if unit = CHR ''Y'' then add_months 12 quantity s
         else if unit = CHR ''M'' then add_months 1 quantity s
         else if unit = CHR ''W'' then add_days 7 quantity s
         else if unit = CHR ''D'' then add_days 1 quantity s
         else bad ''unsupported PostgreSQL ISO interval unit'')
      else
        (if unit = CHR ''H'' then add_time global_sign 3600000000 quantity s
         else if unit = CHR ''M'' then add_time global_sign 60000000 quantity s
         else if unit = CHR ''S'' then add_time global_sign 1000000 quantity s
         else bad ''unsupported PostgreSQL ISO interval unit''))"

lemma scan_quantity_split: "scan_quantity d s = (q, r) \<Longrightarrow> s = q @ r"
  by (induction d s arbitrary: q r rule: scan_quantity.induct) (auto split: if_splits prod.splits)

definition component_sign :: "string \<Rightarrow> string \<times> string" where
  "component_sign txt =
     (case txt of c # cs \<Rightarrow> if c \<in> set ''+-'' then ([c], cs) else ([], txt) | [] \<Rightarrow> ([], []))"

definition scan_component :: "string \<Rightarrow> DecodeError + (string \<times> char \<times> string)" where
  "scan_component txt =
     (let (sign, rest) = component_sign txt; (number, tail) = scan_quantity False rest in
      case tail of
        [] \<Rightarrow> bad ''invalid PostgreSQL ISO interval component''
      | unit # others \<Rightarrow>
          if \<not> list_ex is_ascii_digit number then bad ''invalid PostgreSQL ISO interval component''
          else Ok (sign @ number, unit, others))"

lemma scan_component_Ok:
  "scan_component txt = Inr (q, u, r) \<Longrightarrow> txt = q @ u # r \<and> list_ex is_ascii_digit q"
  by (auto simp: scan_component_def component_sign_def split: prod.splits list.splits if_splits
      dest!: scan_quantity_split)

function interval_loop :: "int \<Rightarrow> interval_state \<Rightarrow> string \<Rightarrow> DecodeError + interval_state" where
  "interval_loop global_sign s txt =
     (case txt of
        [] \<Rightarrow> Ok s
      | c # cs \<Rightarrow>
          if c = CHR ''T'' \<and> \<not> iv_in_time s then interval_loop global_sign (s\<lparr>iv_in_time := True\<rparr>) cs
          else
            and_then (scan_component txt) (\<lambda>(quantity, unit, rest).
            and_then (interval_component global_sign quantity unit (s\<lparr>iv_saw_component := True\<rparr>)) (\<lambda>s'.
            interval_loop global_sign s' rest)))"
  by pat_completeness auto
termination
  by (relation "measure (\<lambda>(g, s, txt). length txt)") (auto dest!: scan_component_Ok dest: arg_cong [where f = length])

declare interval_loop.simps [simp del]

definition calendar_interval :: "string \<Rightarrow> DecodeError + LogicalValue" where
  "calendar_interval txt =
     and_then
       (case strip_prefix ''-P'' txt of Some body \<Rightarrow> Ok (-1, body)
        | None \<Rightarrow> (case strip_prefix ''+P'' txt of Some body \<Rightarrow> Ok (1, body)
        | None \<Rightarrow> (case strip_prefix ''P'' txt of Some body \<Rightarrow> Ok (1, body)
        | None \<Rightarrow> bad ''PostgreSQL interval is not in ISO 8601 form''))) (\<lambda>(global_sign, body).
     and_then (interval_loop global_sign
       \<lparr>iv_in_time = False, iv_months = 0, iv_days = 0, iv_microseconds = 0, iv_saw_component = False\<rparr> body) (\<lambda>s.
     if \<not> iv_saw_component s then bad ''empty PostgreSQL ISO interval''
     else
       and_then (checked 64 month_overflow (iv_months s * global_sign)) (\<lambda>months.
       and_then (checked 64 day_overflow (iv_days s * global_sign)) (\<lambda>days.
       and_then (checked 32 DE_TryFromInt months) (\<lambda>months.
       and_then (checked 32 DE_TryFromInt days) (\<lambda>days.
       Ok (LV_CalendarInterval months days (iv_microseconds s))))))))"

section \<open>Numbers, bits, networks and documents\<close>

definition split_exponent :: "string \<Rightarrow> string \<times> string option" where
  "split_exponent txt =
     (let coefficient = takeWhile (\<lambda>c. c \<noteq> CHR ''e'' \<and> c \<noteq> CHR ''E'') txt in
      (coefficient, if length coefficient < length txt then Some (drop (Suc (length coefficient)) txt) else None))"

definition pg_decimal :: "string \<Rightarrow> DecodeError + (string \<times> int)" where
  "pg_decimal txt =
     (let lower = to_ascii_lowercase txt in
      if lower = ''nan'' then Ok (''NaN'', 0)
      else if lower \<in> {''infinity'', ''inf'', ''+infinity'', ''+inf''} then Ok (''Infinity'', 0)
      else if lower \<in> {''-infinity'', ''-inf''} then Ok (''-Infinity'', 0)
      else
        let (coefficient, exponent_text) = split_exponent txt in
        and_then (case exponent_text of None \<Rightarrow> Ok 0 | Some e \<Rightarrow> ok_or (parse_signed 32 e) DE_ParseInt) (\<lambda>exponent.
        let negative = starts_with ''-'' coefficient;
            parts = split_on CHR ''.'' (snd (split_sign coefficient)) in
        if 2 < length parts \<or> hd parts = [] \<or> \<not> list_all (list_all is_ascii_digit) parts
        then bad ''unsupported numeric special value or syntax''
        else
          and_then (checked 32 DE_TryFromInt
            ((if length parts = 2 then int (length (parts ! 1)) else 0) - exponent)) (\<lambda>scale.
          Ok ((if negative then CHR ''-'' # concat parts else concat parts), scale))))"

definition set_bit_at :: "u8 list \<Rightarrow> nat \<Rightarrow> u8 list" where
  "set_bit_at bs i = bs[i div 8 := bs ! (i div 8) OR push_bit (7 - i mod 8) 1]"

definition pack_bits :: "string \<Rightarrow> u8 list" where
  "pack_bits txt =
     foldl (\<lambda>bs (i, bit). if bit = CHR ''1'' then set_bit_at bs i else bs)
       (replicate ((length txt + 7) div 8) 0) (enumerate 0 txt)"

definition bytes_of :: "u8 list \<Rightarrow> bytes" where
  "bytes_of ws = map (\<lambda>w. char_of (unat w)) ws"

definition pg_bit_string :: "codec \<Rightarrow> string \<Rightarrow> DecodeError + LogicalValue" where
  "pg_bit_string C txt =
     (if txt = [] \<or> \<not> list_all (\<lambda>c. c \<in> set ''01'') txt then bad ''invalid PostgreSQL bit string''
      else Ok (LV_BitString (b64_encode C (bytes_of (pack_bits txt))) (of_nat (length txt))
             (if length txt mod 8 = 0 then Pad_None else Pad_Zero) MsbFirst))"

definition pg_network :: "u32 \<Rightarrow> string \<Rightarrow> DecodeError + LogicalValue" where
  "pg_network oid txt =
     and_then
       (case split_once CHR ''/'' txt of
          Some (address, prefix) \<Rightarrow>
            and_then (ok_or (parse_unsigned 8 prefix) (DE_Invalid ''invalid network prefix'')) (\<lambda>n.
            Ok (address, Some (of_nat n)))
        | None \<Rightarrow> Ok (txt, None)) (\<lambda>(address, prefix_length).
     if address = [] then bad ''invalid PostgreSQL network value''
     else Ok (LV_Network
       (if oid = 774 then ''macaddr8'' else if oid = 829 then ''macaddr''
        else if CHR '':'' \<in> set address then ''ipv6'' else ''ipv4'') address prefix_length))"

definition json_number :: "string \<Rightarrow> DecodeError + JsonValue" where
  "json_number txt =
     and_then (pg_decimal txt) (\<lambda>(unscaled, scale).
     if scale < 0 then
       (if 131072 < length unscaled + nat (- scale)
        then bad ''JSON number exceeds PostgreSQL numeric precision''
        else Ok (JV_Decimal (unscaled @ replicate (nat (- scale)) CHR ''0'') 0))
     else Ok (JV_Decimal unscaled (nat scale)))"

lemma size_jm_value: "m \<in> set ms \<Longrightarrow> size (jm_value m) < Suc (size_list size ms)"
proof -
  assume "m \<in> set ms"
  then have "size m \<le> size_list size ms" by (rule size_list_estimation') simp
  moreover have "size (jm_value m) < size m" by (cases m) simp
  ultimately show ?thesis by simp
qed

function pg_json :: "JsonTree \<Rightarrow> nat \<Rightarrow> DecodeError + JsonValue" where
  "pg_json v depth =
     (if 100 < depth then bad ''jsonb nesting exceeds 100''
      else case v of
        JT_Null \<Rightarrow> Ok JV_Null
      | JT_Bool b \<Rightarrow> Ok (JV_Boolean b)
      | JT_String s \<Rightarrow> Ok (JV_String s)
      | JT_Number n \<Rightarrow> json_number n
      | JT_Array xs \<Rightarrow> and_then (map_result (\<lambda>x. pg_json x (depth + 1)) xs) (\<lambda>js. Ok (JV_Array js))
      | JT_Object ms \<Rightarrow>
          and_then (map_result (\<lambda>m. and_then (pg_json (jm_value m) (depth + 1)) (\<lambda>j.
            Ok (JsonEntry (jm_key m) j))) ms) (\<lambda>es. Ok (JV_Object es)))"
  by pat_completeness auto
termination
  by (relation "measure (\<lambda>(v, d). size v)") (auto simp: size_jm_value size_member)

declare pg_json.simps [simp del]

section \<open>Extension values\<close>

definition text_value :: "codec \<Rightarrow> bytes \<Rightarrow> LogicalValue" where
  "text_value C bs = LV_Text ''UTF8'' (b64_encode C bs) (Some bs)"

definition decode_hstore :: "codec \<Rightarrow> bytes \<Rightarrow> DecodeError + LogicalValue" where
  "decode_hstore C bs =
     and_then (parse_hstore bs) (\<lambda>entries.
     Ok (LV_Map (map (\<lambda>(k, v). MapEntry (text_value C k)
       (case v of None \<Rightarrow> LV_Null | Some v \<Rightarrow> text_value C v)) entries)))"

fun hex_pairs :: "string \<Rightarrow> bytes" where
  "hex_pairs (a # b # s) = char_of (16 * digit_value a + digit_value b) # hex_pairs s"
| "hex_pairs s = []"

definition ewkb_word :: "bytes \<Rightarrow> bool \<Rightarrow> nat \<Rightarrow> DecodeError + u32" where
  "ewkb_word raw little offset =
     (let bs = take 4 (drop offset raw) in
      if length raw < offset + 4 then bad ''truncated EWKB header''
      else Ok (of_nat (if little then le_u32 bs else be_u32 bs)))"

definition ewkb_geometry :: "u32 \<Rightarrow> DecodeError + string" where
  "ewkb_geometry geometry_id =
     (if geometry_id \<in> {1, 2, 3, 4, 5, 6, 7} then Ok (geometry_name geometry_id)
      else bad ''EWKB uses an unsupported geometry type'')"

definition decode_postgis_ewkb :: "codec \<Rightarrow> bytes \<Rightarrow> DecodeError + LogicalValue" where
  "decode_postgis_ewkb C bs =
     (if length bs < 10 \<or> length bs mod 2 \<noteq> 0 \<or> \<not> list_all is_ascii_hexdigit bs
      then bad ''PostGIS text output is not valid hexadecimal EWKB''
      else
        let raw = hex_pairs bs in
        and_then (if ord (hd raw) = 0 then Ok False else if ord (hd raw) = 1 then Ok True
                  else bad ''EWKB has an invalid byte-order marker'') (\<lambda>little.
        and_then (ewkb_word raw little 1) (\<lambda>type_word.
        let has_z = (type_word AND 0x80000000 \<noteq> 0);
            has_m = (type_word AND 0x40000000 \<noteq> 0);
            has_srid = (type_word AND 0x20000000 \<noteq> 0);
            encoded_type = type_word AND 0x1fffffff;
            iso_dimensions = encoded_type div 1000;
            geometry_id = (if iso_dimensions = 0 then encoded_type else encoded_type mod 1000) in
        and_then (ewkb_geometry geometry_id) (\<lambda>geometry_type.
        if 3 < iso_dimensions then bad ''EWKB uses an unsupported coordinate dimension''
        else
          let dimensions = 2 + of_bool (has_z \<or> iso_dimensions \<in> {1, 3}) + of_bool (has_m \<or> iso_dimensions \<in> {2, 3}) in
          and_then (if has_srid then and_then (ewkb_word raw little 5) (\<lambda>w. Ok (Some (sint w))) else Ok None) (\<lambda>srid.
          Ok (LV_Spatial Ewkb (b64_encode C raw) geometry_type dimensions srid None))))))"

section \<open>Columns\<close>

definition bytea :: "codec \<Rightarrow> string \<Rightarrow> DecodeError + LogicalValue" where
  "bytea C txt =
     and_then (ok_or (strip_prefix [CHR 0x5C, CHR ''x''] txt) (DE_Invalid ''bytea_output must be hex'')) (\<lambda>hex.
     if length hex mod 2 \<noteq> 0 \<or> \<not> list_all is_ascii_hexdigit hex then bad ''invalid bytea hex''
     else Ok (LV_Binary (b64_encode C (hex_pairs hex))))"

definition or_infinity :: "string \<Rightarrow> TemporalInfinityKind \<Rightarrow> DecodeError + LogicalValue \<Rightarrow> DecodeError + LogicalValue" where
  "or_infinity txt kind r = (case temporal_infinity txt kind of Some v \<Rightarrow> Ok v | None \<Rightarrow> r)"

definition decode_json :: "text_values \<Rightarrow> string \<Rightarrow> DecodeError + LogicalValue" where
  "decode_json T txt =
     and_then (ok_or (json_from_str T txt) DE_Json) (\<lambda>tree. and_then (pg_json tree 0) (\<lambda>j. Ok (LV_Json j)))"

definition decode_for_version :: "codec \<Rightarrow> text_values \<Rightarrow> string \<Rightarrow> u32 \<Rightarrow> bytes \<Rightarrow> DecodeError + LogicalValue" where
  "decode_for_version C T version oid bs =
     and_then (from_utf8 bs) (\<lambda>txt.
     if oid = 16 then
       (if txt = ''t'' then Ok (LV_Boolean True) else if txt = ''f'' then Ok (LV_Boolean False)
        else bad ''invalid PostgreSQL boolean'')
     else if oid \<in> {20, 21, 23, 26, 28, 29} then
       and_then (ok_or (parse_signed 64 txt) DE_ParseInt) (\<lambda>n.
       Ok (LV_Integer (oid \<in> {20, 21, 23}) (if oid = 20 then 64 else if oid = 21 then 16 else 32) (show_int n)))
     else if oid = 5069 then
       and_then (ok_or (parse_unsigned 64 txt) DE_ParseInt) (\<lambda>n. Ok (LV_Integer False 64 (show_nat n)))
     else if oid = 1700 then and_then (pg_decimal txt) (\<lambda>(unscaled, scale). Ok (LV_Decimal unscaled scale))
     else if oid = 700 then
       and_then (ok_or (parse_f32 T txt) DE_ParseFloat) (\<lambda>w. Ok (LV_Float 32 (hex_digits 8 (unat w))))
     else if oid = 701 then
       and_then (ok_or (parse_f64 T txt) DE_ParseFloat) (\<lambda>w. Ok (LV_Float 64 (hex_digits 16 (unat w))))
     else if oid \<in> {18, 19, 25, 1042, 1043} then Ok (LV_Text ''UTF8'' (b64_encode C bs) (Some txt))
     else if oid = 114 then decode_json T txt
     else if oid = 17 then bytea C txt
     else if oid = 1082 then
       or_infinity txt TI_Date (and_then (postgres_date txt) (\<lambda>(y, m, d). Ok (LV_Date y m d)))
     else if oid = 1083 then local_time txt
     else if oid = 1114 then
       or_infinity txt TI_LocalDatetime (and_then (postgres_datetime txt) (\<lambda>(y, mo, d, h, mi, s, us).
         Ok (LV_LocalDatetime y mo d h mi s us)))
     else if oid = 1184 then
       or_infinity txt TI_Instant (and_then (postgres_instant txt) (\<lambda>(s, ns). Ok (LV_Instant (show_int s) ns)))
     else if oid = 1186 then
       (if 17 \<le> version_major version \<and> temporal_infinity txt TI_CalendarInterval \<noteq> None
        then Ok (the (temporal_infinity txt TI_CalendarInterval))
        else calendar_interval txt)
     else if oid = 1266 then offset_time txt
     else if oid = 142 then Ok (LV_Xml (b64_encode C bs) (Some txt))
     else if oid \<in> {650, 774, 829, 869} then pg_network oid txt
     else if oid \<in> {1560, 1562} then pg_bit_string C txt
     else if oid = 2950 then Ok (LV_Uuid txt)
     else if oid = 3802 then decode_json T txt
     else bad (''unsupported PostgreSQL type OID '' @ show_nat (unat oid)))"

definition decode_column_for_version ::
  "codec \<Rightarrow> mapping_json \<Rightarrow> text_values \<Rightarrow> string \<Rightarrow> u32 \<Rightarrow> string \<Rightarrow> bytes \<Rightarrow> DecodeError + LogicalValue" where
  "decode_column_for_version C J T version oid native_type bs =
     (if starts_with ''enum('' (to_ascii_lowercase (trim native_type)) then
        and_then (from_utf8 bs) (\<lambda>label.
        and_then (map_err DE_Mapping (source_type_mapping_for_version C J version native_type)) (\<lambda>m.
        case sm_logical_type m of
          LT_Enum members \<Rightarrow>
            if label \<notin> set members then bad ''PostgreSQL ENUM value is not a declared label''
            else Ok (LV_Enum label)
        | _ \<Rightarrow> bad ''PostgreSQL ENUM declaration did not map to ENUM''))
      else decode_for_version C T version oid bs)"

definition known_type :: "SourceTypeCatalog \<Rightarrow> u32 \<Rightarrow> string \<Rightarrow> DecodeError + SourceTypeDefinition" where
  "known_type catalog oid message = ok_or (definition_at (tc_types catalog) oid) (DE_Invalid message)"

definition array_value :: "LogicalValue list \<Rightarrow> int list \<Rightarrow> u64 list \<Rightarrow> LogicalValue" where
  "array_value elements lower_bounds dimension_lengths =
     (if length dimension_lengths \<le> 1 \<and> (lower_bounds = [] \<or> hd lower_bounds = 1) then LV_Array elements
      else LV_ArrayWithMetadata elements (of_nat (length dimension_lengths)) lower_bounds dimension_lengths)"

text \<open>An error is wrapped with what was decoded; a panic is not an error.\<close>

definition within :: "string \<Rightarrow> DecodeError \<Rightarrow> DecodeError" where
  "within message e = (if e = DE_Panic then e else DE_In message e)"

text \<open>The elements of an array with its shape and bounds, before they are decoded. An array without
  elements has one dimension of length zero in the tree.\<close>

definition array_parts_of ::
  "bytes \<Rightarrow> string \<Rightarrow> string \<Rightarrow> DecodeError + (u64 list \<times> bytes option list \<times> int list)" where
  "array_parts_of bs delimiter name =
     and_then (map_err (within (''PostgreSQL array '' @ name @ '' could not be decoded: '')) (parse_array bs delimiter))
       (\<lambda>(tree, explicit_bounds).
     and_then (flatten_array tree) (\<lambda>(dimension_lengths, raw_values).
     if 255 < length dimension_lengths then bad ''PostgreSQL array dimension count exceeds 255''
     else
       let lower_bounds = (if dimension_lengths = [] then []
             else case explicit_bounds of None \<Rightarrow> replicate (length dimension_lengths) 1 | Some bounds \<Rightarrow> bounds) in
       if length lower_bounds \<noteq> length dimension_lengths then bad ''PostgreSQL array bounds and dimensions disagree''
       else Ok (dimension_lengths, raw_values, lower_bounds)))"

definition composite_parts :: "bytes \<Rightarrow> nat \<Rightarrow> string \<Rightarrow> DecodeError + bytes option list" where
  "composite_parts bs field_count name =
     and_then (map_err (within (''PostgreSQL composite '' @ name @ '' could not be decoded: '')) (parse_record bs)) (\<lambda>values.
     let values = (if values = [] \<and> field_count = 1 then [None] else values) in
     if length values \<noteq> field_count then bad (''PostgreSQL composite '' @ name @ '' field count mismatch'')
     else Ok values)"

text \<open>Values of catalog types. The recursion is limited to 64 levels, counting one more for a bound of a
  range than for the range itself.\<close>

function decode_catalog_value ::
  "codec \<Rightarrow> mapping_json \<Rightarrow> text_values \<Rightarrow> string \<Rightarrow> SourceTypeCatalog \<Rightarrow> u32 \<Rightarrow> string \<Rightarrow> bytes \<Rightarrow> nat
     \<Rightarrow> DecodeError + LogicalValue"
  and decode_range ::
  "codec \<Rightarrow> mapping_json \<Rightarrow> text_values \<Rightarrow> string \<Rightarrow> SourceTypeCatalog \<Rightarrow> u32 \<Rightarrow> string \<Rightarrow> bytes \<Rightarrow> nat
     \<Rightarrow> DecodeError + LogicalValue" where
  "decode_catalog_value C J T version catalog oid native_type bs depth =
     (if 64 < depth then bad ''PostgreSQL recursive value exceeds the 64-level limit''
      else
        and_then (known_type catalog oid (''PostgreSQL type catalog is missing OID '' @ show_nat (unat oid))) (\<lambda>d.
        case td_kind d of
          TK_Pseudo \<Rightarrow> bad (''PostgreSQL pseudo-type '' @ full_name d @ '' cannot appear as a stored row value'')
        | TK_Builtin _ \<Rightarrow> decode_column_for_version C J T version oid native_type bs
        | TK_Enum labels \<Rightarrow>
            and_then (from_utf8 bs) (\<lambda>label.
            if label \<notin> set labels then bad (''PostgreSQL enum '' @ full_name d @ '' contains an undeclared label'')
            else Ok (LV_Enum label))
        | TK_Domain base_oid _ _ \<Rightarrow>
            and_then (known_type catalog base_oid (''PostgreSQL domain '' @ full_name d @ '' has a missing base type'')) (\<lambda>base.
            and_then (decode_catalog_value C J T version catalog base_oid (td_name base) bs (depth + 1)) (\<lambda>v.
            Ok (LV_Domain v)))
        | TK_Composite flds \<Rightarrow>
            and_then (composite_parts bs (length flds) (full_name d)) (\<lambda>parts.
            and_then (map_result (\<lambda>part.
              and_then
                (case snd part of
                   None \<Rightarrow> Ok LV_Null
                 | Some raw \<Rightarrow>
                     and_then (known_type catalog (tf_type_oid (fst part))
                       (''PostgreSQL composite field '' @ tf_name (fst part) @ '' has an unknown type OID'')) (\<lambda>field_type.
                     decode_catalog_value C J T version catalog (tf_type_oid (fst part)) (td_name field_type) raw (depth + 1)))
              (\<lambda>v. Ok (StructuredField (tf_name (fst part)) v))) (zip flds parts)) (\<lambda>decoded.
            Ok (LV_Struct decoded)))
        | TK_Array element_oid delimiter \<Rightarrow>
            and_then (known_type catalog element_oid (''PostgreSQL array '' @ full_name d @ '' has an unknown element type'')) (\<lambda>element_type.
            and_then (array_parts_of bs delimiter (full_name d)) (\<lambda>(dimension_lengths, raw_values, lower_bounds).
            and_then (map_result (\<lambda>raw.
              case raw of
                None \<Rightarrow> Ok LV_Null
              | Some raw \<Rightarrow> decode_catalog_value C J T version catalog element_oid (td_name element_type) raw (depth + 1))
              raw_values) (\<lambda>elements.
            Ok (array_value elements lower_bounds dimension_lengths))))
        | TK_Range subtype_oid \<Rightarrow>
            and_then (known_type catalog subtype_oid (''PostgreSQL range '' @ full_name d @ '' has an unknown subtype'')) (\<lambda>subtype.
            decode_range C J T version catalog subtype_oid (td_name subtype) bs (depth + 1))
        | TK_MultiRange range_oid \<Rightarrow>
            and_then (known_type catalog range_oid (''PostgreSQL multirange '' @ full_name d @ '' has an unknown range type'')) (\<lambda>rng.
            case td_kind rng of
              TK_Range subtype_oid \<Rightarrow>
                and_then (known_type catalog subtype_oid ''PostgreSQL multirange subtype is missing'') (\<lambda>subtype.
                and_then (from_utf8 bs) (\<lambda>txt.
                and_then (ok_or (Option.bind (strip_prefix ''{'' txt) (strip_suffix ''}''))
                            (DE_Invalid ''invalid PostgreSQL multirange text'')) (\<lambda>body.
                and_then (split_multirange body) (\<lambda>items.
                and_then (map_result (\<lambda>item.
                  decode_range C J T version catalog subtype_oid (td_name subtype) item (depth + 1)) items) (\<lambda>ranges.
                Ok (LV_MultiRange ranges))))))
            | _ \<Rightarrow> bad ''PostgreSQL multirange catalog entry does not refer to a range'')
        | TK_Extension extension _ _ _ \<Rightarrow>
            if eq_ignore_ascii_case extension ''hstore'' \<and> td_name d = ''hstore'' then decode_hstore C bs
            else if eq_ignore_ascii_case extension ''postgis'' \<and> td_name d \<in> {''geometry'', ''geography''}
            then decode_postgis_ewkb C bs
            else bad (''PostgreSQL extension type '' @ full_name d @ '' has no qualified semantic codec'')))"
| "decode_range C J T version catalog subtype_oid subtype_name bs depth =
     and_then (parse_range bs) (\<lambda>r.
     case r of
       RT_Empty \<Rightarrow> Ok (LV_Range True None None False False)
     | RT_Bounds lower_inclusive lower_raw upper_raw upper_inclusive \<Rightarrow>
         and_then (case lower_raw of
             None \<Rightarrow> Ok None
           | Some raw \<Rightarrow> and_then (decode_catalog_value C J T version catalog subtype_oid subtype_name raw (depth + 1))
               (\<lambda>v. Ok (Some v))) (\<lambda>lower.
         and_then (case upper_raw of
             None \<Rightarrow> Ok None
           | Some raw \<Rightarrow> and_then (decode_catalog_value C J T version catalog subtype_oid subtype_name raw (depth + 1))
               (\<lambda>v. Ok (Some v))) (\<lambda>upper.
         Ok (LV_Range False lower upper lower_inclusive upper_inclusive))))"
  by pat_completeness auto
termination
  by (relation "measure (case_sum
      (\<lambda>(C, J, T, version, catalog, oid, native_type, bs, depth). 2 * (66 - depth))
      (\<lambda>(C, J, T, version, catalog, oid, native_type, bs, depth). Suc (2 * (66 - depth))))") auto

declare decode_catalog_value.simps [simp del]
declare decode_range.simps [simp del]

definition decode_catalog_column_for_version ::
  "codec \<Rightarrow> mapping_json \<Rightarrow> text_values \<Rightarrow> string \<Rightarrow> SourceTypeCatalog \<Rightarrow> u32 \<Rightarrow> string \<Rightarrow> bytes
     \<Rightarrow> DecodeError + LogicalValue" where
  "decode_catalog_column_for_version C J T version catalog oid native_type bs =
     decode_catalog_value C J T version catalog oid native_type bs 0"

end
