(* ===== verification/Civil_Date.thy ===== *)
theory Civil_Date
  imports Validate
begin

text \<open>
  The proleptic Gregorian calendar behind the date arithmetic of
  \<^verbatim>\<open>crates/postgresql_15/src/types.rs\<close> and \<^verbatim>\<open>crates/change_event/src/compatibility.rs\<close>: the number of a
  date on integers, that it counts days one by one, and the date of a number.
\<close>

section \<open>The number of a date\<close>

text \<open>Years begin in March here, so that the leap day is the last of its year.\<close>

definition year_start :: "int \<Rightarrow> int" where
  "year_start y = 365 * y + y div 4 - y div 100 + y div 400"

definition month_start :: "int \<Rightarrow> int" where
  "month_start mp = (153 * mp + 2) div 5"

definition march_year :: "int \<Rightarrow> int \<Rightarrow> int" where
  "march_year y m = (if m \<le> 2 then y - 1 else y)"

definition march_month :: "int \<Rightarrow> int" where
  "march_month m = (if 2 < m then m - 3 else m + 9)"

definition day_number :: "int \<Rightarrow> int \<Rightarrow> int \<Rightarrow> int" where
  "day_number y m d = year_start (march_year y m) + month_start (march_month m) + d - 1 - 719468"

lemma div_mod_part: "0 < (k :: int) \<Longrightarrow> (y :: int) div k = j * (y div (j * k)) + (y mod (j * k)) div k"
proof -
  assume k: "0 < k"
  have "y = k * (j * (y div (j * k))) + y mod (j * k)" by (simp add: mult.assoc [symmetric] mult.commute)
  then have "y div k = (y mod (j * k) + k * (j * (y div (j * k)))) div k" by (simp add: add.commute)
  then show ?thesis using k by (simp only: div_mult_self2)
qed

lemma era_days:
  fixes y :: int
  shows "(y div 400) * 146097 + ((y mod 400) * 365 + (y mod 400) div 4 - (y mod 400) div 100) = year_start y"
proof -
  have "y div 4 = 100 * (y div 400) + (y mod 400) div 4" using div_mod_part [of 4 y 100] by simp
  moreover have "y div 100 = 4 * (y div 400) + (y mod 400) div 100" using div_mod_part [of 100 y 4] by simp
  moreover have "y = 400 * (y div 400) + y mod 400" by simp
  ultimately show ?thesis unfolding year_start_def by linarith
qed

lemma div_step: "0 < k \<Longrightarrow> (y :: int) div k - (y - 1) div k = (if y mod k = 0 then 1 else 0)"
proof -
  assume k: "0 < k"
  let ?q = "y div k" and ?r = "y mod k"
  have y: "y = k * ?q + ?r" and r: "0 \<le> ?r" "?r < k" using k by simp_all
  show ?thesis
  proof (cases "?r = 0")
    case True
    then have "y - 1 = k * (?q - 1) + (k - 1)" using y by (simp add: algebra_simps)
    then have "(y - 1) div k = ?q - 1" using k by (intro int_div_pos_eq [of _ _ _ "k - 1"]) auto
    with True show ?thesis by simp
  next
    case False
    then have "y - 1 = k * ?q + (?r - 1)" using y by simp
    then have "(y - 1) div k = ?q" using k r False by (intro int_div_pos_eq [of _ _ _ "?r - 1"]) auto
    with False show ?thesis by simp
  qed
qed

lemma mod_coarser: "(y :: int) mod 100 = 0 \<Longrightarrow> y mod 4 = 0" "y mod 400 = 0 \<Longrightarrow> y mod 100 = 0"
  by (auto simp: mod_eq_0_iff_dvd dvd_def)

lemma year_terms:
  fixes y :: int
  shows "a - a' = p \<Longrightarrow> b - b' = q \<Longrightarrow> c - c' = r \<Longrightarrow>
    (365 * y + a - b + c) - (365 * (y - 1) + a' - b' + c') = 365 + p - q + r"
  by simp

lemma year_length: "year_start y - year_start (y - 1) = (if leap_year y then 366 else 365)"
proof -
  have "year_start y - year_start (y - 1) = 365 + (if y mod 4 = 0 then 1 else 0)
      - (if y mod 100 = 0 then 1 else 0) + (if y mod 400 = 0 then 1 else 0)"
    unfolding year_start_def by (intro year_terms div_step) simp_all
  moreover have "y mod 400 = 0 \<longrightarrow> y mod 100 = 0" "y mod 100 = 0 \<longrightarrow> y mod 4 = 0"
    using mod_coarser [of y] by blast+
  ultimately show ?thesis unfolding leap_year_def
    by (cases "y mod 4 = 0"; cases "y mod 100 = 0"; cases "y mod 400 = 0"; simp only: if_True if_False simp_thms)
qed

lemma month_length:
  "1 \<le> m \<Longrightarrow> m \<le> 12 \<Longrightarrow> uint (days_in_month y (of_int m)) =
     (if m = 2 then (if leap_year y then 29 else 28) else if m \<in> {4, 6, 9, 11} then 30 else 31)"
proof -
  assume "1 \<le> m" "m \<le> 12"
  then have "m = 1 \<or> m = 2 \<or> m = 3 \<or> m = 4 \<or> m = 5 \<or> m = 6 \<or> m = 7 \<or> m = 8 \<or> m = 9 \<or> m = 10 \<or> m = 11 \<or> m = 12"
    by presburger
  then show ?thesis by (elim disjE) (simp_all add: days_in_month_def)
qed

section \<open>Counting days\<close>

definition valid_date :: "int \<Rightarrow> int \<Rightarrow> int \<Rightarrow> bool" where
  "valid_date y m d \<longleftrightarrow> 1 \<le> m \<and> m \<le> 12 \<and> 1 \<le> d \<and> d \<le> uint (days_in_month y (of_int m))"

definition next_day :: "int \<Rightarrow> int \<Rightarrow> int \<Rightarrow> int \<times> int \<times> int" where
  "next_day y m d =
     (if d < uint (days_in_month y (of_int m)) then (y, m, d + 1)
      else if m < 12 then (y, m + 1, 1)
      else (y + 1, 1, 1))"

lemma day_number_epoch: "day_number 1970 1 1 = 0"
  by code_simp

lemma day_number_next:
  assumes "valid_date y m d"
  shows "case next_day y m d of (y', m', d') \<Rightarrow> day_number y' m' d' = day_number y m d + 1"
proof -
  have bounds: "1 \<le> m" "m \<le> 12" using assms by (auto simp: valid_date_def)
  then have "m = 1 \<or> m = 2 \<or> m = 3 \<or> m = 4 \<or> m = 5 \<or> m = 6 \<or> m = 7 \<or> m = 8 \<or> m = 9 \<or> m = 10 \<or> m = 11 \<or> m = 12"
    by presburger
  then show ?thesis
    using assms year_length [of y] unfolding valid_date_def next_day_def month_length [OF bounds]
    by (elim disjE) (auto simp: day_number_def march_year_def march_month_def month_start_def)
qed

section \<open>The date of a number\<close>

text \<open>The year of an era from the day of the era, and the month from the day of its year.\<close>

definition era_year :: "int \<Rightarrow> int" where
  "era_year doe = (doe - doe div 1460 + doe div 36524 - doe div 146096) div 365"

definition era_start :: "int \<Rightarrow> int" where
  "era_start r = 365 * r + r div 4 - r div 100"

text \<open>A year of an era is its century, its group of four years and its place in the group. A day that
  would be the 366th is one only in a leap year.\<close>

lemma era_year_parts:
  fixes a c d k :: int
  assumes "0 \<le> a" "a \<le> 3" "0 \<le> c" "c \<le> 24" "0 \<le> d" "d \<le> 3" "0 \<le> k"
    and leap: "k \<le> 364 \<or> k = 365 \<and> d = 3 \<and> (c \<le> 23 \<or> a = 3)"
  shows "era_year (36524 * a + 1461 * c + 365 * d + k) = 100 * a + 4 * c + d"
proof -
  let ?doe = "36524 * a + 1461 * c + 365 * d + k"
  obtain \<delta> where \<delta>: "?doe div 1460 = 25 * a + c + \<delta>" and "\<delta> = 0 \<and> k \<le> 364 \<or> \<delta> = 1 \<and> 1 \<le> k \<and> k \<le> 365"
  proof (cases "24 * a + c + 365 * d + k < 1460")
    case True
    then have "?doe div 1460 = 25 * a + c + 0"
      using assms by (intro int_div_pos_eq [of _ _ _ "24 * a + c + 365 * d + k"]) auto
    moreover have "k \<le> 364" using leap True assms by auto
    ultimately show ?thesis using that [of 0] by blast
  next
    case False
    then have "?doe div 1460 = 25 * a + c + 1"
      using assms by (intro int_div_pos_eq [of _ _ _ "24 * a + c + 365 * d + k - 1460"]) auto
    moreover have "1 \<le> k" "k \<le> 365" using False leap assms by auto
    ultimately show ?thesis using that [of 1] by blast
  qed
  moreover have "?doe div 36524 - ?doe div 146096 = a"
  proof (cases "a = 3 \<and> c = 24 \<and> d = 3 \<and> k = 365")
    case False
    then have "?doe div 36524 = a" using assms by (intro int_div_pos_eq [of _ _ _ "1461 * c + 365 * d + k"]) auto
    moreover have "?doe div 146096 = 0" using assms False by (intro int_div_pos_eq [of _ _ _ ?doe]) auto
    ultimately show ?thesis by simp
  qed simp
  ultimately have "?doe - ?doe div 1460 + ?doe div 36524 - ?doe div 146096 = 365 * (100 * a + 4 * c + d) + (k - \<delta>)"
    and "0 \<le> k - \<delta>" "k - \<delta> < 365" using assms(7) by auto
  then show ?thesis unfolding era_year_def by (intro int_div_pos_eq)
qed

lemma era_parts:
  fixes r :: int
  assumes "0 \<le> r" "r < 400"
  obtains a c d where "r = 100 * a + 4 * c + d" "0 \<le> a" "a \<le> 3" "0 \<le> c" "c \<le> 24" "0 \<le> d" "d \<le> 3"
    "era_start r = 36524 * a + 1461 * c + 365 * d"
proof -
  let ?a = "r div 100" and ?c = "r mod 100 div 4" and ?d = "r mod 100 mod 4"
  have r: "r = 100 * ?a + 4 * ?c + ?d" by simp
  have bounds: "0 \<le> ?a" "?a \<le> 3" "0 \<le> ?c" "?c \<le> 24" "0 \<le> ?d" "?d \<le> 3"
  proof -
    have "?a < 4" using assms by (simp add: div_less_iff_less_mult)
    moreover have "?c < 25" by (simp add: div_less_iff_less_mult)
    moreover have "?d < 4" by simp
    ultimately show "?a \<le> 3" "?c \<le> 24" "?d \<le> 3" by simp_all
  qed (use assms in \<open>simp_all add: pos_imp_zdiv_nonneg_iff\<close>)
  have "r div 4 = 25 * ?a + ?c" using div_mod_part [of 4 r 25] by simp
  then have "era_start r = 36524 * ?a + 1461 * ?c + 365 * ?d" using r unfolding era_start_def by linarith
  with r bounds show ?thesis by (intro that)
qed

lemma era_year_of_day:
  assumes r: "0 \<le> r" "r < 400" and k: "0 \<le> k" "k \<le> 364 \<or> k = 365 \<and> leap_year (r + 1)"
  shows "era_year (era_start r + k) = r"
proof -
  obtain a c d where parts: "r = 100 * a + 4 * c + d" "0 \<le> a" "a \<le> 3" "0 \<le> c" "c \<le> 24" "0 \<le> d" "d \<le> 3"
    "era_start r = 36524 * a + 1461 * c + 365 * d" using r by (rule era_parts)
  have "k \<le> 364 \<or> k = 365 \<and> d = 3 \<and> (c \<le> 23 \<or> a = 3)"
  proof (rule ccontr)
    assume "\<not> ?thesis"
    with k have leap: "leap_year (r + 1)" and no: "d \<noteq> 3 \<or> c = 24 \<and> a \<noteq> 3" using parts(5) by auto
    have "r + 1 = (d + 1) + 4 * (25 * a + c)" using parts(1) by simp
    then have "(r + 1) mod 4 = (d + 1) mod 4" by (simp only: mod_mult_self2)
    moreover have "d \<in> {0, 1, 2, 3}" using parts(6,7) by auto
    ultimately have "d = 3" using leap by (auto simp: leap_year_def)
    then have "r + 1 = 100 * (a + 1)" "a \<in> {0, 1, 2}" using no parts by auto
    then show False using leap by (auto simp: leap_year_def)
  qed
  then show ?thesis using era_year_parts [of a c d k] parts k by simp
qed

lemma month_of_day:
  assumes "0 \<le> mp" "mp \<le> 11" "1 \<le> d" "d \<le> month_start (mp + 1) - month_start mp"
  shows "(5 * (month_start mp + d - 1) + 2) div 153 = mp"
proof -
  have "mp = 0 \<or> mp = 1 \<or> mp = 2 \<or> mp = 3 \<or> mp = 4 \<or> mp = 5 \<or> mp = 6 \<or> mp = 7 \<or> mp = 8 \<or> mp = 9 \<or> mp = 10 \<or> mp = 11"
    using assms(1,2) by presburger
  then have "153 * mp \<le> 5 * (month_start mp + d - 1) + 2 \<and> 5 * (month_start mp + d - 1) + 2 < 153 * mp + 153"
    using assms(3,4) by (elim disjE) (auto simp: month_start_def)
  then show ?thesis by (intro int_div_pos_eq [of _ _ _ "5 * (month_start mp + d - 1) + 2 - 153 * mp"]) auto
qed

definition date_of_day :: "int \<Rightarrow> int \<times> int \<times> int" where
  "date_of_day days =
     (let z = days + 719468;
          era = z div 146097;
          doe = z - era * 146097;
          yoe = era_year doe;
          doy = doe - era_start yoe;
          mp = (5 * doy + 2) div 153;
          m = mp + (if mp < 10 then 3 else -9) in
      (yoe + era * 400 + (if m \<le> 2 then 1 else 0), m, doy - month_start mp + 1))"

lemma leap_year_period: "leap_year (x + 400 * e) = leap_year x"
proof -
  have "(x + 4 * (100 * e)) mod 4 = x mod 4" "(x + 100 * (4 * e)) mod 100 = x mod 100" "(x + 400 * e) mod 400 = x mod 400"
    by (simp_all only: mod_mult_self2)
  then show ?thesis by (simp add: leap_year_def)
qed

lemma march_date:
  assumes "valid_date y m d"
  shows "0 \<le> march_month m" "march_month m \<le> 11" "1 \<le> d"
    and "d \<le> month_start (march_month m + 1) - month_start (march_month m)"
    and "0 \<le> month_start (march_month m) + d - 1"
    and "month_start (march_month m) + d - 1 \<le> 364
      \<or> month_start (march_month m) + d - 1 = 365 \<and> leap_year (march_year y m + 1)"
proof -
  have bounds: "1 \<le> m" "m \<le> 12" "1 \<le> d" using assms by (auto simp: valid_date_def)
  then have cases: "m = 1 \<or> m = 2 \<or> m = 3 \<or> m = 4 \<or> m = 5 \<or> m = 6 \<or> m = 7 \<or> m = 8 \<or> m = 9 \<or> m = 10 \<or> m = 11 \<or> m = 12"
    by presburger
  note d = assms [unfolded valid_date_def month_length [OF bounds(1,2)]]
  show "0 \<le> march_month m" "march_month m \<le> 11" "1 \<le> d" using bounds by (auto simp: march_month_def)
  show "d \<le> month_start (march_month m + 1) - month_start (march_month m)"
    using cases d by (elim disjE) (auto simp: march_month_def month_start_def split: if_splits)
  show "0 \<le> month_start (march_month m) + d - 1"
    using cases bounds(3) by (elim disjE) (auto simp: march_month_def month_start_def)
  show "month_start (march_month m) + d - 1 \<le> 364
      \<or> month_start (march_month m) + d - 1 = 365 \<and> leap_year (march_year y m + 1)"
    using cases d by (elim disjE) (auto simp: march_month_def march_year_def month_start_def split: if_splits)
qed

lemma era_start_bound: "0 \<le> r \<Longrightarrow> r < 400 \<Longrightarrow> 0 \<le> era_start r \<and> era_start r \<le> 145731"
  by (erule era_parts) auto

lemma date_of_day_number:
  assumes valid: "valid_date y m d" shows "date_of_day (day_number y m d) = (y, m, d)"
proof -
  let ?Y = "march_year y m" and ?mp = "march_month m"
  let ?e = "?Y div 400" and ?r = "?Y mod 400" and ?k = "month_start ?mp + d - 1"
  note md = march_date [OF valid]
  have r: "0 \<le> ?r" "?r < 400" by simp_all
  have "?Y + 1 = (?r + 1) + 400 * ?e" by simp
  then have leap: "leap_year (?Y + 1) = leap_year (?r + 1)" by (simp only: leap_year_period)
  have z: "day_number y m d + 719468 = 146097 * ?e + (era_start ?r + ?k)"
    unfolding day_number_def using era_days [of ?Y] by (simp add: era_start_def algebra_simps)
  have era: "(day_number y m d + 719468) div 146097 = ?e"
    using z era_start_bound [OF r] md(5,6) by (intro int_div_pos_eq [of _ _ _ "era_start ?r + ?k"]) auto
  have doe: "day_number y m d + 719468 - ?e * 146097 = era_start ?r + ?k"
    unfolding z by simp
  have yoe: "era_year (era_start ?r + ?k) = ?r"
    using md(5,6) leap by (intro era_year_of_day [OF r]) auto
  have mp: "(5 * ?k + 2) div 153 = ?mp" using month_of_day [OF md(1-4)] by simp
  have m: "?mp + (if ?mp < 10 then 3 else -9) = m"
    using valid by (auto simp: march_month_def valid_date_def)
  have y: "?r + ?e * 400 + (if m \<le> 2 then 1 else 0) = y"
    using mod_div_mult_eq [of ?Y 400] by (auto simp: march_year_def)
  show ?thesis
    unfolding date_of_day_def Let_def era doe yoe
    using mp m y by simp
qed

lemma day_number_inj:
  "valid_date y m d \<Longrightarrow> valid_date y' m' d' \<Longrightarrow> day_number y m d = day_number y' m' d' \<Longrightarrow> (y, m, d) = (y', m', d')"
  by (metis date_of_day_number)

end
