(* ===== verification/Type_Mapping_Spec.thy ===== *)
theory Type_Mapping_Spec
  imports Type_Mapping
begin

text \<open>
  What the source type mapping guarantees: built-in declarations give valid logical types, the normal
  form of a declaration is a fixed point, the labels of an enumeration are read back, a catalog with a
  cycle is never mapped, and a representation-only type carries the evidence of its definition.
\<close>

section \<open>Built-in declarations\<close>

lemma lt_validate_leaves [simp]:
  "lt_validate LT_Boolean = Ok ()" "lt_validate LT_Uuid = Ok ()" "lt_validate LT_Date = Ok ()"
  "lt_validate LT_Xml = Ok ()" "lt_validate LT_DecimalUnbounded = Ok ()" "lt_validate (LT_Json jp) = Ok ()"
  "lt_validate (LT_Binary m) = Ok ()" "lt_validate (LT_Enum ls) = Ok ()"
  "lt_validate (LT_Integer sg b) = Ok () \<longleftrightarrow> b \<in> {8, 16, 24, 32, 64}"
  "lt_validate (LT_Float b) = Ok () \<longleftrightarrow> b \<in> {32, 64}"
  "lt_validate (LT_BitString n) = Ok () \<longleftrightarrow> n \<noteq> 0"
  "lt_validate (LT_VariableBitString bm) = Ok () \<longleftrightarrow> bm \<noteq> Some 0"
  "lt_validate (LT_Decimal dp s) = Ok () \<longleftrightarrow> dp \<noteq> 0 \<and> -1000 \<le> s \<and> s \<le> 1000"
  "lt_validate (LT_LocalTime p) = Ok () \<longleftrightarrow> p \<le> 6" "lt_validate (LT_OffsetTime p) = Ok () \<longleftrightarrow> p \<le> 6"
  "lt_validate (LT_LocalDatetime p) = Ok () \<longleftrightarrow> p \<le> 6" "lt_validate (LT_Instant p) = Ok () \<longleftrightarrow> p \<le> 6"
  "lt_validate (LT_CalendarInterval p) = Ok () \<longleftrightarrow> p \<le> 6"
  "lt_validate (LT_Network f cidr) = Ok () \<longleftrightarrow> \<not> blank f"
  by (simp_all add: lt_validate.simps lt_validate_leaf_def temporal_precision_def ok_iff)

lemma lt_validate_text: "lt_validate (utf8_text m) = Ok ()"
  by (simp add: lt_validate.simps lt_validate_leaf_def ok_iff) code_simp

lemma lt_validate_array [simp]: "lt_validate ((LT_Array ^^ n) t) = lt_validate t"
  by (induction n) (simp_all add: lt_validate.simps [of "LT_Array _"])

lemma u8_small: "n \<le> 6 \<Longrightarrow> (of_nat n :: u8) \<le> 6"
  by (simp add: word_le_nat_alt unat_of_nat)

lemma of_nat_word_nonzero: "0 < n \<Longrightarrow> n < 2 ^ LENGTH('w) \<Longrightarrow> (of_nat n :: 'w::len word) \<noteq> 0"
  by (simp add: word_of_nat_eq_0_iff nat_dvd_not_less)

lemma time_type_valid: "time_type t v = Ok l \<Longrightarrow> lt_validate l = Ok ()"
  by (auto simp: time_type_def Let_def ok_iff u8_small not_less split: if_splits option.splits)

lemma interval_type_valid: "interval_type t v = Ok l \<Longrightarrow> lt_validate l = Ok ()"
  by (auto simp: interval_type_def Let_def ok_iff u8_small not_less split: if_splits option.splits)

lemma timestamp_type_valid: "timestamp_type t v = Ok l \<Longrightarrow> lt_validate l = Ok ()"
  by (auto simp: timestamp_type_def Let_def ok_iff u8_small not_less split: if_splits option.splits)

lemma numeric_valid: "numeric t v = Ok l \<Longrightarrow> lt_validate l = Ok ()"
  by (auto simp: numeric_def Let_def ok_iff not_less of_nat_word_nonzero split: if_splits option.splits)

lemma bit_length_positive: "bit_length t p v = Ok n \<Longrightarrow> n \<noteq> 0"
  by (auto simp: bit_length_def ok_iff of_nat_word_nonzero split: if_splits)

lemma spatial_subtypes_named: "\<forall>s \<in> set spatial_subtypes. \<not> blank s"
  by code_simp

lemma spatial_shape_dimensions: "spatial_shape s = (t, d) \<Longrightarrow> 2 \<le> d \<and> d \<le> 4"
  by (auto simp: spatial_shape_def split: option.splits)

lemma spatial_type_valid: "spatial_type t v = Ok l \<Longrightarrow> lt_validate l = Ok ()"
  using spatial_subtypes_named spatial_shape_dimensions
  by (fastforce simp: spatial_type_def Let_def ok_iff lt_validate.simps lt_validate_leaf_def
      split: if_splits prod.splits)

lemma network_families: "\<not> blank ''ip''" "\<not> blank ''macaddr''" "\<not> blank ''macaddr8''"
  by code_simp+

lemma builtin_constants_valid: "\<forall>(names, l) \<in> set builtin_constants. lt_validate l = Ok ()"
  by (simp add: builtin_constants_def lt_validate_text network_families)

definition yields_valid :: "SourceTypeMappingError + LogicalType option \<Rightarrow> bool" where
  "yields_valid r \<longleftrightarrow> (\<forall>l. r = Ok (Some l) \<longrightarrow> lt_validate l = Ok ())"

lemma yields_valid_if: "yields_valid a \<Longrightarrow> yields_valid b \<Longrightarrow> yields_valid (if c then a else b)"
  by simp

lemma yields_valid_None: "yields_valid (Ok None)"
  by (simp add: yields_valid_def)

lemma yields_valid_some:
  "(\<And>l. r = Ok l \<Longrightarrow> lt_validate l = Ok ()) \<Longrightarrow> yields_valid (and_then r (\<lambda>l. Ok (Some l)))"
  by (auto simp: yields_valid_def ok_iff)

lemma yields_valid_bits:
  "(\<And>n. n \<noteq> 0 \<Longrightarrow> lt_validate (f n) = Ok ()) \<Longrightarrow>
     yields_valid (and_then (and_then (bit_length t p v) (\<lambda>n. Ok (f n))) (\<lambda>l. Ok (Some l)))"
  by (auto simp: yields_valid_def ok_iff bit_length_positive)

lemma yields_valid_chars:
  "yields_valid (and_then (and_then r (\<lambda>n. Ok (utf8_text (Some n)))) (\<lambda>l. Ok (Some l)))"
  by (auto simp: yields_valid_def ok_iff lt_validate_text)

lemma yields_valid_parsers:
  "yields_valid (and_then (time_type t v) (\<lambda>l. Ok (Some l)))"
  "yields_valid (and_then (interval_type t v) (\<lambda>l. Ok (Some l)))"
  "yields_valid (and_then (numeric t v) (\<lambda>l. Ok (Some l)))"
  "yields_valid (and_then (spatial_type t v) (\<lambda>l. Ok (Some l)))"
  "yields_valid (and_then (timestamp_type t v) (\<lambda>l. Ok (Some l)))"
  by (rule yields_valid_some, erule time_type_valid interval_type_valid numeric_valid spatial_type_valid
    timestamp_type_valid)+

lemmas yields_valid_rules =
  yields_valid_if yields_valid_None yields_valid_parsers yields_valid_chars yields_valid_bits

lemma builtin_parsed_valid: "yields_valid (builtin_parsed t v)"
  unfolding builtin_parsed_def Let_def by (intro yields_valid_rules) simp_all

lemma logical_type_from_builtin_valid:
  assumes "logical_type_from_builtin t v = Ok (Some l)" shows "lt_validate l = Ok ()"
proof (cases "find (\<lambda>(names, _). t \<in> set names) builtin_constants")
  case None
  then show ?thesis
    using assms builtin_parsed_valid [of t v] by (simp add: logical_type_from_builtin_def yields_valid_def)
next
  case (Some entry)
  then have "entry \<in> set builtin_constants" by (metis find_Some_iff nth_mem)
  then show ?thesis
    using assms Some builtin_constants_valid by (auto simp: logical_type_from_builtin_def split: prod.splits)
qed

section \<open>The normal form\<close>

lemma starts_with_quote: "starts_with [c] s \<longleftrightarrow> (\<exists>r. s = c # r)"
  by (auto simp: starts_with_iff)

lemma normalize_chars_prefix:
  "normalize_chars q p n cs = Inr (n', q') \<Longrightarrow> \<exists>w. n' = n @ w"
proof (induction q p n cs rule: normalize_chars.induct)
  case (2 q p n c cs)
  then show ?case by (fastforce simp: Let_def split: if_splits)
qed simp

lemma lower_char_other:
  "\<not> is_ascii_lower d \<Longrightarrow> \<not> is_ascii_upper d \<Longrightarrow> lower_char c = d \<longleftrightarrow> c = d"
  by (auto simp: lower_char_def is_ascii_lower_def is_ascii_upper_def)

lemma lower_char_punctuation:
  "lower_char c = CHR 0x22 \<longleftrightarrow> c = CHR 0x22" "lower_char c = CHR '';'' \<longleftrightarrow> c = CHR '';''"
  "lower_char c \<in> set ''.)[],'' \<longleftrightarrow> c \<in> set ''.)[],''"
  using lower_char_other [of "CHR 0x22" c] lower_char_other [of "CHR '';''" c] lower_char_other [of "CHR ''.''" c]
    lower_char_other [of "CHR '')''" c] lower_char_other [of "CHR ''[''" c] lower_char_other [of "CHR '']''" c]
    lower_char_other [of "CHR '',''" c]
  by (simp_all add: is_ascii_lower_def is_ascii_upper_def ord_def)

lemma lower_char_white [simp]: "is_ascii_whitespace (lower_char c) = is_ascii_whitespace c"
  by (auto simp: is_ascii_whitespace_def lower_char_def is_ascii_upper_def)

lemma after_closing_quote:
  "normalize_chars False p n cs = Inr (n @ w, q') \<Longrightarrow> n \<noteq> [] \<Longrightarrow> last n = CHR 0x22 \<Longrightarrow>
     p \<or> \<not> starts_with [CHR 0x22] cs \<Longrightarrow> \<not> starts_with [CHR 0x22] w"
proof (induction cs arbitrary: p)
  case (Cons c cs)
  consider "c = CHR 0x22" | "c \<noteq> CHR 0x22" "is_ascii_whitespace c" | "c \<noteq> CHR 0x22" "\<not> is_ascii_whitespace c" by blast
  then show ?case
  proof cases
    case 1
    then have "quote_gap p n = '' ''" using Cons.prems by (simp add: quote_gap_def ends_in_def starts_with_quote)
    then show ?thesis
      using 1 Cons.prems(1) normalize_chars_prefix [of True False "n @ '' '' @ [CHR 0x22]" cs "n @ w" q']
      by (auto simp: Let_def starts_with_quote)
  next
    case 2
    then show ?thesis using Cons by (auto split: if_splits)
  next
    case 3
    then have "normalize_chars False False (n @ char_gap p n c @ [lower_char c]) cs = Inr (n @ w, q')"
      using Cons.prems(1) by (simp split: if_splits)
    from normalize_chars_prefix [OF this] show ?thesis
      using 3 by (auto simp: starts_with_quote char_gap_def lower_char_punctuation split: if_splits)
  qed
qed (simp add: starts_with_quote)

lemma white_space_char: "is_ascii_whitespace CHR '' ''"
  by (simp add: is_ascii_whitespace_def ord_def)

text \<open>Reading the text that was written from here on writes it again.\<close>

lemma normalize_chars_rerun:
  "normalize_chars q p n cs = Inr (n @ w, q') \<Longrightarrow> q \<longrightarrow> \<not> p \<Longrightarrow> normalize_chars q False n w = Inr (n @ w, q')"
proof (induction q p n cs arbitrary: w rule: normalize_chars.induct)
  case (2 q p n c cs)
  consider (double) "c = CHR 0x22" "q" "starts_with [CHR 0x22] cs" | (finishing) "c = CHR 0x22" "q" "\<not> starts_with [CHR 0x22] cs"
    | (starting) "c = CHR 0x22" "\<not> q" | (verbatim) "c \<noteq> CHR 0x22" "q"
    | (space) "c \<noteq> CHR 0x22" "\<not> q" "is_ascii_whitespace c" | (other) "c \<noteq> CHR 0x22" "\<not> q" "\<not> is_ascii_whitespace c"
    by blast
  then show ?case
  proof cases
    case double
    let ?n = "n @ [CHR 0x22, CHR 0x22]"
    have run: "normalize_chars True False ?n (tl cs) = Inr (n @ w, q')"
      using 2(6,7) double by (simp add: quote_gap_def)
    then obtain u where u: "w = CHR 0x22 # CHR 0x22 # u" using normalize_chars_prefix [OF run] by auto
    have "normalize_chars True False ?n u = Inr (n @ w, q')"
      using 2(1) [OF double(1) refl _ , of u] run double u 2(7) by (simp add: quote_gap_def)
    then show ?thesis using double u by (simp add: quote_gap_def starts_with_quote)
  next
    case finishing
    let ?n = "n @ [CHR 0x22]"
    have run: "normalize_chars False False ?n cs = Inr (n @ w, q')"
      using 2(6,7) finishing by (simp add: quote_gap_def)
    then obtain u where u: "w = CHR 0x22 # u" using normalize_chars_prefix [OF run] by auto
    have "normalize_chars False False ?n u = Inr (n @ w, q')"
      using 2(2) [OF finishing(1) refl _ , of u] run finishing u 2(7) by (simp add: quote_gap_def)
    moreover have "\<not> starts_with [CHR 0x22] u"
      using after_closing_quote [of False ?n cs u q'] run finishing u by simp
    ultimately show ?thesis using finishing u by (simp add: quote_gap_def)
  next
    case starting
    let ?n = "n @ quote_gap p n @ [CHR 0x22]"
    have run: "normalize_chars True False ?n cs = Inr (n @ w, q')" using 2(6) starting by simp
    then obtain u where u: "w = quote_gap p n @ CHR 0x22 # u" using normalize_chars_prefix [OF run] by auto
    have "normalize_chars True False ?n u = Inr (n @ w, q')"
      using 2(2) [OF starting(1) refl _ , of u] run starting u by simp
    then show ?thesis
      using starting u white_space_char by (cases "quote_gap p n = []") (auto simp: quote_gap_def split: if_splits)
  next
    case verbatim
    have run: "normalize_chars q p (n @ [c]) cs = Inr (n @ w, q')" using 2(6) verbatim by simp
    then obtain u where u: "w = c # u" using normalize_chars_prefix [OF run] by auto
    show ?thesis using 2(3) [OF verbatim, of u] run u verbatim 2(7) by simp
  next
    case space
    then show ?thesis using 2(4) [of w] 2(6) by (auto split: if_splits)
  next
    case other
    let ?n = "n @ char_gap p n c @ [lower_char c]"
    have semi: "c \<noteq> CHR '';''" and run: "normalize_chars False False ?n cs = Inr (n @ w, q')"
      using 2(6) other by (auto split: if_splits)
    then obtain u where u: "w = char_gap p n c @ lower_char c # u" using normalize_chars_prefix [OF run] by auto
    have "normalize_chars False False ?n u = Inr (n @ w, q')"
      using 2(5) [OF other(1,2) semi other(3), of u] run other u by simp
    then show ?thesis
      using other semi u white_space_char lower_char_punctuation [of c]
      by (cases "char_gap p n c = []") (auto simp: char_gap_def split: if_splits)
  qed
qed simp

lemma normalize_chars_idem:
  "normalize_chars False False [] s = Inr (n, q) \<Longrightarrow> normalize_chars False False [] n = Inr (n, q)"
  using normalize_chars_rerun [of False False "[]" s n q] by simp

section \<open>The labels of an enumeration\<close>

fun escape_label :: "string \<Rightarrow> string" where
  "escape_label [] = []"
| "escape_label (c # cs) =
     (if c = CHR 0x27 then [CHR 0x27, CHR 0x27] else if c = CHR 0x5C then [CHR 0x5C, CHR 0x5C] else [c])
     @ escape_label cs"

definition quoted_label :: "string \<Rightarrow> string" where
  "quoted_label label = CHR 0x27 # escape_label label @ [CHR 0x27]"

definition enum_declaration :: "string list \<Rightarrow> string" where
  "enum_declaration labels = ''enum('' @ join_with '','' (map quoted_label labels) @ '')''"

lemma label_chars_escaped:
  "\<not> starts_with [CHR 0x27] rest \<Longrightarrow>
     label_chars acc (escape_label l @ CHR 0x27 # rest) = Ok (True, acc @ l, rest)"
proof (induction l arbitrary: acc)
  case Nil
  then show ?case by (cases rest) (auto simp: starts_with_quote)
next
  case (Cons c cs)
  consider "c = CHR 0x27" | "c = CHR 0x5C" | "c \<noteq> CHR 0x27" "c \<noteq> CHR 0x5C" by blast
  then show ?case using Cons by cases simp_all
qed

lemma strip_leading_none:
  "list_all (\<lambda>w. w = [] \<or> \<not> starts_with w s) ws \<Longrightarrow> strip_leading ws s = s"
  by (subst strip_leading.simps) (auto split: option.splits simp: find_Some_iff list_all_length)

lemma strip_leading_quote [simp]: "strip_leading white_space (CHR 0x27 # s) = CHR 0x27 # s"
  by (rule strip_leading_none) (simp add: white_space_def starts_with_iff)

lemma strip_leading_comma [simp]: "strip_leading white_space (CHR '','' # s) = CHR '','' # s"
  by (rule strip_leading_none) (simp add: white_space_def starts_with_iff)

definition label_ok :: "string \<Rightarrow> bool" where
  "label_ok l \<longleftrightarrow> l \<noteq> [] \<and> NUL \<notin> set l"

lemma enum_loop_labels:
  "labels \<noteq> [] \<Longrightarrow> \<forall>l \<in> set labels. label_ok l \<Longrightarrow> distinct (ms @ labels) \<Longrightarrow>
     enum_loop ms (join_with '','' (map quoted_label labels)) = Ok (ms @ labels)"
proof (induction labels arbitrary: ms)
  case (Cons l ls)
  show ?case
  proof (cases ls)
    case Nil
    then show ?thesis
      using Cons.prems label_chars_escaped [of "[]" "[]" l]
      by (subst enum_loop.simps) (simp add: quoted_label_def label_ok_def starts_with_quote)
  next
    case (Cons l' ls')
    let ?rest = "CHR '','' # join_with '','' (map quoted_label ls)"
    have "enum_loop (ms @ [l]) (join_with '','' (map quoted_label ls)) = Ok ((ms @ [l]) @ ls)"
      using Cons.prems Cons.IH [of "ms @ [l]"] Cons by simp
    moreover have "join_with '','' (map quoted_label (l # ls)) = CHR 0x27 # escape_label l @ CHR 0x27 # ?rest"
      using Cons by (simp add: quoted_label_def)
    ultimately show ?thesis
      using Cons.prems label_chars_escaped [of ?rest "[]" l]
      by (subst enum_loop.simps) (simp add: label_ok_def starts_with_quote)
  qed
qed simp

lemma enum_members_declaration:
  assumes "labels \<noteq> []" and "\<forall>l \<in> set labels. label_ok l" and "distinct labels"
  shows "enum_members (enum_declaration labels) v = Ok labels"
proof -
  let ?body = "join_with '','' (map quoted_label labels)"
  have "split_once (CHR ''('') (enum_declaration labels) = Some (''enum'', ?body @ '')'')"
    by (simp add: split_once_Some_iff enum_declaration_def)
  moreover have "rsplit_once (CHR '')'') (?body @ '')'') = Some (?body, [])"
    by (simp add: rsplit_once_Some_iff)
  ultimately show ?thesis
    using assms enum_loop_labels [of labels "[]"] by (simp add: enum_members_def)
qed

lemma enum_loop_sound:
  "enum_loop ms s = Inr labels \<Longrightarrow> distinct ms \<Longrightarrow> \<forall>l \<in> set ms. label_ok l \<Longrightarrow>
     distinct labels \<and> (\<forall>l \<in> set labels. label_ok l)"
proof (induction ms s rule: enum_loop.induct)
  case (1 ms s)
  note step = 1(2) [unfolded enum_loop.simps [of ms s]]
  show ?case
  proof (cases "strip_leading white_space s")
    case Nil
    then show ?thesis using step 1(3,4) by simp
  next
    case (Cons c cs)
    then have c: "c = CHR 0x27" using step by (simp split: if_splits)
    obtain member rest where member: "label_chars [] cs = Inr (True, member, rest)" "label_ok member" "member \<notin> set ms"
      and tail: "(case strip_leading white_space rest of [] \<Rightarrow> Ok (ms @ [member])
        | d # more_labels \<Rightarrow> if d = CHR '','' then enum_loop (ms @ [member]) more_labels
            else Err ''PostgreSQL ENUM labels must be comma separated'') = Inr labels"
      using step Cons c by (auto simp: ok_iff label_ok_def split: if_splits)
    show ?thesis
    proof (cases "strip_leading white_space rest")
      case Nil
      then show ?thesis using tail member 1(3,4) by auto
    next
      case (Cons d ds)
      then have "d = CHR '',''" "enum_loop (ms @ [member]) ds = Inr labels" using tail by (auto split: if_splits)
      moreover have "distinct (ms @ [member])" "\<forall>l \<in> set (ms @ [member]). label_ok l"
        using member 1(3,4) by auto
      moreover have "\<not> (\<not> True \<or> member = [] \<or> NUL \<in> set member)" "\<not> c \<noteq> CHR 0x27"
        using member(2) c by (simp_all add: label_ok_def)
      ultimately show ?thesis
        using 1(1) [OF \<open>strip_leading white_space s = c # cs\<close> _ member(1) refl refl _ member(3) Cons] by blast
    qed
  qed
qed

lemma enum_members_sound:
  assumes "enum_members t v = Ok labels"
  shows "labels \<noteq> [] \<and> distinct labels \<and> (\<forall>l \<in> set labels. label_ok l)"
  using assms enum_loop_sound [of "[]"]
  by (fastforce simp: enum_members_def ok_iff split: option.splits if_splits)

section \<open>Catalogs with a cycle\<close>

text \<open>The definitions that the mapping of a definition goes on with: a multirange is mapped through the
  subtype of its range.\<close>

definition mapped_through :: "SourceTypeDefinition list \<Rightarrow> SourceTypeDefinition \<Rightarrow> u32 list" where
  "mapped_through ds d =
     (case td_kind d of
        TK_MultiRange range_oid \<Rightarrow>
          (case definition_at ds range_oid of
             Some rng \<Rightarrow> type_definition_dependencies rng
           | None \<Rightarrow> [])
      | _ \<Rightarrow> type_definition_dependencies d)"

definition mapping_dependency :: "SourceTypeDefinition list \<Rightarrow> (u32 \<times> u32) set" where
  "mapping_dependency ds = {(a, b). \<exists>d. definition_at ds a = Some d \<and> b \<in> set (mapped_through ds d)}"

lemma try_fold_each:
  "try_fold f s xs = Inr t \<Longrightarrow> x \<in> set xs \<Longrightarrow> \<exists>s1 s2. f s1 x = Inr s2"
  by (induction xs arbitrary: s) (auto simp: ok_iff)

lemma mapped_children:
  assumes ok: "logical_type_from_definition C J catalog v stack d = Ok t"
    and child: "b \<in> set (mapped_through (tc_types catalog) d)"
  shows "\<exists>bd t'. definition_at (tc_types catalog) b = Some bd \<and>
    logical_type_from_definition C J catalog v (td_oid d # stack) bd = Ok t'"
proof -
  note step = ok [unfolded logical_type_from_definition.simps [of C J catalog v stack d]]
  note unfold = ok_iff definition_by_oid_def mapped_through_def type_definition_dependencies_def
  show ?thesis
  proof (cases "td_kind d")
    case (TK_Composite flds)
    from child TK_Composite obtain f where f: "f \<in> set flds" "b = tf_type_oid f"
      by (auto simp: unfold)
    show ?thesis
      using step TK_Composite f(2)
      by (auto simp: unfold split: if_splits dest!: try_fold_each [OF _ f(1)])
  next
    case (TK_MultiRange range_oid)
    then show ?thesis
      using step child
      by (auto simp: unfold split: if_splits SourceTypeDefinitionKind.splits option.splits)
  qed (use step child in \<open>auto simp: unfold split: if_splits\<close>)
qed

lemma mapped_not_on_stack:
  "logical_type_from_definition C J catalog v stack d = Ok t \<Longrightarrow> td_oid d \<notin> set stack"
  by (subst (asm) logical_type_from_definition.simps) (simp split: if_splits)

lemma mapped_acyclic:
  "logical_type_from_definition C J catalog v stack d = Ok t \<Longrightarrow>
   definition_at (tc_types catalog) (td_oid d) = Some d \<Longrightarrow>
   (td_oid d, x) \<in> (mapping_dependency (tc_types catalog))\<^sup>* \<Longrightarrow>
   x \<notin> set stack \<and> (x, x) \<notin> (mapping_dependency (tc_types catalog))\<^sup>+"
proof (induction "unseen_with (tc_types catalog) d stack" arbitrary: d stack t x rule: less_induct)
  case less
  let ?ds = "tc_types catalog" and ?r = "mapping_dependency (tc_types catalog)"
  have fresh: "td_oid d \<notin> set stack" using less.prems(1) by (rule mapped_not_on_stack)
  have below: "y \<notin> set (td_oid d # stack) \<and> (y, y) \<notin> ?r\<^sup>+"
    if "(td_oid d, b) \<in> ?r" and "(b, y) \<in> ?r\<^sup>*" for b y
  proof -
    have "b \<in> set (mapped_through ?ds d)"
      using that(1) less.prems(2) by (auto simp: mapping_dependency_def)
    then obtain bd t' where bd: "definition_at ?ds b = Some bd"
      and ok: "logical_type_from_definition C J catalog v (td_oid d # stack) bd = Ok t'"
      using mapped_children [OF less.prems(1)] by blast
    have oid: "td_oid bd = b" using definition_at_Some [OF bd] by simp
    show ?thesis
      using less.hyps [OF unseen_with_push [OF bd fresh] ok] bd oid that(2) by simp
  qed
  show ?case
  proof (cases "x = td_oid d")
    case True
    have "(td_oid d, td_oid d) \<notin> ?r\<^sup>+"
    proof
      assume "(td_oid d, td_oid d) \<in> ?r\<^sup>+"
      then obtain b where "(td_oid d, b) \<in> ?r" "(b, td_oid d) \<in> ?r\<^sup>*" by (meson tranclD)
      then show False using below by auto
    qed
    with True fresh show ?thesis by simp
  next
    case False
    then obtain b where "(td_oid d, b) \<in> ?r" "(b, x) \<in> ?r\<^sup>*"
      using less.prems(3) by (metis converse_rtranclE)
    then show ?thesis using below by auto
  qed
qed

section \<open>Evidence\<close>

lemma with_catalog_Ok:
  assumes "source_type_mapping_with_catalog_for_version C J v declaration catalog = Ok m"
  shows "v \<in> {''15'', ''16'', ''17''}"
    and "lt_validate (sm_logical_type m) = Ok ()"
    and "source_representation_evidence C J (trim declaration) (sm_logical_type m) catalog v
           = Ok (sm_source_representation_evidence m)"
    and "normalize declaration v = Ok (sm_native_type m)"
    and "logical_type_with_catalog C (types_json J) (sm_native_type m) catalog v = Ok (sm_logical_type m)"
  using assms
  by (auto simp: source_type_mapping_with_catalog_for_version_def ensure_supported_version_def ok_iff)

lemma only_match:
  "(case xs of [] \<Rightarrow> Err e | x # ys \<Rightarrow> if ys \<noteq> [] \<and> c then Err e' else Ok x) = Ok d \<Longrightarrow> d \<in> set xs"
  by (cases xs) (auto split: if_splits)

lemma find_definition_member: "find_definition t catalog v = Ok d \<Longrightarrow> d \<in> set (tc_types catalog)"
  unfolding find_definition_def ok_iff by (auto simp del: filter.simps dest!: only_match)

lemma definition_digest_Ok:
  "definition_digest C J d v = Ok digest \<longleftrightarrow>
     digest = expected_definition_digest C J d \<and> td_definition_digest d = digest \<and> \<not> blank digest"
  by (auto simp: definition_digest_def)

text \<open>What the metadata of a representation-only type binds.\<close>

definition binds_definition ::
  "codec \<Rightarrow> mapping_json \<Rightarrow> SourceTypeCatalog \<Rightarrow> SourceRepresentationTypeEvidence \<Rightarrow> SourceTypeDefinition
     \<Rightarrow> SourceTypeDefinitionClosure \<Rightarrow> bool" where
  "binds_definition C J catalog e d closure \<longleftrightarrow>
     d \<in> set (tc_types catalog)
     \<and> td_definition_digest d = expected_definition_digest C (types_json J) d
     \<and> definition_closure catalog (td_oid d) = Ok closure
     \<and> bt_get (re_type_metadata e) ''column_oid'' = Some (show_nat (unat (td_oid d)))
     \<and> bt_get (re_type_metadata e) ''type_definition_digest'' = Some (''sha256:'' @ td_definition_digest d)
     \<and> bt_get (re_type_metadata e) ''type_definition_closure_digest''
         = Some (''sha256:'' @ closure_digest C (types_json J) closure)
     \<and> bt_get (re_type_metadata e) ''source_catalog_digest''
         = Some (catalog_evidence_digest C (types_json J) catalog)"

lemma representation_metadata_get:
  "bt_get (representation_metadata C J t d closure cd) ''column_oid'' = Some (show_nat (unat (td_oid d)))"
  "bt_get (representation_metadata C J t d closure cd) ''type_definition_digest''
     = Some (''sha256:'' @ td_definition_digest d)"
  "bt_get (representation_metadata C J t d closure cd) ''type_definition_closure_digest''
     = Some (''sha256:'' @ closure_digest C (types_json J) closure)"
  "bt_get (representation_metadata C J t d closure cd) ''source_catalog_digest'' = Some cd"
  by (simp_all add: representation_metadata_def bt_get_from)

lemma representation_evidence_cases:
  assumes "source_representation_evidence C J native t catalog v = Ok r"
  shows "case r of None \<Rightarrow> \<not> is_raw t | Some e \<Rightarrow> is_raw t \<and> (\<exists>d closure. binds_definition C J catalog e d closure)"
proof (cases t)
  case (LT_Raw codec_identity native_type digest encoding)
  obtain d closure where d: "find_definition native_type catalog v = Ok d"
    "definition_digest C (types_json J) d v = Ok (expected_definition_digest C (types_json J) d)"
    "definition_closure catalog (td_oid d) = Ok closure"
    and r: "r = Some \<lparr>re_source_type_identity =
                      ''postgresql.pg_type.v1:'' @ show_nat (unat (td_oid d)) @ '':'' @ full_name d,
                    re_protocol = ''pgoutput.v1'',
                    re_format = Repr_Text,
                    re_type_metadata = representation_metadata C J native d closure
                      (catalog_evidence_digest C (types_json J) catalog),
                    re_allowed_context_metadata_keys =
                      {''relation_oid'', ''relation_schema'', ''relation_name'', ''column_name'',
                       ''type_modifier'', ''environment.lc_monetary''}\<rparr>"
    using assms LT_Raw by (auto simp: source_representation_evidence_def ok_iff definition_digest_Ok split: if_splits)
  then have "binds_definition C J catalog (the r) d closure"
    by (simp add: binds_definition_def representation_metadata_get find_definition_member definition_digest_Ok)
  with r LT_Raw show ?thesis by (auto simp: is_raw_def)
qed (use assms in \<open>auto simp: source_representation_evidence_def is_raw_def\<close>)

lemma bound_closure_valid:
  assumes "binds_definition C J catalog e d closure" and "well_catalogued C (types_json J) catalog"
  shows "validate_type_definition_closure C (types_json J) closure (td_oid d)"
  using assms built_closure_valid by (auto simp: binds_definition_def)

end
