(* ===== verification/Pg_Types_Spec.thy ===== *)
theory Pg_Types_Spec
  imports Pg_Types Civil_Date Type_Mapping_Spec
begin

text \<open>
  What the value decoders guarantee: the date arithmetic is that of the calendar, and what they return
  for the scalar types passes the validation of the change event model.
\<close>

section \<open>Dates\<close>

lemma era_div: "(if 0 \<le> (y :: int) then y div 400 else - (- (y - 399) div 400)) = y div 400"
proof (cases "0 \<le> y")
  case False
  have "- (y - 399) = 400 * (- (y div 400)) + (399 - y mod 400)"
    using mult_div_mod_eq [of 400 y] by linarith
  then have "- (y - 399) div 400 = - (y div 400)"
    by (intro int_div_pos_eq [of _ _ _ "399 - y mod 400"]) (simp_all add: pos_mod_bound less_imp_le)
  with False show ?thesis by simp
qed simp

lemma days_from_civil_number: "days_from_civil y m d = day_number y (uint m) (uint d)"
proof -
  let ?Y = "march_year y (uint m)"
  have Y: "y - (if m \<le> 2 then 1 else 0) = ?Y" and M: "uint m + (if 2 < m then -3 else 9) = march_month (uint m)"
    by (auto simp: march_year_def march_month_def word_le_def word_less_def)
  have yoe: "?Y - ?Y div 400 * 400 = ?Y mod 400" by (simp add: minus_div_mult_eq_mod)
  show ?thesis
    unfolding days_from_civil_def Let_def Y M era_div yoe day_number_def month_start_def era_days [of ?Y, symmetric]
    by simp
qed

lemma postgres_month_days:
  "(if month \<in> {1, 3, 5, 7, 8, 10, 12} then 31 else if month \<in> {4, 6, 9, 11} then 30
    else if month = 2 \<and> leap_year y then 29 else if month = 2 then 28 else 0) = days_in_month y month"
  by (simp add: days_in_month_def)

lemma validate_postgres_date_Ok:
  "validate_postgres_date y m d = Ok () \<longleftrightarrow>
     -4712 \<le> y \<and> y \<le> 5874897 \<and> date y m d = Ok ()"
  unfolding validate_postgres_date_def Let_def leap_year_def [symmetric] postgres_month_days
  by (auto simp: date_def ok_iff word_gt_0)

lemma date_valid: "date y m d = Ok () \<Longrightarrow> valid_date y (uint m) (uint d)"
proof -
  assume "date y m d = Ok ()"
  then have d: "0 < d" "d \<le> days_in_month y m" by (auto simp: date_def ok_iff)
  then have "days_in_month y m \<noteq> 0" by (auto simp: word_gt_0)
  then have "m \<in> {1, 2, 3, 4, 5, 6, 7, 8, 9, 10, 11, 12}" by (auto simp: days_in_month_def split: if_splits)
  then have "1 \<le> uint m \<and> uint m \<le> 12" by auto
  with d show ?thesis
    by (simp add: valid_date_def word_less_def word_le_def)
qed

lemma postgres_date_Ok: "postgres_date t = Inr (y, m, d) \<Longrightarrow> date y m d = Ok ()"
  by (auto simp: postgres_date_def Let_def ok_iff validate_postgres_date_Ok split: if_splits prod.splits)

lemma postgres_date_with_era_Ok: "postgres_date_with_era t bc = Inr (y, m, d) \<Longrightarrow> date y m d = Ok ()"
  by (auto simp: postgres_date_with_era_def dest: postgres_date_Ok split: if_splits)

section \<open>Times\<close>

lemma unsigned_digits_id: "list_all is_ascii_digit s \<Longrightarrow> unsigned_digits s = s"
  by (cases s) (auto simp: unsigned_digits_def is_ascii_digit_def ord_def)

lemma microseconds_bound: "microseconds_of f = Inr n \<Longrightarrow> n < 1000000"
proof (cases f)
  case (Some v)
  assume "microseconds_of f = Inr n"
  then have v: "length v \<le> 6" "list_all is_ascii_digit v"
    and n: "parse_unsigned 32 (v @ replicate (6 - length v) CHR ''0'') = Some n"
    using Some by (auto simp: microseconds_of_def ok_iff split: if_splits)
  let ?s = "v @ replicate (6 - length v) CHR ''0''"
  have digits: "list_all is_ascii_digit ?s" using v by (auto simp: list_all_iff is_ascii_digit_def ord_def)
  moreover have "length ?s = 6" using v(1) by simp
  ultimately have "radix_value 10 ?s < 1000000" using radix_value_bound [OF digits] by simp
  then show ?thesis using n unsigned_digits_id [OF digits] by (auto simp: parse_unsigned_def Let_def split: if_splits)
qed (simp add: microseconds_of_def)

lemma clock_time_valid:
  "clock_time t = Inr (h, mi, s, us) \<Longrightarrow> vtime h mi s us \<and> us < 1000000"
proof -
  assume ok: "clock_time t = Inr (h, mi, s, us)"
  obtain f n where f: "microseconds_of f = Inr n" and us: "us = of_nat n"
    and ranges: "h \<le> 24" "mi < 60" "s < 60" "h = 24 \<longrightarrow> mi = 0 \<and> s = 0 \<and> n = 0"
    using ok by (auto simp: clock_time_def Let_def ok_iff not_le not_less split: if_splits prod.splits option.splits)
  have "n < 1000000" using f by (rule microseconds_bound)
  then have "us < 1000000" by (simp add: us word_less_nat_alt unat_of_nat)
  moreover have "h < 24 \<or> h = 24" using ranges(1) by (simp add: order_le_less)
  ultimately show ?thesis using ranges us by (auto simp: vtime_def)
qed

lemma offset_seconds_range: "postgres_offset_seconds t = Inr n \<Longrightarrow> -57599 \<le> n \<and> n \<le> 57599"
  by (auto simp: postgres_offset_seconds_def ok_iff split: if_splits list.splits)

lemma checked_Ok: "checked w e n = Inr k \<longleftrightarrow> k = n \<and> - (2 ^ (w - 1)) \<le> n \<and> n < 2 ^ (w - 1)"
  by (auto simp: checked_def)

lemma digits_show_nat: "list_all is_ascii_digit (show_nat n)"
  by (rule show_nat_digits)

lemma integer_show_int:
  assumes "- (2 ^ 63) \<le> n" "n < 2 ^ 63" shows "integer (show_int n) True 64 = Ok ()"
proof -
  have "parse_signed 128 (show_int n) = Some n" using assms by (auto simp: parse_signed_show_int)
  moreover have "integer_digits (show_int n) True \<noteq> [] \<and> list_all is_ascii_digit (integer_digits (show_int n) True)"
  proof (cases "n < 0")
    case True
    then show ?thesis by (simp add: integer_digits_def show_int_def digits_show_nat)
  next
    case False
    obtain c cs where c: "show_nat (nat n) = c # cs" by (meson neq_Nil_conv show_nat_nonempty)
    then have "is_ascii_digit c" using digits_show_nat [of "nat n"] by simp
    then have "c \<noteq> CHR ''-''" by (auto simp: is_ascii_digit_def ord_def)
    then show ?thesis using False c digits_show_nat [of "nat n"] by (simp add: integer_digits_def show_int_def)
  qed
  ultimately show ?thesis using assms by (simp add: integer_def Let_def)
qed

text \<open>The seconds of an instant are those of its civil date, time of day and offset; no step overflows.\<close>

lemma day_number_bounds:
  assumes "valid_date y m d" "-4712 \<le> y" "y \<le> 294276"
  shows "-2000000000 \<le> day_number y m d \<and> day_number y m d \<le> 2000000000"
proof -
  have "-4713 \<le> march_year y m" "march_year y m \<le> 294276" using assms by (auto simp: march_year_def)
  moreover have "0 \<le> month_start (march_month m) + d - 1" "month_start (march_month m) + d - 1 \<le> 365"
    using march_date [OF assms(1)] by auto
  moreover have "365 * Y + Y div 4 - Y div 100 + Y div 400 \<le> 200000000 \<and> -20000000 \<le> 365 * Y + Y div 4 - Y div 100 + Y div 400"
    if "-4713 \<le> Y" "Y \<le> 294276" for Y :: int
  proof -
    have "Y div 4 \<le> 73569" "-1179 \<le> Y div 4" "Y div 100 \<le> 2942" "-48 \<le> Y div 100" "Y div 400 \<le> 735" "-12 \<le> Y div 400"
      using zdiv_mono1 [OF that(2), of 4] zdiv_mono1 [OF that(1), of 4] zdiv_mono1 [OF that(2), of 100]
        zdiv_mono1 [OF that(1), of 100] zdiv_mono1 [OF that(2), of 400] zdiv_mono1 [OF that(1), of 400]
      by simp_all
    with that show ?thesis by linarith
  qed
  ultimately show ?thesis by (force simp: day_number_def year_start_def)
qed

lemma checked_64: "\<bar>n\<bar> \<le> 2 ^ 62 \<Longrightarrow> checked 64 e n = Ok n"
  by (auto simp: checked_def)

lemma clock_ranges:
  "clock_time t = Inr (h, mi, s, us) \<Longrightarrow> uint h \<le> 24 \<and> uint mi \<le> 59 \<and> uint s \<le> 59 \<and> uint us < 1000000"
  using clock_time_valid [of t h mi s us]
  by (auto simp: vtime_def word_less_def)

definition instant_seconds :: "int \<Rightarrow> u8 \<Rightarrow> u8 \<Rightarrow> u8 \<Rightarrow> u8 \<Rightarrow> u8 \<Rightarrow> int \<Rightarrow> int" where
  "instant_seconds y mo d h mi s offset =
     day_number y (uint mo) (uint d) * 86400 + uint h * 3600 + uint mi * 60 + uint s - offset"

lemma second_bounds:
  fixes D h m s z :: int
  assumes "-2000000000 \<le> D" "D \<le> 2000000000" "0 \<le> h" "h \<le> 24" "0 \<le> m" "m \<le> 59" "0 \<le> s" "s \<le> 59"
    "-57599 \<le> z" "z \<le> 57599"
  shows "\<bar>D * 86400\<bar> \<le> 2 ^ 62" "\<bar>D * 86400 + h * 3600\<bar> \<le> 2 ^ 62" "\<bar>D * 86400 + h * 3600 + m * 60\<bar> \<le> 2 ^ 62"
    "\<bar>D * 86400 + h * 3600 + m * 60 + s\<bar> \<le> 2 ^ 62" "\<bar>D * 86400 + h * 3600 + m * 60 + s - z\<bar> \<le> 2 ^ 62"
    "\<bar>D * 86400 + h * 3600 + m * 60 + s - z\<bar> \<le> 2 ^ 50"
  using assms by (simp_all add: abs_le_iff)

lemma instant_bounds:
  assumes "valid_date y (uint mo) (uint d)" "-4712 \<le> y" "y \<le> 294276" "uint h \<le> 24" "uint mi \<le> 59" "uint s \<le> 59"
    "-57599 \<le> offset" "offset \<le> 57599"
  shows "\<bar>instant_seconds y mo d h mi s offset\<bar> \<le> 2 ^ 50"
  using second_bounds(6) [OF _ _ uint_ge_0 assms(4) uint_ge_0 assms(5) uint_ge_0 assms(6-8)] day_number_bounds [OF assms(1-3)]
  by (simp add: instant_seconds_def)

lemma instant_steps:
  assumes "valid_date y (uint mo) (uint d)" "-4712 \<le> y" "y \<le> 294276" "uint h \<le> 24" "uint mi \<le> 59" "uint s \<le> 59"
    "-57599 \<le> offset" "offset \<le> 57599"
  shows "and_then (checked 64 e (days_from_civil y mo d * 86400)) (\<lambda>t.
      and_then (checked 64 e (t + uint h * 3600)) (\<lambda>t. and_then (checked 64 e (t + uint mi * 60)) (\<lambda>t.
      and_then (checked 64 e (t + uint s)) (\<lambda>t. checked 64 e (t - offset)))))
    = Ok (instant_seconds y mo d h mi s offset)"
proof -
  note b = day_number_bounds [OF assms(1-3)]
  note c = second_bounds [OF b [THEN conjunct1] b [THEN conjunct2] uint_ge_0 assms(4) uint_ge_0 assms(5) uint_ge_0 assms(6-8)]
  show ?thesis by (simp add: days_from_civil_number instant_seconds_def c(1-5) [THEN checked_64])
qed

text \<open>What a decoded timestamp with time zone means.\<close>

lemma postgres_instant_meaning:
  assumes "postgres_instant t = Inr (s, ns)"
  shows "\<exists>y mo d h mi sec us offset. date y mo d = Ok () \<and> vtime h mi sec us \<and> -57599 \<le> offset \<and> offset \<le> 57599
    \<and> s = instant_seconds y mo d h mi sec offset \<and> ns = us * 1000 \<and> uint ns = uint us * 1000 \<and> \<bar>s\<bar> \<le> 2 ^ 50"
proof -
  obtain dt tz time_t off_t bc y mo d h mi sec us offset where date: "postgres_date_with_era dt bc = Inr (y, mo, d)"
    and year: "-4712 \<le> y" "y \<le> 294276" and time: "clock_time time_t = Inr (h, mi, sec, us)"
    and off: "postgres_offset_seconds off_t = Inr offset"
    and steps: "and_then (checked 64 instant_range (days_from_civil y mo d * 86400)) (\<lambda>t.
      and_then (checked 64 instant_range (t + uint h * 3600)) (\<lambda>t. and_then (checked 64 instant_range (t + uint mi * 60)) (\<lambda>t.
      and_then (checked 64 instant_range (t + uint sec)) (\<lambda>t. checked 64 instant_range (t - offset))))) = Inr s"
    and ns: "ns = us * 1000"
    using assms
    by (auto simp: postgres_instant_def Let_def ok_iff validate_postgres_timestamp_year_def split: prod.splits)
  note date' = postgres_date_with_era_Ok [OF date]
  note ranges = clock_ranges [OF time] and offset = offset_seconds_range [OF off]
  have s: "s = instant_seconds y mo d h mi sec offset"
    using steps instant_steps [OF date_valid [OF date'] year, of h mi sec offset instant_range] ranges offset
    by simp
  have "uint ns = uint us * 1000" using ranges by (simp add: ns uint_word_ariths)
  moreover have "\<bar>s\<bar> \<le> 2 ^ 50"
    unfolding s using ranges offset by (intro instant_bounds date_valid date' year) auto
  ultimately show ?thesis using date' clock_time_valid [OF time] offset s ns by blast
qed

section \<open>Numbers and documents\<close>

lemma concat_parts:
  "parts \<noteq> [] \<Longrightarrow> hd parts \<noteq> [] \<Longrightarrow> list_all (list_all is_ascii_digit) parts \<Longrightarrow>
     concat parts \<noteq> [] \<and> list_all is_ascii_digit (concat parts)"
  by (cases parts) (auto simp: list_all_iff)

lemma signed_digits:
  "list_all is_ascii_digit ds \<Longrightarrow> ds \<noteq> [] \<Longrightarrow> s = ds \<or> s = CHR ''-'' # ds \<Longrightarrow>
     s \<notin> {''NaN'', ''Infinity'', ''-Infinity''} \<and> (case strip_prefix ''-'' s of Some d \<Rightarrow> d | None \<Rightarrow> s) = ds"
proof -
  assume ds: "list_all is_ascii_digit ds" "ds \<noteq> []" and s: "s = ds \<or> s = CHR ''-'' # ds"
  then obtain c cs where c: "ds = c # cs" "is_ascii_digit c" by (cases ds) auto
  then have "c \<noteq> CHR ''N''" "c \<noteq> CHR ''I''" "c \<noteq> CHR ''-''" by (auto simp: is_ascii_digit_def ord_def)
  then show ?thesis using s c by (auto split: option.splits)
qed

lemma decimal_digits:
  "list_all is_ascii_digit ds \<Longrightarrow> ds \<noteq> [] \<Longrightarrow> s = ds \<or> s = CHR ''-'' # ds \<Longrightarrow> decimal s n = Ok ()"
  using signed_digits [of ds s] by (simp add: decimal_def ok_iff Let_def)

lemma pg_decimal_cases:
  assumes "pg_decimal t = Inr (u, n)"
  shows "u \<in> {''NaN'', ''Infinity'', ''-Infinity''} \<and> n = 0 \<or>
    (\<exists>ds. ds \<noteq> [] \<and> list_all is_ascii_digit ds \<and> (u = ds \<or> u = CHR ''-'' # ds))"
proof -
  let ?lower = "to_ascii_lowercase t"
  let ?coefficient = "fst (split_exponent t)"
  let ?parts = "split_on CHR ''.'' (snd (split_sign ?coefficient))"
  consider (special) "?lower \<in> {''nan'', ''infinity'', ''inf'', ''+infinity'', ''+inf'', ''-infinity'', ''-inf''}"
    | (plain) "?lower \<notin> {''nan'', ''infinity'', ''inf'', ''+infinity'', ''+inf'', ''-infinity'', ''-inf''}" by blast
  then show ?thesis
  proof cases
    case special
    then show ?thesis using assms by (auto simp: pg_decimal_def)
  next
    case plain
    then have "hd ?parts \<noteq> []" "list_all (list_all is_ascii_digit) ?parts"
      and "u = concat ?parts \<or> u = CHR ''-'' # concat ?parts"
      using assms by (auto simp: pg_decimal_def Let_def ok_iff case_prod_beta split: if_splits)
    moreover from this have "concat ?parts \<noteq> []" "list_all is_ascii_digit (concat ?parts)"
      using concat_parts [OF split_on_nonempty] by blast+
    ultimately show ?thesis by blast
  qed
qed

lemma pg_decimal_valid: "pg_decimal t = Inr (u, n) \<Longrightarrow> decimal u n = Ok ()"
  by (drule pg_decimal_cases) (elim disjE conjE exE, simp add: decimal_def ok_iff, auto intro: decimal_digits)

lemma pg_decimal_scale: "pg_decimal t = Inr (u, n) \<Longrightarrow> - (2 ^ 31) \<le> n \<and> n < 2 ^ 31"
  by (auto simp: pg_decimal_def Let_def ok_iff checked_Ok split: if_splits prod.splits)

lemma json_number_valid: "json_number t = Inr j \<Longrightarrow> json_value j depth = Ok () \<longleftrightarrow> depth \<le> 100"
proof -
  assume "json_number t = Inr j"
  then obtain u n where d: "pg_decimal t = Inr (u, n)"
    and j: "(n < 0 \<and> j = JV_Decimal (u @ replicate (nat (- n)) CHR ''0'') 0) \<or> (0 \<le> n \<and> j = JV_Decimal u (nat n))"
    by (auto simp: json_number_def ok_iff split: if_splits)
  show ?thesis
  proof (cases "n < 0")
    case True
    then obtain ds where ds: "ds \<noteq> []" "list_all is_ascii_digit ds" "u = ds \<or> u = CHR ''-'' # ds"
      using pg_decimal_cases [OF d] by auto
    let ?z = "replicate (nat (- n)) CHR ''0''"
    have "list_all is_ascii_digit (ds @ ?z)" using ds(2) by (auto simp: list_all_iff is_ascii_digit_def ord_def)
    then have "decimal (u @ ?z) 0 = Ok ()" using ds by (intro decimal_digits [of "ds @ ?z"]) auto
    then show ?thesis using True j by (simp add: json_value.simps ok_iff)
  next
    case False
    then show ?thesis
      using j pg_decimal_valid [OF d] pg_decimal_scale [OF d] by (auto simp: json_value.simps ok_iff)
  qed
qed

text \<open>A parsed document has no two members with the same name in one object.\<close>

fun unique_members :: "JsonTree \<Rightarrow> bool" and unique_members_of :: "JsonMember \<Rightarrow> bool" where
  "unique_members (JT_Array xs) \<longleftrightarrow> (\<forall>x \<in> set xs. unique_members x)"
| "unique_members (JT_Object ms) \<longleftrightarrow> distinct (map jm_key ms) \<and> (\<forall>m \<in> set ms. unique_members_of m)"
| "unique_members v \<longleftrightarrow> True"
| "unique_members_of (JsonMember k v) \<longleftrightarrow> unique_members v"

lemma unique_members_of_value: "unique_members_of m = unique_members (jm_value m)"
  by (cases m) simp

lemma list_all2_member: "list_all2 P xs ys \<Longrightarrow> y \<in> set ys \<Longrightarrow> \<exists>x \<in> set xs. P x y"
  by (induction rule: list_all2_induct) auto

lemma list_all2_keys: "list_all2 (\<lambda>m e. k e = h m \<and> P m e) ms es \<Longrightarrow> map k es = map h ms"
  by (induction rule: list_all2_induct) auto

lemma json_object_check:
  "depth \<le> 100 \<Longrightarrow> distinct (map je_key es) \<Longrightarrow> \<forall>e \<in> set es. json_value (je_value e) (depth + 1) = Ok () \<Longrightarrow>
     json_value (JV_Object es) depth = Ok ()"
proof -
  assume *: "depth \<le> 100" "distinct (map je_key es)" "\<forall>e \<in> set es. json_value (je_value e) (depth + 1) = Ok ()"
  have "try_fold (\<lambda>keys e. and_then (ensure (je_key e \<notin> keys) ''duplicate JSON key'') (\<lambda>_.
      and_then (json_value (je_value e) (depth + 1)) (\<lambda>_. Ok (insert (je_key e) keys)))) {} es = Inr (je_key ` set es)"
    using * by (subst try_fold_insert_iff [where P = "\<lambda>e. json_value (je_value e) (depth + 1) = Ok ()" and k = je_key])
      (auto simp: ok_iff)
  then show ?thesis using *(1) by (subst json_value.simps) (simp add: ok_iff)
qed

lemma pg_json_valid:
  "pg_json v depth = Inr j \<Longrightarrow> unique_members v \<Longrightarrow> json_value j depth = Ok ()"
proof (induction v depth arbitrary: j rule: pg_json.induct)
  case (1 v depth)
  note step = 1(3) [unfolded pg_json.simps [of v depth]]
  have depth: "depth \<le> 100" "\<not> 100 < depth" using step by (auto split: if_splits)
  show ?case
  proof (cases v)
    case (JT_Array xs)
    then obtain js where j: "j = JV_Array js" and js: "list_all2 (\<lambda>x y. pg_json x (depth + 1) = Inr y) xs js"
      using step by (auto simp: ok_iff split: if_splits)
    have "json_value y (depth + 1) = Ok ()" if y: "y \<in> set js" for y
    proof -
      obtain x where "x \<in> set xs" "pg_json x (depth + 1) = Inr y"
        using list_all2_member [OF js y] by blast
      then show ?thesis using 1(1) [OF depth(2) JT_Array] 1(4) JT_Array by auto
    qed
    then show ?thesis using depth j by (subst json_value.simps) (simp add: ok_iff)
  next
    case (JT_Object ms)
    then obtain es where j: "j = JV_Object es" and members: "list_all2 (\<lambda>m e. and_then (pg_json (jm_value m) (depth + 1))
        (\<lambda>j. Ok (JsonEntry (jm_key m) j)) = Inr e) ms es"
      using step by (auto simp: ok_iff split: if_splits)
    from members have es: "list_all2 (\<lambda>m e. je_key e = jm_key m \<and> pg_json (jm_value m) (depth + 1) = Inr (je_value e)) ms es"
      by (rule list_all2_mono) (auto simp: ok_iff)
    have "json_value (je_value e) (depth + 1) = Ok ()" if e: "e \<in> set es" for e
    proof -
      obtain m where "m \<in> set ms" "pg_json (jm_value m) (depth + 1) = Inr (je_value e)"
        using list_all2_member [OF es e] by blast
      then show ?thesis using 1(2) [OF depth(2) JT_Object] 1(4) JT_Object by (auto simp: unique_members_of_value)
    qed
    moreover have "distinct (map je_key es)" using 1(4) JT_Object list_all2_keys [OF es] by simp
    ultimately show ?thesis using depth j json_object_check by blast
  next
    case (JT_Number n)
    then show ?thesis using step depth json_number_valid by auto
  qed (use step depth in \<open>auto simp: json_value.simps ok_iff\<close>)
qed

section \<open>Bit strings\<close>

text \<open>A bit of the result stands for a character of the text.\<close>

definition bits_within :: "nat \<Rightarrow> u8 list \<Rightarrow> bool" where
  "bits_within n bs \<longleftrightarrow> (\<forall>i < length bs. \<forall>j < 8. bit (bs ! i) j \<longrightarrow> 8 * i + (7 - j) < n)"

lemma set_bit_at_within:
  assumes "bits_within n bs" "i < n" shows "bits_within n (set_bit_at bs i)"
  unfolding bits_within_def
proof (intro allI impI)
  fix k j :: nat
  assume k: "k < length (set_bit_at bs i)" and j: "j < 8" and set: "bit (set_bit_at bs i ! k) j"
  have i: "8 * (i div 8) + i mod 8 = i" by simp
  show "8 * k + (7 - j) < n"
  proof (cases "k = i div 8 \<and> j = 7 - i mod 8")
    case True
    then have "8 * k + (7 - j) = i" using i by (simp add: Suc_leI less_Suc_eq_le)
    then show ?thesis using assms(2) by simp
  next
    case False
    then have "bit (bs ! k) j" using set k j
      by (cases "k = i div 8") (auto simp: set_bit_at_def bit_or_iff bit_exp_iff)
    then show ?thesis using assms(1) k j by (simp add: bits_within_def set_bit_at_def)
  qed
qed

lemma length_set_bit_at [simp]: "length (set_bit_at bs i) = length bs"
  by (simp add: set_bit_at_def)

lemma pack_bits_within: "bits_within (length s) (pack_bits s) \<and> length (pack_bits s) = (length s + 7) div 8"
proof -
  have "bits_within n (foldl (\<lambda>bs (i, b). if b = CHR ''1'' then set_bit_at bs i else bs) bs ps)
      \<and> length (foldl (\<lambda>bs (i, b). if b = CHR ''1'' then set_bit_at bs i else bs) bs ps) = length bs"
    if "bits_within n bs" "\<forall>(i, b) \<in> set ps. i < n" for n bs and ps :: "(nat \<times> char) list"
    using that by (induction ps arbitrary: bs) (auto simp: set_bit_at_within)
  from this [of "length s" "replicate ((length s + 7) div 8) 0" "enumerate 0 s"] show ?thesis
    by (simp add: pack_bits_def bits_within_def in_set_enumerate_eq case_prod_beta)
qed

lemma of_char_byte: "(of_char (char_of (unat (w :: u8))) :: u8) = w"
proof -
  have "unat w < 2 ^ LENGTH(8)" by (rule unsigned_less)
  then have "(of_char (char_of (unat w)) :: nat) = unat w" by simp
  then have "of_nat (of_char (char_of (unat w)) :: nat) = (of_nat (unat w) :: u8)" by (rule arg_cong)
  then show ?thesis by (metis of_nat_of_char of_nat_unat ucast_id)
qed

lemma unused_bits_clear:
  assumes n: "n mod 8 \<noteq> 0" and bs: "bits_within n bs" "length bs = (n + 7) div 8"
  shows "bs ! (length bs - 1) AND (push_bit (8 - n mod 8) 1 - 1) = 0"
proof (rule bit_word_eqI)
  fix j assume j: "j < LENGTH(8)"
  have n8: "n = 8 * (n div 8) + n mod 8" by simp
  have "(k + 7) div 8 = Suc q" if "k = 8 * q + r" "r \<noteq> 0" "r < 8" for k q r :: nat
    using that by (intro div_nat_eqI) auto
  then have "(n + 7) div 8 = Suc (n div 8)" using n8 n by (metis mod_less_divisor zero_less_numeral)
  then have last: "length bs - 1 = n div 8" "n div 8 < length bs" using bs(2) by simp_all
  have "\<not> bit (bs ! (n div 8)) j" if "j < 8 - n mod 8"
  proof
    assume "bit (bs ! (n div 8)) j"
    then have "8 * (n div 8) + (7 - j) < n" using bs(1) last(2) j by (simp add: bits_within_def)
    then have "7 - j < n mod 8" using n8 by linarith
    then show False using that by linarith
  qed
  moreover have "bit (push_bit (8 - n mod 8) 1 - 1 :: u8) j \<longleftrightarrow> j < 8 - n mod 8"
    using j by (simp add: bit_mask_iff mask_eq_exp_minus_1 [symmetric] push_bit_of_1)
  ultimately show "bit (bs ! (length bs - 1) AND (push_bit (8 - n mod 8) 1 - 1)) j = bit (0 :: u8) j"
    unfolding last(1) bit_and_iff by auto
qed

lemma pg_bit_string_valid:
  assumes "pg_bit_string C t = Inr v" and C: "base64_roundtrip C" and "length t < 2 ^ 64"
  shows "validate_value C v = Ok ()"
proof -
  let ?bs = "pack_bits t" and ?n = "length t"
  from assms(1) have t: "t \<noteq> []" and v: "v = LV_BitString (b64_encode C (bytes_of ?bs)) (of_nat ?n)
      (if ?n mod 8 = 0 then Pad_None else Pad_Zero) MsbFirst"
    by (auto simp: pg_bit_string_def split: if_splits)
  have n: "unat (of_nat ?n :: u64) = ?n" using assms(3) by (simp add: unat_of_nat)
  have len: "length ?bs = (?n + 7) div 8" and within: "bits_within ?n ?bs" using pack_bits_within by auto
  have pos: "(0 :: u64) < of_nat ?n" using t n by (simp add: word_less_nat_alt)
  have enc: "b64_decode C (b64_encode C (bytes_of ?bs)) = Some (bytes_of ?bs)"
    using C by (simp add: base64_roundtrip_def)
  show ?thesis
  proof (cases "?n mod 8 = 0")
    case True
    then show ?thesis
      using enc pos len n by (simp add: v validate_value_def logical_value_at_depth.simps bit_string_def ok_iff bytes_of_def)
  next
    case False
    then have last: "of_char (bytes_of ?bs ! (length (bytes_of ?bs) - 1)) = ?bs ! (length ?bs - 1)"
      using len t by (simp add: bytes_of_def of_char_byte)
    have unused: "(8 - ?n mod 8) mod 8 = 8 - ?n mod 8" using False by simp
    show ?thesis
      using False enc pos len n unused last unused_bits_clear [OF False within len]
      by (simp add: v validate_value_def logical_value_at_depth.simps bit_string_def bit_mask_unused_def Let_def ok_iff
          bytes_of_def)
  qed
qed

section \<open>Decoded values are valid\<close>

lemma hex_digits_valid: "length (hex_digits w n) = w \<and> list_all is_ascii_hexdigit (hex_digits w n)"
proof -
  have "is_ascii_hexdigit (digit_char (k mod 16))" for k
  proof -
    have "k mod 16 \<in> {0, 1, 2, 3, 4, 5, 6, 7, 8, 9, 10, 11, 12, 13, 14, 15}" by (simp, presburger)
    then show ?thesis by (auto simp: digit_char_def is_ascii_hexdigit_def is_ascii_digit_def)
  qed
  then show ?thesis by (simp add: hex_digits_def list_all_iff)
qed

lemmas valid_unfold = validate_value_def logical_value_at_depth.simps ok_iff

lemma date_value_valid: "date y m d = Ok () \<Longrightarrow> validate_value C (LV_Date y m d) = Ok ()"
  by (simp add: valid_unfold)

lemma postgres_datetime_valid:
  "postgres_datetime t = Inr (y, mo, d, h, mi, s, us) \<Longrightarrow> validate_value C (LV_LocalDatetime y mo d h mi s us) = Ok ()"
  by (auto simp: postgres_datetime_def Let_def valid_unfold split: prod.splits
      dest!: postgres_date_with_era_Ok clock_time_valid)

lemma postgres_instant_valid:
  assumes "postgres_instant t = Inr (s, ns)" shows "validate_value C (LV_Instant (show_int s) ns) = Ok ()"
proof -
  from postgres_instant_meaning [OF assms] obtain us :: u32 where "\<bar>s\<bar> \<le> 2 ^ 50" "uint ns = uint us * 1000" "us < 1000000"
    by (auto simp: vtime_def)
  moreover from this have "integer (show_int s) True 64 = Ok ()" by (intro integer_show_int) auto
  moreover have "uint us < 1000000" using calculation(3) by (simp add: word_less_def)
  ultimately show ?thesis by (simp add: valid_unfold word_less_def)
qed

lemma local_time_valid: "local_time t = Inr v \<Longrightarrow> validate_value C v = Ok ()"
  by (auto simp: local_time_def valid_unfold dest!: clock_time_valid)

lemma offset_time_valid: "offset_time t = Inr v \<Longrightarrow> validate_value C v = Ok ()"
  by (auto simp: offset_time_def valid_unfold dest!: clock_time_valid offset_seconds_range)

lemma calendar_interval_valid: "calendar_interval t = Inr v \<Longrightarrow> validate_value C v = Ok ()"
  by (auto simp: calendar_interval_def valid_unfold split: if_splits)

lemma temporal_infinity_valid: "temporal_infinity t k = Some v \<Longrightarrow> validate_value C v = Ok ()"
  by (auto simp: temporal_infinity_def valid_unfold split: if_splits)

lemma or_infinity_valid:
  "or_infinity t k r = Inr v \<Longrightarrow> (r = Inr v \<Longrightarrow> validate_value C v = Ok ()) \<Longrightarrow> validate_value C v = Ok ()"
  by (auto simp: or_infinity_def split: option.splits dest: temporal_infinity_valid)

lemma vbytes_encode: "base64_roundtrip C \<Longrightarrow> vbytes C (b64_encode C bs) = Ok ()"
  by (simp add: vbytes_def base64_roundtrip_def ok_iff)

lemma text_value_valid: "base64_roundtrip C \<Longrightarrow> validate_value C (LV_Text ''UTF8'' (b64_encode C bs) t) = Ok ()"
  by (simp add: valid_unfold vbytes_encode is_ascii_alphanumeric_def is_ascii_alphabetic_def is_ascii_upper_def
      is_ascii_lower_def is_ascii_digit_def ord_def)

lemma bytea_valid: "base64_roundtrip C \<Longrightarrow> bytea C t = Inr v \<Longrightarrow> validate_value C v = Ok ()"
  by (auto simp: bytea_def valid_unfold vbytes_encode split: if_splits)

definition documents_unique :: "text_values \<Rightarrow> bool" where
  "documents_unique T \<longleftrightarrow> (\<forall>s t. json_from_str T s = Some t \<longrightarrow> unique_members t)"

lemma decode_json_valid: "documents_unique T \<Longrightarrow> decode_json T t = Inr v \<Longrightarrow> validate_value C v = Ok ()"
  by (auto simp: decode_json_def valid_unfold documents_unique_def dest!: pg_json_valid)

lemma integer_show_nat: "n < 2 ^ 64 \<Longrightarrow> integer (show_nat n) False 64 = Ok ()"
  by (simp add: integer_def integer_digits_def digits_show_nat Let_def)

text \<open>The types whose decoder checks all that the change event model requires. The other integer types
  are read as \<^verbatim>\<open>i64\<close> without their width, and the text of a UUID and of a network is passed on.\<close>

definition checked_types :: "u32 set" where
  "checked_types = {16, 17, 18, 19, 20, 25, 114, 142, 700, 701, 1042, 1043, 1082, 1083, 1114, 1184, 1186, 1266, 1560,
     1562, 1700, 3802, 5069}"

lemma decode_for_version_valid:
  assumes C: "base64_roundtrip C" and T: "documents_unique T" and len: "length bs < 2 ^ 64"
    and oid: "oid \<in> checked_types" and ok: "decode_for_version C T version oid bs = Ok v"
  shows "validate_value C v = Ok ()"
proof -
  have oids: "oid = 16 \<or> oid = 17 \<or> oid \<in> {18, 19, 25, 1042, 1043} \<or> oid = 20 \<or> oid \<in> {114, 3802} \<or> oid = 142 \<or> oid = 700 \<or> oid = 701
      \<or> oid = 1082 \<or> oid = 1083 \<or> oid = 1114 \<or> oid = 1184 \<or> oid = 1186 \<or> oid = 1266 \<or> oid \<in> {1560, 1562} \<or> oid = 1700 \<or> oid = 5069"
    using oid by (auto simp: checked_types_def)
  have utf8: "from_utf8 bs = Ok bs" using ok by (auto simp: decode_for_version_def from_utf8_def split: if_splits)
  note step = ok [unfolded decode_for_version_def utf8 and_then_simps]
  show ?thesis
    using oids
  proof (elim disjE)
    assume "oid = 16" then show ?thesis using step by (auto simp: valid_unfold split: if_splits)
  next
    assume "oid = 17" then show ?thesis using step bytea_valid [OF C] by auto
  next
    assume "oid \<in> {18, 19, 25, 1042, 1043}" then show ?thesis using step text_value_valid [OF C] by auto
  next
    assume "oid = 20"
    then obtain n where "parse_signed 64 bs = Some n" "v = LV_Integer True 64 (show_int n)" using step by (auto simp: ok_iff)
    then show ?thesis using integer_show_int [of n]
      by (auto simp: valid_unfold parse_signed_def Let_def split: if_splits)
  next
    assume "oid \<in> {114, 3802}" then show ?thesis using step decode_json_valid [OF T] by auto
  next
    assume "oid = 142" then show ?thesis using step C by (auto simp: valid_unfold vbytes_encode)
  next
    assume "oid = 700" then show ?thesis using step hex_digits_valid by (auto simp: valid_unfold vfloat_def)
  next
    assume "oid = 701" then show ?thesis using step hex_digits_valid by (auto simp: valid_unfold vfloat_def)
  next
    assume "oid = 1082" then show ?thesis using step
      by (auto simp: ok_iff intro!: date_value_valid postgres_date_Ok elim!: or_infinity_valid)
  next
    assume "oid = 1083" then show ?thesis using step local_time_valid by auto
  next
    assume "oid = 1114" then show ?thesis using step
      by (auto simp: ok_iff intro: postgres_datetime_valid elim!: or_infinity_valid)
  next
    assume "oid = 1184" then show ?thesis using step
      by (auto simp: ok_iff intro: postgres_instant_valid elim!: or_infinity_valid)
  next
    assume "oid = 1186" then show ?thesis using step
      by (auto intro: calendar_interval_valid temporal_infinity_valid split: if_splits)
  next
    assume "oid = 1266" then show ?thesis using step offset_time_valid by auto
  next
    assume "oid \<in> {1560, 1562}" then show ?thesis using step pg_bit_string_valid [OF _ C len] by auto
  next
    assume "oid = 1700" then show ?thesis using step by (auto simp: valid_unfold dest: pg_decimal_valid)
  next
    assume "oid = 5069" then show ?thesis using step
      by (auto simp: valid_unfold intro!: integer_show_nat dest: parse_unsigned_bound)
  qed
qed

section \<open>Geometries without a reference system\<close>

text \<open>PostGIS leaves the identifier of the reference system out when it is 0. The decoder accepts such a
  geometry, as EWKB without an identifier, and the change event model refuses it.\<close>

lemma ewkb_without_srid_refused:
  assumes C: "base64_roundtrip C"
    and ok: "decode_postgis_ewkb C bs = Inr (LV_Spatial f encoded g dims None crs)"
  shows "validate_value C (LV_Spatial f encoded g dims None crs) \<noteq> Ok ()"
proof
  let ?raw = "hex_pairs bs"
  obtain little w where little: "(if ord (hd ?raw) = 0 then Ok False else if ord (hd ?raw) = 1 then Ok True
                  else bad ''EWKB has an invalid byte-order marker'') = Ok little"
    and w: "ewkb_word ?raw little 1 = Ok w" and no_srid: "w AND 0x20000000 = 0"
    and f: "f = Ewkb" "encoded = b64_encode C ?raw"
    using ok by (auto simp: decode_postgis_ewkb_def Let_def ok_iff split: if_splits)
  assume "validate_value C (LV_Spatial f encoded g dims None crs) = Ok ()"
  then have valid: "spatial C Ewkb (b64_encode C ?raw) g dims None crs = Ok ()"
    by (simp add: valid_unfold f)
  have dec: "b64_decode C (b64_encode C ?raw) = Some ?raw" using C by (simp add: base64_roundtrip_def)
  obtain le code where le: "(if ord (?raw ! 0) = 0 then Ok False else if ord (?raw ! 0) = 1 then Ok True
               else Err (V_Msg ''invalid spatial byte order'')) = Ok le"
    and code: "read_u32 (take 4 (drop 1 ?raw)) le = Ok code" and srid: "code AND 0x20000000 \<noteq> 0" and long: "5 \<le> length ?raw"
    using valid unfolding spatial_def by (auto simp: ok_iff Let_def dec case_prod_beta)
  have "hd ?raw = ?raw ! 0" using long by (cases ?raw) auto
  then have "le = little" using le little by (auto split: if_splits)
  then have "code = w" using code w long by (auto simp: read_u32_def ewkb_word_def Let_def split: if_splits)
  with srid no_srid show False by simp
qed

end
