(* ===== verification/Pg_Time_Text.thy ===== *)
theory Pg_Time_Text
  imports Pg_Types_Spec
begin

text \<open>
  What the readers of dates and times in \<^verbatim>\<open>crates/postgresql_15/src/types.rs\<close> make of a text whose
  fields are given: the number each field denotes, and for an instant the second that the calendar
  of \<open>Civil_Date\<close> assigns to it.
\<close>

definition digit_text :: "string \<Rightarrow> bool" where
  "digit_text s \<longleftrightarrow> s \<noteq> [] \<and> list_all is_ascii_digit s"

definition date_text :: "string \<Rightarrow> string \<Rightarrow> string \<Rightarrow> string" where
  "date_text y m d = y @ ''-'' @ m @ ''-'' @ d"

definition clock_text :: "string \<Rightarrow> string \<Rightarrow> string \<Rightarrow> string \<Rightarrow> string" where
  "clock_text h m s f = h @ '':'' @ m @ '':'' @ s @ (if f = [] then [] else CHR ''.'' # f)"

definition microseconds_value :: "string \<Rightarrow> nat" where
  "microseconds_value f = radix_value 10 f * 10 ^ (6 - length f)"

section \<open>Fields\<close>

lemma digit_char_not:
  "list_all is_ascii_digit s \<Longrightarrow> \<not> is_ascii_digit c \<Longrightarrow> c \<notin> set s"
  by (auto simp: list_all_iff)

lemma not_digit [simp]:
  "\<not> is_ascii_digit CHR ''-''" "\<not> is_ascii_digit CHR '':''" "\<not> is_ascii_digit CHR ''.''" "\<not> is_ascii_digit CHR '' ''"
  "\<not> is_ascii_digit CHR ''+''" "\<not> is_ascii_digit CHR ''C''" "\<not> is_ascii_digit CHR ''D''"
  by (simp_all add: is_ascii_digit_def ord_def)

lemma parse_unsigned_digits:
  "digit_text s \<Longrightarrow> radix_value 10 s < 2 ^ w \<Longrightarrow> parse_unsigned w s = Some (radix_value 10 s)"
  by (simp add: parse_unsigned_def digit_text_def unsigned_digits_id)

lemma parse_signed_digits:
  assumes "digit_text s" "radix_value 10 s < 2 ^ (w - 1)"
  shows "parse_signed w s = Some (int (radix_value 10 s))"
proof -
  have "\<not> (case s of [] \<Rightarrow> False | c # cs \<Rightarrow> c = CHR ''-'' \<and> cs \<noteq> [])"
    using assms(1) by (cases s) (auto simp: digit_text_def)
  moreover have "int (radix_value 10 s) < 2 ^ (w - 1)" using assms(2) by simp
  moreover have "- (2 ^ (w - 1)) \<le> (0 :: int)" by simp
  then have "- (2 ^ (w - 1)) \<le> int (radix_value 10 s)" by linarith
  ultimately show ?thesis using assms(1) by (simp add: parse_signed_def digit_text_def unsigned_digits_id)
qed

lemma parse_u8_digits: "digit_text s \<Longrightarrow> radix_value 10 s < 256 \<Longrightarrow> parse_u8 s = Ok (of_nat (radix_value 10 s))"
  by (simp add: parse_u8_def parse_unsigned_digits)

lemma split_three:
  assumes "digit_text a" "digit_text b" "c \<notin> set r" "\<not> is_ascii_digit c"
  shows "split_on c (a @ c # b @ c # r) = [a, b, r]"
  using assms by (simp add: split_on_append split_on_no_sep digit_char_not digit_text_def)

lemma radix_value_pad: "radix_value 10 (f @ replicate n CHR ''0'') = radix_value 10 f * 10 ^ n"
proof -
  have "list_all zero_char (replicate n CHR ''0'')" by (simp add: list_all_iff)
  then show ?thesis by (simp add: radix_value_append radix_value_zeros)
qed

lemma microseconds_value_bound: "list_all is_ascii_digit f \<Longrightarrow> length f \<le> 6 \<Longrightarrow> microseconds_value f < 1000000"
proof -
  assume f: "list_all is_ascii_digit f" "length f \<le> 6"
  have "radix_value 10 f * 10 ^ (6 - length f) < 10 ^ length f * 10 ^ (6 - length f)"
    using radix_value_bound [OF f(1)] by (intro mult_strict_right_mono) auto
  also have "\<dots> = 10 ^ 6" using f(2) by (simp flip: power_add)
  finally show ?thesis by (simp add: microseconds_value_def)
qed

lemma microseconds_of_text:
  assumes f: "f \<noteq> []" "list_all is_ascii_digit f" "length f \<le> 6"
  shows "microseconds_of (Some f) = Ok (microseconds_value f)"
proof -
  have "digit_text (f @ replicate (6 - length f) CHR ''0'')"
    using f by (auto simp: digit_text_def list_all_iff is_ascii_digit_def ord_def)
  moreover have "radix_value 10 (f @ replicate (6 - length f) CHR ''0'') < 2 ^ 32"
    using microseconds_value_bound [OF f(2,3)] by (simp add: radix_value_pad microseconds_value_def)
  ultimately show ?thesis
    using f by (simp add: microseconds_of_def parse_unsigned_digits radix_value_pad microseconds_value_def)
qed

lemma seconds_field:
  assumes "digit_text s" "list_all is_ascii_digit f"
  shows "(case split_once CHR ''.'' (s @ (if f = [] then [] else CHR ''.'' # f)) of
            None \<Rightarrow> (s @ (if f = [] then [] else CHR ''.'' # f), None) | Some (l, r) \<Rightarrow> (l, Some r))
          = (s, if f = [] then None else Some f)"
proof (cases "f = []")
  case True
  have "CHR ''.'' \<notin> set s" using assms(1) by (simp add: digit_text_def digit_char_not)
  then have "split_once CHR ''.'' s = None"
    by (cases "split_once CHR ''.'' s") (auto simp: split_once_Some_iff)
  with True show ?thesis by simp
next
  case False
  then have "split_once CHR ''.'' (s @ CHR ''.'' # f) = Some (s, f)"
    using assms by (simp add: split_once_Some_iff digit_text_def digit_char_not)
  with False show ?thesis by simp
qed

lemma small_u8: "m < 256 \<Longrightarrow> n < 256 \<Longrightarrow> (of_nat m :: u8) \<le> of_nat n \<longleftrightarrow> m \<le> n"
  "m < 256 \<Longrightarrow> n < 256 \<Longrightarrow> (of_nat m :: u8) < of_nat n \<longleftrightarrow> m < n"
  "m < 256 \<Longrightarrow> n < 256 \<Longrightarrow> (of_nat m :: u8) = of_nat n \<longleftrightarrow> m = n"
  by (simp_all add: word_le_nat_alt word_less_nat_alt word_unat_eq_iff unsigned_of_nat take_bit_nat_eq_self)

lemma clock_time_text:
  assumes h: "digit_text h" "radix_value 10 h < 24" and m: "digit_text m" "radix_value 10 m < 60"
    and s: "digit_text s" "radix_value 10 s < 60" and f: "list_all is_ascii_digit f" "length f \<le> 6"
  shows "clock_time (clock_text h m s f) =
    Ok (of_nat (radix_value 10 h), of_nat (radix_value 10 m), of_nat (radix_value 10 s), of_nat (microseconds_value f))"
proof -
  let ?s = "s @ (if f = [] then [] else CHR ''.'' # f)"
  have "CHR '':'' \<notin> set ?s" using s f by (auto simp: digit_text_def digit_char_not)
  then have fields: "split_on CHR '':'' (clock_text h m s f) = [h, m, ?s]"
    using split_three [OF h(1) m(1), of "CHR '':''" ?s] by (simp add: clock_text_def)
  have us: "microseconds_of (if f = [] then None else Some f) = Ok (microseconds_value f)"
    using microseconds_of_text [OF _ f] by (simp add: microseconds_of_def microseconds_value_def radix_value_def)
  have ranges: "\<not> 24 < (of_nat (radix_value 10 h) :: u8)" "\<not> 60 \<le> (of_nat (radix_value 10 m) :: u8)"
    "\<not> 60 \<le> (of_nat (radix_value 10 s) :: u8)" "(of_nat (radix_value 10 h) :: u8) \<noteq> 24"
    using small_u8(2) [of 24 "radix_value 10 h"] small_u8(1) [of 60 "radix_value 10 m"]
      small_u8(1) [of 60 "radix_value 10 s"] small_u8(3) [of "radix_value 10 h" 24] h m s by auto
  have third: "[h, m, ?s] ! 2 = ?s" by (simp only: nth_Cons_numeral nth_Cons_0) simp
  show ?thesis
    unfolding clock_time_def fields Let_def third seconds_field [OF s(1) f(1)]
    using h m s us ranges by (simp add: parse_u8_digits)
qed


section \<open>Dates\<close>

lemma digit_text_not: "digit_text s \<Longrightarrow> \<not> is_ascii_digit c \<Longrightarrow> c \<notin> set s"
  by (simp add: digit_text_def digit_char_not)

definition text_year :: "bool \<Rightarrow> string \<Rightarrow> int" where
  "text_year bc y = (if bc then 1 - int (radix_value 10 y) else int (radix_value 10 y))"

definition era_text :: "bool \<Rightarrow> string" where
  "era_text bc = (if bc then '' BC'' else [])"

lemma strip_era_text:
  assumes "s = t @ [c]" "is_ascii_digit c"
  shows "strip_era (s @ era_text bc) = (s, bc)"
proof -
  have "strip_suffix (p @ [e]) s = None" if "\<not> is_ascii_digit e" for p e
    using assms that by (cases "strip_suffix (p @ [e]) s") (auto simp: strip_suffix_Some_iff)
  from this [of "CHR ''C''" "'' B''"] this [of "CHR ''D''" "'' A''"]
  have plain: "strip_suffix '' BC'' s = None" "strip_suffix '' AD'' s = None" by simp_all
  have "strip_suffix '' BC'' (s @ '' BC'') = Some s" by (simp add: strip_suffix_Some_iff)
  with plain show ?thesis by (simp add: strip_era_def era_text_def)
qed

lemma postgres_date_text:
  assumes y: "digit_text y" "0 < radix_value 10 y" "radix_value 10 y < 2 ^ 31"
    and m: "digit_text m" "radix_value 10 m < 256" and d: "digit_text d" "radix_value 10 d < 256"
    and valid: "validate_postgres_date (text_year bc y) (of_nat (radix_value 10 m)) (of_nat (radix_value 10 d)) = Ok ()"
  shows "postgres_date_with_era (date_text y m d) bc
    = Ok (text_year bc y, of_nat (radix_value 10 m), of_nat (radix_value 10 d))"
proof -
  obtain t c where c: "d = t @ [c]" "is_ascii_digit c"
    using d(1) by (cases d rule: rev_cases) (auto simp: digit_text_def list_all_iff)
  have "date_text y m d = (y @ ''-'' @ m @ ''-'' @ t) @ [c]" using c(1) by (simp add: date_text_def)
  note era = strip_era_text [OF this c(2)]
  have fields: "split_on CHR ''-'' (date_text y m d) = [y, m, d]"
    using split_three [OF y(1) m(1), of "CHR ''-''" d] d(1) by (simp add: date_text_def digit_text_def digit_char_not)
  have "postgres_date (date_text y m d @ era_text bc)
      = Ok (text_year bc y, of_nat (radix_value 10 m), of_nat (radix_value 10 d))"
    unfolding postgres_date_def era Let_def prod.case fields
    using y m d valid by (simp add: parse_signed_digits parse_u8_digits text_year_def)
  then show ?thesis by (cases bc) (simp_all add: postgres_date_with_era_def era_text_def)
qed

section \<open>Zones and instants\<close>

definition zone_text :: "bool \<Rightarrow> string list \<Rightarrow> string" where
  "zone_text west parts = (if west then CHR ''-'' else CHR ''+'') # join_with '':'' parts"

definition zone_part :: "string list \<Rightarrow> nat \<Rightarrow> nat" where
  "zone_part parts i = (if i < length parts then radix_value 10 (parts ! i) else 0)"

definition zone_parts_ok :: "string list \<Rightarrow> bool" where
  "zone_parts_ok parts \<longleftrightarrow> 1 \<le> length parts \<and> length parts \<le> 3 \<and> list_all digit_text parts
     \<and> (length parts = 1 \<longrightarrow> length (hd parts) \<le> 2)
     \<and> zone_part parts 0 \<le> 15 \<and> zone_part parts 1 < 60 \<and> zone_part parts 2 < 60"

definition zone_seconds :: "bool \<Rightarrow> string list \<Rightarrow> int" where
  "zone_seconds west parts =
     (if west then -1 else 1) * (int (zone_part parts 0) * 3600 + int (zone_part parts 1) * 60 + int (zone_part parts 2))"

lemma split_time_zone_text:
  assumes "t \<noteq> []" "mark = CHR ''+'' \<or> mark = CHR ''-''" "CHR ''+'' \<notin> set v" "CHR ''-'' \<notin> set v"
  shows "split_time_zone (t @ mark # v) = Ok (t, mark # v)"
proof -
  have "takeWhile (\<lambda>c. c \<noteq> CHR ''+'' \<and> c \<noteq> CHR ''-'') (rev (t @ mark # v)) = rev v"
    using assms by (subst rev_append, simp, subst takeWhile_append2) auto
  then show ?thesis using assms(1) by (simp add: split_time_zone_def)
qed

lemma join_with_chars: "c \<in> set (join_with sep parts) \<Longrightarrow> c \<in> set sep \<or> (\<exists>p \<in> set parts. c \<in> set p)"
  by (induction sep parts rule: join_with.induct) auto

lemma zone_offset_part:
  assumes "list_all digit_text parts" "zone_part parts i < 60"
  shows "offset_part parts i = Ok (int (zone_part parts i))"
  using assms by (auto simp: offset_part_def zone_part_def list_all_length parse_signed_digits)

lemma postgres_offset_text:
  assumes "zone_parts_ok parts"
  shows "postgres_offset_seconds (zone_text west parts) = Ok (zone_seconds west parts)"
proof -
  have parts: "parts \<noteq> []" "list_all digit_text parts" "length parts \<le> 3" "[] \<notin> set parts"
    using assms by (auto simp: zone_parts_ok_def list_all_iff digit_text_def)
  have no_colon: "\<forall>p \<in> set parts. CHR '':'' \<notin> set p"
    using parts(2) digit_text_not not_digit(2) by (meson list_all_iff)
  have "offset_parts (join_with '':'' parts) = Ok parts"
  proof (cases "tl parts")
    case Nil
    with parts(1) obtain a where a: "parts = [a]" by (cases parts) auto
    then have "length a = 1 \<or> length a = 2" using assms parts(4) by (cases a) (auto simp: zone_parts_ok_def le_Suc_eq)
    then show ?thesis using no_colon a by (auto simp: offset_parts_def)
  next
    case (Cons b rest)
    then have "CHR '':'' \<in> set (join_with '':'' parts)" using parts(1) by (cases parts) auto
    then show ?thesis using parts(1) no_colon split_on_join [of parts "CHR '':''"] by (simp add: offset_parts_def)
  qed
  moreover have "offset_part parts 0 = Ok (int (zone_part parts 0))" "offset_part parts 1 = Ok (int (zone_part parts 1))"
    "offset_part parts 2 = Ok (int (zone_part parts 2))"
    using assms parts(2) by (auto simp: zone_parts_ok_def intro!: zone_offset_part)
  ultimately show ?thesis
    using assms parts by (simp add: postgres_offset_seconds_def zone_text_def zone_seconds_def zone_parts_ok_def)
qed

text \<open>The sign of a zone is the last sign of the text, and the time before it is not empty.\<close>

lemma split_zone_text:
  assumes "zone_parts_ok parts" "t \<noteq> []"
  shows "split_time_zone (t @ zone_text west parts) = Ok (t, zone_text west parts)"
proof -
  have "c \<notin> set (join_with '':'' parts)" if c: "c = CHR ''+'' \<or> c = CHR ''-''" for c
  proof
    have "list_all digit_text parts" using assms(1) by (simp add: zone_parts_ok_def)
    moreover have "\<not> is_ascii_digit c" "c \<noteq> CHR '':''" using c by auto
    moreover assume "c \<in> set (join_with '':'' parts)"
    ultimately show False using join_with_chars [of c "'':''" parts] digit_text_not by (auto simp: list_all_iff)
  qed
  then show ?thesis using split_time_zone_text [OF assms(2)] by (simp add: zone_text_def)
qed

definition instant_text ::
  "string \<Rightarrow> string \<Rightarrow> string \<Rightarrow> string \<Rightarrow> string \<Rightarrow> string \<Rightarrow> string \<Rightarrow> bool \<Rightarrow> string list \<Rightarrow> bool \<Rightarrow> string" where
  "instant_text y mo d h mi s f west parts bc =
     date_text y mo d @ '' '' @ clock_text h mi s f @ zone_text west parts @ era_text bc"

text \<open>The fields that PostgreSQL writes: digits, with a year, a month and a day of the calendar.\<close>

definition date_fields :: "string \<Rightarrow> string \<Rightarrow> string \<Rightarrow> bool \<Rightarrow> bool" where
  "date_fields y mo d bc \<longleftrightarrow>
     digit_text y \<and> 0 < radix_value 10 y \<and> -4712 \<le> text_year bc y \<and> text_year bc y \<le> 294276
     \<and> digit_text mo \<and> digit_text d
     \<and> valid_date (text_year bc y) (int (radix_value 10 mo)) (int (radix_value 10 d))"

definition clock_fields :: "string \<Rightarrow> string \<Rightarrow> string \<Rightarrow> string \<Rightarrow> bool" where
  "clock_fields h mi s f \<longleftrightarrow>
     digit_text h \<and> radix_value 10 h < 24 \<and> digit_text mi \<and> radix_value 10 mi < 60
     \<and> digit_text s \<and> radix_value 10 s < 60 \<and> list_all is_ascii_digit f \<and> length f \<le> 6"

lemma valid_date_small:
  assumes "valid_date y m d"
  shows "1 \<le> m" "m \<le> 12" "1 \<le> d" "d \<le> 31"
proof -
  have "days_in_month y (word_of_int m) \<le> 31" by (simp add: days_in_month_def)
  then show "1 \<le> m" "m \<le> 12" "1 \<le> d" "d \<le> 31"
    using assms by (auto simp: valid_date_def word_le_def)
qed

lemma valid_date_Ok:
  assumes "valid_date y (int m) (int d)"
  shows "date y (of_nat m) (of_nat d) = Ok ()" "m < 256" "d < 256"
proof -
  note small = valid_date_small [OF assms]
  then show m: "m < 256" and d: "d < 256" by simp_all
  have "uint (of_nat d :: u8) = int d" using d by (simp add: unsigned_of_nat take_bit_nat_eq_self)
  with assms small show "date y (of_nat m) (of_nat d) = Ok ()"
    by (simp add: date_def ok_iff valid_date_def word_le_def word_less_def)
qed

lemma date_fields_text:
  assumes "date_fields y mo d bc"
  shows "postgres_date_with_era (date_text y mo d) bc
    = Ok (text_year bc y, of_nat (radix_value 10 mo), of_nat (radix_value 10 d))"
proof -
  note f = assms [unfolded date_fields_def]
  note ok = valid_date_Ok [of "text_year bc y" "radix_value 10 mo" "radix_value 10 d"]
  have "radix_value 10 y < 2 ^ 31" using f by (auto simp: text_year_def split: if_splits)
  moreover have "validate_postgres_date (text_year bc y) (of_nat (radix_value 10 mo)) (of_nat (radix_value 10 d)) = Ok ()"
    using f ok by (simp add: validate_postgres_date_Ok)
  ultimately show ?thesis using f ok by (intro postgres_date_text) auto
qed

text \<open>A digit is the last character of the text in front of the era.\<close>

lemma zone_text_last: "zone_parts_ok parts \<Longrightarrow> \<exists>t c. zone_text west parts = t @ [c] \<and> is_ascii_digit c"
proof -
  assume "zone_parts_ok parts"
  then obtain ps p where p: "parts = ps @ [p]" "digit_text p"
    by (cases parts rule: rev_cases) (auto simp: zone_parts_ok_def)
  then obtain t c where c: "p = t @ [c]" "is_ascii_digit c"
    by (cases p rule: rev_cases) (auto simp: digit_text_def)
  have "\<exists>r. join_with '':'' (ps @ [p]) = r @ p"
  proof (induction ps)
    case (Cons a ps) then show ?case by (cases ps) auto
  qed simp
  then obtain r where "join_with '':'' parts = r @ t @ [c]" using p c by auto
  then have "zone_text west parts = ((if west then CHR ''-'' else CHR ''+'') # r @ t) @ [c]" by (simp add: zone_text_def)
  then show ?thesis using c(2) by blast
qed

lemma postgres_instant_text:
  assumes date: "date_fields y mo d bc" and clock: "clock_fields h mi s f" and zone: "zone_parts_ok parts"
  shows "postgres_instant (instant_text y mo d h mi s f west parts bc) =
    Ok (day_number (text_year bc y) (int (radix_value 10 mo)) (int (radix_value 10 d)) * 86400
          + int (radix_value 10 h) * 3600 + int (radix_value 10 mi) * 60 + int (radix_value 10 s)
          - zone_seconds west parts,
        of_nat (microseconds_value f * 1000))"
proof -
  let ?day = "date_text y mo d" and ?clock = "clock_text h mi s f" and ?zone = "zone_text west parts"
  let ?h = "radix_value 10 h" and ?mi = "radix_value 10 mi" and ?s = "radix_value 10 s"
  note D = date [unfolded date_fields_def] and H = clock [unfolded clock_fields_def]
  obtain t c where "?zone = t @ [c]" and c: "is_ascii_digit c" using zone_text_last [OF zone] by blast
  then have "?day @ '' '' @ ?clock @ ?zone = (?day @ '' '' @ ?clock @ t) @ [c]" by simp
  from strip_era_text [OF this c] have era: "strip_era (instant_text y mo d h mi s f west parts bc)
      = (?day @ '' '' @ ?clock @ ?zone, bc)" by (simp add: instant_text_def)
  have "CHR '' '' \<notin> set ?day" using D by (auto simp: date_text_def digit_text_def digit_char_not)
  then have cut: "split_once CHR '' '' (?day @ '' '' @ ?clock @ ?zone) = Some (?day, ?clock @ ?zone)"
    by (simp add: split_once_Some_iff)
  have time: "clock_time ?clock = Ok (of_nat ?h, of_nat ?mi, of_nat ?s, of_nat (microseconds_value f))"
    using H by (intro clock_time_text) auto
  have tz: "split_time_zone (?clock @ ?zone) = Ok (?clock, ?zone)"
    using H by (intro split_zone_text [OF zone]) (auto simp: clock_text_def digit_text_def)
  have year: "validate_postgres_timestamp_year (text_year bc y) = Ok ()"
    using D by (simp add: validate_postgres_timestamp_year_def)
  note valid = date_valid [OF valid_date_Ok(1) [of "text_year bc y" "radix_value 10 mo" "radix_value 10 d"]]
  have u8: "uint (of_nat n :: u8) = int n" if "n < 256" for n
    using that by (simp add: unsigned_of_nat take_bit_nat_eq_self)
  have parts: "uint (of_nat ?h :: u8) = int ?h" "uint (of_nat ?mi :: u8) = int ?mi" "uint (of_nat ?s :: u8) = int ?s"
    "uint (of_nat (radix_value 10 mo) :: u8) = int (radix_value 10 mo)" "uint (of_nat (radix_value 10 d) :: u8) = int (radix_value 10 d)"
    using H D valid_date_Ok(2,3) [of "text_year bc y" "radix_value 10 mo" "radix_value 10 d"] by (auto intro!: u8)
  have offset: "-57599 \<le> zone_seconds west parts" "zone_seconds west parts \<le> 57599"
    using offset_seconds_range [of ?zone] postgres_offset_text [OF zone] by auto
  have steps: "and_then (checked 64 instant_range (days_from_civil (text_year bc y) (of_nat (radix_value 10 mo)) (of_nat (radix_value 10 d)) * 86400)) (\<lambda>t.
      and_then (checked 64 instant_range (t + int ?h * 3600)) (\<lambda>t. and_then (checked 64 instant_range (t + int ?mi * 60)) (\<lambda>t.
      and_then (checked 64 instant_range (t + int ?s)) (\<lambda>t. checked 64 instant_range (t - zone_seconds west parts)))))
    = Ok (day_number (text_year bc y) (int (radix_value 10 mo)) (int (radix_value 10 d)) * 86400
          + int ?h * 3600 + int ?mi * 60 + int ?s - zone_seconds west parts)"
    using instant_steps [OF valid, of "of_nat ?h" "of_nat ?mi" "of_nat ?s" "zone_seconds west parts" instant_range] D H parts offset
    by (simp add: instant_seconds_def)
  show ?thesis
    unfolding postgres_instant_def era Let_def prod.case cut ok_or_simps and_then_simps date_fields_text [OF date]
      year tz time postgres_offset_text [OF zone] parts
    using steps by (auto simp: ok_iff)
qed

end
