(* ===== verification/Pg_Text_Spec.thy ===== *)
theory Pg_Text_Spec
  imports Pg_Text
begin

text \<open>
  Round trips of the text readers: what PostgreSQL writes for a record, an array or an hstore, with every
  element quoted, is read back, whatever bytes the elements hold.
\<close>

section \<open>Quoted elements\<close>

fun escaped :: "bytes \<Rightarrow> bytes" where
  "escaped [] = []"
| "escaped (c # cs) = (if c = CHR 0x22 \<or> c = CHR 0x5C then [CHR 0x5C, c] else [c]) @ escaped cs"

definition quoted_text :: "bytes \<Rightarrow> bytes" where
  "quoted_text v = CHR 0x22 # escaped v @ [CHR 0x22]"

text \<open>What may follow an element.\<close>

definition follows :: "char list \<Rightarrow> bytes \<Rightarrow> bool" where
  "follows terminators rest \<longleftrightarrow> CHR 0x22 \<notin> set terminators \<and> (rest = [] \<or> hd rest \<in> set terminators)"

lemma token_loop_escaped:
  "rest = [] \<or> hd rest \<noteq> CHR 0x22 \<Longrightarrow>
     \<exists>n. token_loop True ts acc pos (escaped v @ CHR 0x22 # rest) = Ok (acc @ v, \<lparr>tp_pos = n, tp_rest = rest\<rparr>)"
proof (induction v arbitrary: acc pos)
  case Nil
  then show ?case by (cases rest) auto
next
  case (Cons c cs)
  then show ?case using Cons.IH [of "acc @ [c]"] by (cases "c = CHR 0x22 \<or> c = CHR 0x5C") auto
qed

lemma peek_Cons: "tp_rest p = b # bs \<Longrightarrow> peek p = Some b"
  by (simp add: peek_def)

lemma token_quoted:
  assumes rest: "tp_rest p = quoted_text v @ rest" and "follows ts rest"
  shows "\<exists>p'. token ts p = Ok ((v, True), p') \<and> tp_rest p' = rest"
proof -
  have "rest = [] \<or> hd rest \<noteq> CHR 0x22" using assms(2) by (auto simp: follows_def)
  from token_loop_escaped [OF this, of ts "[]" "tp_pos (step_by 1 p)" v] obtain n where
    n: "token_loop True ts [] (tp_pos (step_by 1 p)) (escaped v @ CHR 0x22 # rest) = Ok (v, \<lparr>tp_pos = n, tp_rest = rest\<rparr>)"
    by auto
  have "peek p = Some CHR 0x22" using rest by (simp add: quoted_text_def peek_def)
  moreover have "tp_rest (step_by 1 p) = escaped v @ CHR 0x22 # rest" using rest by (simp add: quoted_text_def)
  moreover have "delimited ts \<lparr>tp_pos = n, tp_rest = rest\<rparr>"
    using assms(2) by (cases rest) (auto simp: delimited_def peek_def follows_def)
  ultimately show ?thesis using n by (auto simp: token_def Let_def)
qed

text \<open>Text without quotes, escapes and terminators.\<close>

lemma token_loop_plain:
  "\<forall>c \<in> set v. c \<noteq> CHR 0x5C \<and> c \<notin> set ts \<Longrightarrow> rest = [] \<or> hd rest \<in> set ts \<Longrightarrow>
     \<exists>n. token_loop False ts acc pos (v @ rest) = Ok (acc @ v, \<lparr>tp_pos = n, tp_rest = rest\<rparr>)"
proof (induction v arbitrary: acc pos)
  case Nil
  then show ?case by (cases rest) auto
next
  case (Cons c cs)
  then show ?case using Cons.IH [of "acc @ [c]"] by auto
qed

lemma token_plain:
  assumes "tp_rest p = v @ rest" "\<forall>c \<in> set v. c \<noteq> CHR 0x5C \<and> c \<noteq> CHR 0x22 \<and> c \<notin> set ts" "follows ts rest"
  shows "\<exists>p'. token ts p = Ok ((v, False), p') \<and> tp_rest p' = rest"
proof -
  have "peek p \<noteq> Some CHR 0x22"
    using assms by (cases v; cases rest) (auto simp: peek_def follows_def)
  moreover obtain n where "token_loop False ts [] (tp_pos p) (v @ rest) = Ok (v, \<lparr>tp_pos = n, tp_rest = rest\<rparr>)"
    using token_loop_plain [of v ts rest "[]" "tp_pos p"] assms(2,3) by (auto simp: follows_def)
  ultimately show ?thesis using assms(1) by (auto simp: token_def Let_def)
qed

lemma take_byte_next: "tp_rest p = b # bs \<Longrightarrow> \<exists>p'. take_byte p = Ok (b, p') \<and> tp_rest p' = bs"
  by (simp add: take_byte_def)

lemma consume_byte_next: "tp_rest p = b # bs \<Longrightarrow> \<exists>p'. consume_byte b p = Ok p' \<and> tp_rest p' = bs"
  by (auto simp: consume_byte_def ok_iff take_byte_def)

section \<open>Records\<close>

definition field_text :: "bytes option \<Rightarrow> bytes" where
  "field_text v = (case v of None \<Rightarrow> [] | Some b \<Rightarrow> quoted_text b)"

definition record_text :: "bytes option list \<Rightarrow> bytes" where
  "record_text flds = ''('' @ join_with '','' (map field_text flds) @ '')''"

lemma record_field_read:
  assumes "tp_rest p = field_text v @ b # rest" "b \<in> set '',)''"
  shows "\<exists>p'. record_field p = Ok (v, b, p') \<and> tp_rest p' = rest"
proof (cases v)
  case None
  then obtain q where "token '',)'' p = Ok (([], False), q)" "tp_rest q = b # rest"
    using token_plain [of p "[]" "b # rest" "'',)''"] assms by (auto simp: field_text_def follows_def)
  moreover from this(2) obtain q' where "take_byte q = Ok (b, q')" "tp_rest q' = rest" using take_byte_next by blast
  ultimately show ?thesis using None by (simp add: record_field_def)
next
  case (Some w)
  then obtain q where "token '',)'' p = Ok ((w, True), q)" "tp_rest q = b # rest"
    using token_quoted [of p w "b # rest" "'',)''"] assms by (auto simp: field_text_def follows_def)
  moreover from this(2) obtain q' where "take_byte q = Ok (b, q')" "tp_rest q' = rest" using take_byte_next by blast
  ultimately show ?thesis using Some by (simp add: record_field_def)
qed

lemma record_loop_read:
  "flds \<noteq> [] \<Longrightarrow> tp_rest p = join_with '','' (map field_text flds) @ CHR '')'' # rest \<Longrightarrow>
     \<exists>p'. record_loop acc p = Ok (acc @ flds, p') \<and> tp_rest p' = rest"
proof (induction flds arbitrary: acc p)
  case (Cons v vs)
  show ?case
  proof (cases vs)
    case Nil
    then obtain q where "record_field p = Ok (v, CHR '')'', q)" "tp_rest q = rest"
      using record_field_read [of p v "CHR '')''" rest] Cons.prems(2) by auto
    then show ?thesis using Nil by (subst record_loop.simps) simp
  next
    case (Cons w ws)
    then obtain q where q: "record_field p = Ok (v, CHR '','', q)"
      "tp_rest q = join_with '','' (map field_text vs) @ CHR '')'' # rest"
      using record_field_read [of p v "CHR '',''"] Cons.prems(2) by auto
    from Cons.IH [OF _ q(2), of "acc @ [v]"] Cons obtain q' where
      "record_loop (acc @ [v]) q = Ok (acc @ v # vs, q')" "tp_rest q' = rest" by auto
    then show ?thesis using q(1) by (subst record_loop.simps) simp
  qed
qed simp

lemma finish_end: "tp_rest p = [] \<Longrightarrow> finish p = Ok ()"
  by (simp add: finish_def)

text \<open>A record of one NULL is written as \<open>()\<close>, which is read as a record without fields.\<close>

lemma parse_record_text:
  assumes "flds \<noteq> []" "flds \<noteq> [None]"
  shows "parse_record (record_text flds) = Ok flds"
proof -
  obtain p where p: "consume_byte CHR ''('' (parser_new (record_text flds)) = Ok p"
    "tp_rest p = join_with '','' (map field_text flds) @ CHR '')'' # []"
    using consume_byte_next [of "parser_new (record_text flds)" "CHR ''(''"] by (auto simp: parser_new_def record_text_def)
  obtain p' where p': "record_loop [] p = Ok (flds, p')" "tp_rest p' = []"
    using record_loop_read [OF assms(1) p(2), of "[]"] by auto
  have "peek p \<noteq> Some CHR '')''"
  proof (cases flds)
    case (Cons v vs)
    then show ?thesis
      using p(2) assms(2) by (cases v; cases vs) (auto simp: peek_def field_text_def quoted_text_def)
  qed (use assms(1) in simp)
  then show ?thesis using p(1) p' by (simp add: parse_record_def finish_end)
qed

lemma parse_record_single_null: "parse_record (record_text [None]) = Ok []"
  by code_simp

section \<open>Arrays\<close>

fun node_text :: "char \<Rightarrow> ArrayNode \<Rightarrow> bytes" where
  "node_text d (Leaf None) = ''NULL''"
| "node_text d (Leaf (Some v)) = quoted_text v"
| "node_text d (Branch children) = ''{'' @ join_with [d] (map (node_text d) children) @ ''}''"

text \<open>A delimiter that is not part of the syntax. PostgreSQL uses a comma, and a semicolon for boxes.\<close>

definition plain_delimiter :: "char \<Rightarrow> bool" where
  "plain_delimiter d \<longleftrightarrow> d \<notin> set ''{}NULL'' \<and> d \<noteq> CHR 0x22 \<and> d \<noteq> CHR 0x5C"

lemma array_leaf_read:
  assumes d: "plain_delimiter d" and rest: "tp_rest p = node_text d (Leaf v) @ b # rest" and b: "b = d \<or> b = CHR ''}''"
  shows "\<exists>p'. array_leaf d p = Ok (Leaf v, p') \<and> tp_rest p' = b # rest"
proof (cases v)
  case None
  have "follows [d, CHR ''}''] (b # rest)" using d b by (auto simp: follows_def plain_delimiter_def)
  then obtain q where "token [d, CHR ''}''] p = Ok ((''NULL'', False), q)" "tp_rest q = b # rest"
    using token_plain [of p "''NULL''" "b # rest" "[d, CHR ''}'']"] rest None d by (auto simp: plain_delimiter_def)
  then show ?thesis using None by (simp add: array_leaf_def eq_ignore_ascii_case_def)
next
  case (Some w)
  have "follows [d, CHR ''}''] (b # rest)" using d b by (auto simp: follows_def plain_delimiter_def)
  then obtain q where "token [d, CHR ''}''] p = Ok ((w, True), q)" "tp_rest q = b # rest"
    using token_quoted [of p w "b # rest" "[d, CHR ''}'']"] rest Some by auto
  then show ?thesis using Some by (simp add: array_leaf_def)
qed

lemma node_text_brace:
  "plain_delimiter d \<Longrightarrow> hd (node_text d n @ r) = CHR ''{'' \<longleftrightarrow> (\<exists>cs. n = Branch cs)" "node_text d n \<noteq> []"
  by (cases "(d, n)" rule: node_text.cases; simp add: quoted_text_def)+

lemma item_peek:
  assumes "plain_delimiter d" "tp_rest p = node_text d n @ r"
  shows "peek p = Some CHR ''{'' \<longleftrightarrow> (\<exists>cs. n = Branch cs)"
proof -
  obtain b bs where "tp_rest p = b # bs"
    using assms(2) node_text_brace(2) [of d n] by (cases "node_text d n") auto
  then show ?thesis using node_text_brace(1) [OF assms(1), of n r] assms(2) by (simp add: peek_def)
qed

text \<open>Reading the items of a level, when every nested level is read back.\<close>

lemma array_items_read:
  assumes d: "plain_delimiter d"
    and nested: "\<And>n p r. n \<in> set cs \<Longrightarrow> (\<exists>ds. n = Branch ds) \<Longrightarrow> tp_rest p = node_text d n @ r \<Longrightarrow>
      \<exists>p'. parse_array_level d p = Ok (n, p') \<and> tp_rest p' = r"
  shows "cs \<noteq> [] \<Longrightarrow> tp_rest p = join_with [d] (map (node_text d) cs) @ CHR ''}'' # rest \<Longrightarrow>
    \<exists>p'. array_items d acc p = Ok (Branch (acc @ cs), p') \<and> tp_rest p' = rest"
  using nested
proof (induction cs arbitrary: acc p)
  case (Cons n ns)
  have item: "\<exists>p'. (if peek p = Some CHR ''{'' then parse_array_level d p else array_leaf d p) = Ok (n, p') \<and> tp_rest p' = b # r"
    if t: "tp_rest p = node_text d n @ b # r" and b: "b = d \<or> b = CHR ''}''" for b r
  proof (cases n)
    case (Branch ds)
    then show ?thesis using Cons.prems(3) [of n p "b # r"] item_peek [OF d t] t by auto
  next
    case (Leaf v)
    then show ?thesis using array_leaf_read [OF d _ b, of p v r] item_peek [OF d t] t by auto
  qed
  show ?case
  proof (cases ns)
    case Nil
    obtain q where q: "(if peek p = Some CHR ''{'' then parse_array_level d p else array_leaf d p) = Ok (n, q)"
      "tp_rest q = CHR ''}'' # rest" using item [of "CHR ''}''" rest] Cons.prems(2) Nil by auto
    obtain q' where "take_byte q = Ok (CHR ''}'', q')" "tp_rest q' = rest" using take_byte_next [OF q(2)] by blast
    then show ?thesis using q(1) Nil d by (subst array_items.simps) (auto simp: plain_delimiter_def)
  next
    case (Cons n' ns')
    obtain q where q: "(if peek p = Some CHR ''{'' then parse_array_level d p else array_leaf d p) = Ok (n, q)"
      "tp_rest q = d # join_with [d] (map (node_text d) ns) @ CHR ''}'' # rest"
      using item [of d "join_with [d] (map (node_text d) ns) @ CHR ''}'' # rest"] Cons.prems(2) Cons by auto
    obtain q' where q': "take_byte q = Ok (d, q')" "tp_rest q' = join_with [d] (map (node_text d) ns) @ CHR ''}'' # rest"
      using take_byte_next [OF q(2)] by blast
    obtain q'' where "array_items d (acc @ [n]) q' = Ok (Branch ((acc @ [n]) @ ns), q'')" "tp_rest q'' = rest"
      using Cons.IH [OF _ q'(2), of "acc @ [n]"] Cons Cons.prems(3) by (metis list.discI list.set_intros(2))
    then show ?thesis using q(1) q'(1) by (subst array_items.simps) auto
  qed
qed simp

lemma parse_level_read:
  "plain_delimiter d \<Longrightarrow> tp_rest p = node_text d (Branch cs) @ rest \<Longrightarrow>
     \<exists>p'. parse_array_level d p = Ok (Branch cs, p') \<and> tp_rest p' = rest"
proof (induction "Branch cs" arbitrary: cs p rest)
  case (Branch cs)
  obtain q where q: "consume_byte CHR ''{'' p = Ok q" "tp_rest q = join_with [d] (map (node_text d) cs) @ CHR ''}'' # rest"
    using consume_byte_next [of p "CHR ''{''"] Branch(3) by auto
  show ?case
  proof (cases cs)
    case Nil
    then obtain q' where "take_byte q = Ok (CHR ''}'', q')" "tp_rest q' = rest" using take_byte_next [of q] q(2) by auto
    then show ?thesis using q Nil by (subst parse_array_level.simps) (simp add: peek_def)
  next
    case (Cons c cs')
    have "peek q \<noteq> Some CHR ''}''"
    proof -
      have "join_with [d] (map (node_text d) cs) = node_text d c @ (if cs' = [] then [] else d # join_with [d] (map (node_text d) cs'))"
        using Cons by (cases cs') auto
      moreover have "hd (node_text d c @ r) \<noteq> CHR ''}''" "node_text d c \<noteq> []" for r
        by (cases "(d, c)" rule: node_text.cases; simp add: quoted_text_def)+
      ultimately show ?thesis using q(2) by (cases "node_text d c") (auto simp: peek_def)
    qed
    moreover obtain q' where "array_items d [] q = Ok (Branch cs, q')" "tp_rest q' = rest"
      using array_items_read [OF Branch(2) _ _ q(2), of "[]"] Branch(1,2) Cons by (metis append_Nil list.discI)
    ultimately show ?thesis using q(1) by (subst parse_array_level.simps) auto
  qed
qed

lemma parse_array_text:
  assumes "plain_delimiter d"
  shows "parse_array (node_text d (Branch cs)) [d] = Ok (Branch cs, None)"
proof -
  obtain p where "parse_array_level d (parser_new (node_text d (Branch cs))) = Ok (Branch cs, p)" "tp_rest p = []"
    using parse_level_read [OF assms, of "parser_new (node_text d (Branch cs))" cs "[]"] by (auto simp: parser_new_def)
  moreover have "array_bounds [] (parser_new (node_text d (Branch cs))) = Ok ([], parser_new (node_text d (Branch cs)))"
    by (subst array_bounds.simps) (simp add: peek_def parser_new_def)
  ultimately show ?thesis by (simp add: parse_array_def delimiter_byte_def finish_end)
qed

text \<open>Two items in a level without a delimiter reach the branch that the source marks as unreachable.\<close>

lemma parse_array_panics: "parse_array ''{{1}2}'' '','' = Err DE_Panic"
  by code_simp

end
