(* ===== verification/Pg_Examples.thy ===== *)
theory Pg_Examples
  imports Example Pg_Time_Text Pg_Text_Spec
begin

text \<open>
  A small PostgreSQL catalog and its serialisers for the witnesses, and a catalog whose extension
  names are not in lower case.
\<close>

definition short_codec :: codec where
  "short_codec = plain_codec\<lparr>sha256 := \<lambda>_. ''0''\<rparr>"

definition no_json :: mapping_json where
  "no_json = \<lparr>tj_definition = (\<lambda>_. []), tj_catalog = (\<lambda>_. []), tj_closure = (\<lambda>_. []), mj_mapping = (\<lambda>_. []),
     mj_definition_text = (\<lambda>_. []), mj_evidence = (\<lambda>_. [])\<rparr>"

definition no_numbers :: text_values where
  "no_numbers = \<lparr>parse_f32 = (\<lambda>_. None), parse_f64 = (\<lambda>_. None), json_from_str = (\<lambda>_. None)\<rparr>"

definition catalog_entry :: "u32 \<Rightarrow> string \<Rightarrow> SourceTypeDefinitionKind \<Rightarrow> SourceTypeDefinition" where
  "catalog_entry oid name kind = new_definition short_codec (types_json no_json) oid ''app'' name kind None"

text \<open>An integer, an array of it, a base type without a codec and an array of that.\<close>

definition sample_catalog :: SourceTypeCatalog where
  "sample_catalog = \<lparr>tc_types =
     [def_builtin short_codec (types_json no_json) 23 ''pg_catalog'' ''int4'',
      catalog_entry 101 ''ids'' (TK_Array 23 '',''),
      catalog_entry 102 ''weight'' (TK_Builtin ''weight''),
      catalog_entry 103 ''weights'' (TK_Array 102 '','')], tc_extensions = []\<rparr>"

text \<open>Two extensions whose names are in one order as they are and in the other in lower case: the
  closure is built, and its own check refuses it.\<close>

definition mixed_case_catalog :: SourceTypeCatalog where
  "mixed_case_catalog = \<lparr>tc_types =
     [catalog_entry 201 ''pair'' (TK_Composite [\<lparr>tf_name = ''a'', tf_type_oid = 202, tf_nullable = True\<rparr>,
        \<lparr>tf_name = ''b'', tf_type_oid = 203, tf_nullable = True\<rparr>]),
      catalog_entry 202 ''box'' (TK_Extension ''Zone'' None ''UTF-8'' None),
      catalog_entry 203 ''tag'' (TK_Extension ''area'' None ''UTF-8'' None)],
     tc_extensions = map (\<lambda>n. \<lparr>ex_name = n, ex_version = ''1'', ex_schema = ''app'', ex_installed = True,
        ex_available = True, ex_target_compatible = None\<rparr>) [''Zone'', ''area'']\<rparr>"

lemma mixed_case_closure_refused:
  "(case definition_closure mixed_case_catalog 201 of
      Inr closure \<Rightarrow> \<not> extensions_agree (required_extensions (cl_types closure)) (cl_extensions closure)
    | Inl _ \<Rightarrow> False)"
  by code_simp

text \<open>The array type of the sample has no codec, so its mapping is raw and carries evidence.\<close>

definition weights_entry :: SourceTypeDefinition where
  "weights_entry = tc_types sample_catalog ! 3"

definition weights_type :: LogicalType where
  "weights_type = LT_Raw text_envelope ''app.weights'' (td_definition_digest weights_entry) ''UTF-8''"

lemma weights_name:
  "normalize ''app.weights'' ''15'' = Ok ''app.weights''" "trim ''app.weights'' = ''app.weights''"
  "array_declaration ''app.weights'' = None" "\<not> eq_ignore_ascii_case (base_name ''app.weights'') ''enum''"
  "builtin_catalog_name ''app.weights'' = None" "ensure_supported_version ''15'' = Ok ()"
  by code_simp+

lemma weights_not_builtin: "logical_type_from_builtin ''app.weights'' ''15'' = Ok None"
  by (simp add: logical_type_from_builtin_def builtin_constants_def builtin_parsed_def quoted_char_def starts_with_def)

lemma weights_entry_facts:
  "find_definition ''app.weights'' sample_catalog ''15'' = Ok weights_entry"
  "storable sample_catalog weights_entry ''15'' = Ok ()"
  "td_oid weights_entry = 103"
  "td_kind weights_entry = TK_Array 102 '',''"
  "raw_of short_codec (types_json no_json) text_envelope ''UTF-8'' weights_entry ''15'' = Ok weights_type"
  "lt_validate weights_type = Ok ()"
  by code_simp+

lemma weights_no_codec: "has_semantic_codec sample_catalog 103 = False"
proof -
  have entries: "definition_at (tc_types sample_catalog) 103 = Some weights_entry"
    "definition_at (tc_types sample_catalog) 102 = Some (catalog_entry 102 ''weight'' (TK_Builtin ''weight''))"
    by code_simp+
  have "td_kind (catalog_entry 102 ''weight'' (TK_Builtin ''weight'')) = TK_Builtin ''weight''"
    by (simp add: catalog_entry_def new_definition_def finalized_def)
  moreover have "\<not> supported 102" by (simp add: supported_def)
  ultimately have "semantic_codec sample_catalog [103] 102 = False"
    by (subst semantic_codec.simps) (simp add: entries)
  then show ?thesis
    unfolding has_semantic_codec_def by (subst semantic_codec.simps) (simp add: entries weights_entry_facts)
qed

lemma weights_evidence:
  "(case source_representation_evidence short_codec no_json ''app.weights'' weights_type sample_catalog ''15'' of
      Inr (Some _) \<Rightarrow> True | _ \<Rightarrow> False)"
  by code_simp

lemma weights_mapped:
  "\<exists>m. source_type_mapping_with_catalog_for_version short_codec no_json ''15'' ''app.weights'' sample_catalog = Ok m
     \<and> is_raw (sm_logical_type m)"
proof -
  have t: "logical_type_with_catalog short_codec (types_json no_json) ''app.weights'' sample_catalog ''15'' = Ok weights_type"
    by (subst logical_type_with_catalog.simps)
      (simp add: weights_name weights_not_builtin logical_type_scalar_def logical_type_of_name_def weights_entry_facts weights_no_codec)
  obtain e where e: "source_representation_evidence short_codec no_json ''app.weights'' weights_type sample_catalog ''15'' = Ok (Some e)"
    using weights_evidence by (auto split: sum.splits option.splits)
  have "\<exists>f. source_definition_fingerprint short_codec (types_json no_json) ''app.weights'' weights_type sample_catalog ''15'' = Ok f"
    by (simp add: source_definition_fingerprint_def weights_type_def)
  moreover have "is_raw weights_type" by (simp add: is_raw_def weights_type_def)
  ultimately show ?thesis
    using t e by (auto simp: source_type_mapping_with_catalog_for_version_def weights_name weights_entry_facts)
qed

lemma sample_catalog_good: "well_catalogued short_codec (types_json no_json) sample_catalog"
  by code_simp

lemma int4_mapped:
  "logical_type_from_definition short_codec (types_json no_json) sample_catalog ''15'' [] (hd (tc_types sample_catalog))
      = Ok (LT_Integer True 32)"
  "definition_at (tc_types sample_catalog) 23 = Some (hd (tc_types sample_catalog))"
  "td_oid (hd (tc_types sample_catalog)) = 23"
proof -
  show "definition_at (tc_types sample_catalog) 23 = Some (hd (tc_types sample_catalog))"
    "td_oid (hd (tc_types sample_catalog)) = 23"
    by (simp_all add: definition_at_def sample_catalog_def def_builtin_def new_definition_def finalized_def)
  show "logical_type_from_definition short_codec (types_json no_json) sample_catalog ''15'' [] (hd (tc_types sample_catalog))
      = Ok (LT_Integer True 32)"
    by (subst logical_type_from_definition.simps)
      (simp add: sample_catalog_def def_builtin_def new_definition_def finalized_def logical_type_for_catalog_builtin_def
        logical_type_from_builtin_def builtin_constants_def quoted_char_def)
qed

lemma sample_closure:
  "definition_closure sample_catalog 23 = Ok \<lparr>cl_types = [hd (tc_types sample_catalog)], cl_extensions = []\<rparr>"
  by code_simp

end
