(* ===== verification/Utf8.thy ===== *)
theory Utf8
  imports Prelude
begin

text \<open>
  The characters of a UTF-8 string, as \<^verbatim>\<open>str::chars\<close> yields them and \<^verbatim>\<open>char::encode_utf8\<close> writes them.
  Strings of the model are their UTF-8 bytes; a character is its Unicode scalar value.
\<close>

definition scalar_value :: "nat \<Rightarrow> bool" where
  "scalar_value n \<longleftrightarrow> n < 0xD800 \<or> 0xE000 \<le> n \<and> n < 0x110000"

definition utf8_char :: "nat \<Rightarrow> string" where
  "utf8_char n =
     (if n < 0x80 then [char_of n]
      else if n < 0x800 then [char_of (192 + n div 64), char_of (128 + n mod 64)]
      else if n < 0x10000 then
        [char_of (224 + n div 4096), char_of (128 + n div 64 mod 64), char_of (128 + n mod 64)]
      else
        [char_of (240 + n div 262144), char_of (128 + n div 4096 mod 64), char_of (128 + n div 64 mod 64),
         char_of (128 + n mod 64)])"

definition text_of_chars :: "nat list \<Rightarrow> string" where
  "text_of_chars cs = concat (map utf8_char cs)"

fun utf8_chars :: "string \<Rightarrow> nat list" where
  "utf8_chars [] = []"
| "utf8_chars (a # s) =
     (if ord a < 128 then ord a # utf8_chars s
      else case s of
        [] \<Rightarrow> []
      | b # s1 \<Rightarrow>
        (if ord a < 224 then ((ord a - 192) * 64 + (ord b - 128)) # utf8_chars s1
         else case s1 of
           [] \<Rightarrow> []
         | c # s2 \<Rightarrow>
           (if ord a < 240 then ((ord a - 224) * 4096 + (ord b - 128) * 64 + (ord c - 128)) # utf8_chars s2
            else case s2 of
              [] \<Rightarrow> []
            | d # s3 \<Rightarrow>
              ((ord a - 240) * 262144 + (ord b - 128) * 4096 + (ord c - 128) * 64 + (ord d - 128))
                # utf8_chars s3)))"

section \<open>Reading back what is written\<close>

lemma div_steps: "n div 4096 = n div 64 div (64 :: nat)" "n div 262144 = n div 64 div 64 div (64 :: nat)"
  by (simp_all add: div_mult2_eq [symmetric])

lemma parts_three: "n div 4096 * 4096 + n div 64 mod 64 * 64 + n mod 64 = (n :: nat)"
  using div_mult_mod_eq [of n 64] div_mult_mod_eq [of "n div 64" 64] unfolding div_steps by linarith

lemma parts_four: "n div 262144 * 262144 + n div 4096 mod 64 * 4096 + n div 64 mod 64 * 64 + n mod 64 = (n :: nat)"
  using div_mult_mod_eq [of n 64] div_mult_mod_eq [of "n div 64" 64] div_mult_mod_eq [of "n div 64 div 64" 64]
  unfolding div_steps by linarith

lemma utf8_chars_char:
  assumes "scalar_value n"
  shows "utf8_chars (utf8_char n @ s) = n # utf8_chars s"
proof -
  consider "n < 0x80" | "0x80 \<le> n" "n < 0x800" | "0x800 \<le> n" "n < 0x10000" | "0x10000 \<le> n" "n < 0x110000"
    using assms by (fastforce simp: scalar_value_def not_less [symmetric])
  then show ?thesis
  proof cases
    case 2
    then have "n div 64 < 32" "2 \<le> n div 64" by auto
    then show ?thesis using 2 by (simp add: utf8_char_def)
  next
    case 3
    then have "n div 4096 < 16" by auto
    then show ?thesis using 3 parts_three [of n] by (simp add: utf8_char_def)
  next
    case 4
    then have "n div 262144 < 5" by auto
    then show ?thesis using 4 parts_four [of n] by (simp add: utf8_char_def)
  qed (simp add: utf8_char_def)
qed

lemma utf8_chars_text [simp]: "list_all scalar_value cs \<Longrightarrow> utf8_chars (text_of_chars cs) = cs"
  by (induction cs) (simp_all add: text_of_chars_def utf8_chars_char)

lemma valid_utf8_char:
  assumes "scalar_value n"
  shows "valid_utf8 (utf8_char n @ s) = valid_utf8 s"
proof -
  consider "n < 0x80" | "0x80 \<le> n" "n < 0x800" | "0x800 \<le> n" "n < 0x10000" | "0x10000 \<le> n" "n < 0x110000"
    using assms by (fastforce simp: scalar_value_def not_less [symmetric])
  then show ?thesis
  proof cases
    case 2
    then have "n div 64 < 32" "2 \<le> n div 64" by auto
    then show ?thesis using 2 by (simp add: utf8_char_def cont_byte_def)
  next
    case 3
    then have "n div 4096 < 16" by auto
    moreover have "n div 4096 = 0 \<Longrightarrow> 32 \<le> n div 64 mod 64" using 3 by auto
    moreover have "n div 64 mod 64 < 32" if "n div 4096 = 13"
    proof -
      have "n < 0xD800" using that 3 assms by (auto simp: scalar_value_def)
      then show ?thesis using that div_mult_mod_eq [of "n div 64" 64] unfolding div_steps by linarith
    qed
    ultimately show ?thesis using 3 by (simp add: utf8_char_def cont_byte_def)
  next
    case 4
    then have "n div 262144 \<le> 4" by auto
    moreover have "n div 262144 = 0 \<Longrightarrow> 16 \<le> n div 4096 mod 64" using 4 by auto
    moreover have "n div 4096 mod 64 < 16" if "n div 262144 = 4"
      using that 4 div_mult_mod_eq [of "n div 64 div 64" 64] unfolding div_steps by linarith
    ultimately show ?thesis using 4 by (simp add: utf8_char_def cont_byte_def)
  qed (simp add: utf8_char_def)
qed

lemma valid_utf8_text: "list_all scalar_value cs \<Longrightarrow> valid_utf8 (text_of_chars cs)"
  by (induction cs) (simp_all add: text_of_chars_def valid_utf8_char)

text \<open>A well-formed string is the text of its characters.\<close>

lemma cont_byte_char: "cont_byte c \<Longrightarrow> \<exists>x < (64 :: nat). c = char_of (128 + x)"
  by (rule exI [of _ "ord c - 128"]) (auto simp: cont_byte_def)

lemma lead_byte_char: "k \<le> ord a \<Longrightarrow> ord a < k + m \<Longrightarrow> \<exists>y < (m :: nat). a = char_of (k + y)"
  by (rule exI [of _ "ord a - k"]) (simp flip: char_of_ord)

lemma radix64: "x < 64 \<Longrightarrow> (m * 64 + x) div 64 = m" "x < 64 \<Longrightarrow> (m * 64 + x) mod 64 = x" for x m :: nat
  by simp_all

lemma utf8_two: "2 \<le> y \<Longrightarrow> y < 32 \<Longrightarrow> x < 64 \<Longrightarrow>
    utf8_char (y * 64 + x) = [char_of (192 + y), char_of (128 + x)] \<and> scalar_value (y * 64 + x)"
  by (simp add: utf8_char_def scalar_value_def)

lemma utf8_three:
  assumes "z < 16" "y < 64" "x < 64" "z = 0 \<longrightarrow> 32 \<le> y" "z = 13 \<longrightarrow> y < 32"
  shows "utf8_char (z * 4096 + y * 64 + x) = [char_of (224 + z), char_of (128 + y), char_of (128 + x)]
    \<and> scalar_value (z * 4096 + y * 64 + x)"
proof -
  let ?n = "z * 4096 + y * 64 + x"
  have "0x800 \<le> ?n" "?n < 0x10000" using assms by linarith+
  moreover have "?n < 0xD800 \<or> 0xE000 \<le> ?n"
  proof -
    consider "z < 13" | "z = 13" | "14 \<le> z" by linarith
    then show ?thesis using assms by cases linarith+
  qed
  moreover have "?n div 64 = z * 64 + y" "?n mod 64 = x" using radix64 [of x "z * 64 + y"] assms(3) by (simp_all add: algebra_simps)
  then have "?n div 4096 = z" "?n div 64 mod 64 = y" "?n mod 64 = x"
    using radix64 [of y z] assms(2) by (simp_all add: div_steps)
  ultimately show ?thesis by (simp add: utf8_char_def scalar_value_def)
qed

lemma utf8_four:
  assumes "w < 5" "z < 64" "y < 64" "x < 64" "w = 0 \<longrightarrow> 16 \<le> z" "w = 4 \<longrightarrow> z < 16"
  shows "utf8_char (w * 262144 + z * 4096 + y * 64 + x)
      = [char_of (240 + w), char_of (128 + z), char_of (128 + y), char_of (128 + x)]
    \<and> scalar_value (w * 262144 + z * 4096 + y * 64 + x)"
proof -
  let ?n = "w * 262144 + z * 4096 + y * 64 + x"
  have "0x10000 \<le> ?n" using assms by linarith
  moreover have "?n < 0x110000"
  proof (cases "w = 4")
    case False
    then have "w \<le> 3" using assms(1) by linarith
    then show ?thesis using assms by linarith
  qed (use assms in linarith)
  moreover have "?n div 64 = (w * 64 + z) * 64 + y" "?n mod 64 = x"
    using radix64 [of x "(w * 64 + z) * 64 + y"] assms(4) by (simp_all add: algebra_simps)
  then have "?n div 262144 = w" "?n div 4096 mod 64 = z" "?n div 64 mod 64 = y" "?n mod 64 = x"
    using radix64 [of y "w * 64 + z"] radix64 [of z w] assms(2,3) by (simp_all add: div_steps)
  ultimately show ?thesis by (simp add: utf8_char_def scalar_value_def)
qed

lemma valid_utf8_cases:
  assumes "valid_utf8 s" and "s \<noteq> []"
  shows "\<exists>n t. s = utf8_char n @ t \<and> scalar_value n"
proof -
  obtain a r where s: "s = a # r" using assms(2) by (cases s) auto
  then consider "ord a < 128"
    | b t where "r = b # t" "194 \<le> ord a" "ord a < 224" "cont_byte b"
    | b c t where "r = b # c # t" "224 \<le> ord a" "ord a < 240" "cont_byte b" "cont_byte c"
        "ord a = 224 \<longrightarrow> 160 \<le> ord b" "ord a = 237 \<longrightarrow> ord b < 160"
    | b c d t where "r = b # c # d # t" "240 \<le> ord a" "ord a < 245" "cont_byte b" "cont_byte c" "cont_byte d"
        "ord a = 240 \<longrightarrow> 144 \<le> ord b" "ord a = 244 \<longrightarrow> ord b < 144"
    using assms(1) by (auto split: list.splits if_splits)
  then show ?thesis
  proof cases
    case 1
    then have "s = utf8_char (ord a) @ r \<and> scalar_value (ord a)" by (simp add: s utf8_char_def scalar_value_def)
    then show ?thesis by blast
  next
    case 2
    obtain y :: nat where y: "y < 32" "a = char_of (192 + y)" using 2(2,3) lead_byte_char [of 192 a 32] by auto
    obtain x :: nat where x: "x < 64" "b = char_of (128 + x)" using cont_byte_char [OF 2(4)] by auto
    have "2 \<le> y" using 2(2) y by simp
    then have "s = utf8_char (y * 64 + x) @ t \<and> scalar_value (y * 64 + x)"
      using utf8_two [of y x] by (simp add: s 2(1) x y)
    then show ?thesis by blast
  next
    case 3
    obtain z :: nat where z: "z < 16" "a = char_of (224 + z)" using 3(2,3) lead_byte_char [of 224 a 16] by auto
    obtain y :: nat where y: "y < 64" "b = char_of (128 + y)" using cont_byte_char [OF 3(4)] by auto
    obtain x :: nat where x: "x < 64" "c = char_of (128 + x)" using cont_byte_char [OF 3(5)] by auto
    have "z = 0 \<longrightarrow> 32 \<le> y" "z = 13 \<longrightarrow> y < 32" using 3(6,7) z y by auto
    then have "s = utf8_char (z * 4096 + y * 64 + x) @ t \<and> scalar_value (z * 4096 + y * 64 + x)"
      using utf8_three [of z y x] by (simp add: s 3(1) x y z)
    then show ?thesis by blast
  next
    case 4
    obtain w :: nat where w: "w < 5" "a = char_of (240 + w)" using 4(2,3) lead_byte_char [of 240 a 5] by auto
    obtain z :: nat where z: "z < 64" "b = char_of (128 + z)" using cont_byte_char [OF 4(4)] by auto
    obtain y :: nat where y: "y < 64" "c = char_of (128 + y)" using cont_byte_char [OF 4(5)] by auto
    obtain x :: nat where x: "x < 64" "d = char_of (128 + x)" using cont_byte_char [OF 4(6)] by auto
    have "w = 0 \<longrightarrow> 16 \<le> z" "w = 4 \<longrightarrow> z < 16" using 4(7,8) w z by auto
    then have "s = utf8_char (w * 262144 + z * 4096 + y * 64 + x) @ t \<and> scalar_value (w * 262144 + z * 4096 + y * 64 + x)"
      using utf8_four [of w z y x] by (simp add: s 4(1) x y z w)
    then show ?thesis by blast
  qed
qed

lemma utf8_char_nonempty: "utf8_char n \<noteq> []"
  by (simp add: utf8_char_def)

lemma text_of_chars_chars:
  "valid_utf8 s \<Longrightarrow> text_of_chars (utf8_chars s) = s \<and> list_all scalar_value (utf8_chars s)"
proof (induction "length s" arbitrary: s rule: less_induct)
  case less
  show ?case
  proof (cases "s = []")
    case False
    then obtain n t where s: "s = utf8_char n @ t" and n: "scalar_value n"
      using valid_utf8_cases [OF less.prems] by blast
    have "valid_utf8 t" using less.prems n by (simp add: s valid_utf8_char)
    moreover have "length t < length s" using utf8_char_nonempty [of n] by (simp add: s)
    ultimately have "text_of_chars (utf8_chars t) = t \<and> list_all scalar_value (utf8_chars t)" by (simp add: less.hyps)
    then show ?thesis using n by (simp add: s utf8_chars_char text_of_chars_def)
  qed (simp add: text_of_chars_def)
qed

end
