(* ===== verification/Conversion_Plan.thy ===== *)
theory Conversion_Plan
  imports Logical_Type Apply_Errors Utf8
begin

text \<open>
  The saved conversion plan of a column in \<^verbatim>\<open>crates/change_event/src/compatibility.rs\<close>: its record and
  digest, the parameters it carries and the failure that a value makes of it. What a serialiser writes
  and reads is the parameter \<open>plan_json\<close>.
\<close>

section \<open>The plan\<close>

record DefinitionReference =
  dr_lineage_id :: string
  dr_schema_fingerprint :: string

record TargetRepresentation =
  tr_native_type :: string
  tr_parameters :: "(string \<times> string) list"

datatype RiskLevel = Risk_None | Risk_Low | Risk_Medium | Risk_High | Risk_Critical

record LossAssessment =
  la_value :: bool
  la_comparison :: bool
  la_ordering :: bool
  la_constraints :: bool
  la_explanation :: string

record ConversionExample =
  ce_source :: string
  ce_target :: string

datatype LocatorImpact = Loc_Preserved | Loc_NotUsed | Loc_ValueOnly | Loc_Blocked

datatype PlanConfirmationState = Conf_NotRequired | Conf_Required | Conf_Confirmed

datatype FailurePolicy = Policy_Reject | Policy_RetryTransaction | Policy_ResolveCommitUnknown

record ColumnConversionPlan =
  pl_format :: string
  pl_route_id :: string
  pl_configuration_revision :: string
  pl_source_field :: DefinitionReference
  pl_target_field :: DefinitionReference
  pl_source_connector :: ConnectorIdentity
  pl_sink_connector :: ConnectorIdentity
  pl_source_build :: "ServerBuildIdentity option"
  pl_target_build :: "ServerBuildIdentity option"
  pl_source_mapping_id :: string
  pl_source_mapping_version :: string
  pl_target :: TargetRepresentation
  pl_rule :: RuleReference
  pl_rule_digest :: string
  pl_capability_code :: string
  pl_capability_manifest_digest :: string
  pl_target_probe_digest :: "string option"
  pl_qualification :: QualificationLevel
  pl_risk :: RiskLevel
  pl_risk_code :: "string option"
  pl_loss :: LossAssessment
  pl_examples :: "ConversionExample list"
  pl_locator_impact :: LocatorImpact
  pl_confirmation :: PlanConfirmationState
  pl_parameters :: "(string \<times> string) list"
  pl_failure_policy :: FailurePolicy
  pl_input_digest :: string
  pl_plan_digest :: string

record RiskConfirmation =
  rk_source_field_lineage :: string
  rk_target_field_lineage :: string
  rk_rule :: RuleReference
  rk_plan_digest :: string
  rk_actor :: string
  rk_confirmed_at :: string
  rk_reason :: "string option"

text \<open>The serialisers that plans are written and read with. A document that is not of the type it is
  read as is \<open>None\<close>. The quoted form \<^verbatim>\<open>{:?}\<close> of a string, which only messages contain, rests on the
  Unicode tables and is the parameter \<open>pj_debug\<close>.\<close>

record plan_json =
  pj_value :: "LogicalValue \<Rightarrow> bytes"
  pj_envelope :: "SourceRepresentationEnvelope \<Rightarrow> bytes"
  pj_type :: "LogicalType \<Rightarrow> bytes"
  pj_type_of :: "string \<Rightarrow> LogicalType option"
  pj_metadata :: "(string \<times> string) list \<Rightarrow> bytes"
  pj_metadata_of :: "string \<Rightarrow> (string \<times> string) list option"
  pj_keys :: "string list \<Rightarrow> bytes"
  pj_keys_of :: "string \<Rightarrow> string list option"
  pj_members_of :: "string \<Rightarrow> string list option"
  pj_string :: "string \<Rightarrow> string"
  pj_double :: "u64 \<Rightarrow> string"
  pj_debug :: "string \<Rightarrow> string"
  pj_plan :: "ColumnConversionPlan \<Rightarrow> bytes"

text \<open>The digest covers the plan but its own digest and the state of its confirmation.\<close>

definition digest_input :: "ColumnConversionPlan \<Rightarrow> ColumnConversionPlan" where
  "digest_input p = p\<lparr>pl_confirmation := Conf_NotRequired, pl_plan_digest := []\<rparr>"

definition computed_digest :: "codec \<Rightarrow> plan_json \<Rightarrow> ColumnConversionPlan \<Rightarrow> string" where
  "computed_digest C J p = hex_lower (sha256 C (pj_plan J (digest_input p)))"

definition verify_digest :: "codec \<Rightarrow> plan_json \<Rightarrow> ColumnConversionPlan \<Rightarrow> bool" where
  "verify_digest C J p \<longleftrightarrow> pl_plan_digest p = computed_digest C J p"

definition confirmation_matches :: "ColumnConversionPlan \<Rightarrow> RiskConfirmation \<Rightarrow> bool" where
  "confirmation_matches p k \<longleftrightarrow>
     rk_source_field_lineage k = dr_lineage_id (pl_source_field p)
     \<and> rk_target_field_lineage k = dr_lineage_id (pl_target_field p)
     \<and> rk_rule k = pl_rule p \<and> rk_plan_digest k = pl_plan_digest p"

section \<open>Parameters and failures\<close>

definition target_parameter :: "ColumnConversionPlan \<Rightarrow> string \<Rightarrow> string option" where
  "target_parameter p name = bt_get (tr_parameters (pl_target p)) name"

definition route_parameter :: "ColumnConversionPlan \<Rightarrow> string \<Rightarrow> string option" where
  "route_parameter p name = bt_get (pl_parameters p) name"

definition plan_parameter :: "ColumnConversionPlan \<Rightarrow> string \<Rightarrow> string option" where
  "plan_parameter p name =
     (case route_parameter p name of Some v \<Rightarrow> Some v | None \<Rightarrow> target_parameter p name)"

definition plan_failure :: "ColumnConversionPlan \<Rightarrow> string \<Rightarrow> string \<Rightarrow> TargetCapabilityFailure" where
  "plan_failure p code message =
     (with_plan_digest (pl_plan_digest p) (with_route (pl_route_id p)
        (with_code code (tcf_new (utf8_chars message)))))
     \<lparr>tcf_source_field_lineage := Some (dr_lineage_id (pl_source_field p)),
      tcf_target_field_lineage := Some (dr_lineage_id (pl_target_field p)),
      tcf_source_definition_fingerprint := Some (dr_schema_fingerprint (pl_source_field p)),
      tcf_target_definition_fingerprint := Some (dr_schema_fingerprint (pl_target_field p)),
      tcf_target_server_build := pl_target_build p,
      tcf_capability_identity := Some (pl_capability_code p),
      tcf_conversion_rule := Some (pl_rule p),
      tcf_qualification := Some (pl_qualification p),
      tcf_risk_code := pl_risk_code p,
      tcf_phase := FP_Conversion\<rparr>"

text \<open>The codes of this file have a common prefix.\<close>

definition capability :: "string \<Rightarrow> string" where
  "capability name = ''target_capability.'' @ name"

abbreviation plan_fails :: "ColumnConversionPlan \<Rightarrow> string \<Rightarrow> string \<Rightarrow> TargetCapabilityFailure + 'a" where
  "plan_fails p name message \<equiv> Err (plan_failure p (capability name) message)"

abbreviation plan_needs ::
  "ColumnConversionPlan \<Rightarrow> bool \<Rightarrow> string \<Rightarrow> string \<Rightarrow> TargetCapabilityFailure + unit" where
  "plan_needs p b name message \<equiv> require b (plan_failure p (capability name) message)"

abbreviation plan_some ::
  "ColumnConversionPlan \<Rightarrow> 'a option \<Rightarrow> string \<Rightarrow> string \<Rightarrow> TargetCapabilityFailure + 'a" where
  "plan_some p v name message \<equiv> ok_or v (plan_failure p (capability name) message)"

text \<open>Arithmetic of a signed width, which wraps around.\<close>

definition wrap :: "nat \<Rightarrow> int \<Rightarrow> int" where
  "wrap w n = signed_take_bit (w - 1) n"

text \<open>A parameter that is \<^verbatim>\<open>true\<close> or \<^verbatim>\<open>false\<close>.\<close>

definition parse_flag :: "string \<Rightarrow> bool option" where
  "parse_flag s = (if s = ''true'' then Some True else if s = ''false'' then Some False else None)"

definition parsed_parameter :: "ColumnConversionPlan \<Rightarrow> string \<Rightarrow> (string \<Rightarrow> 'a option) \<Rightarrow> 'a option" where
  "parsed_parameter p name f = Option.bind (target_parameter p name) f"

end
