(* ===== verification/Plan_Text.thy ===== *)
theory Plan_Text
  imports Conversion_Plan Canonical
begin

text \<open>
  Character sets and normalised JSON in \<^verbatim>\<open>crates/change_event/src/compatibility.rs\<close>: how the captured bytes
  of a text become characters, how characters become bytes of the target, and the text of a JSON value.
\<close>

section \<open>Character sets\<close>

definition utf8_names :: "string list" where
  "utf8_names = [''utf8'', ''utf8mb4'', ''utf-8'']"

definition latin1_names :: "string list" where
  "latin1_names = [''latin1'', ''iso-8859-1'']"

definition decode_bytes :: "string \<Rightarrow> bytes \<Rightarrow> string + string" where
  "decode_bytes normalized bs =
     (if normalized \<in> set utf8_names then
        if valid_utf8 bs then Ok bs else Err (capability ''text_encoding_invalid'')
      else if normalized = ''ascii'' then
        if list_ex (\<lambda>c. 127 < ord c) bs then Err (capability ''text_encoding_invalid'')
        else Ok (text_of_chars (map ord bs))
      else if normalized \<in> set latin1_names then Ok (text_of_chars (map ord bs))
      else Err (capability ''text_charset_unsupported''))"

definition decode_supported_text :: "string \<Rightarrow> bytes \<Rightarrow> string option \<Rightarrow> string + string" where
  "decode_supported_text charset bs declared_text =
     (let normalized = to_ascii_lowercase charset in
      and_then (decode_bytes normalized bs) (\<lambda>v.
      case declared_text of
        Some t \<Rightarrow>
          if normalized \<in> set utf8_names \<and> t \<noteq> v then Err (capability ''text_encoding_invalid'') else Ok v
      | None \<Rightarrow> Ok v))"

definition encode_supported_text :: "string \<Rightarrow> string \<Rightarrow> string + bytes" where
  "encode_supported_text charset s =
     (let normalized = to_ascii_lowercase charset in
      if normalized \<in> {''utf8'', ''utf-8''} then
        if list_ex (\<lambda>c. 3 < length (utf8_char c)) (utf8_chars s)
        then Err (capability ''text_character_unrepresentable'') else Ok s
      else if normalized = ''utf8mb4'' then Ok s
      else if normalized = ''ascii'' then
        if list_ex (\<lambda>c. 127 < c) (utf8_chars s)
        then Err (capability ''text_character_unrepresentable'') else Ok s
      else if normalized \<in> set latin1_names then
        map_result (\<lambda>c. if c < 256 then Ok (char_of c) else Err (capability ''text_character_unrepresentable''))
          (utf8_chars s)
      else Err (capability ''text_charset_unsupported''))"

section \<open>Normalised JSON\<close>

text \<open>A leading sign is stripped once.\<close>

definition strip_sign :: "string \<Rightarrow> string" where
  "strip_sign s = (case s of c # cs \<Rightarrow> if c \<in> {CHR ''-'', CHR ''+''} then cs else s | [] \<Rightarrow> s)"

definition whole_digits :: "string \<Rightarrow> string" where
  "whole_digits digits = (let d = dropWhile zero_char digits in if d = [] then ''0'' else d)"

definition minus_of :: "string \<Rightarrow> string" where
  "minus_of s = (if starts_with ''-'' s then ''-'' else [])"

definition normalized_integer :: "string \<Rightarrow> bool \<Rightarrow> string + string" where
  "normalized_integer s is_signed =
     (let digits = strip_sign s in
      if digits = [] \<or> \<not> list_all is_ascii_digit digits then Err ''invalid JSON integer''
      else if \<not> is_signed \<and> starts_with ''-'' s then Err ''unsigned JSON integer is negative''
      else Ok (minus_of s @ whole_digits digits))"

definition normalized_decimal :: "string \<Rightarrow> nat \<Rightarrow> string + string" where
  "normalized_decimal unscaled scale =
     (let digits = strip_sign unscaled in
      if digits = [] \<or> \<not> list_all is_ascii_digit digits then Err ''invalid JSON decimal''
      else if scale = 0 then Ok (minus_of unscaled @ whole_digits digits)
      else
        let split = length digits - scale;
            (whole, fraction) =
              (if split = 0 then (''0'', replicate (scale - length digits) CHR ''0'' @ digits)
               else (take split digits, drop split digits)) in
        Ok (minus_of unscaled @ whole_digits whole @ ''.'' @ fraction))"

text \<open>The classes of a binary64 pattern.\<close>

definition is_finite_f64 :: "u64 \<Rightarrow> bool" where
  "is_finite_f64 raw \<longleftrightarrow> unat (take_bit 11 (drop_bit 52 raw)) \<noteq> 2047"

definition normalized_double :: "plan_json \<Rightarrow> string \<Rightarrow> string + string" where
  "normalized_double J s =
     (if length s \<noteq> 16 \<or> \<not> list_all is_ascii_hexdigit s then Err ''invalid JSON double bit pattern''
      else case parse_hex 64 s of
        None \<Rightarrow> Err ''invalid JSON double bit pattern''
      | Some n \<Rightarrow>
          let raw = of_nat n in
          if \<not> is_finite_f64 raw then Err ''JSON text cannot represent a non-finite number''
          else if raw = 0x8000000000000000 then Ok ''-0.0''
          else Ok (pj_double J raw))"

fun adjacent_equal :: "'a list \<Rightarrow> bool" where
  "adjacent_equal (x # y # xs) = (x = y \<or> adjacent_equal (y # xs))"
| "adjacent_equal _ = False"

function render_normalized_json :: "plan_json \<Rightarrow> JsonValue \<Rightarrow> string + string" where
  "render_normalized_json J v =
     (case v of
        JV_Null \<Rightarrow> Ok ''null''
      | JV_Boolean b \<Rightarrow> Ok (if b then ''true'' else ''false'')
      | JV_String s \<Rightarrow> Ok (pj_string J s)
      | JV_SignedInteger s \<Rightarrow> normalized_integer s True
      | JV_UnsignedInteger s \<Rightarrow> normalized_integer s False
      | JV_DoubleBits s \<Rightarrow> normalized_double J s
      | JV_Decimal unscaled scale \<Rightarrow> normalized_decimal unscaled scale
      | JV_Array vs \<Rightarrow>
          and_then (map_result (render_normalized_json J) vs) (\<lambda>ss. Ok (''['' @ join_with '','' ss @ '']''))
      | JV_Object entries \<Rightarrow>
          let es = sort_key je_key entries in
          if adjacent_equal (map je_key es) then Err ''duplicate JSON object key''
          else and_then (map_result (\<lambda>e.
                 and_then (render_normalized_json J (je_value e)) (\<lambda>s. Ok (pj_string J (je_key e) @ '':'' @ s))) es) (\<lambda>ss.
               Ok (''{'' @ join_with '','' ss @ ''}'')))"
  by pat_completeness auto

termination
  by (relation "measure (\<lambda>(J, v). size v)") (auto simp: size_member size_je_value)

declare render_normalized_json.simps [simp del]

end
