(* ===== verification/Plan_Values.thy ===== *)
theory Plan_Values
  imports Plan_Text
begin

text \<open>
  The checks of a captured value against the saved plan of its column, one for each rule, in
  \<^verbatim>\<open>crates/change_event/src/compatibility.rs\<close>. A parameter of the plan is text, and what is not readable
  is an error of its own.
\<close>

section \<open>Numbers\<close>

text \<open>A coefficient that is not a number is accepted when the target lists it.\<close>

definition validate_decimal_special_value ::
  "ColumnConversionPlan \<Rightarrow> LogicalValue \<Rightarrow> TargetCapabilityFailure + bool" where
  "validate_decimal_special_value p v =
     (case v of
        LV_Decimal unscaled scale \<Rightarrow>
          if unscaled \<notin> {''NaN'', ''Infinity'', ''-Infinity''} then Ok False
          else and_then (plan_needs p (\<not> (unscaled = ''NaN'' \<and> scale \<noteq> 0)) ''decimal_invalid''
                 ''NaN must use scale zero'') (\<lambda>_.
               if (case target_parameter p ''decimal_special_values'' of None \<Rightarrow> False
                   | Some s \<Rightarrow> list_ex (\<lambda>t. trim t = unscaled) (split_on CHR '','' s))
               then Ok True
               else plan_fails p ''decimal_special_value_unsupported''
                 (''the selected target representation does not support Decimal '' @ unscaled))
      | _ \<Rightarrow> Ok False)"

definition integer_widths :: "nat list" where
  "integer_widths = [8, 16, 24, 32, 64]"

text \<open>The range of the integers of a width.\<close>

definition integer_bounds :: "bool \<Rightarrow> nat \<Rightarrow> int \<times> int" where
  "integer_bounds is_signed bits =
     (if is_signed then (- (2 ^ (bits - 1)), 2 ^ (bits - 1) - 1) else (0, 2 ^ bits - 1))"

definition validate_integer_plan_value ::
  "ColumnConversionPlan \<Rightarrow> LogicalValue \<Rightarrow> TargetCapabilityFailure + unit" where
  "validate_integer_plan_value p v =
     (case v of
        LV_Integer is_signed bits s \<Rightarrow>
          and_then (plan_some p (parsed_parameter p ''target_signed'' parse_flag)
            ''integer_range_missing'' ''integer range metadata is incomplete'') (\<lambda>target_signed.
          and_then (plan_some p (parsed_parameter p ''target_bits'' (parse_unsigned 8))
            ''integer_range_missing'' ''integer target width is missing'') (\<lambda>target_bits.
          and_then (plan_needs p (target_bits \<in> set integer_widths)
            ''integer_range_invalid'' ''integer target width is not qualified'') (\<lambda>_.
          and_then (plan_some p (parsed_parameter p ''target_min'' (parse_signed 128))
            ''integer_range_missing'' ''integer lower bound is missing'') (\<lambda>saved_minimum.
          and_then (plan_some p (parsed_parameter p ''target_max'' (parse_signed 128))
            ''integer_range_missing'' ''integer upper bound is missing'') (\<lambda>saved_maximum.
          and_then (plan_some p (parsed_parameter p ''source_signed'' parse_flag)
            ''integer_range_missing'' ''integer source signedness is missing'') (\<lambda>source_signed.
          and_then (plan_some p (parsed_parameter p ''source_bits'' (parse_unsigned 8))
            ''integer_range_missing'' ''integer source width is missing'') (\<lambda>source_bits.
          and_then (plan_needs p (source_bits \<in> set integer_widths \<and> is_signed = source_signed \<and> unat bits = source_bits)
            ''integer_source_shape_mismatch'' ''captured integer metadata differs from the saved source shape'') (\<lambda>_.
          and_then (plan_needs p (is_signed \<or> \<not> starts_with ''-'' s)
            ''integer_overflow'' ''a negative value cannot be written to an unsigned target'') (\<lambda>_.
          and_then (plan_some p (parse_signed 128 s) ''integer_invalid''
            (if is_signed then ''signed integer value is invalid'' else ''unsigned integer value is invalid'')) (\<lambda>parsed.
          let (minimum, maximum) = integer_bounds target_signed target_bits in
          and_then (plan_needs p (saved_minimum = minimum \<and> saved_maximum = maximum)
            ''integer_range_invalid'' ''saved integer bounds do not match the target width and signedness'') (\<lambda>_.
          plan_needs p (minimum \<le> parsed \<and> parsed \<le> maximum)
            ''integer_overflow'' ''integer value is outside the fixed target range'')))))))))))
      | _ \<Rightarrow> plan_fails p ''integer_type_mismatch'' ''the captured value is not an integer'')"

definition plan_decimal_digits :: "string \<Rightarrow> string option" where
  "plan_decimal_digits s =
     (let digits = strip_sign s in if digits \<noteq> [] \<and> list_all is_ascii_digit digits then Some digits else None)"

definition in_i32 :: "int \<Rightarrow> bool" where
  "in_i32 n \<longleftrightarrow> - (2 ^ 31) \<le> n \<and> n < 2 ^ 31"

definition expected_integer_digits :: "nat \<Rightarrow> int \<Rightarrow> nat option" where
  "expected_integer_digits precision scale =
     (if in_i32 (int precision) \<and> in_i32 (int precision - scale) then Some (nat (max (int precision - scale) 0))
      else None)"

text \<open>The digits that a smaller scale would discard, and the digits before the decimal point. Lengths
  stay below the limits at which the additions of the source would saturate.\<close>

definition discarded_digits :: "string \<Rightarrow> nat \<Rightarrow> string" where
  "discarded_digits digits discarded =
     (let padded = replicate (max (length digits) discarded - length digits) CHR ''0'' @ digits in
      drop (length padded - discarded) padded)"

definition count_integer_digits :: "string \<Rightarrow> int \<Rightarrow> nat" where
  "count_integer_digits digits scale =
     (if 0 \<le> scale then length (dropWhile zero_char (take (length digits - nat scale) digits))
      else
        let significant_digits = length (dropWhile zero_char digits) in
        if significant_digits = 0 then 0 else significant_digits + nat (- scale))"

definition decimal_value_fits ::
  "ColumnConversionPlan \<Rightarrow> string \<Rightarrow> int \<Rightarrow> int \<Rightarrow> nat \<Rightarrow> TargetCapabilityFailure + unit" where
  "decimal_value_fits p digits scale target_scale target_integer_digits =
     and_then (if scale \<le> target_scale then Ok ()
       else
         and_then (plan_needs p (in_i32 (scale - target_scale)) ''decimal_scale_mismatch''
           ''Decimal scale difference is outside the supported target range'') (\<lambda>_.
         plan_needs p (list_all zero_char (discarded_digits digits (nat (scale - target_scale))))
           ''decimal_rounding_required'' ''Decimal scale reduction would require rounding'')) (\<lambda>_.
     plan_needs p (count_integer_digits digits scale \<le> target_integer_digits)
       ''decimal_overflow'' ''Decimal value is outside the target precision'')"

definition validate_decimal_plan_value ::
  "ColumnConversionPlan \<Rightarrow> LogicalValue \<Rightarrow> TargetCapabilityFailure + unit" where
  "validate_decimal_plan_value p v =
     (case v of
        LV_Decimal unscaled scale \<Rightarrow>
          and_then (plan_some p (parsed_parameter p ''source_precision'' (parse_unsigned 64))
            ''decimal_range_missing'' ''Decimal source precision is missing'') (\<lambda>source_precision.
          and_then (plan_some p (parsed_parameter p ''source_scale'' (parse_signed 32))
            ''decimal_range_missing'' ''Decimal source scale is missing'') (\<lambda>source_scale.
          and_then (plan_needs p (source_precision \<noteq> 0 \<and> -1000 \<le> source_scale \<and> source_scale \<le> 1000)
            ''decimal_range_invalid'' ''Decimal source precision and scale are invalid'') (\<lambda>_.
          and_then (plan_needs p (scale = source_scale \<or> (source_scale < 0 \<and> scale = 0) \<or> unscaled = ''NaN'')
            ''decimal_scale_mismatch'' ''Decimal value scale differs from the planned source scale'') (\<lambda>_.
          and_then (plan_some p (parsed_parameter p ''target_precision'' (parse_unsigned 64))
            ''decimal_range_missing'' ''Decimal target precision is missing'') (\<lambda>target_precision.
          and_then (plan_some p (parsed_parameter p ''target_scale'' (parse_signed 32))
            ''decimal_range_missing'' ''Decimal target scale is missing'') (\<lambda>target_scale.
          and_then (plan_some p (parsed_parameter p ''target_integer_digits'' (parse_unsigned 64))
            ''decimal_range_missing'' ''Decimal target integer width is missing'') (\<lambda>target_integer_digits.
          and_then (plan_needs p (target_precision \<noteq> 0 \<and> -1000 \<le> target_scale \<and> target_scale \<le> 1000
              \<and> expected_integer_digits target_precision target_scale = Some target_integer_digits)
            ''decimal_range_invalid'' ''Decimal target precision and scale are invalid'') (\<lambda>_.
          and_then (validate_decimal_special_value p v) (\<lambda>special.
          if special then Ok ()
          else
            and_then (plan_some p (plan_decimal_digits unscaled) ''decimal_invalid'' ''Decimal unscaled value is invalid'') (\<lambda>digits.
            decimal_value_fits p digits scale target_scale target_integer_digits))))))))))
      | _ \<Rightarrow> plan_fails p ''decimal_type_mismatch'' ''the captured value is not a Decimal'')"

text \<open>A binary64 number is \<open>f64_significand * 2 ^ (f64_exponent)\<close> up to its sign. The cast to binary32 rounds
  to the nearest multiple of the smallest step of the target, ties to the even one; a result of
  \<open>2 ^ 128\<close> or more is infinite. The cast is exact if the rounded significand stands for the same number.\<close>

definition f64_field :: "u64 \<Rightarrow> nat" where
  "f64_field raw = unat (take_bit 11 (drop_bit 52 raw))"

definition f64_significand :: "u64 \<Rightarrow> nat" where
  "f64_significand raw = (if f64_field raw = 0 then 0 else 2 ^ 52) + unat (take_bit 52 raw)"

definition f64_exponent :: "u64 \<Rightarrow> int" where
  "f64_exponent raw = (if f64_field raw = 0 then 1 else int (f64_field raw)) - 1075"

text \<open>The number of bits below the step, and the rounded multiple of the step.\<close>

definition narrow_shift :: "u64 \<Rightarrow> nat" where
  "narrow_shift raw = nat (max 29 (-149 - f64_exponent raw))"

definition round_half_even :: "nat \<Rightarrow> nat \<Rightarrow> nat" where
  "round_half_even n d =
     (let q = n div d; r = n mod d in if 2 * r < d \<or> (2 * r = d \<and> even q) then q else q + 1)"

definition narrowed_significand :: "u64 \<Rightarrow> nat" where
  "narrowed_significand raw = round_half_even (f64_significand raw) (2 ^ narrow_shift raw)"

definition narrowed_finite :: "u64 \<Rightarrow> bool" where
  "narrowed_finite raw \<longleftrightarrow>
     narrowed_significand raw * 2 ^ nat (f64_exponent raw + int (narrow_shift raw) + 149) < 2 ^ (128 + 149)"

definition narrows_exactly :: "u64 \<Rightarrow> bool" where
  "narrows_exactly raw \<longleftrightarrow>
     is_finite_f64 raw \<and> narrowed_finite raw
     \<and> narrowed_significand raw * 2 ^ narrow_shift raw = f64_significand raw"

definition validate_float_plan_value ::
  "ColumnConversionPlan \<Rightarrow> LogicalValue \<Rightarrow> TargetCapabilityFailure + unit" where
  "validate_float_plan_value p v =
     (case v of
        LV_Float bits ieee754_hex \<Rightarrow>
          and_then (plan_some p (parsed_parameter p ''target_bits'' (parse_unsigned 8))
            ''float_range_missing'' ''floating-point target width is missing'') (\<lambda>target_bits.
          and_then (plan_some p (parsed_parameter p ''source_bits'' (parse_unsigned 8))
            ''float_range_missing'' ''floating-point source width is missing'') (\<lambda>source_bits.
          and_then (plan_needs p
              (unat bits = source_bits \<and> source_bits = 64 \<and> target_bits = 32 \<and> length ieee754_hex = 16)
            ''float_range_invalid'' ''floating-point range rule does not match the captured value'') (\<lambda>_.
          and_then (plan_some p (parse_hex 64 ieee754_hex)
            ''float_invalid'' ''floating-point bit pattern is invalid'') (\<lambda>raw.
          plan_needs p (narrows_exactly (of_nat raw))
            ''float_rounding_or_overflow'' ''floating-point conversion would round or overflow''))))
      | _ \<Rightarrow> plan_fails p ''float_type_mismatch'' ''the captured value is not floating point'')"

section \<open>Binary strings and bit strings\<close>

definition optional_length :: "string option \<Rightarrow> (nat option) option" where
  "optional_length v =
     (case v of
        None \<Rightarrow> Some None
      | Some s \<Rightarrow> if s = ''unbounded'' then Some None else map_option Some (parse_unsigned 64 s))"

definition binary_fits :: "ColumnConversionPlan \<Rightarrow> bytes \<Rightarrow> nat \<Rightarrow> bool" where
  "binary_fits p bs len \<longleftrightarrow>
     \<not> (len < length bs
        \<or> plan_parameter p ''target_fixed'' = Some ''true'' \<and> length bs < len
          \<and> plan_parameter p ''target_padding'' = Some ''none'')"

definition validate_binary_plan_value ::
  "codec \<Rightarrow> ColumnConversionPlan \<Rightarrow> LogicalValue \<Rightarrow> TargetCapabilityFailure + unit" where
  "validate_binary_plan_value C p v =
     (case v of
        LV_Binary encoded \<Rightarrow>
          and_then (plan_needs p (plan_parameter p ''binary_encoding'' = Some ''raw_bytes'') ''binary_encoding_invalid''
            ''binary values require the raw_bytes representation; text or base64 text is not implicit'') (\<lambda>_.
          and_then (plan_some p (b64_decode C encoded) ''binary_format_invalid''
            ''the binary value is not valid base64url bytes'') (\<lambda>bs.
          and_then (plan_some p (optional_length (plan_parameter p ''target_length'')) ''binary_length_invalid''
            ''the saved binary target length is invalid'') (\<lambda>target_length.
          and_then (plan_needs p (case target_length of None \<Rightarrow> True | Some n \<Rightarrow> binary_fits p bs n)
            ''binary_length_out_of_range''
            ''binary bytes do not fit the saved target length or padding policy'') (\<lambda>_.
          plan_needs p
            (case optional_length (plan_parameter p ''source_length'') of
               Some (Some n) \<Rightarrow>
                 length bs \<le> n
                 \<and> (plan_parameter p ''source_fixed'' = Some ''true'' \<longrightarrow> length bs = n)
             | _ \<Rightarrow> True)
            ''binary_source_length_invalid'' ''binary bytes do not match the saved source length semantics''))))
      | _ \<Rightarrow> plan_fails p ''binary_type_mismatch'' ''the binary conversion plan received a non-binary value'')"

definition parse_bit_order :: "string option \<Rightarrow> BitOrder option" where
  "parse_bit_order v =
     (if v = Some ''msb_first'' then Some MsbFirst else if v = Some ''lsb_first'' then Some LsbFirst else None)"

definition parse_bit_padding :: "string option \<Rightarrow> BitPadding option" where
  "parse_bit_padding v =
     (if v = Some ''none'' then Some Pad_None else if v = Some ''zero'' then Some Pad_Zero
      else if v = Some ''one'' then Some Pad_One else None)"

text \<open>The number of padding bits in the last byte.\<close>

definition unused_count :: "nat \<Rightarrow> nat" where
  "unused_count bit_length = (8 - bit_length mod 8) mod 8"

definition padding_bits_ok :: "bytes \<Rightarrow> nat \<Rightarrow> BitOrder \<Rightarrow> BitPadding \<Rightarrow> bool" where
  "padding_bits_ok raw unused bit_order padding \<longleftrightarrow>
     of_char (raw ! (length raw - 1)) AND bit_mask_unused bit_order unused
     = (if padding = Pad_One then bit_mask_unused bit_order unused else 0)"

definition validate_bit_string_plan_value ::
  "codec \<Rightarrow> ColumnConversionPlan \<Rightarrow> LogicalValue \<Rightarrow> TargetCapabilityFailure + unit" where
  "validate_bit_string_plan_value C p v =
     (case v of
        LV_BitString encoded bit_length padding bit_order \<Rightarrow>
          and_then (plan_some p (case plan_parameter p ''source_bit_length'' of Some s \<Rightarrow> Some s
              | None \<Rightarrow> plan_parameter p ''target_bit_length'')
            ''bit_string_length_missing'' ''the bit string plan does not declare a target bit length'') (\<lambda>declared.
          and_then (plan_some p (parse_unsigned 64 declared)
            ''bit_string_length_invalid'' ''the saved bit string length is invalid'') (\<lambda>expected_length.
          and_then (plan_needs p (unat bit_length = expected_length)
            ''bit_string_length_mismatch'' ''bit string length differs from the qualified target length'') (\<lambda>_.
          and_then (plan_needs p
              (case Option.bind (plan_parameter p ''source_bit_length'') (parse_unsigned 64) of
                 Some n \<Rightarrow> unat bit_length = n | None \<Rightarrow> True)
            ''bit_string_source_length_mismatch''
            ''bit string length differs from the qualified source length'') (\<lambda>_.
          and_then (plan_some p (parse_bit_order (plan_parameter p ''source_bit_order''))
            ''bit_order_missing'' ''the bit string plan must declare source bit order'') (\<lambda>expected_order.
          and_then (plan_needs p (bit_order = expected_order)
            ''source_bit_order_mismatch'' ''bit order differs from the qualified source representation'') (\<lambda>_.
          and_then (plan_some p (parse_bit_padding (plan_parameter p ''source_padding''))
            ''bit_padding_missing'' ''the bit string plan must declare source padding semantics'') (\<lambda>expected_padding.
          and_then (plan_needs p (padding = expected_padding)
            ''bit_padding_mismatch'' ''bit padding differs from the qualified source representation'') (\<lambda>_.
          and_then (plan_some p (b64_decode C encoded)
            ''bit_string_format_invalid'' ''the bit string value is not valid base64url bytes'') (\<lambda>raw.
          and_then (plan_needs p (length raw = (expected_length + 7) div 8)
            ''bit_string_length_invalid'' ''bit string bytes do not match the declared bit length'') (\<lambda>_.
          let unused = unused_count expected_length in
          if unused = 0 then
            plan_needs p (expected_padding = Pad_None)
              ''bit_padding_invalid'' ''a byte-aligned bit string cannot contain padding bits''
          else
            plan_needs p (padding_bits_ok raw unused expected_order expected_padding)
              ''bit_padding_invalid''
              ''unused bit padding does not match the qualified source zero/one policy''))))))))))
      | _ \<Rightarrow> plan_fails p ''bit_string_type_mismatch''
          ''the bit string conversion plan received another LogicalValue family'')"

end
