(* ===== verification/Plan_Structures.thy ===== *)
theory Plan_Structures
  imports Plan_Text
begin

text \<open>
  The checks of structured values against a plan in \<^verbatim>\<open>crates/change_event/src/compatibility.rs\<close>: geometries
  and their wire header, recursive values, texts, JSON documents, enumerations and sets.
\<close>

section \<open>Spatial values\<close>

definition read_u32_wire :: "bytes \<Rightarrow> bool \<Rightarrow> u32" where
  "read_u32_wire bs little_endian = of_nat (if little_endian then le_u32 (take 4 bs) else be_u32 (take 4 bs))"

definition validate_spatial_wire ::
  "ColumnConversionPlan \<Rightarrow> bytes \<Rightarrow> SpatialFormat \<Rightarrow> string \<Rightarrow> u8 \<Rightarrow> int option \<Rightarrow> TargetCapabilityFailure + unit" where
  "validate_spatial_wire p bs format geometry_type dimensions srid =
     and_then (plan_needs p (5 \<le> length bs) ''spatial_format_invalid''
       ''the spatial value has no complete WKB header'') (\<lambda>_.
     and_then (plan_needs p (ord (bs ! 0) = 0 \<or> ord (bs ! 0) = 1) ''spatial_format_invalid''
       ''the spatial byte-order marker is invalid'') (\<lambda>_.
     let little_endian = (ord (bs ! 0) = 1);
         geometry_code = read_u32_wire (drop 1 bs) little_endian;
         has_srid = geometry_code AND 0x20000000 \<noteq> 0;
         (actual_dimensions, base_code) = geometry_layout geometry_code;
         actual_geometry = geometry_name base_code in
     and_then (plan_needs p
         (actual_geometry \<noteq> ''unknown''
          \<and> (geometry_type = ''*'' \<or> eq_ignore_ascii_case actual_geometry geometry_type)
          \<and> (dimensions = 0 \<or> actual_dimensions = dimensions))
       ''spatial_header_mismatch'' ''the spatial wire header does not match geometry type or dimensions'') (\<lambda>_.
     and_then (if has_srid then
         and_then (plan_needs p (9 \<le> length bs) ''spatial_format_invalid''
           ''the EWKB SRID header is truncated'') (\<lambda>_. Ok (Some (sint (read_u32_wire (drop 5 bs) little_endian))))
       else Ok None) (\<lambda>embedded_srid.
     and_then (plan_needs p ((format = Ewkb) = has_srid) ''spatial_format_mismatch''
       ''the spatial value uses a different WKB/EWKB SRID format'') (\<lambda>_.
     plan_needs p (embedded_srid = srid) ''spatial_srid_mismatch''
       ''the embedded spatial SRID differs from the qualified target SRID'')))))"

definition parse_spatial_format :: "string option \<Rightarrow> SpatialFormat option" where
  "parse_spatial_format v =
     (if v = Some ''wkb'' then Some Wkb else if v = Some ''ewkb'' then Some Ewkb else None)"

text \<open>A declaration of the source that is given and not open has to agree with the value.\<close>

definition source_agrees :: "ColumnConversionPlan \<Rightarrow> string \<Rightarrow> string \<Rightarrow> (string \<Rightarrow> bool) \<Rightarrow> bool" where
  "source_agrees p name any f =
     (case plan_parameter p name of None \<Rightarrow> True | Some s \<Rightarrow> s = any \<or> f s)"

definition validate_spatial_plan_value ::
  "codec \<Rightarrow> ColumnConversionPlan \<Rightarrow> LogicalValue \<Rightarrow> TargetCapabilityFailure + unit" where
  "validate_spatial_plan_value C p v =
     (case v of
        LV_Spatial format encoded geometry_type dimensions srid crs \<Rightarrow>
          and_then (plan_some p (parse_spatial_format (plan_parameter p ''target_spatial_format''))
            ''spatial_format_missing'' ''the spatial plan must declare WKB or EWKB format'') (\<lambda>expected_format.
          and_then (plan_needs p (format = expected_format) ''spatial_format_mismatch''
            ''spatial wire format differs from the qualified target representation'') (\<lambda>_.
          and_then (plan_some p (plan_parameter p ''target_geometry_type'') ''spatial_geometry_type_missing''
            ''the spatial plan must declare geometry type'') (\<lambda>expected_geometry.
          and_then (plan_needs p (expected_geometry = ''*'' \<or> eq_ignore_ascii_case geometry_type expected_geometry)
            ''spatial_geometry_type_mismatch''
            ''spatial geometry type differs from the qualified target representation'') (\<lambda>_.
          and_then (plan_needs p (source_agrees p ''source_geometry_type'' ''*'' (eq_ignore_ascii_case geometry_type))
            ''spatial_source_geometry_type_mismatch''
            ''spatial geometry type differs from the qualified source representation'') (\<lambda>_.
          and_then (plan_some p (plan_parameter p ''target_dimensions'') ''spatial_dimensions_missing''
            ''the spatial plan must declare dimensions'') (\<lambda>declared_dimensions.
          and_then (plan_some p (map_option of_nat (parse_unsigned 8 declared_dimensions))
            ''spatial_dimensions_invalid'' ''the saved spatial dimensions are invalid'') (\<lambda>expected_dimensions.
          and_then (plan_needs p (expected_dimensions = 0 \<or> dimensions = expected_dimensions)
            ''spatial_dimensions_mismatch''
            ''spatial dimensions differ from the qualified target representation'') (\<lambda>_.
          and_then (plan_needs p (source_agrees p ''source_dimensions'' ''0'' (\<lambda>s. s = show_nat (unat dimensions)))
            ''spatial_source_dimensions_mismatch''
            ''spatial dimensions differ from the qualified source representation'') (\<lambda>_.
          and_then (plan_some p (plan_parameter p ''target_srid'') ''spatial_srid_missing''
            ''the spatial plan must declare SRID'') (\<lambda>expected_srid.
          and_then (plan_needs p (expected_srid = ''unknown'' \<or> srid = parse_signed 32 expected_srid)
            ''spatial_srid_mismatch'' ''spatial SRID differs from the qualified target representation'') (\<lambda>_.
          and_then (plan_needs p (source_agrees p ''source_srid'' ''unknown'' (\<lambda>s. srid = parse_signed 32 s))
            ''spatial_source_srid_mismatch''
            ''spatial SRID differs from the qualified source representation'') (\<lambda>_.
          and_then (plan_some p (plan_parameter p ''target_crs'') ''spatial_crs_missing''
            ''the spatial plan must declare CRS identity'') (\<lambda>expected_crs.
          and_then (plan_needs p (expected_crs = ''unknown'' \<or> crs = Some expected_crs)
            ''spatial_crs_mismatch''
            ''spatial CRS is missing or differs from the qualified target representation'') (\<lambda>_.
          and_then (plan_needs p (source_agrees p ''source_crs'' ''unknown'' (\<lambda>s. crs = Some s))
            ''spatial_source_crs_mismatch''
            ''spatial CRS is missing or differs from the qualified source representation'') (\<lambda>_.
          and_then (plan_needs p
              (case plan_parameter p ''source_spatial_format'' of None \<Rightarrow> True
               | Some s \<Rightarrow> s = (case format of Wkb \<Rightarrow> ''wkb'' | Ewkb \<Rightarrow> ''ewkb''))
            ''spatial_format_mismatch''
            ''the saved spatial source and target formats are not equivalent'') (\<lambda>_.
          and_then (plan_some p (b64_decode C encoded) ''spatial_format_invalid''
            ''the spatial value is not valid base64url wire bytes'') (\<lambda>bs.
          validate_spatial_wire p bs expected_format expected_geometry expected_dimensions
            (if expected_format = Ewkb then srid else None))))))))))))))))))
      | _ \<Rightarrow> plan_fails p ''spatial_type_mismatch''
          ''the spatial conversion plan received another LogicalValue family'')"

section \<open>Recursive values\<close>

definition recursive_kind :: "LogicalValue \<Rightarrow> string" where
  "recursive_kind v =
     (case v of
        LV_Array _ \<Rightarrow> ''array''
      | LV_ArrayWithMetadata _ _ _ _ \<Rightarrow> ''array''
      | LV_Struct _ \<Rightarrow> ''struct''
      | LV_Map _ \<Rightarrow> ''map''
      | LV_Range _ _ _ _ _ \<Rightarrow> ''range''
      | LV_MultiRange _ \<Rightarrow> ''multi_range''
      | _ \<Rightarrow> ''other'')"

definition array_metadata_check :: "nat \<Rightarrow> u8 \<Rightarrow> int list \<Rightarrow> u64 list \<Rightarrow> string + unit" where
  "array_metadata_check len dimensions lower_bounds dimension_lengths =
     (if dimensions = 0 then
        require (len = 0 \<and> lower_bounds = [] \<and> dimension_lengths = [])
          ''zero-dimensional arrays must be empty''
      else
        and_then (require (unat dimensions = length lower_bounds
            \<and> (dimension_lengths = [] \<or> unat dimensions = length dimension_lengths))
          ''array dimensions and lower bounds do not agree'') (\<lambda>_.
        require (dimension_lengths = [] \<or> checked_product 1 dimension_lengths = Some len)
          ''array dimension lengths do not match the flattened element count''))"

definition is_range :: "LogicalValue \<Rightarrow> bool" where
  "is_range v = (case v of LV_Range _ _ _ _ _ \<Rightarrow> True | _ \<Rightarrow> False)"

function validate_recursive_value :: "codec \<Rightarrow> LogicalValue \<Rightarrow> nat \<Rightarrow> string + unit" where
  "validate_recursive_value C v depth =
     and_then (require (depth \<le> 100) ''recursive value exceeds the maximum structure depth'') (\<lambda>_.
     case v of
       LV_Array elements \<Rightarrow> each (\<lambda>x. validate_recursive_value C x (depth + 1)) elements
     | LV_ArrayWithMetadata elements dimensions lower_bounds dimension_lengths \<Rightarrow>
         and_then (array_metadata_check (length elements) dimensions lower_bounds dimension_lengths) (\<lambda>_.
         each (\<lambda>x. validate_recursive_value C x (depth + 1)) elements)
     | LV_Struct flds \<Rightarrow>
         and_then (try_fold (\<lambda>names f.
           and_then (require (sf_name f \<noteq> [] \<and> NUL \<notin> set (sf_name f) \<and> sf_name f \<notin> names)
             ''struct field names must be unique and contain no NUL'') (\<lambda>_.
           and_then (validate_recursive_value C (sf_value f) (depth + 1)) (\<lambda>_.
           Ok (insert (sf_name f) names)))) {} flds) (\<lambda>_. Ok ())
     | LV_Map entries \<Rightarrow>
         and_then (try_fold (\<lambda>keys e.
           and_then (require (me_key e \<notin> keys) ''map keys must be unique'') (\<lambda>_.
           and_then (validate_recursive_value C (me_key e) (depth + 1)) (\<lambda>_.
           and_then (validate_recursive_value C (me_value e) (depth + 1)) (\<lambda>_.
           Ok (insert (me_key e) keys))))) {} entries) (\<lambda>_. Ok ())
     | LV_Range is_empty lower upper _ _ \<Rightarrow>
         and_then (require (\<not> (is_empty \<and> (lower \<noteq> None \<or> upper \<noteq> None)))
           ''empty ranges cannot contain bounds'') (\<lambda>_.
         and_then (case lower of None \<Rightarrow> Ok () | Some x \<Rightarrow> validate_recursive_value C x (depth + 1)) (\<lambda>_.
         case upper of None \<Rightarrow> Ok () | Some x \<Rightarrow> validate_recursive_value C x (depth + 1)))
     | LV_MultiRange ranges \<Rightarrow>
         each (\<lambda>r. and_then (require (is_range r) ''multirange entries must be ranges'') (\<lambda>_.
           validate_recursive_value C r (depth + 1))) ranges
     | LV_Domain x \<Rightarrow> validate_recursive_value C x (depth + 1)
     | LV_Raw carrier \<Rightarrow>
         map_err (\<lambda>_. ''raw value carrier lacks stable source evidence'') (rc_validate C carrier)
     | _ \<Rightarrow> Ok ())"
  by pat_completeness auto
termination
  by (relation "measure (\<lambda>(C, v, d). size v)") (auto simp: value_sizes)

declare validate_recursive_value.simps [simp del]

definition validate_recursive_plan_value ::
  "codec \<Rightarrow> ColumnConversionPlan \<Rightarrow> LogicalValue \<Rightarrow> TargetCapabilityFailure + unit" where
  "validate_recursive_plan_value C p v =
     and_then (plan_some p (plan_parameter p ''recursive_kind'') ''recursive_structure_rule_missing''
       ''recursive values require an explicit structure mapping rule'') (\<lambda>expected.
     and_then (plan_needs p (recursive_kind v = expected) ''recursive_structure_mismatch''
       ''the recursive value shape differs from the saved structure mapping'') (\<lambda>_.
     map_err (plan_failure p (capability ''recursive_structure_invalid'')) (validate_recursive_value C v 0)))"

section \<open>JSON documents\<close>

definition validate_json_plan_value ::
  "plan_json \<Rightarrow> ColumnConversionPlan \<Rightarrow> LogicalValue \<Rightarrow> TargetCapabilityFailure + unit" where
  "validate_json_plan_value J p v =
     (case v of
        LV_Json x \<Rightarrow>
          (case plan_parameter p ''json_strategy'' of
             None \<Rightarrow> Ok ()
           | Some strategy \<Rightarrow>
               if strategy = ''normalized_text'' then
                 map_err (plan_failure p (capability ''json_normalization_failed''))
                   (and_then (render_normalized_json J x) (\<lambda>_. Ok ()))
               else if strategy = ''raw_text'' then plan_fails p ''json_raw_text_unavailable''
                 ''the ChangeEvent does not retain source JSON spelling, whitespace, duplicate keys, or object-key order''
               else if strategy = ''structured'' then Ok ()
               else plan_fails p ''json_strategy_invalid''
                 (''unknown JSON representation strategy '' @ pj_debug J strategy))
      | _ \<Rightarrow> plan_fails p ''json_type_mismatch'' ''the JSON conversion plan received a non-JSON value'')"

section \<open>Enumerations and sets\<close>

definition plan_members ::
  "plan_json \<Rightarrow> ColumnConversionPlan \<Rightarrow> string \<Rightarrow> TargetCapabilityFailure + string list" where
  "plan_members J p name =
     and_then (plan_some p
         (case target_parameter p name of Some s \<Rightarrow> Some s | None \<Rightarrow> route_parameter p name)
       ''enum_set_mapping_missing'' (''the saved plan is missing '' @ name)) (\<lambda>encoded.
     plan_some p (pj_members_of J encoded)
       ''enum_set_mapping_invalid'' (''the saved plan contains invalid '' @ name))"

definition validate_enum_set_plan_value ::
  "plan_json \<Rightarrow> ColumnConversionPlan \<Rightarrow> LogicalValue \<Rightarrow> TargetCapabilityFailure + unit" where
  "validate_enum_set_plan_value J p v =
     and_then (plan_members J p ''target_members'') (\<lambda>target_members.
     case v of
       LV_Enum label \<Rightarrow>
         plan_needs p (label \<in> set target_members) ''enum_unknown_label''
           ''the ENUM label is not declared by the target definition''
     | LV_Set members \<Rightarrow>
         each (\<lambda>(index, member).
           and_then (plan_needs p (member \<notin> set (take index members)) ''set_duplicate_member''
             ''the SET value contains a duplicate member'') (\<lambda>_.
           plan_needs p (member \<in> set target_members) ''set_unknown_member''
             ''the SET value contains a member not declared by the target definition''))
           (enumerate 0 members)
     | _ \<Rightarrow> plan_fails p ''enum_set_type_mismatch''
         ''the ENUM/SET conversion plan received another LogicalValue family'')"

section \<open>Texts\<close>

definition required_text_parameter ::
  "ColumnConversionPlan \<Rightarrow> string \<Rightarrow> TargetCapabilityFailure + string" where
  "required_text_parameter p name =
     plan_some p (case target_parameter p name of Some s \<Rightarrow> if s = [] then None else Some s | None \<Rightarrow> None)
       ''text_parameter_missing'' (''text parameter '' @ name @ '' is missing'')"

definition fails_with :: "ColumnConversionPlan \<Rightarrow> string \<Rightarrow> string \<Rightarrow> TargetCapabilityFailure" where
  "fails_with p message code = plan_failure p code message"

definition text_limit :: "string \<Rightarrow> (nat option) option" where
  "text_limit s =
     (if eq_ignore_ascii_case s ''unbounded'' then Some None else map_option Some (parse_unsigned 64 s))"

definition validate_text_plan_value ::
  "codec \<Rightarrow> ColumnConversionPlan \<Rightarrow> LogicalValue \<Rightarrow> TargetCapabilityFailure + unit" where
  "validate_text_plan_value C p v =
     (case v of
        LV_Text charset encoded_bytes declared \<Rightarrow>
          and_then (plan_some p (b64_decode C encoded_bytes) ''text_encoding_invalid''
            ''the captured text bytes are not valid base64url'') (\<lambda>bs.
          and_then (map_err (fails_with p ''the captured text cannot be decoded with its source charset'')
            (decode_supported_text charset bs declared)) (\<lambda>decoded.
          and_then (required_text_parameter p ''target_charset'') (\<lambda>target_charset.
          and_then (map_err (fails_with p ''the text contains characters that the target charset cannot represent'')
            (encode_supported_text target_charset decoded)) (\<lambda>encoded.
          and_then (plan_some p (target_parameter p ''target_length'') ''text_length_missing''
            ''the target text length is missing'') (\<lambda>target_length.
          and_then (plan_some p (text_limit target_length) ''text_length_invalid''
            ''the target text length is invalid'') (\<lambda>limit.
          and_then (plan_some p (target_parameter p ''target_length_unit'') ''text_length_unit_missing''
            ''the target text length unit is missing'') (\<lambda>unit.
          and_then (if unit = ''bytes'' then Ok (length encoded)
              else if unit = ''characters'' then Ok (length (utf8_chars decoded))
              else plan_fails p ''text_length_unit_invalid'' ''the target text length unit is invalid'') (\<lambda>actual.
          and_then (plan_needs p (case limit of None \<Rightarrow> True | Some n \<Rightarrow> actual \<le> n) ''text_length_overflow''
            ''the text exceeds the configured target length; truncation is disabled'') (\<lambda>_.
          plan_needs p
            (route_parameter p ''encoding_policy'' = Some ''strict''
             \<and> route_parameter p ''length_policy'' = Some ''reject''
             \<and> route_parameter p ''collation_policy'' = Some ''target'')
            ''text_policy_missing''
            ''text conversion must use strict encoding, rejection on overflow, and the saved target collation'')))))))))
      | _ \<Rightarrow> plan_fails p ''text_type_mismatch'' ''the captured value is not text'')"

end
