(* ===== verification/Plan_Check.thy ===== *)
theory Plan_Check
  imports Plan_Values Plan_Structures
begin

text \<open>
  The remaining checks against a plan in \<^verbatim>\<open>crates/change_event/src/compatibility.rs\<close>: dates and times, the
  envelopes of values that are carried as they are, and the choice of the check that a plan calls for.
\<close>

section \<open>Dates and times\<close>

definition validate_microsecond_precision ::
  "ColumnConversionPlan \<Rightarrow> u32 \<Rightarrow> nat \<Rightarrow> TargetCapabilityFailure + unit" where
  "validate_microsecond_precision p microsecond precision =
     plan_needs p (unat microsecond mod 10 ^ (6 - precision) = 0) ''temporal_precision_loss''
       ''temporal conversion would discard non-zero fractional precision''"

definition validate_nanosecond_precision ::
  "ColumnConversionPlan \<Rightarrow> u32 \<Rightarrow> nat \<Rightarrow> TargetCapabilityFailure + unit" where
  "validate_nanosecond_precision p nanoseconds precision =
     plan_needs p (unat nanoseconds mod 10 ^ (9 - precision) = 0) ''temporal_precision_loss''
       ''temporal conversion would discard non-zero fractional precision''"

text \<open>Hours and minutes are signed, and the sum wraps around at 32 bits.\<close>

definition fixed_offset :: "ColumnConversionPlan \<Rightarrow> int \<Rightarrow> string \<Rightarrow> TargetCapabilityFailure + int" where
  "fixed_offset p sign s =
     and_then (plan_some p (split_once CHR '':'' s) ''timezone_invalid''
       ''time zone must use a fixed +HH:MM or -HH:MM offset'') (\<lambda>(h, m).
     and_then (plan_some p (parse_signed 32 h) ''timezone_invalid'' ''time zone hour is invalid'') (\<lambda>hours.
     and_then (plan_some p (parse_signed 32 m) ''timezone_invalid'' ''time zone minute is invalid'') (\<lambda>minutes.
     and_then (plan_needs p (\<not> (23 < hours \<or> 59 < minutes)) ''timezone_invalid''
       ''time zone offset is outside its qualified range'') (\<lambda>_.
     Ok (wrap 32 (sign * wrap 32 (wrap 32 (hours * 3600) + wrap 32 (minutes * 60))))))))"

definition parse_timezone_offset :: "ColumnConversionPlan \<Rightarrow> TargetCapabilityFailure + int" where
  "parse_timezone_offset p =
     and_then (plan_some p
         (case route_parameter p ''time_zone'' of Some s \<Rightarrow> Some s | None \<Rightarrow> route_parameter p ''timezone'')
       ''timezone_missing'' ''a fixed source time zone is required for local/absolute conversion'') (\<lambda>s.
     if eq_ignore_ascii_case s ''utc'' \<or> s = ''Z'' then Ok 0
     else if starts_with ''+'' s then fixed_offset p 1 (tl s)
     else if starts_with ''-'' s then fixed_offset p (-1) (tl s)
     else plan_fails p ''timezone_invalid'' ''time zone must be UTC or a fixed offset such as +08:00'')"

definition temporal_kind :: "ColumnConversionPlan \<Rightarrow> string \<Rightarrow> string" where
  "temporal_kind p name = (case target_parameter p name of Some s \<Rightarrow> s | None \<Rightarrow> [])"

definition target_temporal_precision :: "ColumnConversionPlan \<Rightarrow> nat option" where
  "target_temporal_precision p =
     (case parsed_parameter p ''target_precision'' (parse_unsigned 8) of
        Some n \<Rightarrow> if n \<le> 6 then Some n else None | None \<Rightarrow> None)"

definition temporal_mismatch :: "ColumnConversionPlan \<Rightarrow> TargetCapabilityFailure" where
  "temporal_mismatch p = plan_failure p (capability ''temporal_type_mismatch'')
     ''the captured temporal value does not match the saved conversion strategy''"

definition validate_temporal_plan_value ::
  "ColumnConversionPlan \<Rightarrow> LogicalValue \<Rightarrow> TargetCapabilityFailure + unit" where
  "validate_temporal_plan_value p v =
     (let source_kind = temporal_kind p ''source_temporal_kind'';
          target_kind = temporal_kind p ''target_temporal_kind'' in
      and_then (plan_some p (target_temporal_precision p) ''temporal_precision_invalid''
        ''the target temporal precision is missing or invalid'') (\<lambda>precision.
      and_then (plan_needs p (route_parameter p ''precision_policy'' = Some ''reject'')
        ''temporal_precision_policy_missing''
        ''temporal precision conversion must reject non-zero discarded precision'') (\<lambda>_.
      case v of
        LV_LocalDatetime _ _ _ _ _ _ us \<Rightarrow>
          if source_kind = ''local_datetime'' \<and> target_kind = ''local_datetime'' then
            validate_microsecond_precision p us precision
          else if source_kind = ''local_datetime'' \<and> target_kind = ''instant'' then
            and_then (validate_microsecond_precision p us precision) (\<lambda>_.
            and_then (parse_timezone_offset p) (\<lambda>_. Ok ()))
          else Err (temporal_mismatch p)
      | LV_Instant _ ns \<Rightarrow>
          if source_kind = ''instant'' \<and> target_kind = ''instant'' then
            validate_nanosecond_precision p ns precision
          else if source_kind = ''instant'' \<and> target_kind = ''local_datetime'' then
            and_then (validate_nanosecond_precision p ns precision) (\<lambda>_.
            and_then (parse_timezone_offset p) (\<lambda>_. Ok ()))
          else Err (temporal_mismatch p)
      | LV_Duration _ _ _ _ us \<Rightarrow>
          if source_kind = ''duration'' \<and> target_kind = ''duration'' then
            validate_microsecond_precision p us precision
          else Err (temporal_mismatch p)
      | _ \<Rightarrow> Err (temporal_mismatch p))))"

section \<open>Source representation envelopes\<close>

definition carrier_capacity :: "ColumnConversionPlan \<Rightarrow> (nat option) option" where
  "carrier_capacity p =
     (case target_parameter p ''target_capacity_bytes'' of
        None \<Rightarrow> Some None
      | Some s \<Rightarrow> map_option Some (parse_unsigned 64 s))"

definition exceeds :: "nat option \<Rightarrow> bytes \<Rightarrow> bool" where
  "exceeds capacity encoded = (case capacity of None \<Rightarrow> False | Some n \<Rightarrow> n < length encoded)"

definition present_parameter :: "ColumnConversionPlan \<Rightarrow> string \<Rightarrow> bool" where
  "present_parameter p name = (case target_parameter p name of None \<Rightarrow> False | Some s \<Rightarrow> s \<noteq> [])"

definition envelope_target_check ::
  "codec \<Rightarrow> plan_json \<Rightarrow> ColumnConversionPlan \<Rightarrow> SourceRepresentationEnvelope \<Rightarrow> TargetCapabilityFailure + unit" where
  "envelope_target_check C J p e =
     and_then (plan_needs p
         (target_parameter p ''conversion_kind'' = Some ''source_representation''
          \<and> target_parameter p ''source_representation_codec'' = Some ''source_representation_envelope_json_v1'')
       ''source_representation_not_supported''
       ''this plan does not provide an explicit Source Representation Envelope carrier'') (\<lambda>_.
     and_then (plan_needs p (tr_native_type (pl_target p) \<noteq> [] \<and> present_parameter p ''target_storage'')
       ''source_representation_target_missing''
       ''the plan does not identify its qualified binary carrier target'') (\<lambda>_.
     and_then (map_err (\<lambda>error. plan_failure p (sre_code error)
         ''the source representation envelope failed integrity validation'') (env_validate C e)) (\<lambda>_.
     and_then (plan_some p (carrier_capacity p) ''source_representation_capacity_invalid''
       ''the source representation carrier capacity is invalid'') (\<lambda>capacity.
     plan_needs p (\<not> exceeds capacity (pj_envelope J e)) ''source_representation_capacity_exceeded''
       ''the source representation envelope exceeds the qualified target carrier capacity''))))"

definition envelope_identity_check ::
  "ColumnConversionPlan \<Rightarrow> SourceRepresentationContext \<Rightarrow> TargetCapabilityFailure + unit" where
  "envelope_identity_check p x =
     and_then (plan_needs p (ctx_connector x = pl_source_connector p)
       ''source_representation_connector_mismatch''
       ''the source representation envelope belongs to another source connector'') (\<lambda>_.
     and_then (plan_needs p (pl_source_build p = Some (ctx_server_build x))
       ''source_representation_build_mismatch''
       ''the source representation envelope build differs from the approved plan'') (\<lambda>_.
     and_then (plan_some p (target_parameter p ''source_representation_type_identity'')
       ''source_representation_identity_missing''
       ''the approved plan is missing the source protocol type identity'') (\<lambda>expected_identity.
     and_then (plan_needs p (ctx_source_type_identity x = expected_identity)
       ''source_representation_identity_mismatch''
       ''the source representation envelope belongs to another protocol type identity'') (\<lambda>_.
     and_then (plan_some p (target_parameter p ''source_representation_protocol'')
       ''source_representation_protocol_missing''
       ''the approved plan is missing the source protocol identity'') (\<lambda>expected_protocol.
     and_then (plan_some p (target_parameter p ''source_representation_format'')
       ''source_representation_format_missing''
       ''the approved plan is missing the source protocol format'') (\<lambda>expected_format.
     plan_needs p
       (ctx_protocol x = expected_protocol
        \<and> (case ctx_format x of Repr_Text \<Rightarrow> ''text'' | Repr_Binary \<Rightarrow> ''binary'') = expected_format)
       ''source_representation_protocol_mismatch''
       ''the source representation protocol or format differs from the approved plan''))))))"

definition envelope_metadata_check ::
  "codec \<Rightarrow> plan_json \<Rightarrow> ColumnConversionPlan \<Rightarrow> SourceRepresentationContext \<Rightarrow> TargetCapabilityFailure + unit" where
  "envelope_metadata_check C J p x =
     and_then (plan_some p (target_parameter p ''source_representation_type_metadata_json'')
       ''source_representation_metadata_missing''
       ''the approved plan is missing stable source type metadata'') (\<lambda>metadata_json.
     and_then (plan_some p (pj_metadata_of J metadata_json)
       ''source_representation_metadata_invalid''
       ''the approved source type metadata is not valid serialized evidence'') (\<lambda>expected_metadata.
     and_then (plan_needs p
         (expected_metadata \<noteq> []
          \<and> target_parameter p ''source_representation_type_metadata_digest''
            = Some (stable_digest C (pj_metadata J) expected_metadata))
       ''source_representation_metadata_invalid''
       ''the approved source type metadata digest is missing or invalid'') (\<lambda>_.
     and_then (plan_some p (target_parameter p ''source_representation_context_metadata_keys_json'')
       ''source_representation_context_metadata_missing''
       ''the approved plan is missing its runtime context metadata policy'') (\<lambda>keys_json.
     and_then (plan_some p (pj_keys_of J keys_json)
       ''source_representation_context_metadata_invalid''
       ''the approved runtime context metadata policy is invalid'') (\<lambda>expected_keys.
     and_then (plan_needs p
         (target_parameter p ''source_representation_context_metadata_keys_digest''
            = Some (stable_digest C (pj_keys J) expected_keys)
          \<and> \<not> list_ex (\<lambda>(k, _). k \<in> set expected_keys) expected_metadata
          \<and> \<not> list_ex (\<lambda>k. blank k) expected_keys)
       ''source_representation_context_metadata_invalid''
       ''the approved runtime context metadata keys are missing, duplicated, or overlap type metadata'') (\<lambda>_.
     and_then (plan_needs p
         (list_all (\<lambda>(k, expected). bt_get (ctx_type_metadata x) k = Some expected) expected_metadata)
       ''source_representation_metadata_mismatch''
       ''the source representation type metadata differs from the approved definition evidence'') (\<lambda>_.
     plan_needs p
       (set (map fst (ctx_type_metadata x)) = set (map fst expected_metadata @ expected_keys))
       ''source_representation_metadata_unbound''
       ''the source representation contains metadata keys that are absent from the approved type or runtime-context policy'')))))))"

definition envelope_definition_check ::
  "ColumnConversionPlan \<Rightarrow> SourceRepresentationEnvelope \<Rightarrow> TargetCapabilityFailure + unit" where
  "envelope_definition_check p e =
     and_then (plan_some p (target_parameter p ''source_type_definition_digest'')
       ''source_representation_definition_missing''
       ''the approved plan is missing the source type definition digest'') (\<lambda>expected_digest.
     let declared = ctx_source_type_definition_digest (env_context e);
         actual_digest = (case strip_prefix ''sha256:'' declared of Some d \<Rightarrow> d | None \<Rightarrow> declared) in
     and_then (plan_needs p (actual_digest = expected_digest)
       ''source_representation_definition_mismatch''
       ''the source representation envelope belongs to another type definition'') (\<lambda>_.
     and_then (plan_some p (target_parameter p ''source_type_native'')
       ''source_representation_native_type_missing''
       ''the approved plan is missing the source native type identity'') (\<lambda>expected_native.
     plan_needs p
       (env_encoding e = (case target_parameter p ''source_type_encoding'' of Some s \<Rightarrow> s | None \<Rightarrow> [])
        \<and> \<not> blank (ctx_source_type_identity (env_context e))
        \<and> (case bt_get (ctx_type_metadata (env_context e)) ''native_type'' of
             Some native \<Rightarrow> native = expected_native | None \<Rightarrow> True)
        \<and> present_parameter p ''source_codec_identity'')
       ''source_representation_codec_mismatch''
       ''the source representation envelope codec evidence differs from the approved plan'')))"

definition validate_envelope_against_plan ::
  "codec \<Rightarrow> plan_json \<Rightarrow> ColumnConversionPlan \<Rightarrow> SourceRepresentationEnvelope \<Rightarrow> TargetCapabilityFailure + unit" where
  "validate_envelope_against_plan C J p e =
     and_then (envelope_target_check C J p e) (\<lambda>_.
     and_then (envelope_identity_check p (env_context e)) (\<lambda>_.
     and_then (envelope_metadata_check C J p (env_context e)) (\<lambda>_.
     envelope_definition_check p e)))"

section \<open>The check a plan calls for\<close>

definition tagged_carrier_ok :: "codec \<Rightarrow> plan_json \<Rightarrow> ColumnConversionPlan \<Rightarrow> LogicalValue \<Rightarrow> bool" where
  "tagged_carrier_ok C J p v \<longleftrightarrow>
     target_parameter p ''logical_value_schema'' = Some ''change_event.logical_value.v0_3''
     \<and> target_parameter p ''value_strategy'' = Some ''tagged_json_v0_3''
     \<and> present_parameter p ''target_storage''
     \<and> (case parsed_parameter p ''source_logical_type_json'' (pj_type_of J) of
          None \<Rightarrow> False
        | Some t \<Rightarrow>
            target_parameter p ''source_logical_type_digest'' = Some (stable_digest C (pj_type J) t)
            \<and> matches_value C t v)"

definition validate_tagged_carrier ::
  "codec \<Rightarrow> plan_json \<Rightarrow> ColumnConversionPlan \<Rightarrow> LogicalValue \<Rightarrow> TargetCapabilityFailure + unit" where
  "validate_tagged_carrier C J p v =
     (if tagged_carrier_ok C J p v then
        and_then (plan_some p (carrier_capacity p) ''logical_value_carrier_capacity_invalid''
          ''the tagged LogicalValue carrier capacity is invalid'') (\<lambda>capacity.
        plan_needs p (\<not> exceeds capacity (pj_value J v)) ''logical_value_carrier_capacity_exceeded''
          ''the tagged LogicalValue exceeds the qualified target carrier capacity'')
      else plan_fails p ''logical_value_carrier_invalid''
        ''the tagged LogicalValue plan does not match a qualified, versioned value carrier'')"

definition range_policy_check :: "ColumnConversionPlan \<Rightarrow> TargetCapabilityFailure + unit" where
  "range_policy_check p =
     and_then (plan_needs p
         (target_parameter p ''range_kind'' = None \<or> target_parameter p ''range_check'' = Some ''strict'')
       ''range_check_missing'' ''the saved plan does not require a strict range check'') (\<lambda>_.
     plan_needs p
       (target_parameter p ''range_kind'' \<notin> {Some ''decimal'', Some ''float''}
        \<or> target_parameter p ''rounding_mode'' = Some ''reject'')
       ''rounding_policy_missing'' ''the saved plan does not reject implicit rounding'')"

text \<open>The checks that a conversion and a value strategy share.\<close>

definition shape_check ::
  "codec \<Rightarrow> ColumnConversionPlan \<Rightarrow> LogicalValue \<Rightarrow> string \<Rightarrow> (TargetCapabilityFailure + unit) option" where
  "shape_check C p v name =
     (if name = ''binary'' then Some (validate_binary_plan_value C p v)
      else if name = ''bit_string'' then Some (validate_bit_string_plan_value C p v)
      else if name = ''spatial'' then Some (validate_spatial_plan_value C p v)
      else if name = ''recursive'' then Some (validate_recursive_plan_value C p v)
      else None)"

definition validate_strategy ::
  "codec \<Rightarrow> plan_json \<Rightarrow> ColumnConversionPlan \<Rightarrow> LogicalValue \<Rightarrow> TargetCapabilityFailure + unit" where
  "validate_strategy C J p v =
     (case target_parameter p ''value_strategy'' of
        None \<Rightarrow> Ok ()
      | Some strategy \<Rightarrow>
          if strategy = ''structured_json'' then
            plan_needs p (case v of LV_Json _ \<Rightarrow> True | _ \<Rightarrow> False) ''json_type_mismatch''
              ''the structured JSON plan received a non-JSON value''
          else if strategy \<in> {''enum_label'', ''set_members''} then validate_enum_set_plan_value J p v
          else case shape_check C p v strategy of
            Some r \<Rightarrow> r
          | None \<Rightarrow> plan_fails p ''unknown_value_strategy'' (''unknown value strategy '' @ pj_debug J strategy))"

definition validate_conversion ::
  "codec \<Rightarrow> plan_json \<Rightarrow> ColumnConversionPlan \<Rightarrow> LogicalValue \<Rightarrow> TargetCapabilityFailure + unit" where
  "validate_conversion C J p v =
     (case target_parameter p ''conversion_kind'' of
        None \<Rightarrow> validate_strategy C J p v
      | Some kind \<Rightarrow>
          if kind = ''text'' then validate_text_plan_value C p v
          else if kind = ''json'' then validate_json_plan_value J p v
          else if kind \<in> {''enum'', ''set''} then validate_enum_set_plan_value J p v
          else if kind = ''temporal'' then validate_temporal_plan_value p v
          else case shape_check C p v kind of
            Some r \<Rightarrow> r
          | None \<Rightarrow> plan_fails p ''unknown_conversion_rule''
              (''unknown explicit conversion rule '' @ pj_debug J kind))"

definition validate_range ::
  "codec \<Rightarrow> plan_json \<Rightarrow> ColumnConversionPlan \<Rightarrow> LogicalValue \<Rightarrow> TargetCapabilityFailure + unit" where
  "validate_range C J p v =
     (case target_parameter p ''range_kind'' of
        None \<Rightarrow> validate_conversion C J p v
      | Some kind \<Rightarrow>
          if kind = ''integer'' then validate_integer_plan_value p v
          else if kind = ''decimal'' then validate_decimal_plan_value p v
          else if kind = ''float'' then validate_float_plan_value p v
          else plan_fails p ''unknown_range_rule'' (''unknown range rule '' @ pj_debug J kind))"

definition validate_value_against_plan ::
  "codec \<Rightarrow> plan_json \<Rightarrow> ColumnConversionPlan \<Rightarrow> LogicalValue \<Rightarrow> TargetCapabilityFailure + unit" where
  "validate_value_against_plan C J p v =
     (if target_parameter p ''conversion_kind'' = Some ''logical_value_json'' then validate_tagged_carrier C J p v
      else if target_parameter p ''conversion_kind'' = Some ''source_representation'' then
        plan_fails p ''source_representation_value_mismatch''
          ''a protocol-only carrier plan accepts Source Representation Envelopes, not LogicalValues''
      else
        and_then (range_policy_check p) (\<lambda>_.
        and_then (if target_parameter p ''range_kind'' = Some ''decimal'' then Ok False
            else validate_decimal_special_value p v) (\<lambda>special.
        if special then Ok () else validate_range C J p v)))"

definition validate_datum_against_plan ::
  "codec \<Rightarrow> plan_json \<Rightarrow> ColumnConversionPlan \<Rightarrow> Datum \<Rightarrow> TargetCapabilityFailure + unit" where
  "validate_datum_against_plan C J p d =
     (case d of
        D_Value v \<Rightarrow> validate_value_against_plan C J p v
      | D_Envelope e \<Rightarrow> validate_envelope_against_plan C J p e
      | _ \<Rightarrow> Ok ())"

end
