(* ===== verification/Plan_Convert.thy ===== *)
theory Plan_Convert
  imports Plan_Check Civil_Date
begin

text \<open>
  The conversions that saved plans make of the values of a transaction in
  \<^verbatim>\<open>crates/change_event/src/compatibility.rs\<close>, from single values up to \<^verbatim>\<open>convert_transaction_with_plans\<close>. A
  transaction is converted as a whole, and the first failure is the result.
\<close>

section \<open>Days of the calendar\<close>

definition days_of_civil :: "int \<Rightarrow> int \<Rightarrow> int \<Rightarrow> int" where
  "days_of_civil y m d =
     (let yr = y - (if m \<le> 2 then 1 else 0);
          era = yr div 400;
          year_of_era = yr - era * 400;
          day_of_year = (153 * (m + (if 2 < m then -3 else 9)) + 2) div 5 + d - 1;
          day_of_era = year_of_era * 365 + year_of_era div 4 - year_of_era div 100 + day_of_year in
      era * 146097 + day_of_era - 719468)"

definition civil_of_days :: "int \<Rightarrow> int \<times> int \<times> int" where
  "civil_of_days days =
     (let z = days + 719468;
          era = z div 146097;
          day_of_era = z - era * 146097;
          year_of_era = (day_of_era - day_of_era div 1460 + day_of_era div 36524 - day_of_era div 146096) div 365;
          day_of_year = day_of_era - (365 * year_of_era + year_of_era div 4 - year_of_era div 100);
          month_part = (5 * day_of_year + 2) div 153;
          m = month_part + (if month_part < 10 then 3 else -9) in
      (year_of_era + era * 400 + (if m \<le> 2 then 1 else 0), m, day_of_year - (153 * month_part + 2) div 5 + 1))"

section \<open>Values\<close>

definition convert_binary_value ::
  "codec \<Rightarrow> ColumnConversionPlan \<Rightarrow> LogicalValue \<Rightarrow> TargetCapabilityFailure + LogicalValue" where
  "convert_binary_value C p v =
     (case v of
        LV_Binary encoded \<Rightarrow>
          and_then (plan_some p (b64_decode C encoded) ''binary_format_invalid''
            ''the binary value is not valid base64url bytes'') (\<lambda>bs.
          case (plan_parameter p ''target_fixed'', plan_parameter p ''target_length'') of
            (Some fixed, Some declared) \<Rightarrow>
              if fixed = ''true'' \<and> declared \<noteq> ''unbounded'' then
                and_then (plan_some p (parse_unsigned 64 declared) ''binary_length_invalid''
                  ''the saved binary target length is invalid'') (\<lambda>len.
                and_then (plan_some p
                    (if plan_parameter p ''target_padding'' = Some ''zero'' then Some (CHR 0x00)
                     else if plan_parameter p ''target_padding'' = Some ''one'' then Some (CHR 0xFF) else None)
                  ''binary_padding_invalid'' ''fixed binary padding must be explicitly zero or one'') (\<lambda>pad.
                and_then (plan_needs p (length bs \<le> len) ''binary_length_out_of_range''
                  ''binary value exceeds the qualified target length'') (\<lambda>_.
                Ok (LV_Binary (b64_encode C (bs @ replicate (len - length bs) pad))))))
              else Ok (LV_Binary (b64_encode C bs))
          | _ \<Rightarrow> Ok (LV_Binary (b64_encode C bs)))
      | _ \<Rightarrow> plan_fails p ''binary_type_mismatch'' ''the binary conversion plan received a non-binary value'')"

definition bit_mask_at :: "BitOrder \<Rightarrow> nat \<Rightarrow> u8" where
  "bit_mask_at bit_order position =
     (case bit_order of
        MsbFirst \<Rightarrow> push_bit (7 - position mod 8) 1
      | LsbFirst \<Rightarrow> push_bit (position mod 8) 1)"

text \<open>The bits of a string, each moved to the mask of the target order. The length has been checked
  against the bytes before a value is converted.\<close>

definition copy_bit :: "BitOrder \<Rightarrow> BitOrder \<Rightarrow> bytes \<Rightarrow> u8 list \<Rightarrow> nat \<Rightarrow> u8 list" where
  "copy_bit source_order target_order source target position =
     (if of_char (source ! (position div 8)) AND bit_mask_at source_order position \<noteq> 0
      then target[position div 8 := target ! (position div 8) OR bit_mask_at target_order position]
      else target)"

definition copy_bits :: "BitOrder \<Rightarrow> BitOrder \<Rightarrow> bytes \<Rightarrow> nat \<Rightarrow> u8 list" where
  "copy_bits source_order target_order source n =
     foldl (copy_bit source_order target_order source) (replicate (length source) 0) [0..<n]"

definition byte_of :: "u8 \<Rightarrow> char" where
  "byte_of w = char_of (unat w)"

definition convert_bit_string_value ::
  "codec \<Rightarrow> ColumnConversionPlan \<Rightarrow> LogicalValue \<Rightarrow> TargetCapabilityFailure + LogicalValue" where
  "convert_bit_string_value C p v =
     (case v of
        LV_BitString encoded bit_length _ source_order \<Rightarrow>
          and_then (plan_some p (parse_bit_order (plan_parameter p ''target_bit_order''))
            ''bit_order_missing'' ''the bit string plan must declare target bit order'') (\<lambda>target_order.
          and_then (plan_some p (parse_bit_padding (plan_parameter p ''target_padding''))
            ''bit_padding_missing'' ''the bit string plan must declare target padding semantics'') (\<lambda>target_padding.
          and_then (plan_some p (b64_decode C encoded)
            ''bit_string_format_invalid'' ''the bit string value is not valid base64url bytes'') (\<lambda>source.
          let target = copy_bits source_order target_order source (unat bit_length);
              unused = unused_count (unat bit_length) in
          and_then
            (if 0 < unused \<and> target_padding = Pad_One then
               and_then (plan_needs p (target \<noteq> []) ''bit_string_length_invalid''
                 ''a padded bit string must contain at least one byte'') (\<lambda>_.
               Ok (butlast target @ [last target OR bit_mask_unused target_order unused]))
             else Ok target) (\<lambda>padded.
          Ok (LV_BitString (b64_encode C (map byte_of padded)) bit_length target_padding target_order)))))
      | _ \<Rightarrow> plan_fails p ''bit_string_type_mismatch''
          ''the bit string conversion plan received another LogicalValue family'')"

definition convert_json_value ::
  "codec \<Rightarrow> plan_json \<Rightarrow> ColumnConversionPlan \<Rightarrow> LogicalValue \<Rightarrow> TargetCapabilityFailure + LogicalValue" where
  "convert_json_value C J p v =
     (case v of
        LV_Json x \<Rightarrow>
          let strategy = (case plan_parameter p ''json_strategy'' of Some s \<Rightarrow> s | None \<Rightarrow> ''structured'') in
          and_then (plan_needs p (strategy \<noteq> ''raw_text'') ''json_raw_text_unavailable''
            ''raw source JSON text is not retained by the ChangeEvent contract'') (\<lambda>_.
          and_then (plan_needs p (strategy = ''normalized_text'') ''json_strategy_invalid''
            ''only normalized_text is valid for a JSON-to-text conversion plan'') (\<lambda>_.
          and_then (map_err (plan_failure p (capability ''json_normalization_failed''))
            (render_normalized_json J x)) (\<lambda>normalized.
          and_then (required_text_parameter p ''target_charset'') (\<lambda>target_charset.
          and_then (map_err (fails_with p ''the normalized JSON cannot be represented by the target charset'')
            (encode_supported_text target_charset normalized)) (\<lambda>encoded.
          Ok (LV_Text target_charset (b64_encode C encoded) (Some normalized)))))))
      | _ \<Rightarrow> plan_fails p ''json_type_mismatch'' ''the JSON conversion plan received a non-JSON value'')"

definition convert_enum_set_value ::
  "plan_json \<Rightarrow> ColumnConversionPlan \<Rightarrow> LogicalValue \<Rightarrow> TargetCapabilityFailure + LogicalValue" where
  "convert_enum_set_value J p v =
     and_then (plan_members J p ''target_members'') (\<lambda>target_members.
     case v of
       LV_Enum label \<Rightarrow>
         and_then (plan_needs p (label \<in> set target_members) ''enum_unknown_label''
           ''the ENUM label is not declared by the target definition'') (\<lambda>_. Ok (LV_Enum label))
     | LV_Set members \<Rightarrow>
         and_then (validate_enum_set_plan_value J p v) (\<lambda>_.
         Ok (LV_Set (filter (\<lambda>t. t \<in> set members) target_members)))
     | _ \<Rightarrow> plan_fails p ''enum_set_type_mismatch''
         ''the ENUM/SET conversion plan received another LogicalValue family'')"

definition convert_text_value ::
  "codec \<Rightarrow> ColumnConversionPlan \<Rightarrow> LogicalValue \<Rightarrow> TargetCapabilityFailure + LogicalValue" where
  "convert_text_value C p v =
     (case v of
        LV_Text charset encoded_bytes declared \<Rightarrow>
          and_then (plan_some p (b64_decode C encoded_bytes) ''text_encoding_invalid''
            ''the captured text bytes are not valid base64url'') (\<lambda>bs.
          and_then (map_err (fails_with p ''the captured text cannot be decoded'')
            (decode_supported_text charset bs declared)) (\<lambda>decoded.
          and_then (required_text_parameter p ''target_charset'') (\<lambda>target_charset.
          and_then (map_err (fails_with p ''the target charset cannot represent the text'')
            (encode_supported_text target_charset decoded)) (\<lambda>encoded.
          Ok (LV_Text target_charset (b64_encode C encoded) (Some decoded))))))
      | _ \<Rightarrow> plan_fails p ''text_type_mismatch'' ''the captured value is not text'')"

section \<open>Dates and times\<close>

text \<open>Sums are of the width of the source, 64 bits for seconds and 32 bits for nanoseconds.\<close>

definition instant_of_local ::
  "int \<Rightarrow> int \<Rightarrow> u8 \<Rightarrow> u8 \<Rightarrow> u8 \<Rightarrow> u8 \<Rightarrow> u8 \<Rightarrow> u32 \<Rightarrow> LogicalValue" where
  "instant_of_local offset y m d h mi s us =
     LV_Instant
       (show_int (wrap 64 (days_of_civil y (uint m) (uint d) * 86400
          + uint h * 3600 + uint mi * 60 + uint s - offset)))
       (us * 1000)"

definition local_of_instant ::
  "ColumnConversionPlan \<Rightarrow> int \<Rightarrow> int \<Rightarrow> u32 \<Rightarrow> TargetCapabilityFailure + LogicalValue" where
  "local_of_instant p offset unix_seconds ns =
     (let seconds = wrap 64 (unix_seconds + offset);
          (y, m, d) = civil_of_days (seconds div 86400);
          day_seconds = seconds mod 86400 in
      and_then (plan_needs p (in_i32 y) ''temporal_value_invalid''
        ''the converted local datetime year is outside the ChangeEvent range'') (\<lambda>_.
      Ok (LV_LocalDatetime y (of_int m) (of_int d) (of_int (day_seconds div 3600))
        (of_int (day_seconds mod 3600 div 60)) (of_int (day_seconds mod 60)) (ns div 1000))))"

definition convert_temporal_value ::
  "ColumnConversionPlan \<Rightarrow> LogicalValue \<Rightarrow> TargetCapabilityFailure + LogicalValue" where
  "convert_temporal_value p v =
     (let source_kind = temporal_kind p ''source_temporal_kind'';
          target_kind = temporal_kind p ''target_temporal_kind'' in
      case v of
        LV_LocalDatetime y m d h mi s us \<Rightarrow>
          if source_kind = ''local_datetime'' \<and> target_kind = ''local_datetime'' then Ok v
          else if source_kind = ''local_datetime'' \<and> target_kind = ''instant'' then
            and_then (parse_timezone_offset p) (\<lambda>offset. Ok (instant_of_local offset y m d h mi s us))
          else Err (temporal_mismatch p)
      | LV_Instant unix_seconds ns \<Rightarrow>
          if source_kind = ''instant'' \<and> target_kind = ''instant'' then Ok v
          else if source_kind = ''instant'' \<and> target_kind = ''local_datetime'' then
            and_then (parse_timezone_offset p) (\<lambda>offset.
            and_then (plan_some p (parse_signed 64 unix_seconds) ''temporal_value_invalid''
              ''instant seconds are invalid'') (\<lambda>n. local_of_instant p offset n ns))
          else Err (temporal_mismatch p)
      | LV_Duration _ _ _ _ _ \<Rightarrow>
          if source_kind = ''duration'' \<and> target_kind = ''duration'' then Ok v else Err (temporal_mismatch p)
      | _ \<Rightarrow> Err (temporal_mismatch p))"

section \<open>Plans\<close>

definition convert_value_with_plan ::
  "codec \<Rightarrow> plan_json \<Rightarrow> ColumnConversionPlan \<Rightarrow> LogicalValue \<Rightarrow> TargetCapabilityFailure + LogicalValue" where
  "convert_value_with_plan C J p v =
     and_then (validate_value_against_plan C J p v) (\<lambda>_.
     let kind = target_parameter p ''conversion_kind'' in
     if kind = Some ''binary'' then convert_binary_value C p v
     else if kind = Some ''bit_string'' then convert_bit_string_value C p v
     else if kind \<in> {Some ''spatial'', Some ''recursive''} then Ok v
     else if kind = Some ''text'' then convert_text_value C p v
     else if kind = Some ''json'' then convert_json_value C J p v
     else if kind \<in> {Some ''enum'', Some ''set''} then convert_enum_set_value J p v
     else if kind = Some ''temporal'' then convert_temporal_value p v
     else if target_parameter p ''value_strategy'' \<in> {Some ''enum_label'', Some ''set_members''}
       then convert_enum_set_value J p v
     else Ok v)"

text \<open>The last part of a qualified type name, up to its modifiers, with the state of the quotes.\<close>

fun native_name :: "bool \<Rightarrow> string \<Rightarrow> string \<Rightarrow> bool \<times> string" where
  "native_name quoted name [] = (quoted, name)"
| "native_name quoted name (c # s) =
     (if c = CHR 0x22 then native_name (\<not> quoted) (name @ [c]) s
      else if c = CHR ''('' \<and> \<not> quoted then (quoted, name)
      else if c = CHR ''.'' \<and> \<not> quoted then native_name quoted [] s
      else native_name quoted (name @ [c]) s)"

definition is_geography_native_type :: "string \<Rightarrow> bool" where
  "is_geography_native_type native_type =
     (let (quoted, part) = native_name False [] (trim native_type);
          name = trim part in
      if quoted then False
      else case Option.bind (strip_prefix [CHR 0x22] name) (strip_suffix [CHR 0x22]) of
        Some inner \<Rightarrow> inner = ''geography''
      | None \<Rightarrow> CHR 0x22 \<notin> set name \<and> eq_ignore_ascii_case name ''geography'')"

definition geodetic_mismatch :: "ColumnConversionPlan \<Rightarrow> ColumnDatum \<Rightarrow> bool" where
  "geodetic_mismatch p c \<longleftrightarrow>
     pl_qualification p = Exact \<and> target_parameter p ''conversion_kind'' = Some ''spatial''
     \<and> is_geography_native_type (col_native_type c) \<noteq> is_geography_native_type (tr_native_type (pl_target p))"

definition convert_datum ::
  "codec \<Rightarrow> plan_json \<Rightarrow> ColumnConversionPlan \<Rightarrow> Datum \<Rightarrow> TargetCapabilityFailure + Datum" where
  "convert_datum C J p d =
     (case d of
        D_Value v \<Rightarrow> and_then (convert_value_with_plan C J p v) (\<lambda>w. Ok (D_Value w))
      | D_Envelope e \<Rightarrow> and_then (validate_envelope_against_plan C J p e) (\<lambda>_. Ok d)
      | _ \<Rightarrow> Ok d)"

definition column_lineage :: "RowChange \<Rightarrow> ColumnDatum \<Rightarrow> string" where
  "column_lineage r c = ''catalog:'' @ rw_schema r @ ''.'' @ rw_table r @ ''.'' @ col_name c"

definition plan_of :: "ColumnConversionPlan list \<Rightarrow> string \<Rightarrow> ColumnConversionPlan option" where
  "plan_of plans lineage = find (\<lambda>p. dr_lineage_id (pl_source_field p) = lineage) plans"

definition convert_column ::
  "codec \<Rightarrow> plan_json \<Rightarrow> ColumnConversionPlan list \<Rightarrow> RowChange \<Rightarrow> ColumnDatum \<Rightarrow>
     TargetCapabilityFailure + ColumnDatum" where
  "convert_column C J plans r c =
     (case plan_of plans (column_lineage r c) of
        None \<Rightarrow> Ok c
      | Some p \<Rightarrow>
          if col_generated c then Ok c
          else
            and_then (plan_needs p (\<not> geodetic_mismatch p c) ''spatial_geodetic_planar_mismatch''
              ''the saved spatial plan treats geodetic geography and planar geometry as equivalent; requalify this field before writing'') (\<lambda>_.
            and_then (convert_datum C J p (col_datum c)) (\<lambda>d. Ok (c\<lparr>col_datum := d\<rparr>))))"

definition convert_image_with_plans ::
  "codec \<Rightarrow> plan_json \<Rightarrow> ColumnConversionPlan list \<Rightarrow> bool \<Rightarrow> RowChange \<Rightarrow>
     TargetCapabilityFailure + RowChange" where
  "convert_image_with_plans C J plans before r =
     (case (if before then rw_before r else rw_after r) of
        None \<Rightarrow> Ok r
      | Some cs \<Rightarrow>
          and_then (map_result (convert_column C J plans r) cs) (\<lambda>cs'.
          Ok (if before then r\<lparr>rw_before := Some cs'\<rparr> else r\<lparr>rw_after := Some cs'\<rparr>)))"

definition convert_transaction_with_plans ::
  "codec \<Rightarrow> plan_json \<Rightarrow> ColumnConversionPlan list \<Rightarrow> ChangeTransaction \<Rightarrow>
     TargetCapabilityFailure + ChangeTransaction" where
  "convert_transaction_with_plans C J plans t =
     and_then (map_result (\<lambda>r.
         and_then (convert_image_with_plans C J plans True r) (convert_image_with_plans C J plans False))
       (tx_changes t)) (\<lambda>rs. Ok (t\<lparr>tx_changes := rs\<rparr>))"

end
