(* ===== verification/Plan_Codec_Spec.thy ===== *)
theory Plan_Codec_Spec
  imports Plan_Convert
begin

text \<open>
  What conversions keep: the instant of a local date and time, the bits of a bit string, the characters of
  a text, and the value of a number that is narrowed.
\<close>

section \<open>Instants\<close>

lemma days_of_civil_day_number: "days_of_civil y m d = day_number y m d"
proof -
  define Y where "Y = march_year y m"
  have Y: "y - (if m \<le> 2 then 1 else 0) = Y" and mm: "m + (if 2 < m then - 3 else 9) = march_month m"
    by (auto simp: Y_def march_year_def march_month_def)
  have r: "Y - Y div 400 * 400 = Y mod 400" by (rule minus_div_mult_eq_mod)
  show ?thesis
    using era_days [of Y]
    unfolding days_of_civil_def Let_def Y mm r day_number_def month_start_def Y_def [symmetric] by linarith
qed

lemma civil_of_days_date: "civil_of_days n = date_of_day n"
  unfolding civil_of_days_def date_of_day_def era_year_def era_start_def month_start_def by (rule refl)

lemma wrap_id: "- (2 ^ (w - 1)) \<le> n \<Longrightarrow> n < 2 ^ (w - 1) \<Longrightarrow> wrap w n = n"
  by (simp add: wrap_def signed_take_bit_int_eq_self)

lemma wrap_32: "in_i32 (wrap 32 n)"
  using signed_take_bit_int_greater_eq_minus_exp [of 31 n] signed_take_bit_int_less_exp [of 31 n]
  by (simp add: in_i32_def wrap_def)

lemma parse_timezone_i32: "parse_timezone_offset p = Ok offset \<Longrightarrow> in_i32 offset"
  by (auto simp: parse_timezone_offset_def fixed_offset_def ok_iff wrap_32 split: if_splits)
    (simp_all add: in_i32_def)

lemma div_bounds:
  assumes "0 < (k :: int)" "- b \<le> y" "y \<le> b" "0 \<le> b"
  shows "- b - 1 \<le> y div k \<and> y div k \<le> b"
proof -
  have lo: "- b - 1 \<le> y div k"
  proof -
    have "(- b - 1) * k \<le> - b - 1" using assms(1,4) mult_left_mono_neg [of 1 k "- b - 1"] by simp
    then have "(- b - 1) * k \<le> y" using assms(2) by linarith
    then show ?thesis using assms(1) zdiv_mono1 [of "(- b - 1) * k" y k] by simp
  qed
  have "b \<le> b * k" using assms(1,4) mult_left_mono [of 1 k b] by simp
  then have "y \<le> b * k" using assms(3) by linarith
  then have "y div k \<le> b" using assms(1) zdiv_mono1 [of y "b * k" k] by simp
  with lo show ?thesis ..
qed

lemma year_start_bound:
  assumes "- 2147483649 \<le> Y" "Y \<le> 2147483647"
  shows "- 800000000000 \<le> year_start Y \<and> year_start Y \<le> 800000000000"
  using assms div_bounds [of 4 2147483649 Y] div_bounds [of 100 2147483649 Y] div_bounds [of 400 2147483649 Y]
  unfolding year_start_def by auto

lemma day_number_bound:
  assumes "in_i32 y" "valid_date y m d"
  shows "- 900000000000 \<le> day_number y m d \<and> day_number y m d \<le> 900000000000"
proof -
  have b: "1 \<le> m" "m \<le> 12" "1 \<le> d" "d \<le> 255"
    using assms(2) uint_range_size [of "days_in_month y (of_int m)"] by (auto simp: valid_date_def word_size)
  have my: "- 2147483649 \<le> march_year y m \<and> march_year y m \<le> 2147483647"
    using assms(1) by (auto simp: in_i32_def march_year_def)
  have "0 \<le> march_month m" "march_month m \<le> 11" using b by (auto simp: march_month_def)
  then have "0 \<le> month_start (march_month m) \<and> month_start (march_month m) \<le> 1686"
    using div_bounds [of 5 1685 "153 * march_month m + 2"] by (auto simp: month_start_def)
  moreover have "- 800000000000 \<le> year_start (march_year y m) \<and> year_start (march_year y m) \<le> 800000000000"
    using my year_start_bound by blast
  ultimately show ?thesis using b by (simp add: day_number_def)
qed

text \<open>The seconds of a date and time of day since 1970-01-01 at the given offset from UTC.\<close>

definition local_seconds :: "int \<Rightarrow> int \<Rightarrow> u8 \<Rightarrow> u8 \<Rightarrow> u8 \<Rightarrow> u8 \<Rightarrow> u8 \<Rightarrow> int" where
  "local_seconds offset y m d h mi s =
     day_number y (uint m) (uint d) * 86400 + uint h * 3600 + uint mi * 60 + uint s - offset"

lemma clock_bounds:
  assumes "h < (24 :: u8)" "mi < (60 :: u8)" "s < (60 :: u8)"
  shows "0 \<le> uint h * 3600 + uint mi * 60 + uint s" "uint h * 3600 + uint mi * 60 + uint s < 86400"
    "(uint h * 3600 + uint mi * 60 + uint s) div 3600 = uint h"
    "(uint h * 3600 + uint mi * 60 + uint s) mod 3600 div 60 = uint mi"
    "(uint h * 3600 + uint mi * 60 + uint s) mod 60 = uint s"
proof -
  have b: "uint h \<le> 23" "uint mi \<le> 59" "uint s \<le> 59" "0 \<le> uint h" "0 \<le> uint mi" "0 \<le> uint s"
    using assms by (simp_all add: word_less_def)
  then show "0 \<le> uint h * 3600 + uint mi * 60 + uint s" "uint h * 3600 + uint mi * 60 + uint s < 86400" by linarith+
  have e: "uint h * 3600 + uint mi * 60 + uint s = (uint mi * 60 + uint s) + uint h * 3600" by simp
  have r: "0 \<le> uint mi * 60 + uint s" "uint mi * 60 + uint s < 3600" using b by linarith+
  show "(uint h * 3600 + uint mi * 60 + uint s) div 3600 = uint h"
    unfolding e div_mult_self1 [of 3600 "uint mi * 60 + uint s" "uint h", simplified] using r by simp
  have "(uint h * 3600 + uint mi * 60 + uint s) mod 3600 = uint mi * 60 + uint s"
    unfolding e mod_mult_self1 using r by simp
  then show "(uint h * 3600 + uint mi * 60 + uint s) mod 3600 div 60 = uint mi" using b by simp
  have "uint h * 3600 + uint mi * 60 + uint s = uint s + (uint h * 60 + uint mi) * 60" by simp
  then show "(uint h * 3600 + uint mi * 60 + uint s) mod 60 = uint s"
    using b by (simp only: mod_mult_self1) simp
qed

lemma instant_of_local_exact:
  assumes "in_i32 y" "valid_date y (uint m) (uint d)" "h < 24" "mi < 60" "s < 60" "in_i32 offset"
  shows "instant_of_local offset y m d h mi s us = LV_Instant (show_int (local_seconds offset y m d h mi s)) (us * 1000)"
    and "parse_signed 64 (show_int (local_seconds offset y m d h mi s)) = Some (local_seconds offset y m d h mi s)"
    and "wrap 64 (local_seconds offset y m d h mi s + offset) = local_seconds offset y m d h mi s + offset"
proof -
  let ?n = "local_seconds offset y m d h mi s"
  have "- 100000000000000000 \<le> ?n \<and> ?n \<le> 100000000000000000"
    using day_number_bound [OF assms(1,2)] clock_bounds(1,2) [OF assms(3-5)] assms(6)
    unfolding local_seconds_def in_i32_def by (intro conjI; simp; linarith)
  then have r: "- (2 ^ 63) \<le> ?n" "?n < 2 ^ 63" "- (2 ^ 63) \<le> ?n + offset" "?n + offset < 2 ^ 63"
    using assms(6) by (simp_all add: in_i32_def)
  show "instant_of_local offset y m d h mi s us = LV_Instant (show_int ?n) (us * 1000)"
    using r(1,2) wrap_id [of 64 ?n] by (simp add: instant_of_local_def local_seconds_def days_of_civil_day_number)
  show "parse_signed 64 (show_int ?n) = Some ?n" using r(1,2) parse_signed_show_int [of 64 ?n] by simp
  show "wrap 64 (?n + offset) = ?n + offset" using r(3,4) by (intro wrap_id) simp_all
qed

lemma microseconds_back: "us < (1000000 :: u32) \<Longrightarrow> us * 1000 div 1000 = us"
proof -
  assume "us < 1000000"
  then have "uint us < 1000000" by (simp add: word_less_def)
  then have "uint (us * 1000) = uint us * 1000" by (simp add: uint_word_ariths)
  then show ?thesis by (simp add: word_uint_eq_iff uint_div)
qed

lemma local_of_instant_exact:
  assumes "in_i32 y" "valid_date y (uint m) (uint d)" "h < 24" "mi < 60" "s < 60" "us < 1000000" "in_i32 offset"
  shows "local_of_instant p offset (local_seconds offset y m d h mi s) (us * 1000) = Ok (LV_LocalDatetime y m d h mi s us)"
proof -
  let ?t = "uint h * 3600 + uint mi * 60 + uint s"
  have n: "local_seconds offset y m d h mi s + offset = ?t + day_number y (uint m) (uint d) * 86400"
    by (simp add: local_seconds_def)
  note t = clock_bounds [OF assms(3-5)]
  have "(local_seconds offset y m d h mi s + offset) div 86400 = day_number y (uint m) (uint d)"
    "(local_seconds offset y m d h mi s + offset) mod 86400 = ?t"
    unfolding n mod_mult_self1 using t(1,2) by (simp_all add: div_mult_self1 [of 86400 ?t "day_number y (uint m) (uint d)", simplified])
  then show ?thesis
    using assms(1) date_of_day_number [OF assms(2)]
    by (simp add: local_of_instant_def instant_of_local_exact(3) [OF assms(1-5,7)] civil_of_days_date Let_def t
        microseconds_back [OF assms(6)])
qed

section \<open>Characters\<close>

lemma text_of_chars_ascii: "list_all (\<lambda>c. c < 128) cs \<Longrightarrow> text_of_chars cs = map char_of cs"
  by (induction cs) (simp_all add: text_of_chars_def utf8_char_def)

lemma scalar_value_small: "n < 256 \<Longrightarrow> scalar_value n"
  by (simp add: scalar_value_def)

lemma decode_supported_text_valid:
  assumes "decode_supported_text charset bs declared = Ok s" shows "valid_utf8 s"
proof -
  have "valid_utf8 (text_of_chars (map ord bs))"
    by (intro valid_utf8_text) (simp add: list_all_iff scalar_value_small ord_less)
  moreover have "decode_bytes (to_ascii_lowercase charset) bs = Ok s"
    using assms by (auto simp: decode_supported_text_def Let_def ok_iff split: option.splits if_splits)
  ultimately show ?thesis by (auto simp: decode_bytes_def split: if_splits)
qed

text \<open>What a character set can encode, it reads back.\<close>

lemma latin1_bytes:
  "map_result (\<lambda>c. if c < 256 then Ok (char_of c) else Err e) cs = Ok bs \<Longrightarrow> map ord bs = cs"
  by (induction cs arbitrary: bs) (auto simp: ok_iff split: if_splits)

lemma ascii_bytes:
  assumes "valid_utf8 s" and "\<not> list_ex (\<lambda>c. 127 < c) (utf8_chars s)"
  shows "map ord s = utf8_chars s"
proof -
  have small: "list_all (\<lambda>c. c < 128) (utf8_chars s)" using assms(2) by (auto simp: list_ex_iff list_all_iff)
  then have "s = map char_of (utf8_chars s)"
    using text_of_chars_chars [OF assms(1)] text_of_chars_ascii [OF small] by simp
  then have "map ord s = map ord (map char_of (utf8_chars s))" by (rule arg_cong)
  also have "\<dots> = map (\<lambda>c. ord (char_of c)) (utf8_chars s)" by simp
  also have "\<dots> = utf8_chars s" using small by (intro map_idI) (auto simp: list_all_iff)
  finally show ?thesis .
qed

lemma encode_cases:
  assumes "encode_supported_text charset s = Ok bs" and "valid_utf8 s"
  shows "(to_ascii_lowercase charset \<in> set utf8_names \<and> bs = s)
    \<or> (to_ascii_lowercase charset = ''ascii'' \<and> bs = s \<and> \<not> list_ex (\<lambda>c. 127 < c) (utf8_chars s))
    \<or> (to_ascii_lowercase charset \<in> set latin1_names \<and> map ord bs = utf8_chars s)"
  using assms(1) latin1_bytes [of _ "utf8_chars s" bs]
  unfolding encode_supported_text_def Let_def utf8_names_def
  by (auto split: if_splits)

lemma encode_decode:
  assumes enc: "encode_supported_text charset s = Ok bs" and valid: "valid_utf8 s"
  shows "decode_supported_text charset bs (Some s) = Ok s"
proof -
  note defs = decode_supported_text_def decode_bytes_def Let_def
  have s: "text_of_chars (utf8_chars s) = s" using text_of_chars_chars [OF valid] by simp
  from encode_cases [OF assms] show ?thesis
  proof (elim disjE conjE)
    assume "to_ascii_lowercase charset \<in> set utf8_names" "bs = s"
    then show ?thesis using valid by (simp add: defs)
  next
    assume n: "to_ascii_lowercase charset = ''ascii''" and "bs = s" and small: "\<not> list_ex (\<lambda>c. 127 < c) (utf8_chars s)"
    have o: "map ord s = utf8_chars s" using valid small by (rule ascii_bytes)
    then have "list_ex (\<lambda>c. 127 < c) (utf8_chars s) = list_ex (\<lambda>c. 127 < c) (map ord s)" by simp
    also have "\<dots> = list_ex (\<lambda>c. 127 < ord c) s" by (simp add: list_ex_iff)
    finally have "list_ex (\<lambda>c. 127 < ord c) s = list_ex (\<lambda>c. 127 < c) (utf8_chars s)" ..
    then show ?thesis using n o s small by (simp add: defs utf8_names_def \<open>bs = s\<close>)
  next
    assume n: "to_ascii_lowercase charset \<in> set latin1_names" and o: "map ord bs = utf8_chars s"
    have "to_ascii_lowercase charset \<notin> set utf8_names" "to_ascii_lowercase charset \<noteq> ''ascii''"
      using n by (auto simp: latin1_names_def utf8_names_def)
    then show ?thesis using n by (simp add: defs o s)
  qed
qed

text \<open>The limit of a text counts bytes of the target or characters.\<close>

definition within_limit :: "ColumnConversionPlan \<Rightarrow> bytes \<Rightarrow> string \<Rightarrow> bool" where
  "within_limit p bs s \<longleftrightarrow>
     (case Option.bind (target_parameter p ''target_length'') text_limit of
        Some (Some limit) \<Rightarrow>
          (target_parameter p ''target_length_unit'' = Some ''bytes'' \<longrightarrow> length bs \<le> limit)
          \<and> (target_parameter p ''target_length_unit'' = Some ''characters'' \<longrightarrow> length (utf8_chars s) \<le> limit)
      | _ \<Rightarrow> True)"

lemma text_accepted:
  assumes "validate_text_plan_value C p (LV_Text charset encoded declared) = Ok ()"
  shows "\<exists>bs s target bs'. b64_decode C encoded = Some bs \<and> decode_supported_text charset bs declared = Ok s
    \<and> required_text_parameter p ''target_charset'' = Ok target \<and> encode_supported_text target s = Ok bs'
    \<and> within_limit p bs' s"
  using assms
  by (auto simp: validate_text_plan_value_def ok_iff within_limit_def split: option.splits if_splits)

section \<open>Bits\<close>

definition bit_place :: "BitOrder \<Rightarrow> nat \<Rightarrow> nat" where
  "bit_place bit_order i = (case bit_order of MsbFirst \<Rightarrow> 7 - i mod 8 | LsbFirst \<Rightarrow> i mod 8)"

text \<open>Bit number \<open>i\<close> of a bit string.\<close>

definition bit_at :: "BitOrder \<Rightarrow> bytes \<Rightarrow> nat \<Rightarrow> bool" where
  "bit_at bit_order bs i = bit (of_char (bs ! (i div 8)) :: u8) (bit_place bit_order i)"

lemma bit_place_less: "bit_place bit_order i < 8"
  by (cases bit_order) (simp_all add: bit_place_def)

lemma bit_mask_at_iff: "bit (bit_mask_at bit_order i) j \<longleftrightarrow> j = bit_place bit_order i"
  by (cases bit_order) (auto simp: bit_mask_at_def bit_place_def bit_exp_iff possible_bit_word)

lemma masked_bit: "(w AND bit_mask_at bit_order i \<noteq> 0) = bit w (bit_place bit_order i)" for w :: u8
  by (simp add: word_eq_bits bit_and_iff bit_mask_at_iff)

lemma bit_place_inj: "i div 8 = j div 8 \<Longrightarrow> bit_place bit_order i = bit_place bit_order j \<Longrightarrow> i = j"
proof -
  assume d: "i div 8 = j div 8" and "bit_place bit_order i = bit_place bit_order j"
  then have "i mod 8 = j mod 8" by (cases bit_order) (auto simp: bit_place_def)
  with d show "i = j" by (metis div_mult_mod_eq)
qed

lemma copy_bits_Suc:
  "copy_bits a b source (Suc n) = copy_bit a b source (copy_bits a b source n) n"
  by (simp add: copy_bits_def)

lemma length_copy_bits [simp]: "length (copy_bits a b source n) = length source"
  by (induction n) (simp_all add: copy_bits_def copy_bit_def)

lemma copy_bits_iff:
  assumes "n \<le> 8 * length source" and "j < length source"
  shows "bit (copy_bits a b source n ! j) k \<longleftrightarrow>
     (\<exists>i < n. i div 8 = j \<and> bit_place b i = k \<and> bit_at a source i)"
  using assms(1)
proof (induction n)
  case 0
  then show ?case using assms(2) by (simp add: copy_bits_def)
next
  case (Suc n)
  then have n: "n div 8 < length source" by (simp add: less_mult_imp_div_less mult.commute)
  have "bit (copy_bits a b source (Suc n) ! j) k \<longleftrightarrow>
      bit (copy_bits a b source n ! j) k \<or> n div 8 = j \<and> bit_place b n = k \<and> bit_at a source n"
    using n assms(2)
    by (auto simp: copy_bits_Suc copy_bit_def masked_bit bit_at_def nth_list_update bit_or_iff bit_mask_at_iff)
  then show ?case using Suc by (auto simp: less_Suc_eq)
qed

text \<open>Every bit is where the target order has it, and the other bits are clear.\<close>

lemma copy_bits_bit:
  assumes "n \<le> 8 * length source" and "i < n"
  shows "bit (copy_bits a b source n ! (i div 8)) (bit_place b i) \<longleftrightarrow> bit_at a source i"
proof -
  have "i div 8 < length source" using assms by (simp add: less_mult_imp_div_less mult.commute)
  then show ?thesis
    using copy_bits_iff [OF assms(1), of "i div 8"] assms(2) bit_place_inj by metis
qed

lemma of_char_byte_of [simp]: "(of_char (byte_of w) :: u8) = w"
proof -
  have "unat w < 256" using unsigned_less [of w] by simp
  then have "(of_nat (of_char (byte_of w)) :: u8) = w" by (simp add: byte_of_def)
  then show ?thesis by (simp only: of_nat_of_char)
qed

lemma unused_count_bits:
  "unused_bits b n = (case b of MsbFirst \<Rightarrow> {0..<unused_count n} | LsbFirst \<Rightarrow> {8 - unused_count n..<8})"
  unfolding unused_bits_def unused_count_def Let_def by (rule refl)

lemma unused_mask_iff: "bit (bit_mask_unused b (unused_count n)) k \<longleftrightarrow> k \<in> unused_bits b n"
  unfolding unused_count_bits by (rule bit_mask_unused_iff) (simp add: unused_count_def)

lemma unused_disjoint:
  assumes "i < n" and "i div 8 = (n + 7) div 8 - 1"
  shows "bit_place b i \<notin> unused_bits b n"
proof (cases "n mod 8 = 0")
  case False
  then have u: "unused_count n = 8 - n mod 8" by (simp add: unused_count_def)
  have "n + 7 = (n mod 8 - 1) + (n div 8 + 1) * 8" using False div_mult_mod_eq [of n 8] by simp
  moreover have "n mod 8 - 1 < 8" using mod_less_divisor [of 8 n] by linarith
  ultimately have "(n + 7) div 8 = n div 8 + 1" by (simp only: div_mult_self1 [of "8 :: nat"]) simp
  then have "i div 8 = n div 8" using assms(2) by simp
  then have "i mod 8 < n mod 8" using assms(1) by (metis div_mult_mod_eq nat_add_left_cancel_less)
  then show ?thesis by (cases b) (auto simp: unused_count_bits u bit_place_def)
qed (cases b; simp add: unused_count_bits unused_count_def)

text \<open>The bytes of a converted string: the moved bits, and the padding in the unused places.\<close>

definition padded_bits :: "BitOrder \<Rightarrow> BitOrder \<Rightarrow> bool \<Rightarrow> bytes \<Rightarrow> nat \<Rightarrow> u8 list" where
  "padded_bits a b one source n =
     (let target = copy_bits a b source n in
      if 0 < unused_count n \<and> one then butlast target @ [last target OR bit_mask_unused b (unused_count n)]
      else target)"

lemma padded_bits_iff:
  assumes len: "length source = (n + 7) div 8" and j: "j < length source"
  shows "length (padded_bits a b one source n) = length source"
    and "bit (padded_bits a b one source n ! j) k \<longleftrightarrow>
       bit (copy_bits a b source n ! j) k \<or> one \<and> j = length source - 1 \<and> k \<in> unused_bits b n"
proof -
  let ?t = "copy_bits a b source n"
  have ne: "?t \<noteq> []" using j by (metis length_copy_bits less_zeroE list.size(3))
  then show "length (padded_bits a b one source n) = length source" using j by (auto simp: padded_bits_def Let_def)
  show "bit (padded_bits a b one source n ! j) k \<longleftrightarrow>
      bit (?t ! j) k \<or> one \<and> j = length source - 1 \<and> k \<in> unused_bits b n"
  proof (cases "0 < unused_count n \<and> one")
    case True
    then have "padded_bits a b one source n ! j =
        (if j = length source - 1 then ?t ! j OR bit_mask_unused b (unused_count n) else ?t ! j)"
      using j ne by (auto simp: padded_bits_def Let_def nth_append nth_butlast last_conv_nth)
    then show ?thesis using True by (auto simp: bit_or_iff unused_mask_iff)
  next
    case False
    then show ?thesis by (cases b) (auto simp: padded_bits_def unused_count_bits)
  qed
qed

lemma padded_bits_exact:
  assumes len: "length source = (n + 7) div 8"
  shows "i < n \<Longrightarrow> bit_at b (map byte_of (padded_bits a b one source n)) i = bit_at a source i"
    and "k \<in> unused_bits b n \<Longrightarrow> bit (of_char (last (map byte_of (padded_bits a b one source n))) :: u8) k = one"
proof -
  let ?p = "padded_bits a b one source n"
  have n: "n \<le> 8 * length source" using len by presburger
  show "bit_at b (map byte_of ?p) i = bit_at a source i" if i: "i < n"
  proof -
    have j: "i div 8 < length source" using i n by (simp add: less_mult_imp_div_less mult.commute)
    note p = padded_bits_iff [OF len j, of a b one]
    have "bit_at b (map byte_of ?p) i = bit (?p ! (i div 8)) (bit_place b i)"
      using j p(1) by (simp add: bit_at_def)
    also have "\<dots> = bit_at a source i"
      using p(2) copy_bits_bit [OF n i, of a b] unused_disjoint [OF i, of b] len by auto
    finally show ?thesis .
  qed
  show "bit (of_char (last (map byte_of ?p)) :: u8) k = one" if k: "k \<in> unused_bits b n"
  proof -
    have "0 < n mod 8" using k by (cases b) (auto simp: unused_count_bits unused_count_def intro: gr0I)
    then have pos: "0 < n" by (intro gr0I) simp
    then have j: "length source - 1 < length source" using len by presburger
    note p = padded_bits_iff [OF len j, of a b one]
    have "?p \<noteq> []" using p(1) j by auto
    then have "bit (of_char (last (map byte_of ?p)) :: u8) k = bit (?p ! (length source - 1)) k"
      using p(1) by (simp add: last_map) (simp add: last_conv_nth)
    also have "\<dots> \<longleftrightarrow> one"
      using p(2) [of k] k copy_bits_iff [OF n j, of a b k] unused_disjoint [of _ n b] len by auto
    finally show ?thesis .
  qed
qed

lemma convert_bit_string_bits:
  assumes rt: "base64_roundtrip C" and src: "validate_bit_string_plan_value C p (LV_BitString encoded n padding a) = Ok u"
    and conv: "convert_bit_string_value C p (LV_BitString encoded n padding a) = Ok v"
  shows "\<exists>bs bs' padding' b. b64_decode C encoded = Some bs \<and> v = LV_BitString (b64_encode C bs') n padding' b
    \<and> b64_decode C (b64_encode C bs') = Some bs' \<and> length bs' = length bs
    \<and> (\<forall>i < unat n. bit_at b bs' i = bit_at a bs i)
    \<and> (\<forall>k \<in> unused_bits b (unat n). bit (of_char (last bs') :: u8) k \<longleftrightarrow> padding' = Pad_One)"
proof -
  obtain bs where bs: "b64_decode C encoded = Some bs" and len: "length bs = (unat n + 7) div 8"
    using src by (auto simp: validate_bit_string_plan_value_def ok_iff Let_def split: if_splits)
  obtain b padding' where v: "v = LV_BitString (b64_encode C (map byte_of (padded_bits a b (padding' = Pad_One) bs (unat n)))) n padding' b"
    using conv bs by (auto simp: convert_bit_string_value_def ok_iff Let_def padded_bits_def split: if_splits)
  have "length (padded_bits a b (padding' = Pad_One) bs (unat n)) = length bs"
  proof (cases "bs = []")
    case True
    then have "unused_count (unat n) = 0" using len by (simp add: unused_count_def) presburger
    then show ?thesis by (simp add: padded_bits_def)
  next
    case False
    then show ?thesis using padded_bits_iff(1) [OF len, of 0] by simp
  qed
  then show ?thesis
    using v bs rt padded_bits_exact [OF len, of _ b a "padding' = Pad_One"]
    by (intro exI [of _ bs] exI [of _ "map byte_of (padded_bits a b (padding' = Pad_One) bs (unat n))"]
        exI [of _ padding'] exI [of _ b]) (simp add: base64_roundtrip_def)
qed

section \<open>Narrowed numbers\<close>

text \<open>The finite binary32 numbers are \<open>k * 2 ^ (q - 149)\<close> with \<open>k < 2 ^ 24\<close> and \<open>q \<le> 253\<close>. Both sides are
  counted in units of \<open>2 ^ (-1074)\<close>, the smallest step of binary64.\<close>

definition in_binary32 :: "nat \<Rightarrow> bool" where
  "in_binary32 n \<longleftrightarrow> (\<exists>k q. k < 2 ^ 24 \<and> q \<le> 253 \<and> n = k * 2 ^ (q + 925))"

definition f64_units :: "u64 \<Rightarrow> nat" where
  "f64_units raw = f64_significand raw * 2 ^ nat (f64_exponent raw + 1074)"

lemma round_exact: "round_half_even (k * d) d = k" if "0 < d"
  using that by (simp add: round_half_even_def)

lemma f64_significand_bound: "f64_significand raw < 2 ^ 53"
proof -
  have "unat (take_bit 52 raw) < 2 ^ 52"
    using take_bit_nat_less_exp [of 52 "unat raw"] by (simp only: unsigned_take_bit_eq)
  then show ?thesis by (simp add: f64_significand_def)
qed

lemma narrow_parts:
  obtains e where "f64_exponent raw = int e - 1074" "narrow_shift raw = max 29 (925 - e)"
    and "nat (f64_exponent raw + 1074) = e" and "nat (f64_exponent raw + int (narrow_shift raw) + 149) = e + narrow_shift raw - 925"
    and "e \<noteq> 0 \<Longrightarrow> 2 ^ 52 \<le> f64_significand raw" and "925 \<le> e + narrow_shift raw"
proof -
  let ?e = "f64_field raw - 1"
  have x: "f64_exponent raw = int ?e - 1074" by (auto simp: f64_exponent_def)
  have s: "narrow_shift raw = max 29 (925 - ?e)" unfolding narrow_shift_def x by linarith
  have es: "925 \<le> ?e + narrow_shift raw" using s by linarith
  have q: "nat (f64_exponent raw + int (narrow_shift raw) + 149) = ?e + narrow_shift raw - 925"
    unfolding x using es by linarith
  show thesis
    by (rule that [OF x s _ q _ es]) (auto simp: x f64_significand_def)
qed

lemma in_binary32_less:
  assumes "n < 2 ^ 1202" and "n = k * 2 ^ (q + 925)" and "k < 2 ^ 24"
  shows "in_binary32 n"
proof (cases "q \<le> 253")
  case False
  define r where "r = q - 253"
  have "q + 925 = r + (253 + 925)" using False by (simp add: r_def)
  then have n: "n = (k * 2 ^ r) * 2 ^ (253 + 925)" using assms(2) by (simp only: power_add mult.assoc)
  have "(k * 2 ^ r) * 2 ^ (253 + 925) < 2 ^ 24 * (2 :: nat) ^ (253 + 925)" using assms(1) unfolding n power_add [symmetric] by simp
  then have "k * 2 ^ r < 2 ^ 24" by (simp only: mult_less_cancel2)
  with n show ?thesis unfolding in_binary32_def by (intro exI [of _ "k * 2 ^ r"] exI [of _ 253]) simp
qed (use assms in \<open>auto simp: in_binary32_def\<close>)

lemma narrows_exactly_iff: "narrows_exactly raw \<longleftrightarrow> is_finite_f64 raw \<and> in_binary32 (f64_units raw)"
proof (rule narrow_parts [of raw])
  fix e
  let ?m = "f64_significand raw" and ?s = "narrow_shift raw" and ?k = "narrowed_significand raw"
  assume e: "nat (f64_exponent raw + 1074) = e" and s: "?s = max 29 (925 - e)"
    and q: "nat (f64_exponent raw + int ?s + 149) = e + ?s - 925"
    and normal: "e \<noteq> 0 \<Longrightarrow> 2 ^ 52 \<le> ?m" and es: "925 \<le> e + ?s"
  have units: "f64_units raw = ?m * 2 ^ e" by (simp add: f64_units_def e)
  have finite: "narrowed_finite raw \<longleftrightarrow> f64_units raw < 2 ^ 1202" if "?k * 2 ^ ?s = ?m"
  proof -
    have "(e + ?s - 925) + 925 = ?s + e" using es by simp
    then have "?k * 2 ^ (e + ?s - 925) * 2 ^ 925 = f64_units raw"
      unfolding units that [symmetric] by (simp only: mult.assoc power_add [symmetric])
    then have "f64_units raw < 2 ^ 1202 \<longleftrightarrow> ?k * 2 ^ (e + ?s - 925) * 2 ^ 925 < 2 ^ 277 * (2 :: nat) ^ 925"
      unfolding power_add [symmetric] by simp
    also have "\<dots> \<longleftrightarrow> ?k * 2 ^ (e + ?s - 925) < 2 ^ 277" by (simp only: mult_less_cancel2) simp
    finally show ?thesis by (simp add: narrowed_finite_def q)
  qed
  have there: "in_binary32 (f64_units raw)" if k: "?k * 2 ^ ?s = ?m" and "narrowed_finite raw"
  proof -
    have "?k * 2 ^ ?s < 2 ^ 24 * 2 ^ 29" using f64_significand_bound [of raw] k by simp
    also have "\<dots> \<le> 2 ^ 24 * (2 :: nat) ^ ?s" using s by (intro mult_left_mono power_increasing) auto
    finally have "?k < 2 ^ 24" by (simp only: mult_less_cancel2)
    moreover have "f64_units raw = ?k * 2 ^ ((e + ?s - 925) + 925)"
      unfolding units k [symmetric] mult.assoc power_add [symmetric] using es by (simp add: add.commute)
    ultimately show ?thesis using finite [OF k] that(2) by (intro in_binary32_less) auto
  qed
  have embed: "?k * 2 ^ ?s = ?m \<and> narrowed_finite raw" if bin: "in_binary32 (f64_units raw)"
  proof -
    obtain k r where k: "k < 2 ^ 24" "r \<le> 253" and m: "?m * 2 ^ e = k * 2 ^ (r + 925)"
      using bin unfolding in_binary32_def units by blast
    have "2 ^ ?s dvd ?m"
    proof (cases "?m = 0")
      case False
      have le: "e + ?s \<le> r + 925"
      proof (cases "e \<le> 896")
        case False
        then have "(2 :: nat) ^ (52 + e) \<le> ?m * 2 ^ e" using normal by (simp add: power_add)
        also have "\<dots> < 2 ^ 24 * 2 ^ (r + 925)" unfolding m using k(1) by simp
        finally have "52 + e < 24 + (r + 925)" unfolding power_add [symmetric] by (simp only: power_strict_increasing_iff)
        then show ?thesis using s False by simp
      qed (use s in simp)
      have "?m * 2 ^ e = (k * 2 ^ (r + 925 - e - ?s) * 2 ^ ?s) * 2 ^ e"
        unfolding m mult.assoc power_add [symmetric] using le by simp
      then have "?m = k * 2 ^ (r + 925 - e - ?s) * 2 ^ ?s" by (simp only: mult_cancel2) simp
      then show ?thesis by (metis dvd_triv_right)
    qed simp
    then have exact: "?k * 2 ^ ?s = ?m"
      unfolding narrowed_significand_def by (auto elim!: dvdE simp: round_exact mult.commute [of "2 ^ _"])
    have "f64_units raw < 2 ^ 24 * 2 ^ (r + 925)" unfolding units m using k(1) by simp
    also have "\<dots> \<le> 2 ^ 24 * (2 :: nat) ^ (253 + 925)" using k(2) by (intro mult_left_mono power_increasing) auto
    finally have "f64_units raw < 2 ^ 1202" unfolding power_add [symmetric] by simp
    then show ?thesis using exact finite by blast
  qed
  show ?thesis using there embed by (auto simp: narrows_exactly_def)
qed

end
