(* ===== verification/Plan_Spec.thy ===== *)
theory Plan_Spec
  imports Plan_Codec_Spec
begin

text \<open>
  What holds of every conversion with saved plans: a failure names the plan it comes from, a success has
  passed the check of every plan it used, and nothing but the data of the planned columns changes.
\<close>

section \<open>Failures name their plan\<close>

named_theorems blame \<open>results whose failures are those of a plan\<close>

definition blames :: "ColumnConversionPlan \<Rightarrow> TargetCapabilityFailure + 'a \<Rightarrow> bool" where
  "blames p r \<longleftrightarrow> (\<forall>f. r = Err f \<longrightarrow> (\<exists>code message. f = plan_failure p code message))"

lemma blames_results [simp, blame]: "blames p (Ok x)" "blames p (Err (plan_failure p code message))"
  by (auto simp: blames_def)

lemma blames_and_then [blame]: "blames p r \<Longrightarrow> (\<And>x. r = Ok x \<Longrightarrow> blames p (k x)) \<Longrightarrow> blames p (and_then r k)"
  by (cases r) (auto simp: blames_def)

lemma blames_require [blame]: "blames p (require b (plan_failure p code message))"
  by (simp add: require_def)

lemma blames_ok_or [blame]: "blames p (ok_or v (plan_failure p code message))"
  by (cases v) simp_all

lemma blames_map_err [blame]: "blames p (map_err (\<lambda>e. plan_failure p (c e) (m e)) r)"
  by (cases r) simp_all

lemma blames_map_err_message [blame]: "blames p (map_err (plan_failure p code) r)"
  by (cases r) simp_all

lemma blames_map_err_code [blame]: "blames p (map_err (fails_with p message) r)"
  by (cases r) (simp_all add: fails_with_def)

lemma blames_each [blame]: "(\<And>x. x \<in> set xs \<Longrightarrow> blames p (f x)) \<Longrightarrow> blames p (each f xs)"
  by (induction xs) (auto intro!: blames_and_then)

lemma blames_if [blame]: "(b \<Longrightarrow> blames p x) \<Longrightarrow> (\<not> b \<Longrightarrow> blames p y) \<Longrightarrow> blames p (if b then x else y)"
  by simp

lemma blames_option [blame]:
  "(v = None \<Longrightarrow> blames p x) \<Longrightarrow> (\<And>z. v = Some z \<Longrightarrow> blames p (y z)) \<Longrightarrow>
     blames p (case v of None \<Rightarrow> x | Some z \<Rightarrow> y z)"
  by (cases v) simp_all

lemma blames_pair [blame]: "(\<And>x y. v = (x, y) \<Longrightarrow> blames p (f x y)) \<Longrightarrow> blames p (case v of (x, y) \<Rightarrow> f x y)"
  by (cases v) simp

lemma blames_let [blame]: "(\<And>x. x = v \<Longrightarrow> blames p (f x)) \<Longrightarrow> blames p (let x = v in f x)"
  by simp

lemma special_blames [blame]: "blames p (validate_decimal_special_value p v)"
  by (cases v; simp only: validate_decimal_special_value_def LogicalValue.case; intro blame)

lemma integer_blames [blame]: "blames p (validate_integer_plan_value p v)"
  by (cases v; simp only: validate_integer_plan_value_def LogicalValue.case; intro blame)

lemma decimal_blames [blame]: "blames p (validate_decimal_plan_value p v)"
  by (cases v; simp only: validate_decimal_plan_value_def decimal_value_fits_def LogicalValue.case; intro blame)

lemma float_blames [blame]: "blames p (validate_float_plan_value p v)"
  by (cases v; simp only: validate_float_plan_value_def LogicalValue.case; intro blame)

lemma binary_blames [blame]: "blames p (validate_binary_plan_value C p v)" "blames p (convert_binary_value C p v)"
  by (cases v; simp only: validate_binary_plan_value_def convert_binary_value_def LogicalValue.case; intro blame)+

lemma bit_string_blames [blame]:
  "blames p (validate_bit_string_plan_value C p v)" "blames p (convert_bit_string_value C p v)"
  by (cases v; simp only: validate_bit_string_plan_value_def convert_bit_string_value_def LogicalValue.case; intro blame)+

lemma spatial_blames [blame]: "blames p (validate_spatial_plan_value C p v)"
  by (cases v; simp only: validate_spatial_plan_value_def validate_spatial_wire_def LogicalValue.case; intro blame)

lemma recursive_blames [blame]: "blames p (validate_recursive_plan_value C p v)"
  by (simp only: validate_recursive_plan_value_def; intro blame)

lemma charset_blames [blame]: "blames p (required_text_parameter p name)"
  by (simp only: required_text_parameter_def; intro blame)

lemma json_blames [blame]: "blames p (validate_json_plan_value J p v)" "blames p (convert_json_value C J p v)"
  by (cases v; simp only: validate_json_plan_value_def convert_json_value_def LogicalValue.case; intro blame)+

lemma members_blames [blame]: "blames p (plan_members J p name)"
  by (simp only: plan_members_def; intro blame)

lemma enum_blames [blame]: "blames p (validate_enum_set_plan_value J p v)"
  by (cases v; simp only: validate_enum_set_plan_value_def LogicalValue.case; intro blame)

lemma enum_convert_blames [blame]: "blames p (convert_enum_set_value J p v)"
  by (cases v; simp only: convert_enum_set_value_def LogicalValue.case; intro blame)

lemma text_blames [blame]: "blames p (validate_text_plan_value C p v)" "blames p (convert_text_value C p v)"
  by (cases v; simp only: validate_text_plan_value_def convert_text_value_def LogicalValue.case; intro blame)+

lemma zone_blames [blame]: "blames p (parse_timezone_offset p)"
  by (simp only: parse_timezone_offset_def fixed_offset_def; intro blame)

lemma precision_blames [blame]:
  "blames p (validate_microsecond_precision p us n)" "blames p (validate_nanosecond_precision p ns n)"
  by (simp only: validate_microsecond_precision_def validate_nanosecond_precision_def; intro blame)+

lemma temporal_blames [blame]: "blames p (validate_temporal_plan_value p v)" "blames p (convert_temporal_value p v)"
  by (cases v; simp only: validate_temporal_plan_value_def convert_temporal_value_def temporal_mismatch_def
      local_of_instant_def LogicalValue.case; intro blame)+

lemma envelope_blames [blame]: "blames p (validate_envelope_against_plan C J p e)"
  by (simp only: validate_envelope_against_plan_def envelope_target_check_def envelope_identity_check_def
      envelope_metadata_check_def envelope_definition_check_def; intro blame)

lemma shape_blames: "shape_check C p v name = Some r \<Longrightarrow> blames p r"
  by (auto simp: shape_check_def intro: blame split: if_splits)

lemma validate_range_blames [blame]: "blames p (validate_range C J p v)"
  by (auto simp: validate_range_def validate_conversion_def validate_strategy_def intro!: blame)
    (erule shape_blames)+

lemma validate_blames [blame]: "blames p (validate_value_against_plan C J p v)"
  by (simp only: validate_value_against_plan_def validate_tagged_carrier_def range_policy_check_def; intro blame)

lemma convert_value_blames [blame]: "blames p (convert_value_with_plan C J p v)"
  by (simp only: convert_value_with_plan_def; intro blame)

lemma convert_datum_blames [blame]: "blames p (convert_datum C J p d)"
  by (cases d) (auto simp: convert_datum_def intro!: blame)

section \<open>What a conversion does to a row\<close>

text \<open>A converted datum has passed the check of its plan, and keeps its kind.\<close>

fun same_presence :: "Datum \<Rightarrow> Datum \<Rightarrow> bool" where
  "same_presence (D_Value _) d = (case d of D_Value _ \<Rightarrow> True | _ \<Rightarrow> False)"
| "same_presence a d = (a = d)"

lemma convert_datum_Ok:
  assumes "convert_datum C J p a = Ok d"
  shows "validate_datum_against_plan C J p a = Ok () \<and> same_presence a d"
  using assms by (cases a) (auto simp: convert_datum_def validate_datum_against_plan_def convert_value_with_plan_def ok_iff)

text \<open>A column keeps everything but its datum, and its datum changes only with a plan.\<close>

definition column_kept ::
  "codec \<Rightarrow> plan_json \<Rightarrow> ColumnConversionPlan list \<Rightarrow> RowChange \<Rightarrow> ColumnDatum \<Rightarrow> ColumnDatum \<Rightarrow> bool" where
  "column_kept C J plans r c c' \<longleftrightarrow>
     c' = c\<lparr>col_datum := col_datum c'\<rparr> \<and> same_presence (col_datum c) (col_datum c')
     \<and> (case plan_of plans (column_lineage r c) of
          Some p \<Rightarrow> if col_generated c then c' = c
            else validate_datum_against_plan C J p (col_datum c) = Ok () \<and> convert_datum C J p (col_datum c) = Ok (col_datum c')
        | None \<Rightarrow> c' = c)"

lemma same_presence_refl [simp]: "same_presence d d"
  by (cases d) auto

lemma convert_column_Ok_iff: "convert_column C J plans r c = Ok c' \<Longrightarrow> column_kept C J plans r c c'"
  using convert_datum_Ok [of C J _ "col_datum c"]
  by (auto simp: convert_column_def column_kept_def ok_iff split: option.splits if_splits)

definition image_kept ::
  "codec \<Rightarrow> plan_json \<Rightarrow> ColumnConversionPlan list \<Rightarrow> RowChange \<Rightarrow> ColumnDatum list option \<Rightarrow>
     ColumnDatum list option \<Rightarrow> bool" where
  "image_kept C J plans r i i' \<longleftrightarrow> rel_option (list_all2 (column_kept C J plans r)) i i'"

lemma column_lineage_cong:
  "rw_schema r = rw_schema r' \<Longrightarrow> rw_table r = rw_table r' \<Longrightarrow> column_lineage r c = column_lineage r' c"
  by (simp add: column_lineage_def)

lemma image_kept_cong:
  "rw_schema r = rw_schema r' \<Longrightarrow> rw_table r = rw_table r' \<Longrightarrow> image_kept C J plans r i i' = image_kept C J plans r' i i'"
  unfolding image_kept_def column_kept_def by (simp cong: column_lineage_cong)

lemma convert_image_Ok:
  assumes "convert_image_with_plans C J plans before r = Ok r'"
  shows "if before then r' = r\<lparr>rw_before := rw_before r'\<rparr> \<and> image_kept C J plans r (rw_before r) (rw_before r')
    else r' = r\<lparr>rw_after := rw_after r'\<rparr> \<and> image_kept C J plans r (rw_after r) (rw_after r')"
  using assms
  by (auto simp: convert_image_with_plans_def image_kept_def ok_iff list_all2_mono convert_column_Ok_iff
      split: option.splits if_splits)

definition row_kept ::
  "codec \<Rightarrow> plan_json \<Rightarrow> ColumnConversionPlan list \<Rightarrow> RowChange \<Rightarrow> RowChange \<Rightarrow> bool" where
  "row_kept C J plans r r' \<longleftrightarrow>
     r' = r\<lparr>rw_before := rw_before r', rw_after := rw_after r'\<rparr>
     \<and> image_kept C J plans r (rw_before r) (rw_before r') \<and> image_kept C J plans r (rw_after r) (rw_after r')"

lemma convert_row_Ok:
  assumes "and_then (convert_image_with_plans C J plans True r) (convert_image_with_plans C J plans False) = Ok r'"
  shows "row_kept C J plans r r'"
proof -
  obtain q where q: "convert_image_with_plans C J plans True r = Ok q" "convert_image_with_plans C J plans False q = Ok r'"
    using assms by (auto simp: ok_iff)
  have a: "q = r\<lparr>rw_before := rw_before q\<rparr>" "image_kept C J plans r (rw_before r) (rw_before q)"
    using convert_image_Ok [OF q(1)] by simp_all
  have b: "r' = q\<lparr>rw_after := rw_after r'\<rparr>" "image_kept C J plans q (rw_after q) (rw_after r')"
    using convert_image_Ok [OF q(2)] by simp_all
  obtain x where x: "q = r\<lparr>rw_before := x\<rparr>" using a(1) by blast
  obtain y where y: "r' = q\<lparr>rw_after := y\<rparr>" using b(1) by blast
  show ?thesis
    using a(2) b(2) image_kept_cong [of q r C J plans] unfolding row_kept_def by (simp add: x y)
qed

lemma convert_transaction_Ok:
  assumes "convert_transaction_with_plans C J plans t = Ok t'"
  shows "t' = t\<lparr>tx_changes := tx_changes t'\<rparr> \<and> list_all2 (row_kept C J plans) (tx_changes t) (tx_changes t')"
  using assms
  by (auto simp: convert_transaction_with_plans_def and_then_Ok_iff [of "map_result _ _"] map_result_Ok_iff
      elim!: list_all2_mono dest: convert_row_Ok)

section \<open>The plan a failure belongs to\<close>

lemma map_result_Err: "map_result f xs = Err e \<Longrightarrow> \<exists>x \<in> set xs. f x = Err e"
  by (induction xs) (auto simp: and_then_def split: sum.splits)

lemma plan_of_Some: "plan_of plans l = Some p \<Longrightarrow> p \<in> set plans \<and> dr_lineage_id (pl_source_field p) = l"
  by (auto simp: plan_of_def find_Some_iff)

lemma convert_column_Err:
  assumes "convert_column C J plans r c = Err f"
  shows "\<exists>p code message. plan_of plans (column_lineage r c) = Some p \<and> f = plan_failure p code message"
proof -
  obtain p where p: "plan_of plans (column_lineage r c) = Some p"
    using assms by (auto simp: convert_column_def split: option.splits)
  then have "blames p (convert_column C J plans r c)"
    unfolding convert_column_def p option.case by (intro blame)
  then show ?thesis using assms p by (auto simp: blames_def)
qed

lemma convert_transaction_Err:
  assumes "convert_transaction_with_plans C J plans t = Err f"
  shows "\<exists>p \<in> set plans. \<exists>code message r c. r \<in> set (tx_changes t)
    \<and> dr_lineage_id (pl_source_field p) = column_lineage r c \<and> f = plan_failure p code message"
proof -
  obtain r where r: "r \<in> set (tx_changes t)"
    "and_then (convert_image_with_plans C J plans True r) (convert_image_with_plans C J plans False) = Err f"
    using assms by (auto simp: convert_transaction_with_plans_def and_then_def split: sum.splits dest!: map_result_Err)
  have image: "\<exists>c. convert_column C J plans q c = Err f" if "convert_image_with_plans C J plans b q = Err f" for b q
    using that by (auto simp: convert_image_with_plans_def and_then_def split: sum.splits option.splits if_splits dest!: map_result_Err)
  have "\<exists>q c. rw_schema q = rw_schema r \<and> rw_table q = rw_table r \<and> convert_column C J plans q c = Err f"
  proof (cases "convert_image_with_plans C J plans True r")
    case (Inl e)
    then show ?thesis using r(2) image [of True r] by auto
  next
    case (Inr q)
    have "q = r\<lparr>rw_before := rw_before q\<rparr>" using convert_image_Ok [OF Inr] by simp
    then have "rw_schema q = rw_schema r" "rw_table q = rw_table r" by (metis RowChange.select_convs RowChange.surjective RowChange.update_convs)+
    then show ?thesis using r(2) Inr image [of False q] by auto
  qed
  then obtain q c where q: "rw_schema q = rw_schema r" "rw_table q = rw_table r" "convert_column C J plans q c = Err f" by blast
  from convert_column_Err [OF q(3)] obtain p code message
    where p: "plan_of plans (column_lineage q c) = Some p" "f = plan_failure p code message" by blast
  then show ?thesis using plan_of_Some [OF p(1)] r(1) column_lineage_cong [OF q(1,2), of c] by metis
qed

end
