(* ===== verification/Plan_Examples.thy ===== *)
theory Plan_Examples
  imports Pg_Examples Plan_Spec
begin

text \<open>
  Saved plans for the witnesses: an integer that is narrowed, a text for another character set, a bit string
  in the other order, and dates and times with an offset.
\<close>

definition no_plan_json :: plan_json where
  "no_plan_json = \<lparr>pj_value = (\<lambda>_. []), pj_envelope = (\<lambda>_. []), pj_type = (\<lambda>_. []), pj_type_of = (\<lambda>_. None),
     pj_metadata = (\<lambda>_. []), pj_metadata_of = (\<lambda>_. None), pj_keys = (\<lambda>_. []), pj_keys_of = (\<lambda>_. None),
     pj_members_of = (\<lambda>_. None), pj_string = (\<lambda>s. s), pj_double = (\<lambda>_. []), pj_debug = (\<lambda>s. s), pj_plan = (\<lambda>_. [])\<rparr>"

definition sample_plan :: "(string \<times> string) list \<Rightarrow> (string \<times> string) list \<Rightarrow> ColumnConversionPlan" where
  "sample_plan target route =
     \<lparr>pl_format = [], pl_route_id = ''route'', pl_configuration_revision = ''1'',
      pl_source_field = \<lparr>dr_lineage_id = ''catalog:app.orders.id'', dr_schema_fingerprint = ''s''\<rparr>,
      pl_target_field = \<lparr>dr_lineage_id = ''target:app.orders.id'', dr_schema_fingerprint = ''t''\<rparr>,
      pl_source_connector = \<lparr>ci_kind = ''mysql'', ci_version = ''8.0''\<rparr>,
      pl_sink_connector = \<lparr>ci_kind = ''postgresql'', ci_version = ''15''\<rparr>,
      pl_source_build = None, pl_target_build = None, pl_source_mapping_id = ''m'', pl_source_mapping_version = ''1'',
      pl_target = \<lparr>tr_native_type = ''smallint'', tr_parameters = target\<rparr>,
      pl_rule = \<lparr>rr_id = ''rule'', rr_version = ''1''\<rparr>, pl_rule_digest = [], pl_capability_code = ''c'',
      pl_capability_manifest_digest = [], pl_target_probe_digest = None, pl_qualification = RangeChecked,
      pl_risk = Risk_None, pl_risk_code = None,
      pl_loss = \<lparr>la_value = False, la_comparison = False, la_ordering = False, la_constraints = False, la_explanation = []\<rparr>,
      pl_examples = [], pl_locator_impact = Loc_Preserved, pl_confirmation = Conf_NotRequired, pl_parameters = route,
      pl_failure_policy = Policy_Reject, pl_input_digest = [], pl_plan_digest = ''digest''\<rparr>"

definition json_plan :: ColumnConversionPlan where
  "json_plan = sample_plan [(''value_strategy'', ''structured_json'')] []"

definition latin1_plan :: ColumnConversionPlan where
  "latin1_plan = sample_plan
     [(''conversion_kind'', ''text''), (''target_charset'', ''latin1''), (''target_length'', ''3''),
      (''target_length_unit'', ''bytes'')]
     [(''collation_policy'', ''target''), (''encoding_policy'', ''strict''), (''length_policy'', ''reject'')]"

definition bits_plan :: ColumnConversionPlan where
  "bits_plan = sample_plan
     [(''conversion_kind'', ''bit_string''), (''source_bit_length'', ''3''), (''source_bit_order'', ''lsb_first''),
      (''source_padding'', ''zero''), (''target_bit_order'', ''msb_first''), (''target_padding'', ''one'')] []"

definition time_plan :: "string \<Rightarrow> string \<Rightarrow> ColumnConversionPlan" where
  "time_plan a b = sample_plan
     [(''conversion_kind'', ''temporal''), (''source_temporal_kind'', a), (''target_precision'', ''6''),
      (''target_temporal_kind'', b)]
     [(''precision_policy'', ''reject''), (''time_zone'', ''+08:00'')]"

definition json_tx :: ChangeTransaction where
  "json_tx = sample_tx\<lparr>tx_changes := map (\<lambda>r. r\<lparr>rw_after := Some [sample_column (LV_Json JV_Null)]\<rparr>) (tx_changes sample_tx)\<rparr>"

lemmas plan_values = json_plan_def latin1_plan_def bits_plan_def time_plan_def sample_plan_def

lemma json_lookups:
  "target_parameter json_plan ''conversion_kind'' = None" "target_parameter json_plan ''range_kind'' = None"
  "target_parameter json_plan ''value_strategy'' = Some ''structured_json''"
  by (simp_all add: target_parameter_def json_plan_def sample_plan_def bt_get_def)

lemma json_plan_found: "plan_of [json_plan] ''catalog:app.orders.id'' = Some json_plan"
  by (simp add: plan_of_def json_plan_def sample_plan_def)

lemma json_convert:
  "convert_value_with_plan C J json_plan (LV_Json x) = Ok (LV_Json x)"
  "convert_value_with_plan C J json_plan (LV_Integer s b n)
     = Err (plan_failure json_plan (capability ''json_type_mismatch'') ''the structured JSON plan received a non-JSON value'')"
  unfolding convert_value_with_plan_def validate_value_against_plan_def range_policy_check_def validate_range_def
    validate_conversion_def validate_strategy_def validate_decimal_special_value_def json_lookups
  by simp_all

lemma json_converted: "convert_transaction_with_plans C J [json_plan] json_tx = Ok json_tx"
  by (simp add: convert_transaction_with_plans_def json_tx_def sample_tx_def convert_image_with_plans_def convert_column_def
      column_lineage_def sample_column_def json_plan_found geodetic_mismatch_def json_lookups convert_datum_def json_convert)

lemma json_refused:
  "convert_transaction_with_plans C J [json_plan] sample_tx =
     Err (plan_failure json_plan (capability ''json_type_mismatch'') ''the structured JSON plan received a non-JSON value'')"
  by (simp add: convert_transaction_with_plans_def sample_row_def sample_tx_def convert_image_with_plans_def convert_column_def
      column_lineage_def sample_column_def json_plan_found geodetic_mismatch_def json_lookups convert_datum_def json_convert)

text \<open>The character E9 of Latin-1 in its two bytes of UTF-8.\<close>

lemma latin1_accepted:
  "validate_text_plan_value plain_codec latin1_plan (LV_Text ''utf8'' [CHR 0xC3, CHR 0xA9] None) = Ok ()"
  by code_simp

lemmas plan_lookups = plan_parameter_def route_parameter_def target_parameter_def bt_get_def plan_values

lemma bits_lookups:
  "plan_parameter bits_plan ''source_bit_length'' = Some ''3''" "plan_parameter bits_plan ''source_bit_order'' = Some ''lsb_first''"
  "plan_parameter bits_plan ''source_padding'' = Some ''zero''" "plan_parameter bits_plan ''target_bit_order'' = Some ''msb_first''"
  "plan_parameter bits_plan ''target_padding'' = Some ''one''"
  by (simp_all add: plan_lookups)

lemma parse_three: "parse_unsigned 64 ''3'' = Some 3"
  by code_simp

lemma bits_accepted:
  "validate_bit_string_plan_value plain_codec bits_plan (LV_BitString [CHR 0x01] 3 Pad_Zero LsbFirst) = Ok ()"
  by (simp add: validate_bit_string_plan_value_def bits_lookups parse_three parse_bit_order_def parse_bit_padding_def
      plain_codec_def unused_count_def padding_bits_ok_def bit_mask_unused_def)

lemma bits_moved: "copy_bits LsbFirst MsbFirst [CHR 0x01] 3 = [0x80]"
  by (simp add: copy_bits_def copy_bit_def bit_mask_at_def upt_rec [of _ 3])

lemma bits_converted:
  "convert_bit_string_value plain_codec bits_plan (LV_BitString [CHR 0x01] 3 Pad_Zero LsbFirst)
     = Ok (LV_BitString [CHR 0x9F] 3 Pad_One MsbFirst)"
  by (simp add: convert_bit_string_value_def bits_lookups parse_bit_order_def parse_bit_padding_def
      plain_codec_def unused_count_def bits_moved bit_mask_unused_def byte_of_def) code_simp

lemma time_lookup: "route_parameter (time_plan a b) ''time_zone'' = Some ''+08:00''"
  by (simp add: plan_lookups)

lemma parse_hours: "parse_signed 32 ''08'' = Some 8" "parse_signed 32 ''00'' = Some 0"
  by code_simp+

lemma time_zone: "parse_timezone_offset (time_plan a b) = Ok 28800"
  unfolding parse_timezone_offset_def time_lookup
  by (simp add: eq_ignore_ascii_case_def to_ascii_lowercase_def lower_char_def is_ascii_upper_def starts_with_def
      fixed_offset_def parse_hours wrap_def ord_def)

end
