(* ===== verification/Ip_Address.thy ===== *)
theory Ip_Address
  imports Prelude
begin

text \<open>
  \<^verbatim>\<open>IpAddr::from_str\<close> of \<^verbatim>\<open>core::net\<close>, which the PostgreSQL Source Contract calls: whether a text is
  an address, and of which family. A reader returns what is left of the text, or nothing and then the
  text is unread.
\<close>

definition read_given_char :: "char \<Rightarrow> string \<Rightarrow> string option" where
  "read_given_char c s = (case s of [] \<Rightarrow> None | x # rest \<Rightarrow> if x = c then Some rest else None)"

definition read_number :: "(char \<Rightarrow> bool) \<Rightarrow> nat \<Rightarrow> nat \<Rightarrow> bool \<Rightarrow> nat \<Rightarrow> string \<Rightarrow> string option" where
  "read_number is_digit radix max_digits allow_zero_prefix width s =
     (let digits = takeWhile is_digit s in
      if digits = [] \<or> max_digits < length digits then None
      else if \<not> allow_zero_prefix \<and> hd digits = CHR ''0'' \<and> 1 < length digits then None
      else if 2 ^ width \<le> radix_value radix digits then None
      else Some (dropWhile is_digit s))"

definition read_separator :: "char \<Rightarrow> nat \<Rightarrow> (string \<Rightarrow> string option) \<Rightarrow> string \<Rightarrow> string option" where
  "read_separator sep index inner s =
     (if 0 < index then Option.bind (read_given_char sep s) inner else inner s)"

definition read_octet :: "nat \<Rightarrow> string \<Rightarrow> string option" where
  "read_octet index = read_separator CHR ''.'' index (read_number is_ascii_digit 10 3 False 8)"

definition read_ipv4 :: "string \<Rightarrow> string option" where
  "read_ipv4 s =
     Option.bind (read_octet 0 s) (\<lambda>s. Option.bind (read_octet 1 s) (\<lambda>s.
     Option.bind (read_octet 2 s) (read_octet 3)))"

text \<open>The groups that are read, and whether the last two are an IPv4 address. The first argument is
  the number of groups still to be filled.\<close>

fun read_groups :: "nat \<Rightarrow> nat \<Rightarrow> string \<Rightarrow> nat \<times> bool \<times> string" where
  "read_groups 0 i s = (i, False, s)"
| "read_groups (Suc n) i s =
     (case (if 0 < n then read_separator CHR '':'' i read_ipv4 s else None) of
        Some rest \<Rightarrow> (i + 2, True, rest)
      | None \<Rightarrow>
          (case read_separator CHR '':'' i (read_number is_ascii_hexdigit 16 4 True 16) s of
             None \<Rightarrow> (i, False, s)
           | Some rest \<Rightarrow> read_groups n (i + 1) rest))"

definition read_ipv6 :: "string \<Rightarrow> string option" where
  "read_ipv6 s =
     (case read_groups 8 0 s of (head_size, head_ipv4, rest) \<Rightarrow>
        if head_size = 8 then Some rest
        else if head_ipv4 then None
        else Option.bind (read_given_char CHR '':'' rest) (\<lambda>rest.
          Option.bind (read_given_char CHR '':'' rest) (\<lambda>rest.
          case read_groups (8 - (head_size + 1)) 0 rest of (_, _, rest) \<Rightarrow> Some rest)))"

text \<open>Whether the address is of version 6.\<close>

definition parse_ip :: "string \<Rightarrow> bool option" where
  "parse_ip s =
     (case read_ipv4 s of
        Some rest \<Rightarrow> if rest = [] then Some False else None
      | None \<Rightarrow> (case read_ipv6 s of Some [] \<Rightarrow> Some True | _ \<Rightarrow> None))"

text \<open>An address of version 4 has no colon.\<close>

lemma read_number_rest:
  assumes "read_number is_digit radix max_digits zero width s = Some rest"
  shows "\<exists>ds. s = ds @ rest \<and> list_all is_digit ds"
proof -
  have "rest = dropWhile is_digit s" using assms by (auto simp: read_number_def Let_def split: if_splits)
  then have "s = takeWhile is_digit s @ rest" by simp
  moreover have "list_all is_digit (takeWhile is_digit s)" by (auto simp: list_all_iff dest: set_takeWhileD)
  ultimately show ?thesis by blast
qed

lemma colon_not_digit: "\<not> is_ascii_digit CHR '':''"
  by (simp add: is_ascii_digit_def ord_def)

lemma read_octet_colon:
  assumes "read_octet i s = Some rest" shows "CHR '':'' \<in> set s \<longleftrightarrow> CHR '':'' \<in> set rest"
proof -
  obtain t where s: "s = t \<or> s = CHR ''.'' # t" and t: "read_number is_ascii_digit 10 3 False 8 t = Some rest"
    using assms by (cases s) (auto simp: read_octet_def read_separator_def read_given_char_def split: if_splits)
  from read_number_rest [OF t] obtain ds where ds: "t = ds @ rest" "list_all is_ascii_digit ds" by blast
  have "CHR '':'' \<notin> set ds" using ds(2) colon_not_digit by (auto simp: list_all_iff)
  then show ?thesis using s ds(1) by auto
qed

lemma parse_ip_v4:
  assumes "parse_ip s = Some False" shows "CHR '':'' \<notin> set s"
proof -
  have "read_ipv4 s = Some []"
    using assms by (auto simp: parse_ip_def split: option.splits if_splits list.splits)
  then show ?thesis
    by (auto simp: read_ipv4_def bind_eq_Some_conv dest!: read_octet_colon)
qed

end
