(* ===== verification/Pg_Source_Contract.thy ===== *)
theory Pg_Source_Contract
  imports Source_Contract Type_Mapping Ip_Address
begin

text \<open>
  The PostgreSQL Source Contract of \<^verbatim>\<open>crates/postgresql_15/src/source_contract.rs\<close>: the identity of a
  PostgreSQL source, its LSN cursors and transaction identifiers, and for every captured column its
  presence, its declared type and the evidence of a source representation.
\<close>

section \<open>What the contract is given\<close>

text \<open>
  The third-party functions: a JSON document is opaque, and the code asks for its members, for the
  string or the unsigned number that a member is, and for the document of a type definition.
\<close>

record 'v contract_env =
  ce_codec :: codec
  ce_json :: mapping_json
  ce_value_from_str :: "string \<Rightarrow> 'v option"
  ce_get :: "'v \<Rightarrow> string \<Rightarrow> 'v option"
  ce_as_str :: "'v \<Rightarrow> string option"
  ce_as_u64 :: "'v \<Rightarrow> nat option"
  ce_closure_from_str :: "string \<Rightarrow> SourceTypeDefinitionClosure option"
  ce_to_value :: "SourceTypeDefinition \<Rightarrow> 'v option"

section \<open>Cursors\<close>

definition lsn_part :: "string \<Rightarrow> bool" where
  "lsn_part part \<longleftrightarrow> part \<noteq> [] \<and> length part \<le> 8 \<and> list_all is_ascii_hexdigit part"

definition lsn :: "SourceCursor \<Rightarrow> SourceContractError + u64" where
  "lsn cursor =
     and_then (contract_ensure (sc_format cursor = ''postgresql.lsn.v1'' \<and> sc_display cursor = sc_value cursor)
                 ''invalid PostgreSQL cursor format or display'') (\<lambda>_.
     and_then (ok_or (split_once CHR ''/'' (sc_value cursor)) (SC_Msg ''invalid LSN'')) (\<lambda>(high, low).
     and_then (contract_ensure (lsn_part high \<and> lsn_part low) ''invalid PostgreSQL LSN'') (\<lambda>_.
     and_then (ok_or (parse_hex 64 high) (SC_Msg ''invalid PostgreSQL LSN'')) (\<lambda>high.
     and_then (ok_or (parse_hex 64 low) (SC_Msg ''invalid PostgreSQL LSN'')) (\<lambda>low.
     let position = or (push_bit 32 (of_nat high :: u64)) (of_nat low) in
     and_then (contract_ensure (0 < position) ''zero PostgreSQL event LSN'') (\<lambda>_.
     Ok position))))))"

section \<open>Declared types\<close>

definition positive :: "nat \<Rightarrow> string \<Rightarrow> bool" where
  "positive w s \<longleftrightarrow> (case parse_unsigned w s of Some n \<Rightarrow> 0 < n | None \<Rightarrow> False)"

definition strip_first :: "string list \<Rightarrow> string \<Rightarrow> string option" where
  "strip_first prefixes s =
     (case List.map_filter (\<lambda>p. strip_prefix p s) prefixes of [] \<Rightarrow> None | rest # _ \<Rightarrow> Some rest)"

definition valid_character :: "string \<Rightarrow> bool" where
  "valid_character native \<longleftrightarrow>
     native \<in> {''character'', ''character varying''}
     \<or> (case Option.bind (strip_first [''character('', ''character varying(''] native) (strip_suffix '')'') of
          Some len \<Rightarrow> positive 64 len
        | None \<Rightarrow> False)"

definition precision_and_scale :: "string list \<Rightarrow> bool" where
  "precision_and_scale parts \<longleftrightarrow>
     (case (parse_unsigned 64 (trim (hd parts)),
            parse_signed 32 (trim (if 1 < length parts then parts ! 1 else ''0''))) of
        (Some precision, Some scale) \<Rightarrow>
          length parts \<le> 2 \<and> 0 < precision \<and> precision \<le> 1000 \<and> - 1000 \<le> scale \<and> scale \<le> 1000
      | _ \<Rightarrow> False)"

definition valid_parameterized_numeric :: "string \<Rightarrow> bool" where
  "valid_parameterized_numeric native \<longleftrightarrow>
     native \<in> {''numeric'', ''decimal''}
     \<or> (case Option.bind (strip_first [''numeric('', ''decimal(''] native) (strip_suffix '')'') of
          Some parameters \<Rightarrow> precision_and_scale (split_on CHR '','' parameters)
        | None \<Rightarrow> False)"

definition at_most_six :: "string \<Rightarrow> bool" where
  "at_most_six s \<longleftrightarrow> (case parse_unsigned 8 s of Some n \<Rightarrow> n \<le> 6 | None \<Rightarrow> False)"

definition valid_parameterized_timestamp :: "string \<Rightarrow> bool" where
  "valid_parameterized_timestamp native \<longleftrightarrow>
     (case Option.bind (strip_prefix ''timestamp('' native) (split_once_sub '') '') of
        Some (precision, suffix) \<Rightarrow>
          at_most_six precision \<and> suffix \<in> {''without time zone'', ''with time zone''}
      | None \<Rightarrow> False)"

definition valid_parameterized_time :: "string \<Rightarrow> bool" where
  "valid_parameterized_time native \<longleftrightarrow>
     (case Option.bind (strip_prefix ''time('' native) (split_once CHR '')'') of
        Some (precision, suffix) \<Rightarrow>
          at_most_six (trim precision) \<and> trim suffix \<in> {'''', ''without time zone'', ''with time zone''}
      | None \<Rightarrow> False)"

definition valid_parameterized_bit :: "string \<Rightarrow> bool" where
  "valid_parameterized_bit native \<longleftrightarrow>
     (case Option.bind (strip_first [''bit('', ''bit varying('', ''varbit(''] native) (strip_suffix '')'') of
        Some len \<Rightarrow> positive 64 len
      | None \<Rightarrow> False)"

text \<open>One byte of a qualified name: whether the name is quoted here, the dots so far, a counter of one
  byte that stays at its end, and the byte before.\<close>

fun qualified_bytes :: "bool \<Rightarrow> nat \<Rightarrow> char option \<Rightarrow> string \<Rightarrow> bool" where
  "qualified_bytes quoted dots previous [] \<longleftrightarrow> \<not> quoted \<and> dots = 1 \<and> previous \<notin> {None, Some CHR ''.''}"
| "qualified_bytes quoted dots previous (byte # s) =
     (if quoted then qualified_bytes (byte \<noteq> CHR 0x22) dots (Some byte) s
      else if byte = CHR 0x22 then qualified_bytes True dots (Some byte) s
      else if byte = CHR ''.'' then
        previous \<notin> {None, Some CHR ''.''} \<and> qualified_bytes False (min 255 (dots + 1)) (Some byte) s
      else \<not> is_ascii_whitespace byte \<and> qualified_bytes False dots (Some byte) s)"

definition is_qualified_type_name :: "string \<Rightarrow> bool" where
  "is_qualified_type_name native \<longleftrightarrow>
     native \<noteq> [] \<and> \<not> list_ex (\<lambda>c. c \<in> {CHR '';'', NUL, CHR ''['', CHR '']'', CHR ''('', CHR '')''}) native
     \<and> qualified_bytes False 0 None native"

definition native_names :: "string list" where
  "native_names =
     [''boolean'', ''uuid'', ''smallint'', ''integer'', ''bigint'', ''real'', ''double precision'', ''text'',
      ''bytea'', ''date'', ''time'', ''time without time zone'', ''time with time zone'', ''timetz'',
      ''interval'', ''inet'', ''cidr'', ''macaddr'', ''macaddr8'', ''xml'', ''name'',
      [CHR 0x22] @ ''char'' @ [CHR 0x22], ''money'', ''point'', ''line'', ''lseg'', ''box'', ''path'',
      ''polygon'', ''circle'', ''tsvector'', ''tsquery'', ''oidvector'', ''int2vector'', ''tid'', ''oid'',
      ''xid'', ''xid8'', ''cid'', ''pg_lsn'', ''pg_snapshot'', ''txid_snapshot'', ''regproc'',
      ''regprocedure'', ''regoper'', ''regoperator'', ''regclass'', ''regtype'', ''regconfig'',
      ''regdictionary'', ''regnamespace'', ''regrole'', ''regcollation'', ''int4range'', ''int8range'',
      ''numrange'', ''tsrange'', ''tstzrange'', ''daterange'', ''int4multirange'', ''int8multirange'',
      ''nummultirange'', ''tsmultirange'', ''tstzmultirange'', ''datemultirange'', ''jsonb'', ''json'',
      ''timestamp without time zone'', ''timestamp with time zone'']"

definition native_supported :: "codec \<Rightarrow> mapping_json \<Rightarrow> string \<Rightarrow> string \<Rightarrow> bool" where
  "native_supported C J version native_type \<longleftrightarrow>
     (let native = to_ascii_lowercase (trim native_type) in
      native \<in> set native_names \<or> ends_with ''[]'' native \<or> is_qualified_type_name native
      \<or> native \<in> {''hstore'', ''geometry'', ''geography''}
      \<or> valid_character native \<or> valid_parameterized_numeric native \<or> valid_parameterized_timestamp native
      \<or> valid_parameterized_time native \<or> valid_parameterized_bit native
      \<or> (starts_with ''interval'' native \<or> starts_with ''enum('' native)
          \<and> is_ok (validate_native_type_for_version C (types_json J) version native_type))"

definition contract_native_type ::
  "codec \<Rightarrow> mapping_json \<Rightarrow> string \<Rightarrow> string \<Rightarrow> SourceContractError + unit" where
  "contract_native_type C J version native_type =
     contract_ensure (native_supported C J version native_type)
       (''unsupported PostgreSQL native type '' @ CHR 0x27 # native_type @ [CHR 0x27])"

section \<open>Values and declared types\<close>

definition network_declared :: "string \<Rightarrow> string \<Rightarrow> string \<Rightarrow> u8 option \<Rightarrow> bool" where
  "network_declared native family address prefix_length \<longleftrightarrow>
     (if native \<in> {''inet'', ''cidr''} then
        (case parse_ip address of
           None \<Rightarrow> False
         | Some is_v6 \<Rightarrow>
             (family = ''ipv6'') = is_v6 \<and> family \<in> {''ipv6'', ''ipv4''}
             \<and> (case prefix_length of None \<Rightarrow> True | Some prefix \<Rightarrow> prefix \<le> (if is_v6 then 128 else 32)))
      else if native \<in> {''macaddr'', ''macaddr8''} then
        family = native
        \<and> length (split_on CHR '':'' address) = (if native = ''macaddr'' then 6 else 8)
        \<and> list_all (\<lambda>part. length part = 2 \<and> list_all is_ascii_hexdigit part) (split_on CHR '':'' address)
        \<and> prefix_length = None
      else False)"

definition timestamp_declared :: "string \<Rightarrow> string \<Rightarrow> bool" where
  "timestamp_declared zone native \<longleftrightarrow>
     native = ''timestamp '' @ zone \<or> valid_parameterized_timestamp native \<and> ends_with zone native"

definition infinity_declared :: "string \<Rightarrow> TemporalInfinityKind \<Rightarrow> string \<Rightarrow> bool" where
  "infinity_declared version kind native \<longleftrightarrow>
     (case kind of
        TI_Date \<Rightarrow> native = ''date''
      | TI_LocalDatetime \<Rightarrow> timestamp_declared ''without time zone'' native
      | TI_Instant \<Rightarrow> timestamp_declared ''with time zone'' native
      | TI_CalendarInterval \<Rightarrow>
          (case parse_unsigned 16 version of Some major \<Rightarrow> 17 \<le> major | None \<Rightarrow> False)
          \<and> starts_with ''interval'' native)"

definition label_declared :: "codec \<Rightarrow> mapping_json \<Rightarrow> string \<Rightarrow> string \<Rightarrow> string \<Rightarrow> bool" where
  "label_declared C J version native_raw label \<longleftrightarrow>
     starts_with ''enum('' (to_ascii_lowercase native_raw) \<and> label \<noteq> []
     \<and> (case source_type_mapping_for_version C J version native_raw of
          Inl _ \<Rightarrow> False
        | Inr m \<Rightarrow> (case sm_logical_type m of LT_Enum members \<Rightarrow> label \<in> set members | _ \<Rightarrow> False))"

definition spatial_native :: "string \<Rightarrow> bool" where
  "spatial_native native \<longleftrightarrow>
     native \<in> {''geometry'', ''geography''} \<or> starts_with ''geometry('' native \<or> starts_with ''geography('' native
     \<or> ends_with ''.geometry'' native \<or> ends_with ''.geography'' native"

text \<open>The types an integer of a sign and width is declared with.\<close>

definition integer_native :: "bool \<Rightarrow> u8 \<Rightarrow> string list" where
  "integer_native is_signed bits =
     (if is_signed then
        (if bits = 16 then [''smallint''] else if bits = 32 then [''integer'']
         else if bits = 64 then [''bigint''] else [])
      else if bits = 32 then [''oid'', ''xid'', ''cid''] else if bits = 64 then [''xid8''] else [])"

definition logical_matches_native ::
  "codec \<Rightarrow> mapping_json \<Rightarrow> LogicalValue \<Rightarrow> string \<Rightarrow> string \<Rightarrow> bool" where
  "logical_matches_native C J v native_type version \<longleftrightarrow>
     (let native_raw = trim native_type; native = to_ascii_lowercase native_raw in
      case v of
        LV_Boolean _ \<Rightarrow> native = ''boolean''
      | LV_Uuid _ \<Rightarrow> native = ''uuid''
      | LV_Integer is_signed bits _ \<Rightarrow> native \<in> set (integer_native is_signed bits)
      | LV_Decimal unscaled _ \<Rightarrow>
          valid_parameterized_numeric native
          \<and> (unscaled \<in> {''Infinity'', ''-Infinity''} \<longrightarrow> native \<in> {''numeric'', ''decimal''})
      | LV_Float bits _ \<Rightarrow>
          bits = 32 \<and> native = ''real'' \<or> bits = 64 \<and> native = ''double precision''
      | LV_Text charset _ _ \<Rightarrow>
          charset = ''UTF8''
          \<and> (native \<in> {''text'', ''name'', [CHR 0x22] @ ''char'' @ [CHR 0x22]} \<or> valid_character native)
      | LV_Binary _ \<Rightarrow> native = ''bytea''
      | LV_Date _ _ _ \<Rightarrow> native = ''date''
      | LV_TemporalInfinity kind _ \<Rightarrow> infinity_declared version kind native
      | LV_LocalTime _ _ _ _ \<Rightarrow>
          native \<in> {''time'', ''time without time zone''} \<or> valid_parameterized_time native
      | LV_OffsetTime _ _ _ _ _ \<Rightarrow>
          native \<in> {''time with time zone'', ''timetz''}
          \<or> valid_parameterized_time native \<and> ends_with ''with time zone'' native
      | LV_LocalDatetime _ _ _ _ _ _ _ \<Rightarrow>
          ends_with ''without time zone'' native
          \<and> (starts_with ''timestamp'' native \<or> valid_parameterized_timestamp native)
      | LV_Instant _ _ \<Rightarrow>
          ends_with ''with time zone'' native
          \<and> (starts_with ''timestamp'' native \<or> valid_parameterized_timestamp native)
      | LV_CalendarInterval _ _ _ \<Rightarrow> starts_with ''interval'' native
      | LV_Json _ \<Rightarrow> native \<in> {''jsonb'', ''json''}
      | LV_BitString _ _ _ _ \<Rightarrow> native = ''bit'' \<or> valid_parameterized_bit native
      | LV_Network family address prefix_length \<Rightarrow> network_declared native family address prefix_length
      | LV_Xml _ _ \<Rightarrow> native = ''xml''
      | LV_Enum label \<Rightarrow> label_declared C J version native_raw label
      | LV_Domain w \<Rightarrow> is_qualified_type_name native \<and> w \<noteq> LV_Null
      | LV_Struct flds \<Rightarrow>
          (native = ''record'' \<or> is_qualified_type_name native)
          \<and> list_all (\<lambda>f. sf_name f \<noteq> []) flds \<and> distinct (map sf_name flds)
      | LV_Array _ \<Rightarrow> ends_with ''[]'' native
      | LV_ArrayWithMetadata _ _ _ _ \<Rightarrow> ends_with ''[]'' native
      | LV_Range _ _ _ _ _ \<Rightarrow>
          native \<in> {''int4range'', ''int8range'', ''numrange'', ''tsrange'', ''tstzrange'', ''daterange''}
          \<or> is_qualified_type_name native
      | LV_MultiRange _ \<Rightarrow>
          native \<in> {''int4multirange'', ''int8multirange'', ''nummultirange'', ''tsmultirange'',
                     ''tstzmultirange'', ''datemultirange''}
          \<or> is_qualified_type_name native
      | LV_Map _ \<Rightarrow> native = ''hstore'' \<or> ends_with ''.hstore'' native
      | LV_Spatial _ _ geometry_type dimensions _ _ \<Rightarrow>
          spatial_native native \<and> geometry_type \<noteq> [] \<and> 2 \<le> dimensions \<and> dimensions \<le> 4
      | _ \<Rightarrow> False)"

section \<open>The evidence of a source representation\<close>

definition metadata_is :: "(string \<times> string) list \<Rightarrow> string \<Rightarrow> string \<Rightarrow> bool" where
  "metadata_is metadata key v \<longleftrightarrow> bt_get metadata key = Some v"

definition metadata_has :: "(string \<times> string) list \<Rightarrow> string \<Rightarrow> (string \<Rightarrow> bool) \<Rightarrow> bool" where
  "metadata_has metadata key P \<longleftrightarrow> (case bt_get metadata key of Some v \<Rightarrow> P v | None \<Rightarrow> False)"

definition hex_digest :: "string \<Rightarrow> bool" where
  "hex_digest digest \<longleftrightarrow> length digest = 64 \<and> list_all is_ascii_hexdigit digest"

definition type_oid_of :: "(string \<times> string) list \<Rightarrow> nat option" where
  "type_oid_of metadata = Option.bind (bt_get metadata ''column_oid'') (parse_unsigned 32)"

text \<open>The type definition in the metadata is the one that the context names.\<close>

definition definition_matches :: "'v contract_env \<Rightarrow> SourceRepresentationContext \<Rightarrow> bool" where
  "definition_matches E context \<longleftrightarrow>
     (let metadata = ctx_type_metadata context in
      case Option.bind (bt_get metadata ''type_definition'') (ce_value_from_str E) of
        None \<Rightarrow> False
      | Some d \<Rightarrow>
          (case Option.bind (ce_get E d ''definition_digest'') (ce_as_str E) of
             Some digest \<Rightarrow> ''sha256:'' @ digest = ctx_source_type_definition_digest context
           | None \<Rightarrow> False)
          \<and> Option.bind (ce_get E d ''oid'') (ce_as_u64 E) = type_oid_of metadata
          \<and> Option.bind (ce_get E d ''schema'') (ce_as_str E) = bt_get metadata ''type_schema''
          \<and> Option.bind (ce_get E d ''name'') (ce_as_str E) = bt_get metadata ''type_name'')"

text \<open>The closure in the metadata has its digest, contains that definition, and is complete.\<close>

definition closure_matches :: "'v contract_env \<Rightarrow> (string \<times> string) list \<Rightarrow> bool" where
  "closure_matches E metadata \<longleftrightarrow>
     (case (Option.bind (bt_get metadata ''type_definition_closure'') (ce_closure_from_str E), type_oid_of metadata) of
        (Some closure, Some root_oid) \<Rightarrow>
          metadata_is metadata ''type_definition_closure_digest''
            (''sha256:'' @ closure_digest (ce_codec E) (types_json (ce_json E)) closure)
          \<and> Option.bind (definition_at (cl_types closure) (of_nat root_oid)) (ce_to_value E)
              = Option.bind (bt_get metadata ''type_definition'') (ce_value_from_str E)
          \<and> validate_type_definition_closure (ce_codec E) (types_json (ce_json E)) closure (of_nat root_oid)
      | _ \<Rightarrow> False)"

definition expected_identity :: "(string \<times> string) list \<Rightarrow> string option" where
  "expected_identity metadata =
     (case (type_oid_of metadata, bt_get metadata ''type_schema'', bt_get metadata ''type_name'') of
        (Some oid, Some schema, Some name) \<Rightarrow>
          Some (''postgresql.pg_type.v1:'' @ show_nat oid @ '':'' @ schema @ ''.'' @ name)
      | _ \<Rightarrow> None)"

definition context_origin :: "SourceRepresentationEnvelope \<Rightarrow> SourceCursor \<Rightarrow> string \<Rightarrow> bool" where
  "context_origin envelope cursor version \<longleftrightarrow>
     (let context = env_context envelope in
      ci_kind (ctx_connector context) = ''postgresql'' \<and> ci_version (ctx_connector context) = version
      \<and> sb_product (ctx_server_build context) = ''postgresql''
      \<and> starts_with (version @ ''.'') (sb_version (ctx_server_build context))
      \<and> ctx_protocol context = ''pgoutput.v1'' \<and> ctx_format context = Repr_Text
      \<and> env_encoding envelope = ''UTF-8'' \<and> ctx_source_cursor context = cursor)"

definition context_metadata ::
  "RowChange \<Rightarrow> ColumnDatum \<Rightarrow> SourceRepresentationContext \<Rightarrow> string \<Rightarrow> string option \<Rightarrow> bool" where
  "context_metadata change column context relation_oid catalog_digest \<longleftrightarrow>
     (let metadata = ctx_type_metadata context in
      metadata_is metadata ''relation_oid'' relation_oid
      \<and> metadata_is metadata ''relation_schema'' (rw_schema change)
      \<and> metadata_is metadata ''relation_name'' (rw_table change)
      \<and> metadata_is metadata ''column_name'' (col_name column)
      \<and> metadata_has metadata ''type_schema'' (\<lambda>schema. schema \<noteq> [])
      \<and> metadata_has metadata ''type_name'' (\<lambda>name. name \<noteq> [])
      \<and> (case type_oid_of metadata of Some oid \<Rightarrow> 0 < oid | None \<Rightarrow> False)
      \<and> metadata_has metadata ''type_modifier'' (\<lambda>modifier. parse_signed 32 modifier \<noteq> None)
      \<and> metadata_is metadata ''native_type'' (col_native_type column)
      \<and> metadata_is metadata ''type_definition_digest'' (ctx_source_type_definition_digest context)
      \<and> metadata_has metadata ''source_catalog_digest'' hex_digest
      \<and> bt_get metadata ''source_catalog_digest'' = catalog_digest
      \<and> metadata_is metadata ''text_output_profile'' ''pgoutput-v1/text/UTF8''
      \<and> metadata_is metadata ''session.search_path'' ''pg_catalog''
      \<and> metadata_has metadata ''environment.lc_monetary'' (\<lambda>locale_name. locale_name \<noteq> []))"

definition validate_representation ::
  "'v contract_env \<Rightarrow> RowChange \<Rightarrow> ColumnDatum \<Rightarrow> SourceRepresentationEnvelope \<Rightarrow> SourceCursor \<Rightarrow> string
     \<Rightarrow> string option \<Rightarrow> string \<Rightarrow> SourceContractError + unit" where
  "validate_representation E change column envelope cursor relation_oid catalog_digest version =
     (let context = env_context envelope in
      contract_ensure
        (context_origin envelope cursor version
         \<and> context_metadata change column context relation_oid catalog_digest
         \<and> definition_matches E context \<and> closure_matches E (ctx_type_metadata context)
         \<and> expected_identity (ctx_type_metadata context) = Some (ctx_source_type_identity context))
        ''PostgreSQL source representation context does not match its checked type definition closure'')"

section \<open>Rows and transactions\<close>

definition validate_presence :: "Operation \<Rightarrow> bool \<Rightarrow> ColumnDatum \<Rightarrow> SourceContractError + unit" where
  "validate_presence operation is_before column =
     (case col_datum column of
        D_Unavailable \<Rightarrow>
          contract_ensure (is_before \<and> operation \<noteq> Insert \<and> col_primary_key_ordinal column = None)
            ''unavailable value is only valid in non-key before columns''
      | D_Unchanged \<Rightarrow>
          contract_ensure (\<not> is_before \<and> operation = Update \<and> col_primary_key_ordinal column = None)
            ''unchanged value is only valid in non-key UPDATE after columns''
      | _ \<Rightarrow> Ok ())"

definition validate_datum ::
  "'v contract_env \<Rightarrow> RowChange \<Rightarrow> string \<Rightarrow> string option \<Rightarrow> string \<Rightarrow> ColumnDatum \<Rightarrow> SourceContractError + unit" where
  "validate_datum E change oid digest version column =
     (case col_datum column of
        D_Envelope envelope \<Rightarrow>
          validate_representation E change column envelope (rw_source_cursor change) oid digest version
      | D_Value v \<Rightarrow>
          and_then (contract_native_type (ce_codec E) (ce_json E) version (col_native_type column)) (\<lambda>_.
          if logical_matches_native (ce_codec E) (ce_json E) v (col_native_type column) version then Ok ()
          else Err (SC_Msg (''PostgreSQL column '' @ CHR 0x27 # col_name column @ CHR 0x27 # '' declared as ''
            @ CHR 0x27 # col_native_type column @ CHR 0x27 # '' does not match its logical value type'')))
      | _ \<Rightarrow> Ok ())"

text \<open>The relation and the catalog digest of a schema basis.\<close>

definition basis_parts :: "string \<Rightarrow> string \<times> string option" where
  "basis_parts basis =
     (case split_once CHR '':'' basis of None \<Rightarrow> (basis, None) | Some (oid, digest) \<Rightarrow> (oid, Some digest))"

definition contract_image ::
  "'v contract_env \<Rightarrow> RowChange \<Rightarrow> bool \<Rightarrow> ColumnDatum list \<Rightarrow> string \<Rightarrow> SourceContractError + unit" where
  "contract_image E change is_before cols version =
     and_then (ok_or (strip_prefix ''pgoutput+catalog:'' (rw_schema_basis change))
                 (SC_Msg ''invalid PostgreSQL schema basis'')) (\<lambda>basis.
     case basis_parts basis of (oid, digest) \<Rightarrow>
     and_then (contract_ensure
                 (positive 32 oid \<and> (case digest of None \<Rightarrow> True | Some v \<Rightarrow> hex_digest v))
                 ''invalid PostgreSQL schema basis'') (\<lambda>_.
     and_then (contract_ensure (list_ex (\<lambda>c. col_primary_key_ordinal c \<noteq> None) cols)
                 ''PostgreSQL capture requires a primary key'') (\<lambda>_.
     and_then (contract_ensure (list_all (\<lambda>(i, c). col_ordinal c = i) (enumerate 0 cols))
                 ''PostgreSQL image ordinals must be contiguous'') (\<lambda>_.
     each (\<lambda>column.
       and_then (contract_ensure (\<not> col_generated column) ''generated PostgreSQL columns are unsupported'') (\<lambda>_.
       and_then (validate_presence (rw_operation change) is_before column) (\<lambda>_.
       validate_datum E change oid digest version column))) cols))))"

definition contract_change ::
  "'v contract_env \<Rightarrow> string \<Rightarrow> u64 \<Rightarrow> string \<Rightarrow> RowChange \<Rightarrow> SourceContractError + unit" where
  "contract_change E database commit_end version change =
     and_then (contract_ensure (rw_database change = Some database) ''PostgreSQL transaction spans databases'') (\<lambda>_.
     and_then (lsn (rw_source_cursor change)) (\<lambda>row.
     and_then (contract_ensure (row = commit_end) ''PostgreSQL row cursor must equal its transaction end'') (\<lambda>_.
     and_then (case rw_before change of None \<Rightarrow> Ok () | Some cols \<Rightarrow> contract_image E change True cols version) (\<lambda>_.
     case rw_after change of None \<Rightarrow> Ok () | Some cols \<Rightarrow> contract_image E change False cols version))))"

definition check_source :: "Source \<Rightarrow> SourceContractError + string \<times> string list" where
  "check_source source =
     and_then (contract_ensure (src_kind source = ''postgresql'')
                 ''PostgreSQL Source Contract requires source kind postgresql'') (\<lambda>_.
     let version = split_on CHR ''.'' (src_version source); identity = split_on CHR '':'' (src_id source) in
     and_then (contract_ensure
                 (length version = 2 \<and> version ! 0 \<in> {''15'', ''16'', ''17''}
                  \<and> parse_unsigned 32 (version ! 1) \<noteq> None)
                 ''unsupported PostgreSQL source version; expected 15.x, 16.x, or 17.x'') (\<lambda>_.
     and_then (contract_ensure
                 (length identity \<in> {4, 5} \<and> identity ! 0 = ''postgresql'' \<and> positive 64 (identity ! 1)
                  \<and> positive 32 (identity ! 2) \<and> positive 32 (identity ! 3))
                 ''invalid PostgreSQL source identity'') (\<lambda>_.
     Ok (version ! 0, identity))))"

definition check_commit_id :: "ChangeTransaction \<Rightarrow> SourceContractError + unit" where
  "check_commit_id tx =
     and_then (ok_or (Option.bind (strip_prefix ''pg:'' (tx_id tx)) (split_once CHR '':''))
                 (SC_Msg ''invalid PostgreSQL transaction id'')) (\<lambda>(xid, suffix).
     contract_ensure (positive 32 xid \<and> suffix = sc_value (tx_commit_cursor tx))
       ''PostgreSQL transaction id/end LSN mismatch'')"

definition captured_database :: "ChangeTransaction \<Rightarrow> string" where
  "captured_database tx =
     (case tx_changes tx of [] \<Rightarrow> [] | change # _ \<Rightarrow> (case rw_database change of Some d \<Rightarrow> d | None \<Rightarrow> []))"

definition check_database :: "codec \<Rightarrow> string list \<Rightarrow> string \<Rightarrow> SourceContractError + unit" where
  "check_database C identity database =
     and_then (contract_ensure (database \<noteq> [] \<and> NUL \<notin> set database) ''PostgreSQL database is required'') (\<lambda>_.
     if length identity = 5 then
       contract_ensure
         (case b64_decode C (identity ! 4) of
            Some bytes \<Rightarrow> valid_utf8 bytes \<and> bytes = database | None \<Rightarrow> False)
         ''PostgreSQL source identity/database mismatch''
     else Ok ())"

definition contract_validate :: "'v contract_env \<Rightarrow> ValidatedTransaction \<Rightarrow> SourceContractError + unit" where
  "contract_validate E vt =
     (let tx = transaction vt; database = captured_database tx in
      and_then (check_source (tx_source tx)) (\<lambda>(version, identity).
      and_then (lsn (tx_begin_cursor tx)) (\<lambda>start.
      and_then (lsn (tx_commit_cursor tx)) (\<lambda>commit_end.
      and_then (contract_ensure (start < commit_end) ''PostgreSQL commit end must follow its commit record'') (\<lambda>_.
      and_then (check_commit_id tx) (\<lambda>_.
      and_then (check_database (ce_codec E) identity database) (\<lambda>_.
      each (contract_change E database commit_end version) (tx_changes tx))))))))"

section \<open>The contract and the checkpoint writer\<close>

text \<open>An accepted cursor is read to the same position by the checkpoint writer.\<close>

lemma hexdigit_not_slash: "list_all is_ascii_hexdigit s \<Longrightarrow> CHR ''/'' \<notin> set s"
  by (auto simp: list_all_iff is_ascii_hexdigit_def is_ascii_digit_def ord_def)

lemma hexdigit_not_plus: "is_ascii_hexdigit c \<Longrightarrow> c \<noteq> CHR ''+''"
  by (auto simp: is_ascii_hexdigit_def is_ascii_digit_def ord_def)

text \<open>The halves are put together without carry.\<close>

lemma join_halves:
  fixes p :: u64
  shows "or (push_bit 32 (of_nat (unat p div 2 ^ 32))) (of_nat (unat p mod 2 ^ 32)) = p"
proof -
  have "unat (drop_bit 32 p) = unat p div 2 ^ 32" by (simp only: unat_drop_bit_eq) (simp only: drop_bit_eq_div)
  moreover have "unat (take_bit 32 p) = unat p mod 2 ^ 32" by (simp only: unsigned_take_bit_eq) (simp only: take_bit_eq_mod)
  ultimately have "of_nat (unat p div 2 ^ 32) = drop_bit 32 p" "of_nat (unat p mod 2 ^ 32) = take_bit 32 p"
    by (metis of_nat_unat ucast_id)+
  moreover have "or (push_bit 32 (drop_bit 32 p)) (take_bit 32 p) = p"
    by (rule bit_eqI) (auto simp: bit_simps)
  ultimately show ?thesis by simp
qed

lemma hexdigit_value: "is_ascii_hexdigit c \<Longrightarrow> digit_value c < 16"
  by (auto simp: is_ascii_hexdigit_def digit_value_def is_ascii_digit_def is_ascii_upper_def)

lemma radix_16_bound: "list_all is_ascii_hexdigit s \<Longrightarrow> radix_value 16 s < 16 ^ length s"
proof (induction s rule: rev_induct)
  case (snoc c s)
  then have "radix_value 16 s < 16 ^ length s" "digit_value c < 16" by (simp_all add: hexdigit_value)
  then show ?case by (simp add: radix_value_snoc)
qed (simp add: radix_value_def)

lemma lsn_part_bound:
  assumes "lsn_part s" and "parse_hex 64 s = Some n" shows "n < 2 ^ 32"
proof -
  from assms(1) obtain c cs where s: "s = c # cs" "is_ascii_hexdigit c" by (cases s) (auto simp: lsn_part_def)
  then have "unsigned_digits s = s" by (simp add: unsigned_digits_def hexdigit_not_plus)
  then have "n = radix_value 16 s" using assms(2) by (simp add: parse_hex_def Let_def split: if_splits)
  also have "\<dots> < 16 ^ length s" using assms(1) by (simp add: lsn_part_def radix_16_bound)
  also have "\<dots> \<le> 16 ^ 8" using assms(1) by (intro power_increasing) (simp_all add: lsn_part_def)
  finally show ?thesis by simp
qed

lemma lsn_file_position:
  assumes "lsn c = Ok p"
  shows "file_position C c = Ok (sc_value c, unat p)" and "0 < p"
    and "parse_postgresql_lsn (sc_value c) = Ok (unat p)"
proof -
  from assms obtain high low h l where c: "sc_format c = ''postgresql.lsn.v1''"
    and split: "split_once CHR ''/'' (sc_value c) = Some (high, low)" "lsn_part high" "lsn_part low"
    and hex: "parse_hex 64 high = Some h" "parse_hex 64 low = Some l"
    and p: "p = or (push_bit 32 (of_nat h)) (of_nat l)" "0 < p"
    by (auto simp: lsn_def ok_iff Let_def)
  have b: "h < 2 ^ 32" "l < 2 ^ 32" using lsn_part_bound split hex by blast+
  then have "h * 2 ^ 32 + l < 2 ^ 64" by simp
  then have q: "unat (of_nat (h * 2 ^ 32 + l) :: u64) = h * 2 ^ 32 + l" by (simp add: unsigned_of_nat take_bit_nat_eq_self del: of_nat_add of_nat_mult)
  have "(h * 2 ^ 32 + l) div 2 ^ 32 = h" "(h * 2 ^ 32 + l) mod 2 ^ 32 = l" using b(2) by simp_all
  then have "p = of_nat (h * 2 ^ 32 + l)" using join_halves [of "of_nat (h * 2 ^ 32 + l)"] unfolding q p(1) by simp
  with q have u: "unat p = h * 2 ^ 32 + l" by simp
  then show "parse_postgresql_lsn (sc_value c) = Ok (unat p)"
    using b split(1) hex by (simp add: parse_postgresql_lsn_def ok_iff)
  then show "file_position C c = Ok (sc_value c, unat p)" using c by (simp add: file_position_def)
  show "0 < p" by (rule p(2))
qed

text \<open>Positions of a log are compared by their numbers.\<close>

lemma lsn_greater:
  "compare_in ''postgresql_lsn'' (a, n) (b, m) = Some Greater \<longleftrightarrow>
     parse_postgresql_lsn a = Ok n \<and> parse_postgresql_lsn b = Ok m \<and> m < n"
  by (auto simp: compare_in_history history_def rank_cmp_greater split: if_splits)

lemma contract_validate_cursors:
  assumes "contract_validate E vt = Ok ()"
  obtains p q where "lsn (tx_begin_cursor (transaction vt)) = Ok p" and "lsn (tx_commit_cursor (transaction vt)) = Ok q"
    and "p < q"
  using assms by (auto simp: contract_validate_def ok_iff Let_def)

interpretation pg_contract: source_contract
  "\<lambda>C vt. is_ok (contract_validate E vt)"
  "\<lambda>C c. case lsn c of Inr p \<Rightarrow> Some (sc_value c, unat p) | Inl _ \<Rightarrow> None" "{''postgresql_lsn''}" for E :: "'v contract_env"
proof
  fix C c p
  assume "(case lsn c of Inr p \<Rightarrow> Some (sc_value c, unat p) | Inl _ \<Rightarrow> None) = Some p"
  then show "file_position C c = Inr p" by (auto simp: lsn_file_position split: sum.splits)
next
  fix C :: codec and vt mode
  assume "is_ok (contract_validate E vt)" and "mode \<in> {''postgresql_lsn''}"
  then have mode: "mode = ''postgresql_lsn''" and "contract_validate E vt = Ok ()"
    by (simp_all, cases "contract_validate E vt") simp_all
  then obtain p q where pq: "lsn (tx_begin_cursor (transaction vt)) = Ok p" "lsn (tx_commit_cursor (transaction vt)) = Ok q" "p < q"
    by (blast elim: contract_validate_cursors)
  then show "\<exists>a b. (case lsn (tx_begin_cursor (transaction vt)) of Inr p \<Rightarrow> Some (sc_value (tx_begin_cursor (transaction vt)), unat p) | Inl _ \<Rightarrow> None) = Some a
    \<and> (case lsn (tx_commit_cursor (transaction vt)) of Inr p \<Rightarrow> Some (sc_value (tx_commit_cursor (transaction vt)), unat p) | Inl _ \<Rightarrow> None) = Some b
    \<and> compare_in mode b a = Some Greater"
    by (auto simp: mode lsn_greater lsn_file_position word_less_nat_alt)
qed

end
