(* ===== verification/Pg_Decoder.thy ===== *)
theory Pg_Decoder
  imports Pg_Source_Contract Pg_Types
begin

text \<open>
  The decoder of PostgreSQL's logical replication messages, \<^verbatim>\<open>crates/postgresql_15/src/decoder.rs\<close>: a
  state machine that takes one pgoutput message at a time, collects the rows between BEGIN and COMMIT,
  and at COMMIT returns the transaction that both validators accept. An error may leave the state
  changed, as it does in the code.
\<close>

section \<open>Errors and parameters\<close>

text \<open>The boxed errors of the crate by their origin. A panic of the value decoder is not an error of the
  code but ends the call all the same.\<close>

datatype PgError =
    PE_Invalid string
  | PE_Decode string DecodeError
  | PE_TryFromInt
  | PE_Validation ValidationError
  | PE_Contract SourceContractError
  | PE_Transport string
  | PE_Panic

record 'v pg_env = "'v contract_env" +
  pe_text :: text_values
  pe_format_lsn :: "u64 \<Rightarrow> string"

definition pg_contract :: "'v pg_env \<Rightarrow> 'v contract_env" where
  "pg_contract E = contract_env.truncate E"

abbreviation pg_invalid :: "string \<Rightarrow> PgError + 'a" where
  "pg_invalid message \<equiv> Err (PE_Invalid message)"

definition pg_cursor :: "'v pg_env \<Rightarrow> u64 \<Rightarrow> SourceCursor" where
  "pg_cursor E position =
     \<lparr>sc_format = ''postgresql.lsn.v1'', sc_value = pe_format_lsn E position, sc_display = pe_format_lsn E position\<rparr>"

definition validate_change_event :: "'v pg_env \<Rightarrow> ChangeTransaction \<Rightarrow> PgError + ValidatedTransaction" where
  "validate_change_event E tx =
     and_then (map_err PE_Validation (validate (ce_codec E) tx)) (\<lambda>validated.
     and_then (map_err PE_Contract (contract_validate (pg_contract E) validated)) (\<lambda>_.
     Ok validated))"

section \<open>The checked catalog and the messages\<close>

record PgColumn =
  pc_name :: string
  pc_oid :: u32
  pc_modifier :: int
  pc_native_type :: string
  pc_type_schema :: string
  pc_type_name :: string
  pc_type_definition_digest :: string
  pc_type_definition_evidence :: string
  pc_type_definition_closure_evidence :: string
  pc_type_definition_closure_digest :: string
  pc_representation_only :: bool
  pc_representation_capture_allowed :: bool
  pc_key :: "nat option"

record PgTable =
  pt_oid :: u32
  pt_schema :: string
  pt_name :: string
  pt_identity :: char
  pt_source_type_catalog_digest :: string
  pt_columns :: "PgColumn list"

text \<open>The messages of the protocol library as far as the decoder reads them.\<close>

record ColumnData =
  cd_data_type :: char
  cd_bytes :: bytes

record ColumnInfo =
  ri_name :: string
  ri_type_id :: u32
  ri_type_modifier :: int
  ri_is_key :: bool

type_synonym TupleData = "ColumnData list"

datatype Message =
    M_Begin u64 int u32
  | M_Commit nat u64 u64 int
  | M_Relation u32 string string char "ColumnInfo list"
  | M_Insert u32 TupleData
  | M_Update u32 "TupleData option" TupleData "char option"
  | M_Delete u32 TupleData char
  | M_Truncate
  | M_Type u32 string string
  | M_Origin
  | M_Other

section \<open>The state\<close>

record Pending =
  pd_xid :: u32
  pd_final_lsn :: u64
  pd_timestamp :: int
  pd_bytes :: nat
  pd_rows :: "RowChange list"

record Decoder =
  dc_source :: Source
  dc_server_build :: ServerBuildIdentity
  dc_lc_monetary :: string
  dc_database :: string
  dc_tables :: "u32 \<Rightarrow> PgTable option"
  dc_type_names :: "u32 \<Rightarrow> (string \<times> string) option"
  dc_type_catalog :: SourceTypeCatalog
  dc_seen :: "u32 set"
  dc_pending :: "Pending option"
  dc_previous_end :: u64
  dc_max_bytes :: nat

definition new_decoder ::
  "Source \<Rightarrow> ServerBuildIdentity \<Rightarrow> string \<Rightarrow> string \<Rightarrow> (u32 \<Rightarrow> PgTable option)
     \<Rightarrow> (u32 \<Rightarrow> (string \<times> string) option) \<Rightarrow> SourceTypeCatalog \<Rightarrow> nat \<Rightarrow> Decoder" where
  "new_decoder source build lc_monetary database tables type_names type_catalog max_bytes =
     \<lparr>dc_source = source, dc_server_build = build, dc_lc_monetary = lc_monetary, dc_database = database,
      dc_tables = tables, dc_type_names = type_names, dc_type_catalog = type_catalog, dc_seen = {},
      dc_pending = None, dc_previous_end = 0, dc_max_bytes = max_bytes\<rparr>"

section \<open>Images\<close>

record ImageContext =
  ic_source :: Source
  ic_server_build :: ServerBuildIdentity
  ic_lc_monetary :: string
  ic_type_catalog :: SourceTypeCatalog
  ic_source_cursor :: SourceCursor

definition image_context :: "Decoder \<Rightarrow> SourceCursor \<Rightarrow> ImageContext" where
  "image_context d source_cursor =
     \<lparr>ic_source = dc_source d, ic_server_build = dc_server_build d, ic_lc_monetary = dc_lc_monetary d,
      ic_type_catalog = dc_type_catalog d, ic_source_cursor = source_cursor\<rparr>"

definition source_major :: "Source \<Rightarrow> string" where
  "source_major source = hd (split_on CHR ''.'' (src_version source))"

definition envelope_metadata :: "PgTable \<Rightarrow> PgColumn \<Rightarrow> string \<Rightarrow> (string \<times> string) list" where
  "envelope_metadata table meta lc_monetary = bt_from
     [(''relation_oid'', show_nat (unat (pt_oid table))),
      (''relation_schema'', pt_schema table),
      (''relation_name'', pt_name table),
      (''column_name'', pc_name meta),
      (''column_oid'', show_nat (unat (pc_oid meta))),
      (''type_modifier'', show_int (pc_modifier meta)),
      (''native_type'', pc_native_type meta),
      (''type_schema'', pc_type_schema meta),
      (''type_name'', pc_type_name meta),
      (''type_definition'', pc_type_definition_evidence meta),
      (''type_definition_digest'', ''sha256:'' @ pc_type_definition_digest meta),
      (''type_definition_closure'', pc_type_definition_closure_evidence meta),
      (''type_definition_closure_digest'', ''sha256:'' @ pc_type_definition_closure_digest meta),
      (''source_catalog_digest'', pt_source_type_catalog_digest table),
      (''text_output_profile'', ''pgoutput-v1/text/UTF8''),
      (''session.datestyle'', ''ISO, YMD''),
      (''session.intervalstyle'', ''iso_8601''),
      (''session.timezone'', ''UTC''),
      (''session.bytea_output'', ''hex''),
      (''session.extra_float_digits'', ''3''),
      (''session.search_path'', ''pg_catalog''),
      (''environment.lc_monetary'', lc_monetary)]"

definition envelope_context :: "PgTable \<Rightarrow> PgColumn \<Rightarrow> ImageContext \<Rightarrow> SourceRepresentationContext" where
  "envelope_context table meta context =
     \<lparr>ctx_connector = \<lparr>ci_kind = ''postgresql'', ci_version = source_major (ic_source context)\<rparr>,
      ctx_server_build = ic_server_build context,
      ctx_source_type_identity = ''postgresql.pg_type.v1:'' @ show_nat (unat (pc_oid meta)) @ '':''
        @ pc_type_schema meta @ ''.'' @ pc_type_name meta,
      ctx_source_type_definition_digest = ''sha256:'' @ pc_type_definition_digest meta,
      ctx_protocol = ''pgoutput.v1'',
      ctx_format = Repr_Text,
      ctx_type_metadata = envelope_metadata table meta (ic_lc_monetary context),
      ctx_source_cursor = ic_source_cursor context\<rparr>"

definition decode_failed :: "PgColumn \<Rightarrow> DecodeError \<Rightarrow> PgError" where
  "decode_failed meta e =
     (if e = DE_Panic then PE_Panic
      else PE_Decode (''PostgreSQL column '' @ pc_name meta @ '' (OID '' @ show_nat (unat (pc_oid meta))
        @ '', native type '' @ pc_native_type meta @ '') could not be decoded: '') e)"

definition image_datum ::
  "'v pg_env \<Rightarrow> PgTable \<Rightarrow> bool \<Rightarrow> ImageContext \<Rightarrow> PgColumn \<Rightarrow> ColumnData \<Rightarrow> PgError + Datum" where
  "image_datum E table key_only context meta data =
     (if key_only \<and> pc_key meta = None then Ok D_Unavailable
      else if cd_data_type data = CHR ''n'' then Ok D_Null
      else if cd_data_type data = CHR ''u'' then Ok D_Unchanged
      else if cd_data_type data = CHR ''t'' \<and> pc_representation_only meta \<and> pc_representation_capture_allowed meta
      then Ok (D_Envelope (env_new (ce_codec E) (envelope_context table meta context) ''UTF-8'' (cd_bytes data)))
      else if cd_data_type data = CHR ''t'' \<and> \<not> pc_representation_only meta
      then and_then (map_err (decode_failed meta)
             (decode_catalog_column_for_version (ce_codec E) (ce_json E) (pe_text E)
               (source_major (ic_source context)) (ic_type_catalog context) (pc_oid meta)
               (pc_native_type meta) (cd_bytes data))) (\<lambda>v. Ok (D_Value v))
      else pg_invalid ''unexpected binary/invalid pgoutput value; text transfer required'')"

definition pg_image_column ::
  "'v pg_env \<Rightarrow> PgTable \<Rightarrow> bool \<Rightarrow> ImageContext \<Rightarrow> nat \<times> PgColumn \<times> ColumnData \<Rightarrow> PgError + ColumnDatum" where
  "pg_image_column E table key_only context cell =
     (case cell of (ordinal, meta, data) \<Rightarrow>
        and_then (image_datum E table key_only context meta data) (\<lambda>datum.
        Ok \<lparr>col_ordinal = ordinal, col_name = pc_name meta, col_native_type = pc_native_type meta,
            col_primary_key_ordinal = pc_key meta, col_generated = False, col_collation = None,
            col_datum = datum\<rparr>))"

definition pg_image ::
  "'v pg_env \<Rightarrow> PgTable \<Rightarrow> TupleData \<Rightarrow> bool \<Rightarrow> ImageContext \<Rightarrow> PgError + ColumnDatum list" where
  "pg_image E table tuple key_only context =
     (if length tuple \<noteq> length (pt_columns table) then pg_invalid ''tuple column count differs from Relation''
      else map_result (pg_image_column E table key_only context) (enumerate 0 (zip (pt_columns table) tuple)))"

section \<open>Type messages\<close>

text \<open>pgoutput leaves the namespace of a catalog type empty, and may name a domain by its base.\<close>

definition named_as :: "SourceTypeDefinition \<Rightarrow> string \<Rightarrow> string \<Rightarrow> bool" where
  "named_as d namespace name \<longleftrightarrow>
     td_name d = name \<and> (td_schema d = namespace \<or> namespace = [] \<and> td_schema d = ''pg_catalog'')"

function protocol_type_identity_matches ::
  "SourceTypeCatalog \<Rightarrow> u32 \<Rightarrow> string \<Rightarrow> string \<Rightarrow> u32 list \<Rightarrow> bool" where
  "protocol_type_identity_matches catalog oid namespace name seen =
     (if oid \<in> set seen \<or> 64 < Suc (length seen) then False
      else case definition_at (tc_types catalog) oid of
        None \<Rightarrow> False
      | Some d \<Rightarrow>
          named_as d namespace name
          \<or> (case td_kind d of
               TK_Domain base_oid _ _ \<Rightarrow>
                 (case definition_at (tc_types catalog) base_oid of
                    None \<Rightarrow> False
                  | Some base \<Rightarrow>
                      named_as base namespace name
                      \<or> protocol_type_identity_matches catalog base_oid namespace name (oid # seen))
             | _ \<Rightarrow> False))"
  by pat_completeness auto
termination by (relation "measure (\<lambda>(catalog, oid, namespace, name, seen). 64 - length seen)") auto

declare protocol_type_identity_matches.simps [simp del]

section \<open>Rows\<close>

definition known_table :: "Decoder \<Rightarrow> u32 \<Rightarrow> PgError + PgTable" where
  "known_table d oid =
     (if oid \<notin> dc_seen d then pg_invalid ''row arrived before its Relation message''
      else ok_or (dc_tables d oid) (PE_Invalid ''unknown relation''))"

definition current_cursor :: "'v pg_env \<Rightarrow> Decoder \<Rightarrow> PgError + SourceCursor" where
  "current_cursor E d =
     (case dc_pending d of
        Some p \<Rightarrow> Ok (pg_cursor E (pd_final_lsn p)) | None \<Rightarrow> pg_invalid ''row outside a transaction'')"

definition row_limit :: nat where
  "row_limit = 100000"

definition captured_row ::
  "'v pg_env \<Rightarrow> Decoder \<Rightarrow> PgTable \<Rightarrow> Pending \<Rightarrow> u32 \<Rightarrow> Operation \<Rightarrow> ColumnDatum list option
     \<Rightarrow> ColumnDatum list option \<Rightarrow> RowChange" where
  "captured_row E d t p source_timestamp operation old new =
     \<lparr>rw_database = Some (dc_database d), rw_operation = operation, rw_schema = pt_schema t,
      rw_table = pt_name t, rw_source_cursor = pg_cursor E (pd_final_lsn p),
      rw_source_timestamp = source_timestamp,
      rw_schema_basis = ''pgoutput+catalog:'' @ show_nat (unat (pt_oid t)) @ '':'' @ pt_source_type_catalog_digest t,
      rw_before = old, rw_after = new\<rparr>"

definition push_row ::
  "'v pg_env \<Rightarrow> Decoder \<Rightarrow> u32 \<Rightarrow> Operation \<Rightarrow> ColumnDatum list option \<Rightarrow> ColumnDatum list option
     \<Rightarrow> PgError + Decoder" where
  "push_row E d oid operation old new =
     and_then (ok_or (dc_tables d oid) (PE_Invalid ''unknown table'')) (\<lambda>t.
     and_then (ok_or (dc_pending d) (PE_Invalid ''row outside a transaction'')) (\<lambda>p.
     if row_limit \<le> length (pd_rows p) then pg_invalid ''transaction exceeds 100000 row capture limit''
     else
       and_then (checked 64 (PE_Invalid ''timestamp overflow'') (pd_timestamp p div 1000000 + 946684800)) (\<lambda>seconds.
       and_then (if 0 \<le> seconds \<and> seconds < 2 ^ 32 then Ok (of_int seconds) else Err PE_TryFromInt) (\<lambda>source_timestamp.
       Ok (d\<lparr>dc_pending :=
         Some (p\<lparr>pd_rows := pd_rows p @ [captured_row E d t p source_timestamp operation old new]\<rparr>)\<rparr>)))))"

definition push_insert :: "'v pg_env \<Rightarrow> Decoder \<Rightarrow> u32 \<Rightarrow> TupleData \<Rightarrow> PgError + Decoder" where
  "push_insert E d oid tuple =
     and_then (known_table d oid) (\<lambda>t.
     and_then (current_cursor E d) (\<lambda>source_cursor.
     and_then (pg_image E t tuple False (image_context d source_cursor)) (\<lambda>new.
     push_row E d oid Insert None (Some new))))"

text \<open>Without an old tuple the key has not changed: the old image is the new one, restricted to the key.\<close>

definition key_of_new :: "ColumnDatum list \<Rightarrow> ColumnDatum list" where
  "key_of_new = map (\<lambda>c. if col_primary_key_ordinal c = None then c\<lparr>col_datum := D_Unavailable\<rparr> else c)"

definition old_image ::
  "'v pg_env \<Rightarrow> PgTable \<Rightarrow> TupleData option \<Rightarrow> char option \<Rightarrow> ColumnDatum list \<Rightarrow> ImageContext
     \<Rightarrow> PgError + ColumnDatum list" where
  "old_image E t old_tuple key_type new context =
     (case (key_type, old_tuple) of
        (Some k, Some old) \<Rightarrow>
          if k = CHR ''K'' then pg_image E t old True context
          else if k = CHR ''O'' \<and> pt_identity t = CHR ''f'' then pg_image E t old False context
          else pg_invalid ''invalid UPDATE old tuple/replica identity''
      | (None, None) \<Rightarrow>
          if pt_identity t = CHR ''d'' then Ok (key_of_new new)
          else pg_invalid ''invalid UPDATE old tuple/replica identity''
      | _ \<Rightarrow> pg_invalid ''invalid UPDATE old tuple/replica identity'')"

definition push_update ::
  "'v pg_env \<Rightarrow> Decoder \<Rightarrow> u32 \<Rightarrow> TupleData option \<Rightarrow> TupleData \<Rightarrow> char option \<Rightarrow> PgError + Decoder" where
  "push_update E d oid old_tuple new_tuple key_type =
     and_then (known_table d oid) (\<lambda>t.
     and_then (current_cursor E d) (\<lambda>source_cursor.
     and_then (pg_image E t new_tuple False (image_context d source_cursor)) (\<lambda>new.
     and_then (old_image E t old_tuple key_type new (image_context d source_cursor)) (\<lambda>old.
     push_row E d oid Update (Some old) (Some new)))))"

definition delete_key_only :: "PgTable \<Rightarrow> char \<Rightarrow> PgError + bool" where
  "delete_key_only t key_type =
     (if key_type = CHR ''K'' \<and> pt_identity t = CHR ''d'' then Ok True
      else if key_type = CHR ''O'' \<and> pt_identity t = CHR ''f'' then Ok False
      else pg_invalid ''invalid DELETE identity'')"

definition push_delete :: "'v pg_env \<Rightarrow> Decoder \<Rightarrow> u32 \<Rightarrow> TupleData \<Rightarrow> char \<Rightarrow> PgError + Decoder" where
  "push_delete E d oid old_tuple key_type =
     and_then (known_table d oid) (\<lambda>t.
     and_then (current_cursor E d) (\<lambda>source_cursor.
     and_then (delete_key_only t key_type) (\<lambda>key_only.
     and_then (pg_image E t old_tuple key_only (image_context d source_cursor)) (\<lambda>old.
     push_row E d oid Delete (Some old) None))))"

section \<open>Messages outside the rows\<close>

definition relation_agrees :: "PgTable \<Rightarrow> string \<Rightarrow> string \<Rightarrow> char \<Rightarrow> ColumnInfo list \<Rightarrow> bool" where
  "relation_agrees t namespace relation_name replica_identity columns \<longleftrightarrow>
     pt_schema t = namespace \<and> pt_name t = relation_name \<and> pt_identity t = replica_identity
     \<and> length (pt_columns t) = length columns
     \<and> list_all (\<lambda>(a, b). pc_name a = ri_name b \<and> pc_oid a = ri_type_id b \<and> pc_modifier a = ri_type_modifier b
          \<and> (replica_identity = CHR ''f'' \<or> (pc_key a \<noteq> None) = ri_is_key b)) (zip (pt_columns t) columns)"

definition push_relation ::
  "Decoder \<Rightarrow> u32 \<Rightarrow> string \<Rightarrow> string \<Rightarrow> char \<Rightarrow> ColumnInfo list \<Rightarrow> PgError + Decoder" where
  "push_relation d oid namespace relation_name replica_identity columns =
     and_then (ok_or (dc_tables d oid) (PE_Invalid
       ''new publication relation: restart with a checked schema; DDL capture is not supported'')) (\<lambda>t.
     if \<not> relation_agrees t namespace relation_name replica_identity columns
     then pg_invalid ''pgoutput relation disagrees with checked catalog; schema changed''
     else Ok (d\<lparr>dc_seen := Set.insert oid (dc_seen d)\<rparr>))"

definition push_type :: "Decoder \<Rightarrow> u32 \<Rightarrow> string \<Rightarrow> string \<Rightarrow> PgError + Decoder" where
  "push_type d type_id namespace type_name =
     (case dc_type_names d type_id of
        None \<Rightarrow> pg_invalid (''pgoutput TYPE references OID '' @ show_nat (unat type_id)
          @ '' absent from the checked PostgreSQL type catalog'')
      | Some (expected_schema, expected_name) \<Rightarrow>
          if protocol_type_identity_matches (dc_type_catalog d) type_id namespace type_name [] then Ok d
          else pg_invalid (''pgoutput TYPE identity for OID '' @ show_nat (unat type_id) @ '' is '' @ namespace @ ''.''
            @ type_name @ '', checked catalog expects '' @ expected_schema @ ''.'' @ expected_name))"

definition push_begin :: "Decoder \<Rightarrow> u64 \<Rightarrow> int \<Rightarrow> u32 \<Rightarrow> nat \<Rightarrow> PgError + Decoder" where
  "push_begin d final_lsn timestamp xid bytes =
     (if dc_pending d \<noteq> None \<or> xid = 0 \<or> final_lsn = 0 \<or> final_lsn \<le> dc_previous_end d
      then pg_invalid ''invalid/nested BEGIN or out-of-order transaction''
      else Ok (d\<lparr>dc_pending := Some \<lparr>pd_xid = xid, pd_final_lsn = final_lsn, pd_timestamp = timestamp,
             pd_bytes = bytes, pd_rows = []\<rparr>\<rparr>))"

section \<open>The end of a transaction\<close>

text \<open>Every cursor of a row is replaced by the end of its transaction, which was not known before.\<close>

definition stamp_datum :: "SourceCursor \<Rightarrow> Datum \<Rightarrow> Datum" where
  "stamp_datum c datum =
     (case datum of
        D_Envelope e \<Rightarrow> D_Envelope (e\<lparr>env_context := (env_context e)\<lparr>ctx_source_cursor := c\<rparr>\<rparr>) | _ \<Rightarrow> datum)"

definition stamp_image :: "SourceCursor \<Rightarrow> ColumnDatum list \<Rightarrow> ColumnDatum list" where
  "stamp_image c = map (\<lambda>column. column\<lparr>col_datum := stamp_datum c (col_datum column)\<rparr>)"

definition stamp_row :: "SourceCursor \<Rightarrow> RowChange \<Rightarrow> RowChange" where
  "stamp_row c row =
     row\<lparr>rw_source_cursor := c, rw_before := map_option (stamp_image c) (rw_before row),
         rw_after := map_option (stamp_image c) (rw_after row)\<rparr>"

definition commit_transaction :: "'v pg_env \<Rightarrow> Decoder \<Rightarrow> Pending \<Rightarrow> u64 \<Rightarrow> u64 \<Rightarrow> ChangeTransaction" where
  "commit_transaction E d p commit_lsn end_lsn =
     \<lparr>tx_source = dc_source d,
      tx_id = ''pg:'' @ show_nat (unat (pd_xid p)) @ '':'' @ pe_format_lsn E end_lsn,
      tx_begin_cursor = pg_cursor E commit_lsn, tx_commit_cursor = pg_cursor E end_lsn,
      tx_changes = map (stamp_row (pg_cursor E end_lsn)) (pd_rows p)\<rparr>"

definition push_commit ::
  "'v pg_env \<Rightarrow> Decoder \<Rightarrow> nat \<Rightarrow> u64 \<Rightarrow> u64 \<Rightarrow> int \<Rightarrow> (PgError + ValidatedTransaction option) \<times> Decoder" where
  "push_commit E d flags commit_lsn end_lsn timestamp =
     (case dc_pending d of
        None \<Rightarrow> (pg_invalid ''COMMIT without BEGIN'', d)
      | Some p \<Rightarrow>
          let d = d\<lparr>dc_pending := None\<rparr> in
          if flags \<noteq> 0 \<or> commit_lsn \<noteq> pd_final_lsn p \<or> end_lsn \<le> commit_lsn \<or> timestamp \<noteq> pd_timestamp p
             \<or> end_lsn \<le> dc_previous_end d
          then (pg_invalid ''inconsistent PostgreSQL COMMIT boundary'', d)
          else
            let d = d\<lparr>dc_previous_end := end_lsn\<rparr> in
            if pd_rows p = [] then (Ok None, d)
            else (and_then (validate_change_event E (commit_transaction E d p commit_lsn end_lsn)) (\<lambda>validated.
                    Ok (Some validated)), d))"

section \<open>One message\<close>

definition charge_bytes :: "Decoder \<Rightarrow> nat \<Rightarrow> (PgError + unit) \<times> Decoder" where
  "charge_bytes d bytes =
     (case dc_pending d of
        None \<Rightarrow> (Ok (), d)
      | Some p \<Rightarrow>
          if 2 ^ 64 \<le> pd_bytes p + bytes then (pg_invalid ''transaction size overflow'', d)
          else
            let d = d\<lparr>dc_pending := Some (p\<lparr>pd_bytes := pd_bytes p + bytes\<rparr>)\<rparr> in
            if dc_max_bytes d < pd_bytes p + bytes
            then (pg_invalid ''transaction exceeds capture wire-size limit; checkpoint has not advanced'', d)
            else (Ok (), d))"

text \<open>The messages that only change the state.\<close>

definition quiet :: "Decoder \<Rightarrow> PgError + Decoder \<Rightarrow> (PgError + ValidatedTransaction option) \<times> Decoder" where
  "quiet d r = (case r of Inl e \<Rightarrow> (Err e, d) | Inr d' \<Rightarrow> (Ok None, d'))"

definition push_message ::
  "'v pg_env \<Rightarrow> Decoder \<Rightarrow> Message \<Rightarrow> nat \<Rightarrow> (PgError + ValidatedTransaction option) \<times> Decoder" where
  "push_message E d message bytes =
     (case message of
        M_Begin final_lsn timestamp xid \<Rightarrow> quiet d (push_begin d final_lsn timestamp xid bytes)
      | M_Commit flags commit_lsn end_lsn timestamp \<Rightarrow> push_commit E d flags commit_lsn end_lsn timestamp
      | M_Relation oid namespace name replica_identity columns \<Rightarrow>
          quiet d (push_relation d oid namespace name replica_identity columns)
      | M_Insert oid tuple \<Rightarrow> quiet d (push_insert E d oid tuple)
      | M_Update oid old_tuple new_tuple key_type \<Rightarrow> quiet d (push_update E d oid old_tuple new_tuple key_type)
      | M_Delete oid old_tuple key_type \<Rightarrow> quiet d (push_delete E d oid old_tuple key_type)
      | M_Truncate \<Rightarrow> (pg_invalid ''TRUNCATE is not supported; capture stopped without acknowledging it'', d)
      | M_Type type_id namespace name \<Rightarrow> quiet d (push_type d type_id namespace name)
      | M_Origin \<Rightarrow> (pg_invalid ''replicated origins are not supported yet'', d)
      | M_Other \<Rightarrow> (pg_invalid ''unexpected protocol message for pgoutput v1'', d))"

definition push ::
  "'v pg_env \<Rightarrow> Decoder \<Rightarrow> Message \<Rightarrow> nat \<Rightarrow> (PgError + ValidatedTransaction option) \<times> Decoder" where
  "push E d message bytes =
     (case charge_bytes d bytes of
        (Inl e, d) \<Rightarrow> (Err e, d) | (Inr _, d) \<Rightarrow> push_message E d message bytes)"

end
