(* ===== verification/Pg_Replication.thy ===== *)
theory Pg_Replication
  imports Pg_Decoder Source_Adapter "HOL-Library.Signed_Division"
begin

text \<open>
  The PostgreSQL replication client, \<^verbatim>\<open>crates/postgresql_15/src/replication.rs\<close>: the checks before a
  stream is opened and the position it starts at, the loop that reads frames until a transaction is
  complete, the acknowledgement of a transaction and the status messages to the server.

  The connection is what it delivers: a list of arrivals, each with the data or the error of the read,
  whether the five seconds between status messages have passed, and the outcome of sending one. The
  call waits when there is no further arrival. The positions that were sent are logged.
\<close>

section \<open>Configuration\<close>

record Config =
  cf_host :: string
  cf_port :: u16
  cf_database :: string
  cf_username :: string
  cf_password :: string
  cf_publication :: string
  cf_slot :: string
  cf_create_slot :: bool
  cf_start_lsn :: "string option"
  cf_expected_source_id :: "string option"
  cf_max_transaction_bytes :: nat

definition new_config ::
  "string \<Rightarrow> u16 \<Rightarrow> string \<Rightarrow> string \<Rightarrow> string \<Rightarrow> string \<Rightarrow> string \<Rightarrow> Config" where
  "new_config host port database username password publication slot =
     \<lparr>cf_host = host, cf_port = port, cf_database = database, cf_username = username, cf_password = password,
      cf_publication = publication, cf_slot = slot, cf_create_slot = False, cf_start_lsn = None,
      cf_expected_source_id = None, cf_max_transaction_bytes = 32 * 1024 * 1024\<rparr>"

definition slot_name_ok :: "string \<Rightarrow> bool" where
  "slot_name_ok slot \<longleftrightarrow>
     slot \<noteq> [] \<and> length slot \<le> 63
     \<and> list_all (\<lambda>b. is_ascii_lower b \<or> is_ascii_digit b \<or> b = CHR ''_'') slot"

definition check_config :: "Config \<Rightarrow> nat \<Rightarrow> PgError + unit" where
  "check_config c expected_major =
     (if \<not> (15 \<le> expected_major \<and> expected_major \<le> 17)
      then pg_invalid ''PostgreSQL SourceAdapter supports versions 15, 16, and 17''
      else if \<not> slot_name_ok (cf_slot c) \<or> cf_publication c = [] \<or> cf_max_transaction_bytes c = 0
        \<or> list_ex (\<lambda>s. NUL \<in> set s)
            [cf_host c, cf_database c, cf_username c, cf_password c, cf_publication c]
      then pg_invalid ''invalid replication configuration''
      else if cf_create_slot c \<and> cf_start_lsn c \<noteq> None
      then pg_invalid ''cannot specify historical LSN while creating a new slot''
      else Ok ())"

section \<open>Opening a stream\<close>

text \<open>The library's position parser and what it reads of a frame. The message parser has a state of its own.\<close>

record ('v, 'p) repl_env = "'v pg_env" +
  re_parse_lsn :: "string \<Rightarrow> PgError + u64"
  re_parse_keepalive :: "bytes \<Rightarrow> PgError + bool"
  re_parse_message :: "'p \<Rightarrow> bytes \<Rightarrow> (PgError + Message) \<times> 'p"

definition repl_pg :: "('v, 'p) repl_env \<Rightarrow> 'v pg_env" where
  "repl_pg E = pg_env.truncate E"

record SlotRow =
  sl_database :: "string option"
  sl_plugin :: "string option"
  sl_slot_type :: string
  sl_active :: bool
  sl_temporary :: bool
  sl_wal_status :: "string option"
  sl_confirmed :: "string option"

record LoadedCatalog =
  lc_tables :: "u32 \<Rightarrow> PgTable option"
  lc_type_names :: "u32 \<Rightarrow> (string \<times> string) option"
  lc_type_catalog :: SourceTypeCatalog

text \<open>The answers of the server, in the order in which they are asked for.\<close>

record ServerAnswers =
  an_version :: int
  an_version_text :: string
  an_build :: string
  an_wal_level :: string
  an_encoding :: string
  an_lc_monetary :: string
  an_database_oid :: int
  an_catalog :: "PgError + LoadedCatalog"
  an_slot :: "SlotRow option"
  an_system :: "string option"
  an_timeline :: "string option"
  an_dbname :: "string option"
  an_connection_version :: int
  an_session :: "PgError + unit"
  an_created :: "PgError + string option"
  an_started :: "PgError + unit"

definition check_server :: "ServerAnswers \<Rightarrow> nat \<Rightarrow> PgError + unit" where
  "check_server a expected_major =
     (if an_version a sdiv 10000 \<noteq> int expected_major \<or> an_wal_level a \<noteq> ''logical'' \<or> an_encoding a \<noteq> ''UTF8''
      then pg_invalid ''requires PostgreSQL 15, 16, or 17, wal_level=logical and UTF8 database encoding''
      else Ok ())"

definition slot_usable :: "SlotRow \<Rightarrow> string \<Rightarrow> bool" where
  "slot_usable slot database \<longleftrightarrow>
     sl_database slot = Some database \<and> sl_plugin slot = Some ''pgoutput'' \<and> sl_slot_type slot = ''logical''
     \<and> \<not> sl_active slot \<and> \<not> sl_temporary slot
     \<and> sl_wal_status slot \<in> {Some ''reserved'', Some ''extended''}"

definition confirmed_position :: "('v, 'p) repl_env \<Rightarrow> Config \<Rightarrow> SlotRow option \<Rightarrow> PgError + u64" where
  "confirmed_position E c slot =
     (if cf_create_slot c \<and> slot \<noteq> None then pg_invalid ''slot already exists; omit --create-slot to resume''
      else case slot of
        None \<Rightarrow>
          if \<not> cf_create_slot c
          then pg_invalid ''slot is missing; refusing to recreate it during resume (use --create-slot only for first initialization)''
          else Ok 0
      | Some slot \<Rightarrow>
          if \<not> slot_usable slot (cf_database c)
          then pg_invalid ''slot is active, invalid, temporary, or bound to another database/plugin''
          else and_then (ok_or (sl_confirmed slot) (PE_Invalid ''slot has no confirmed position'')) (re_parse_lsn E))"

definition identified_source :: "codec \<Rightarrow> Config \<Rightarrow> nat \<Rightarrow> ServerAnswers \<Rightarrow> PgError + Source" where
  "identified_source C c expected_major a =
     and_then (ok_or (an_system a) (PE_Invalid ''IDENTIFY_SYSTEM missing system id'')) (\<lambda>system.
     and_then (ok_or (an_timeline a) (PE_Invalid ''IDENTIFY_SYSTEM missing timeline'')) (\<lambda>timeline.
     if an_dbname a \<noteq> Some (cf_database c) \<or> an_connection_version a \<noteq> an_version a
     then pg_invalid ''SQL and replication connections identify different sources''
     else Ok \<lparr>src_kind = ''postgresql'',
              src_version = show_nat expected_major @ ''.'' @ show_int (an_version a smod 10000),
              src_id = ''postgresql:'' @ system @ '':'' @ timeline @ '':'' @ show_int (an_database_oid a) @ '':''
                @ b64_encode C (cf_database c)\<rparr>))"

definition start_position ::
  "('v, 'p) repl_env \<Rightarrow> Config \<Rightarrow> ServerAnswers \<Rightarrow> u64 \<Rightarrow> PgError + u64" where
  "start_position E c a confirmed =
     and_then
       (if cf_create_slot c then
          and_then (an_created a) (\<lambda>point.
          and_then (ok_or point (PE_Invalid ''CREATE_REPLICATION_SLOT missing consistent point'')) (re_parse_lsn E))
        else case cf_start_lsn c of
          Some requested_lsn \<Rightarrow>
            and_then (re_parse_lsn E requested_lsn) (\<lambda>requested.
            if requested < confirmed
            then pg_invalid ''requested LSN predates confirmed_flush_lsn; the slot can no longer guarantee replay from that position''
            else Ok requested)
        | None \<Rightarrow> Ok confirmed) (\<lambda>start.
     if start = 0 then pg_invalid ''a nonzero starting LSN is required'' else Ok start)"

section \<open>The state\<close>

record Arrival =
  ar_data :: "PgError + bytes"
  ar_due :: bool
  ar_sent :: "PgError + unit"

record 'p Replication =
  rp_arrivals :: "Arrival list"
  rp_parser :: 'p
  rp_decoder :: Decoder
  rp_start :: u64
  rp_acknowledged :: u64
  rp_delivered :: "SourceCursor option"
  rp_failed :: bool
  rp_sent :: "u64 list"

definition replication_for_version ::
  "('v, 'p) repl_env \<Rightarrow> Config \<Rightarrow> nat \<Rightarrow> ServerAnswers \<Rightarrow> 'p \<Rightarrow> Arrival list \<Rightarrow> PgError + 'p Replication" where
  "replication_for_version E c expected_major a parser arrivals =
     and_then (check_config c expected_major) (\<lambda>_.
     and_then (check_server a expected_major) (\<lambda>_.
     and_then (an_catalog a) (\<lambda>loaded.
     and_then (confirmed_position E c (an_slot a)) (\<lambda>confirmed.
     and_then (identified_source (ce_codec E) c expected_major a) (\<lambda>source.
     and_then (case cf_expected_source_id c of
         Some expected \<Rightarrow>
           if expected \<noteq> src_id source then pg_invalid ''source identity changed; refusing cursor reuse'' else Ok ()
       | None \<Rightarrow> Ok ()) (\<lambda>_.
     and_then (an_session a) (\<lambda>_.
     and_then (start_position E c a confirmed) (\<lambda>start.
     and_then (an_started a) (\<lambda>_.
     Ok \<lparr>rp_arrivals = arrivals, rp_parser = parser,
         rp_decoder = new_decoder source
           \<lparr>sb_product = ''postgresql'', sb_distribution = ''community'', sb_version = an_version_text a, sb_build = an_build a\<rparr>
           (an_lc_monetary a) (cf_database c) (lc_tables loaded) (lc_type_names loaded) (lc_type_catalog loaded)
           (cf_max_transaction_bytes c),
         rp_start = start, rp_acknowledged = 0, rp_delivered = None, rp_failed = False, rp_sent = []\<rparr>)))))))))"

section \<open>Reading\<close>

text \<open>The status message carries the acknowledged position, never the position of the server.\<close>

definition feedback :: "Arrival \<Rightarrow> 'p Replication \<Rightarrow> (PgError + unit) \<times> 'p Replication" where
  "feedback a r = (ar_sent a, r\<lparr>rp_sent := rp_sent r @ [rp_acknowledged r]\<rparr>)"

definition feedback_if :: "bool \<Rightarrow> Arrival \<Rightarrow> 'p Replication \<Rightarrow> (PgError + unit) \<times> 'p Replication" where
  "feedback_if due a r = (if due then feedback a r else (Ok (), r))"

text \<open>One frame: an error, nothing yet, or a transaction.\<close>

definition on_keepalive ::
  "('v, 'p) repl_env \<Rightarrow> Arrival \<Rightarrow> bytes \<Rightarrow> 'p Replication \<Rightarrow> (PgError + ValidatedTransaction option) \<times> 'p Replication" where
  "on_keepalive E a data r =
     (case re_parse_keepalive E data of
        Inl e \<Rightarrow> (Err e, r)
      | Inr reply_requested \<Rightarrow>
          (case feedback_if (reply_requested \<or> ar_due a) a r of
             (Inl e, r) \<Rightarrow> (Err e, r) | (Inr _, r) \<Rightarrow> (Ok None, r)))"

definition on_xlog_data ::
  "('v, 'p) repl_env \<Rightarrow> Arrival \<Rightarrow> bytes \<Rightarrow> 'p Replication \<Rightarrow> (PgError + ValidatedTransaction option) \<times> 'p Replication" where
  "on_xlog_data E a data r =
     (case re_parse_message E (rp_parser r) (drop 25 data) of
        (parsed, parser) \<Rightarrow>
          let r = r\<lparr>rp_parser := parser\<rparr> in
          case parsed of
            Inl e \<Rightarrow> (Err e, r)
          | Inr message \<Rightarrow>
              (case feedback_if (ar_due a) a r of
                 (Inl e, r) \<Rightarrow> (Err e, r)
               | (Inr _, r) \<Rightarrow>
                   (case push (repl_pg E) (rp_decoder r) message (length data) of
                      (result, d) \<Rightarrow>
                        (result, (case result of
                             Inr (Some tx) \<Rightarrow> r\<lparr>rp_decoder := d, rp_delivered := Some (tx_commit_cursor (transaction tx))\<rparr>
                           | _ \<Rightarrow> r\<lparr>rp_decoder := d\<rparr>)))))"

definition on_frame ::
  "('v, 'p) repl_env \<Rightarrow> Arrival \<Rightarrow> 'p Replication \<Rightarrow> (PgError + ValidatedTransaction option) \<times> 'p Replication" where
  "on_frame E a r =
     (case ar_data a of
        Inl e \<Rightarrow> (Err e, r)
      | Inr data \<Rightarrow>
          if data = [] then (pg_invalid ''replication stream ended'', r)
          else if 64 * 1024 * 1024 < length data then (pg_invalid ''replication message exceeds 64 MiB'', r)
          else if hd data = CHR ''k'' then on_keepalive E a data r
          else if hd data \<noteq> CHR ''w'' \<or> length data < 26 then (pg_invalid ''invalid XLogData frame'', r)
          else on_xlog_data E a data r)"

text \<open>The loop. It is waiting when it has taken all arrivals.\<close>

fun read_frames ::
  "('v, 'p) repl_env \<Rightarrow> Arrival list \<Rightarrow> 'p Replication \<Rightarrow> (PgError + ValidatedTransaction option) \<times> 'p Replication" where
  "read_frames E [] r = (Ok None, r\<lparr>rp_arrivals := []\<rparr>)"
| "read_frames E (a # rest) r =
     (case on_frame E a (r\<lparr>rp_arrivals := rest\<rparr>) of
        (Inl e, r) \<Rightarrow> (Err e, r)
      | (Inr (Some tx), r) \<Rightarrow> (Ok (Some tx), r)
      | (Inr None, r) \<Rightarrow> read_frames E rest r)"

definition pg_read_transaction ::
  "('v, 'p) repl_env \<Rightarrow> 'p Replication \<Rightarrow> (PgError + ValidatedTransaction option) \<times> 'p Replication" where
  "pg_read_transaction E r = read_frames E (rp_arrivals r) r"

text \<open>An error marks the stream as failed. A panic unwinds past that line.\<close>

definition pg_next_transaction ::
  "('v, 'p) repl_env \<Rightarrow> 'p Replication \<Rightarrow> (PgError + ValidatedTransaction option) \<times> 'p Replication" where
  "pg_next_transaction E r =
     (if rp_failed r
      then (pg_invalid ''capture stopped after an earlier error/cancellation; reopen the existing slot'', r)
      else case pg_read_transaction E r of
        (Inl e, r) \<Rightarrow> (Err e, if e = PE_Panic then r else r\<lparr>rp_failed := True\<rparr>)
      | (Inr v, r) \<Rightarrow> (Ok v, r))"

text \<open>The blocking bridge runs the call on a thread of its own and turns a panic into an error.\<close>

definition adapter_next ::
  "('v, 'p) repl_env \<Rightarrow> 'p Replication \<Rightarrow> (PgError + ValidatedTransaction option) \<times> 'p Replication" where
  "adapter_next E r =
     (case pg_next_transaction E r of
        (result, r) \<Rightarrow>
          (if result = Err PE_Panic then pg_invalid ''PostgreSQL SourceAdapter worker panicked'' else result, r))"

section \<open>Acknowledging\<close>

definition acknowledge ::
  "('v, 'p) repl_env \<Rightarrow> Arrival \<Rightarrow> ValidatedTransaction \<Rightarrow> 'p Replication \<Rightarrow> (PgError + unit) \<times> 'p Replication" where
  "acknowledge E a vt r =
     (let tx = transaction vt in
      if rp_failed r \<or> tx_source tx \<noteq> dc_source (rp_decoder r) \<or> rp_delivered r \<noteq> Some (tx_commit_cursor tx)
      then (pg_invalid ''can only acknowledge this stream's most recently delivered complete transaction'', r)
      else case re_parse_lsn E (sc_value (tx_commit_cursor tx)) of
        Inl e \<Rightarrow> (Err e, r)
      | Inr position \<Rightarrow>
          if position < rp_acknowledged r then (pg_invalid ''acknowledgement moved backwards'', r)
          else feedback a (r\<lparr>rp_acknowledged := position\<rparr>))"

text \<open>A value of the connection string in quotes.\<close>

definition conn_char :: "char \<Rightarrow> string" where
  "conn_char c = (if c \<in> {CHR 0x5C, CHR 0x27} then [CHR 0x5C, c] else [c])"

definition conn_value :: "string \<Rightarrow> string" where
  "conn_value v = [CHR 0x27] @ concat (map conn_char v) @ [CHR 0x27]"

end
