(* ===== verification/Pg_Decoder_Spec.thy ===== *)
theory Pg_Decoder_Spec
  imports Pg_Decoder
begin

text \<open>
  What the decoder promises. Its transactions are the rows between BEGIN and COMMIT, each with the
  decoded cells of its message and none lost; the framing that it builds is the framing that the Source
  Contract asks for; commit positions grow from one transaction to the next.
\<close>

section \<open>Positions\<close>

text \<open>What the protocol library documents of its printer: a position is printed as its high and low half
  in hexadecimal, separated by a slash.\<close>

definition prints_lsn :: "(u64 \<Rightarrow> string) \<Rightarrow> bool" where
  "prints_lsn format \<longleftrightarrow>
     (\<forall>p. \<exists>high low. format p = high @ CHR ''/'' # low \<and> lsn_part high \<and> lsn_part low
        \<and> radix_value 16 high = unat p div 2 ^ 32 \<and> radix_value 16 low = unat p mod 2 ^ 32)"

lemma parse_hex_part:
  assumes "lsn_part s" and "radix_value 16 s < 2 ^ 32"
  shows "parse_hex 64 s = Some (radix_value 16 s)"
proof -
  from assms(1) obtain c cs where s: "s = c # cs" "is_ascii_hexdigit c" by (cases s) (auto simp: lsn_part_def)
  then have "unsigned_digits s = s" by (simp add: unsigned_digits_def hexdigit_not_plus)
  with assms s show ?thesis by (simp add: parse_hex_def Let_def lsn_part_def)
qed

lemma lsn_of_cursor:
  assumes "prints_lsn (pe_format_lsn E)" and "p \<noteq> 0"
  shows "lsn (pg_cursor E p) = Ok p"
proof -
  from assms(1) obtain high low where fmt: "pe_format_lsn E p = high @ CHR ''/'' # low"
    and parts: "lsn_part high" "lsn_part low"
    and vals: "radix_value 16 high = unat p div 2 ^ 32" "radix_value 16 low = unat p mod 2 ^ 32"
    unfolding prints_lsn_def by blast
  have "CHR ''/'' \<notin> set high" using parts(1) by (simp add: lsn_part_def hexdigit_not_slash)
  then have split: "split_once CHR ''/'' (pe_format_lsn E p) = Some (high, low)" by (simp add: fmt split_once_Some_iff)
  have "unat p < 2 ^ 64" using unsigned_less [of p] by simp
  then have "radix_value 16 high < 2 ^ 32" "radix_value 16 low < 2 ^ 32"
    by (simp_all add: vals less_mult_imp_div_less)
  then have "parse_hex 64 high = Some (unat p div 2 ^ 32)" "parse_hex 64 low = Some (unat p mod 2 ^ 32)"
    using parse_hex_part parts by (simp_all add: vals)
  then show ?thesis using assms(2) parts split join_halves [of p]
    by (simp add: lsn_def pg_cursor_def ok_iff word_gt_0 Let_def)
qed

section \<open>What a message changes\<close>

text \<open>The configuration is never changed.\<close>

definition config_of :: "Decoder \<Rightarrow> Source \<times> ServerBuildIdentity \<times> string \<times> string \<times> (u32 \<Rightarrow> PgTable option)
    \<times> (u32 \<Rightarrow> (string \<times> string) option) \<times> SourceTypeCatalog \<times> nat" where
  "config_of d = (dc_source d, dc_server_build d, dc_lc_monetary d, dc_database d, dc_tables d, dc_type_names d,
     dc_type_catalog d, dc_max_bytes d)"

lemma validate_change_event_Ok:
  "validate_change_event E tx = Inr vt \<Longrightarrow>
     transaction vt = tx \<and> validate (ce_codec E) tx = Ok vt \<and> contract_validate (pg_contract E) vt = Ok ()"
  by (auto simp: validate_change_event_def validate_def ok_iff)

lemma charge_bytes_Ok:
  assumes "charge_bytes d bytes = (Inr u, d')"
  shows "(dc_pending d = None \<and> d' = d)
    \<or> (\<exists>p. dc_pending d = Some p \<and> pd_bytes p + bytes \<le> dc_max_bytes d
         \<and> d' = d\<lparr>dc_pending := Some (p\<lparr>pd_bytes := pd_bytes p + bytes\<rparr>)\<rparr>)"
  using assms by (auto simp: charge_bytes_def Let_def split: option.splits if_splits)

lemma charge_bytes_frame:
  assumes "charge_bytes d bytes = (r, d')"
  shows "config_of d' = config_of d \<and> dc_previous_end d' = dc_previous_end d \<and> dc_seen d' = dc_seen d"
  using assms by (auto simp: charge_bytes_def Let_def config_of_def split: option.splits if_splits)

lemma push_row_Ok:
  assumes "push_row E d oid operation old new = Inr d'"
  obtains t p ts where "dc_tables d oid = Some t" and "dc_pending d = Some p" and "length (pd_rows p) < row_limit"
    and "d' = d\<lparr>dc_pending := Some (p\<lparr>pd_rows := pd_rows p @ [captured_row E d t p ts operation old new]\<rparr>)\<rparr>"
  using assms by (auto simp: push_row_def ok_iff split: if_splits)

lemma known_table_Ok: "known_table d oid = Inr t \<longleftrightarrow> oid \<in> dc_seen d \<and> dc_tables d oid = Some t"
  by (auto simp: known_table_def ok_iff split: if_splits)

lemma current_cursor_Ok:
  "current_cursor E d = Inr c \<longleftrightarrow> (\<exists>p. dc_pending d = Some p \<and> c = pg_cursor E (pd_final_lsn p))"
  by (auto simp: current_cursor_def split: option.splits)

definition adds_row :: "Decoder \<Rightarrow> Decoder \<Rightarrow> bool" where
  "adds_row d d' \<longleftrightarrow> (\<exists>p row. dc_pending d = Some p \<and> length (pd_rows p) < row_limit
     \<and> d' = d\<lparr>dc_pending := Some (p\<lparr>pd_rows := pd_rows p @ [row]\<rparr>)\<rparr>)"

lemma push_row_adds: "push_row E d oid operation old new = Inr d' \<Longrightarrow> adds_row d d'"
  by (erule push_row_Ok) (auto simp: adds_row_def)

lemma push_rows_add:
  "push_insert E d oid tuple = Inr d' \<Longrightarrow> adds_row d d'"
  "push_update E d oid old_tuple tuple key_type = Inr d' \<Longrightarrow> adds_row d d'"
  "push_delete E d oid tuple k = Inr d' \<Longrightarrow> adds_row d d'"
  by (auto simp: push_insert_def push_update_def push_delete_def ok_iff intro: push_row_adds)

lemma adds_row_frame:
  "adds_row d d' \<Longrightarrow> config_of d' = config_of d \<and> dc_previous_end d' = dc_previous_end d"
  by (auto simp: adds_row_def config_of_def)

lemma push_relation_frame:
  "push_relation d oid namespace name identity columns = Inr d' \<Longrightarrow>
     config_of d' = config_of d \<and> dc_previous_end d' = dc_previous_end d \<and> dc_pending d' = dc_pending d"
  by (auto simp: push_relation_def config_of_def ok_iff split: if_splits)

lemma push_type_frame: "push_type d oid namespace name = Inr d' \<Longrightarrow> d' = d"
  by (auto simp: push_type_def split: option.splits if_splits)

lemma push_begin_Ok:
  "push_begin d final_lsn timestamp xid bytes = Inr d' \<longleftrightarrow>
     dc_pending d = None \<and> xid \<noteq> 0 \<and> final_lsn \<noteq> 0 \<and> dc_previous_end d < final_lsn
     \<and> d' = d\<lparr>dc_pending := Some \<lparr>pd_xid = xid, pd_final_lsn = final_lsn, pd_timestamp = timestamp,
             pd_bytes = bytes, pd_rows = []\<rparr>\<rparr>"
  by (auto simp: push_begin_def not_le)

text \<open>A delivered transaction ends where the decoder now stands, beyond where it stood.\<close>

definition decoder_progress :: "'v pg_env \<Rightarrow> Decoder \<Rightarrow> PgError + ValidatedTransaction option \<Rightarrow> Decoder \<Rightarrow> bool" where
  "decoder_progress E d r d' \<longleftrightarrow>
     config_of d' = config_of d \<and> dc_previous_end d \<le> dc_previous_end d'
     \<and> (\<forall>vt. r = Ok (Some vt) \<longrightarrow> dc_previous_end d < dc_previous_end d'
          \<and> tx_commit_cursor (transaction vt) = pg_cursor E (dc_previous_end d')
          \<and> validate (ce_codec E) (transaction vt) = Ok vt \<and> contract_validate (pg_contract E) vt = Ok ())"

lemma progress_quiet:
  assumes "quiet d r = (q, d')" and "\<And>e. r = Inr e \<Longrightarrow> config_of e = config_of d \<and> dc_previous_end e = dc_previous_end d"
  shows "decoder_progress E d q d'"
  using assms by (auto simp: quiet_def decoder_progress_def split: sum.splits)

lemma progress_Err [simp]: "decoder_progress E d (Err e) d"
  by (simp add: decoder_progress_def)

lemma validated_commit:
  assumes "validate_change_event E (commit_transaction E d p commit_lsn end_lsn) = Inr vt"
  shows "tx_commit_cursor (transaction vt) = pg_cursor E end_lsn"
    and "validate (ce_codec E) (transaction vt) = Ok vt" and "contract_validate (pg_contract E) vt = Ok ()"
  using validate_change_event_Ok [OF assms] by (simp_all add: commit_transaction_def)

lemma push_commit_progress:
  assumes "push_commit E d flags commit_lsn end_lsn timestamp = (r, d')"
  shows "decoder_progress E d r d'"
proof (cases "dc_pending d")
  case None
  then show ?thesis using assms by (auto simp: push_commit_def)
next
  case (Some p)
  show ?thesis using assms
    by (auto simp: push_commit_def Some Let_def decoder_progress_def config_of_def and_then_Ok_iff validated_commit
        split: if_splits)
qed

lemma push_message_progress:
  assumes "push_message E d m bytes = (r, d')" shows "decoder_progress E d r d'"
proof (cases m)
  case (M_Commit flags commit_lsn end_lsn timestamp)
  then show ?thesis using assms by (auto simp: push_message_def intro: push_commit_progress)
next
  case (M_Begin final_lsn timestamp xid)
  with assms have "quiet d (push_begin d final_lsn timestamp xid bytes) = (r, d')" by (simp add: push_message_def)
  then show ?thesis by (rule progress_quiet) (auto simp: push_begin_Ok config_of_def)
qed (use assms in \<open>auto simp: push_message_def
    elim!: progress_quiet dest: push_rows_add adds_row_frame push_relation_frame push_type_frame\<close>)

theorem push_progress:
  assumes "push E d m bytes = (r, d')" shows "decoder_progress E d r d'"
proof -
  obtain q e where q: "charge_bytes d bytes = (q, e)" by force
  note frame = charge_bytes_frame [OF q]
  show ?thesis
  proof (cases q)
    case (Inl x)
    then show ?thesis using assms q frame by (auto simp: push_def decoder_progress_def)
  next
    case (Inr u)
    then have "decoder_progress E e r d'" using assms q by (auto simp: push_def intro: push_message_progress)
    then show ?thesis using frame by (auto simp: decoder_progress_def)
  qed
qed

section \<open>The bounds of a transaction\<close>

text \<open>What the decoder keeps of a transaction is bounded in rows, and in bytes from the second message on.\<close>

definition decoder_ok :: "Decoder \<Rightarrow> bool" where
  "decoder_ok d \<longleftrightarrow>
     (case dc_pending d of
        None \<Rightarrow> True
      | Some p \<Rightarrow> pd_xid p \<noteq> 0 \<and> dc_previous_end d < pd_final_lsn p \<and> length (pd_rows p) \<le> row_limit
          \<and> (pd_rows p \<noteq> [] \<longrightarrow> pd_bytes p \<le> dc_max_bytes d))"

lemma decoder_ok_new: "decoder_ok (new_decoder source build lc database tables names catalog max_bytes)"
  by (simp add: decoder_ok_def new_decoder_def)

lemma push_commit_idle: "push_commit E d flags commit_lsn end_lsn timestamp = (r, d') \<Longrightarrow> dc_pending d' = None"
  by (auto simp: push_commit_def Let_def split: option.splits if_splits)

text \<open>After the bytes of a message are charged, the open transaction is within its limit.\<close>

lemma charged_within:
  assumes "charge_bytes d bytes = (Inr u, e)" and "decoder_ok d"
  shows "decoder_ok e" and "dc_pending e = Some p \<Longrightarrow> pd_bytes p \<le> dc_max_bytes e"
  using charge_bytes_Ok [OF assms(1)] assms(2) by (auto simp: decoder_ok_def)

lemma adds_row_ok:
  assumes "adds_row e d'" and "decoder_ok e" and "\<And>p. dc_pending e = Some p \<Longrightarrow> pd_bytes p \<le> dc_max_bytes e"
  shows "decoder_ok d'"
  using assms by (auto simp: adds_row_def decoder_ok_def)

lemma quiet_Ok: "quiet d r = (Inr q, d') \<longleftrightarrow> r = Inr d' \<and> q = None"
  by (auto simp: quiet_def split: sum.splits)

lemma push_message_ok:
  assumes "push_message E e m bytes = (Inr r, d')" and "decoder_ok e"
    and within: "\<And>p. dc_pending e = Some p \<Longrightarrow> pd_bytes p \<le> dc_max_bytes e"
  shows "decoder_ok d'"
proof (cases m)
  case (M_Commit flags commit_lsn end_lsn timestamp)
  then have "dc_pending d' = None" using assms(1) push_commit_idle by (auto simp: push_message_def)
  then show ?thesis by (simp add: decoder_ok_def)
next
  case (M_Begin final_lsn timestamp xid)
  then show ?thesis using assms(1) by (auto simp: push_message_def quiet_Ok push_begin_Ok decoder_ok_def)
next
  case (M_Relation oid namespace name identity columns)
  then have "push_relation e oid namespace name identity columns = Inr d'" using assms(1) by (simp add: push_message_def quiet_Ok)
  then show ?thesis using assms(2) by (auto simp: push_relation_def ok_iff decoder_ok_def split: if_splits option.splits)
next
  case (M_Type oid namespace name)
  then show ?thesis using assms by (auto simp: push_message_def quiet_Ok dest: push_type_frame)
qed (use assms in \<open>auto simp: push_message_def quiet_Ok dest!: push_rows_add intro: adds_row_ok\<close>)

lemma push_keeps_ok:
  assumes "push E d m bytes = (Inr r, d')" and "decoder_ok d"
  shows "decoder_ok d'"
proof -
  obtain u e where e: "charge_bytes d bytes = (Inr u, e)" "push_message E e m bytes = (Inr r, d')"
    using assms(1) by (auto simp: push_def split: prod.splits sum.splits)
  show ?thesis by (rule push_message_ok [OF e(2) charged_within [OF e(1) assms(2)]])
qed

section \<open>What a row shows of its message\<close>

text \<open>
  One cell: the column of the checked catalog, and its value by the kind of the cell. A value is
  decoded or its bytes are kept with the evidence of their type; a cell is unavailable only outside the
  key of a key-only image.
\<close>

definition cell_shown ::
  "'v pg_env \<Rightarrow> Decoder \<Rightarrow> PgTable \<Rightarrow> SourceCursor \<Rightarrow> bool \<Rightarrow> nat \<times> PgColumn \<times> ColumnData \<Rightarrow> ColumnDatum \<Rightarrow> bool" where
  "cell_shown E d t c key_only cell col \<longleftrightarrow>
     (case cell of (i, meta, data) \<Rightarrow>
        col_ordinal col = i \<and> col_name col = pc_name meta \<and> col_native_type col = pc_native_type meta
        \<and> col_primary_key_ordinal col = pc_key meta \<and> \<not> col_generated col
        \<and> (case col_datum col of
             D_Unavailable \<Rightarrow> key_only \<and> pc_key meta = None
           | D_Null \<Rightarrow> cd_data_type data = CHR ''n''
           | D_Unchanged \<Rightarrow> cd_data_type data = CHR ''u''
           | D_Value v \<Rightarrow> cd_data_type data = CHR ''t'' \<and> \<not> pc_representation_only meta
               \<and> decode_catalog_column_for_version (ce_codec E) (ce_json E) (pe_text E) (source_major (dc_source d))
                   (dc_type_catalog d) (pc_oid meta) (pc_native_type meta) (cd_bytes data) = Ok v
           | D_Envelope e \<Rightarrow> cd_data_type data = CHR ''t'' \<and> pc_representation_only meta
               \<and> e = env_new (ce_codec E)
                   (envelope_context t meta (image_context d c)) ''UTF-8'' (cd_bytes data)))"

definition image_shown ::
  "'v pg_env \<Rightarrow> Decoder \<Rightarrow> PgTable \<Rightarrow> SourceCursor \<Rightarrow> bool \<Rightarrow> TupleData \<Rightarrow> ColumnDatum list \<Rightarrow> bool" where
  "image_shown E d t c key_only tuple cols \<longleftrightarrow>
     length tuple = length (pt_columns t)
     \<and> list_all2 (cell_shown E d t c key_only) (enumerate 0 (zip (pt_columns t) tuple)) cols"

text \<open>One row: the operation, the table and the images of its message.\<close>

definition change_of :: "Decoder \<Rightarrow> PgTable \<Rightarrow> SourceCursor \<Rightarrow> Operation \<Rightarrow> RowChange \<Rightarrow> bool" where
  "change_of d t c operation row \<longleftrightarrow>
     rw_operation row = operation \<and> rw_database row = Some (dc_database d) \<and> rw_schema row = pt_schema t
     \<and> rw_table row = pt_name t \<and> rw_source_cursor row = c
     \<and> rw_schema_basis row = ''pgoutput+catalog:'' @ show_nat (unat (pt_oid t)) @ '':'' @ pt_source_type_catalog_digest t"

fun row_shown :: "'v pg_env \<Rightarrow> Decoder \<Rightarrow> SourceCursor \<Rightarrow> Message \<Rightarrow> RowChange \<Rightarrow> bool" where
  "row_shown E d c (M_Insert oid tuple) row \<longleftrightarrow>
     (\<exists>t new. dc_tables d oid = Some t \<and> change_of d t c Insert row \<and> rw_before row = None \<and> rw_after row = Some new
        \<and> image_shown E d t c False tuple new)"
| "row_shown E d c (M_Update oid old_tuple tuple key_type) row \<longleftrightarrow>
     (\<exists>t old new. dc_tables d oid = Some t \<and> change_of d t c Update row \<and> rw_before row = Some old \<and> rw_after row = Some new
        \<and> image_shown E d t c False tuple new
        \<and> (case old_tuple of
             None \<Rightarrow> old = key_of_new new
           | Some cells \<Rightarrow> image_shown E d t c (key_type = Some CHR ''K'') cells old))"
| "row_shown E d c (M_Delete oid tuple key_type) row \<longleftrightarrow>
     (\<exists>t old. dc_tables d oid = Some t \<and> change_of d t c Delete row \<and> rw_before row = Some old \<and> rw_after row = None
        \<and> image_shown E d t c (key_type = CHR ''K'') tuple old)"
| "row_shown E d c m row \<longleftrightarrow> False"

fun row_message :: "Message \<Rightarrow> bool" where
  "row_message (M_Insert oid tuple) = True"
| "row_message (M_Update oid old_tuple tuple key_type) = True"
| "row_message (M_Delete oid tuple key_type) = True"
| "row_message m = False"

lemma image_datum_shown:
  assumes "image_datum E t key_only (image_context d c) meta data = Inr datum"
  shows "cell_shown E d t c key_only (i, meta, data)
    \<lparr>col_ordinal = i, col_name = pc_name meta, col_native_type = pc_native_type meta,
     col_primary_key_ordinal = pc_key meta, col_generated = False, col_collation = None, col_datum = datum\<rparr>"
  using assms by (auto simp: image_datum_def cell_shown_def ok_iff image_context_def split: if_splits)

lemma pg_image_shown:
  assumes "pg_image E t tuple key_only (image_context d c) = Inr cols"
  shows "image_shown E d t c key_only tuple cols"
proof -
  from assms have len: "length tuple = length (pt_columns t)"
    and all: "list_all2 (\<lambda>cell col. pg_image_column E t key_only (image_context d c) cell = Inr col)
      (enumerate 0 (zip (pt_columns t) tuple)) cols"
    by (auto simp: pg_image_def ok_iff split: if_splits)
  from all have "list_all2 (cell_shown E d t c key_only) (enumerate 0 (zip (pt_columns t) tuple)) cols"
    by (rule list_all2_mono) (auto simp: pg_image_column_def ok_iff intro: image_datum_shown split: prod.splits)
  with len show ?thesis by (simp add: image_shown_def)
qed

lemma captured_change_of: "change_of d t (pg_cursor E (pd_final_lsn p)) operation (captured_row E d t p ts operation old new)"
  by (simp add: change_of_def captured_row_def)

lemma captured_row_images [simp]:
  "rw_before (captured_row E d t p ts operation old new) = old" "rw_after (captured_row E d t p ts operation old new) = new"
  by (simp_all add: captured_row_def)

definition adds_shown :: "'v pg_env \<Rightarrow> Decoder \<Rightarrow> Message \<Rightarrow> Decoder \<Rightarrow> bool" where
  "adds_shown E d m d' \<longleftrightarrow> (\<exists>p row. dc_pending d = Some p \<and> row_shown E d (pg_cursor E (pd_final_lsn p)) m row
     \<and> d' = d\<lparr>dc_pending := Some (p\<lparr>pd_rows := pd_rows p @ [row]\<rparr>)\<rparr>)"

lemma push_row_shown:
  assumes "push_row E d oid operation old new = Inr d'" and "dc_tables d oid = Some t" and "dc_pending d = Some p"
    and "\<And>ts. row_shown E d (pg_cursor E (pd_final_lsn p)) m (captured_row E d t p ts operation old new)"
  shows "adds_shown E d m d'"
  using assms(1)
proof (rule push_row_Ok)
  fix t' p' ts
  assume t': "dc_tables d oid = Some t'" and p': "dc_pending d = Some p'"
    and d': "d' = d\<lparr>dc_pending := Some (p'\<lparr>pd_rows := pd_rows p' @ [captured_row E d t' p' ts operation old new]\<rparr>)\<rparr>"
  from t' p' assms(2,3) have same: "t' = t" "p' = p" by simp_all
  from d' assms(3) assms(4) [of ts] show ?thesis unfolding adds_shown_def same by blast
qed

lemma push_insert_shown:
  assumes "push_insert E d oid tuple = Inr d'" shows "adds_shown E d (M_Insert oid tuple) d'"
  using assms by (auto simp: push_insert_def ok_iff known_table_Ok current_cursor_Ok captured_change_of
      intro!: push_row_shown dest!: pg_image_shown)

lemma push_delete_shown:
  assumes "push_delete E d oid tuple k = Inr d'" shows "adds_shown E d (M_Delete oid tuple k) d'"
  using assms by (auto simp: push_delete_def delete_key_only_def ok_iff known_table_Ok current_cursor_Ok captured_change_of
      intro!: push_row_shown dest!: pg_image_shown split: if_splits)

lemma old_image_shown:
  assumes "old_image E t old_tuple key_type new (image_context d c) = Inr old"
  shows "case old_tuple of None \<Rightarrow> old = key_of_new new
    | Some cells \<Rightarrow> image_shown E d t c (key_type = Some CHR ''K'') cells old"
  using assms by (auto simp: old_image_def split: option.splits if_splits dest: pg_image_shown)

lemma push_update_shown:
  assumes "push_update E d oid old_tuple tuple key_type = Inr d'"
  shows "adds_shown E d (M_Update oid old_tuple tuple key_type) d'"
  using assms by (auto simp: push_update_def ok_iff known_table_Ok current_cursor_Ok captured_change_of
      intro!: push_row_shown dest!: pg_image_shown old_image_shown)

lemma push_message_row:
  assumes "push_message E d m bytes = (Inr r, d')" and "row_message m"
  shows "r = None \<and> adds_shown E d m d'"
  using assms
  by (cases m) (auto simp: push_message_def quiet_Ok push_insert_shown push_update_shown push_delete_shown)

section \<open>A transaction from BEGIN to COMMIT\<close>

text \<open>A client that pushes messages until one fails.\<close>

fun push_all :: "'v pg_env \<Rightarrow> Decoder \<Rightarrow> (Message \<times> nat) list \<Rightarrow> (PgError + ValidatedTransaction list) \<times> Decoder" where
  "push_all E d [] = (Ok [], d)"
| "push_all E d ((m, bytes) # ms) =
     (case push E d m bytes of
        (Inl e, d') \<Rightarrow> (Err e, d')
      | (Inr r, d') \<Rightarrow>
          (case push_all E d' ms of (rs, d'') \<Rightarrow>
             (and_then rs (\<lambda>vts. Ok ((case r of None \<Rightarrow> [] | Some vt \<Rightarrow> [vt]) @ vts)), d'')))"

lemma push_all_Cons_Ok:
  assumes "push_all E d ((m, bytes) # ms) = (Ok vts, d'')"
  obtains r d' ws where "push E d m bytes = (Ok r, d')" and "push_all E d' ms = (Ok ws, d'')"
    and "vts = (case r of None \<Rightarrow> [] | Some vt \<Rightarrow> [vt]) @ ws"
  using assms by (auto simp: ok_iff split: prod.splits sum.splits)

lemma push_all_snoc:
  "push_all E d (ms @ [(m, bytes)]) = (case push_all E d ms of
     (Inl e, d') \<Rightarrow> (Err e, d')
   | (Inr vts, d') \<Rightarrow>
       (case push E d' m bytes of
          (Inl e, d'') \<Rightarrow> (Err e, d'')
        | (Inr r, d'') \<Rightarrow> (Ok (vts @ (case r of None \<Rightarrow> [] | Some vt \<Rightarrow> [vt])), d'')))"
  by (induction ms arbitrary: d) (auto split: prod.splits sum.splits)

fun commit_message :: "Message \<Rightarrow> bool" where
  "commit_message (M_Commit flags commit_lsn end_lsn timestamp) = True"
| "commit_message m = False"

text \<open>What a row shows depends on the configuration of the decoder only.\<close>

lemma cell_shown_cong:
  "config_of d = config_of e \<Longrightarrow> cell_shown E d t c key_only cell col = cell_shown E e t c key_only cell col"
  by (auto simp: cell_shown_def config_of_def image_context_def envelope_context_def split: prod.splits Datum.splits)

lemma image_shown_cong:
  assumes "config_of d = config_of e"
  shows "image_shown E d t c key_only tuple cols = image_shown E e t c key_only tuple cols"
proof -
  have "cell_shown E d t c key_only = cell_shown E e t c key_only" by (intro ext cell_shown_cong [OF assms])
  then show ?thesis by (simp add: image_shown_def)
qed

lemma row_shown_cong:
  assumes "config_of d = config_of e" shows "row_shown E d c m row = row_shown E e c m row"
proof -
  have "dc_tables d = dc_tables e" "dc_database d = dc_database e" using assms by (simp_all add: config_of_def)
  then show ?thesis
    by (cases m) (simp_all add: change_of_def image_shown_cong [OF assms] split: option.split)
qed

text \<open>The open transaction grows by the rows of its messages, and by nothing else.\<close>

definition extends :: "'v pg_env \<Rightarrow> Decoder \<Rightarrow> Message list \<Rightarrow> Decoder \<Rightarrow> bool" where
  "extends E d ms d' \<longleftrightarrow> config_of d' = config_of d \<and> dc_previous_end d' = dc_previous_end d
     \<and> (\<exists>p p' rows. dc_pending d = Some p \<and> dc_pending d' = Some p' \<and> pd_rows p' = pd_rows p @ rows
          \<and> pd_xid p' = pd_xid p \<and> pd_final_lsn p' = pd_final_lsn p \<and> pd_timestamp p' = pd_timestamp p
          \<and> list_all2 (row_shown E d (pg_cursor E (pd_final_lsn p))) (filter row_message ms) rows)"

lemma push_extends:
  assumes "push E d m bytes = (Ok r, d')" and "\<not> commit_message m" and "dc_pending d = Some p"
  shows "r = None \<and> extends E d [m] d'"
proof -
  obtain u e where e: "charge_bytes d bytes = (Inr u, e)" and m: "push_message E e m bytes = (Ok r, d')"
    using assms(1) by (auto simp: push_def split: prod.splits sum.splits)
  let ?p = "p\<lparr>pd_bytes := pd_bytes p + bytes\<rparr>"
  from charge_bytes_Ok [OF e] assms(3) have pending: "dc_pending e = Some ?p" by auto
  note frame = charge_bytes_frame [OF e]
  show ?thesis
  proof (cases "row_message m")
    case True
    with m have r: "r = None" and "adds_shown E e m d'" by (auto dest: push_message_row)
    then obtain row where row: "row_shown E e (pg_cursor E (pd_final_lsn p)) m row"
      and d': "d' = e\<lparr>dc_pending := Some (?p\<lparr>pd_rows := pd_rows ?p @ [row]\<rparr>)\<rparr>"
      using pending by (auto simp: adds_shown_def)
    have "row_shown E d (pg_cursor E (pd_final_lsn p)) m row" using row row_shown_cong [of d e E] frame by metis
    then have "extends E d [m] d'" using True frame assms(3) by (auto simp: extends_def d' config_of_def)
    with r show ?thesis by simp
  next
    case False
    then have "r = None \<and> config_of d' = config_of e \<and> dc_previous_end d' = dc_previous_end e \<and> dc_pending d' = dc_pending e"
      using m assms(2) pending
      by (cases m) (auto simp: push_message_def quiet_Ok push_begin_Ok dest: push_relation_frame push_type_frame)
    then show ?thesis using False frame assms(3) pending by (auto simp: extends_def)
  qed
qed

lemma extends_refl: "dc_pending d = Some p \<Longrightarrow> extends E d [] d"
  by (auto simp: extends_def)

lemma extends_trans:
  assumes "extends E d ms d'" and "extends E d' ns d''" shows "extends E d (ms @ ns) d''"
proof -
  from assms(1) obtain p p' rows where 1: "config_of d' = config_of d" "dc_previous_end d' = dc_previous_end d"
    "dc_pending d = Some p" "dc_pending d' = Some p'" "pd_rows p' = pd_rows p @ rows" "pd_xid p' = pd_xid p"
    "pd_final_lsn p' = pd_final_lsn p" "pd_timestamp p' = pd_timestamp p"
    "list_all2 (row_shown E d (pg_cursor E (pd_final_lsn p))) (filter row_message ms) rows"
    unfolding extends_def by blast
  from assms(2) 1(4) obtain p'' rows' where 2: "config_of d'' = config_of d'" "dc_previous_end d'' = dc_previous_end d'"
    "dc_pending d'' = Some p''" "pd_rows p'' = pd_rows p' @ rows'" "pd_xid p'' = pd_xid p'"
    "pd_final_lsn p'' = pd_final_lsn p'" "pd_timestamp p'' = pd_timestamp p'"
    "list_all2 (row_shown E d' (pg_cursor E (pd_final_lsn p'))) (filter row_message ns) rows'"
    unfolding extends_def by auto
  have "row_shown E d' c = row_shown E d c" for c by (intro ext row_shown_cong [OF 1(1)])
  with 1 2 have "list_all2 (row_shown E d (pg_cursor E (pd_final_lsn p))) (filter row_message (ms @ ns)) (rows @ rows')"
    by (auto intro: list_all2_appendI)
  with 1 2 show ?thesis unfolding extends_def by auto
qed

lemma push_all_extends:
  assumes "push_all E d ms = (Ok vts, d')" and "\<forall>m \<in> fst ` set ms. \<not> commit_message m" and "dc_pending d = Some p"
  shows "vts = [] \<and> extends E d (map fst ms) d'"
  using assms
proof (induction ms arbitrary: d p vts)
  case Nil
  then show ?case by (auto intro: extends_refl)
next
  case (Cons x ms)
  obtain m bytes where x: "x = (m, bytes)" by force
  from Cons.prems(1) [unfolded x] show ?case
  proof (rule push_all_Cons_Ok)
    fix r e ws
    assume step: "push E d m bytes = (Ok r, e)" and rest: "push_all E e ms = (Ok ws, d')"
      and vts: "vts = (case r of None \<Rightarrow> [] | Some vt \<Rightarrow> [vt]) @ ws"
    from step have r: "r = None" and first: "extends E d [m] e" using Cons.prems(2,3) x by (auto dest: push_extends)
    then obtain q where "dc_pending e = Some q" by (auto simp: extends_def)
    then have "ws = [] \<and> extends E e (map fst ms) d'" using Cons.IH [OF rest] Cons.prems(2) by simp
    with r vts first show ?thesis using extends_trans [OF first] x by auto
  qed
qed

text \<open>At COMMIT the cursors become the end of the transaction, and nothing else changes.\<close>

lemma stamp_context:
  "(envelope_context t meta (image_context d c))\<lparr>ctx_source_cursor := c'\<rparr> = envelope_context t meta (image_context d c')"
  by (simp add: envelope_context_def image_context_def)

lemma cell_shown_stamp:
  assumes "cell_shown E d t c key_only cell col"
  shows "cell_shown E d t c' key_only cell (col\<lparr>col_datum := stamp_datum c' (col_datum col)\<rparr>)"
  using assms
  by (auto simp: cell_shown_def stamp_datum_def env_new_def stamp_context split: prod.splits Datum.splits)

lemma image_shown_stamp:
  assumes "image_shown E d t c key_only tuple cols"
  shows "image_shown E d t c' key_only tuple (stamp_image c' cols)"
proof -
  have "list_all2 (cell_shown E d t c key_only) (enumerate 0 (zip (pt_columns t) tuple)) cols"
    using assms by (simp add: image_shown_def)
  then have "list_all2 (cell_shown E d t c' key_only) (enumerate 0 (zip (pt_columns t) tuple)) (stamp_image c' cols)"
    unfolding stamp_image_def list_all2_map2 by (rule list_all2_mono) (rule cell_shown_stamp)
  with assms show ?thesis by (simp add: image_shown_def)
qed

lemma stamp_key_of_new: "stamp_image c (key_of_new cols) = key_of_new (stamp_image c cols)"
  by (simp add: stamp_image_def key_of_new_def stamp_datum_def)

lemma change_of_stamp: "change_of d t c operation row \<Longrightarrow> change_of d t c' operation (stamp_row c' row)"
  by (simp add: change_of_def stamp_row_def)

lemma stamp_row_images:
  "rw_before row = Some cols \<Longrightarrow> rw_before (stamp_row c row) = Some (stamp_image c cols)"
  "rw_before row = None \<Longrightarrow> rw_before (stamp_row c row) = None"
  "rw_after row = Some cols \<Longrightarrow> rw_after (stamp_row c row) = Some (stamp_image c cols)"
  "rw_after row = None \<Longrightarrow> rw_after (stamp_row c row) = None"
  by (simp_all add: stamp_row_def)

lemma row_shown_stamp:
  assumes "row_shown E d c m row" shows "row_shown E d c' m (stamp_row c' row)"
proof (cases m)
  case (M_Insert oid tuple)
  with assms obtain t new where "dc_tables d oid = Some t" "change_of d t c Insert row" "rw_before row = None"
    "rw_after row = Some new" "image_shown E d t c False tuple new" by auto
  then have "dc_tables d oid = Some t \<and> change_of d t c' Insert (stamp_row c' row) \<and> rw_before (stamp_row c' row) = None
    \<and> rw_after (stamp_row c' row) = Some (stamp_image c' new) \<and> image_shown E d t c' False tuple (stamp_image c' new)"
    by (simp add: stamp_row_images change_of_stamp image_shown_stamp)
  then show ?thesis unfolding M_Insert row_shown.simps by blast
next
  case (M_Update oid old_tuple tuple key_type)
  with assms obtain t old new where "dc_tables d oid = Some t" "change_of d t c Update row" "rw_before row = Some old"
    "rw_after row = Some new" "image_shown E d t c False tuple new"
    and old: "case old_tuple of None \<Rightarrow> old = key_of_new new
      | Some cells \<Rightarrow> image_shown E d t c (key_type = Some CHR ''K'') cells old" by auto
  then have "dc_tables d oid = Some t \<and> change_of d t c' Update (stamp_row c' row)
    \<and> rw_before (stamp_row c' row) = Some (stamp_image c' old)
    \<and> rw_after (stamp_row c' row) = Some (stamp_image c' new) \<and> image_shown E d t c' False tuple (stamp_image c' new)"
    by (simp add: stamp_row_images change_of_stamp image_shown_stamp)
  moreover have "case old_tuple of None \<Rightarrow> stamp_image c' old = key_of_new (stamp_image c' new)
      | Some cells \<Rightarrow> image_shown E d t c' (key_type = Some CHR ''K'') cells (stamp_image c' old)"
    using old by (auto simp: stamp_key_of_new image_shown_stamp split: option.splits)
  ultimately show ?thesis unfolding M_Update row_shown.simps by blast
next
  case (M_Delete oid tuple key_type)
  with assms obtain t old where "dc_tables d oid = Some t" "change_of d t c Delete row" "rw_before row = Some old"
    "rw_after row = None" "image_shown E d t c (key_type = CHR ''K'') tuple old" by auto
  then have "dc_tables d oid = Some t \<and> change_of d t c' Delete (stamp_row c' row)
    \<and> rw_before (stamp_row c' row) = Some (stamp_image c' old) \<and> rw_after (stamp_row c' row) = None
    \<and> image_shown E d t c' (key_type = CHR ''K'') tuple (stamp_image c' old)"
    by (simp add: stamp_row_images change_of_stamp image_shown_stamp)
  then show ?thesis unfolding M_Delete row_shown.simps by blast
qed (use assms in auto)

lemma push_all_append:
  assumes "push_all E d (ms @ ns) = (Ok vts, d'')"
  obtains us d' ws where "push_all E d ms = (Ok us, d')" and "push_all E d' ns = (Ok ws, d'')" and "vts = us @ ws"
  using assms
proof (induction ms arbitrary: d vts thesis)
  case Nil
  then show ?case by simp
next
  case (Cons x ms)
  obtain m bytes where x: "x = (m, bytes)" by force
  from Cons.prems(2) have "push_all E d ((m, bytes) # (ms @ ns)) = (Ok vts, d'')" by (simp add: x)
  then show ?case
  proof (rule push_all_Cons_Ok)
    fix r e vs
    assume step: "push E d m bytes = (Ok r, e)" and rest: "push_all E e (ms @ ns) = (Ok vs, d'')"
      and vts: "vts = (case r of None \<Rightarrow> [] | Some vt \<Rightarrow> [vt]) @ vs"
    show ?case
    proof (rule Cons.IH [OF _ rest])
      fix us d' ws
      assume "push_all E e ms = (Ok us, d')" "push_all E d' ns = (Ok ws, d'')" "vs = us @ ws"
      then show thesis
        by (intro Cons.prems(1) [of "(case r of None \<Rightarrow> [] | Some vt \<Rightarrow> [vt]) @ us" d' ws])
          (simp_all add: x step vts)
    qed
  qed
qed

definition commit_ok :: "Decoder \<Rightarrow> Pending \<Rightarrow> nat \<Rightarrow> u64 \<Rightarrow> u64 \<Rightarrow> int \<Rightarrow> bool" where
  "commit_ok d p flags commit_lsn end_lsn timestamp \<longleftrightarrow>
     flags = 0 \<and> commit_lsn = pd_final_lsn p \<and> commit_lsn < end_lsn \<and> timestamp = pd_timestamp p
     \<and> dc_previous_end d < end_lsn"

lemma push_commit_Ok:
  assumes "push_commit E d flags commit_lsn end_lsn timestamp = (Inr r, d')" and "dc_pending d = Some p"
  shows "commit_ok d p flags commit_lsn end_lsn timestamp"
    and "d' = d\<lparr>dc_pending := None, dc_previous_end := end_lsn\<rparr>"
    and "pd_rows p = [] \<Longrightarrow> r = None"
    and "pd_rows p \<noteq> [] \<Longrightarrow>
      r = Some (ValidatedTransaction (commit_transaction E d p commit_lsn end_lsn))
      \<and> validate_change_event E (commit_transaction E d p commit_lsn end_lsn)
          = Ok (ValidatedTransaction (commit_transaction E d p commit_lsn end_lsn))"
proof -
  let ?e = "d\<lparr>dc_pending := None, dc_previous_end := end_lsn\<rparr>"
  have tx: "commit_transaction E ?e p commit_lsn end_lsn = commit_transaction E d p commit_lsn end_lsn"
    by (simp add: commit_transaction_def)
  show "commit_ok d p flags commit_lsn end_lsn timestamp" "d' = ?e" "pd_rows p = [] \<Longrightarrow> r = None"
    using assms by (auto simp: push_commit_def commit_ok_def Let_def not_le split: if_splits)
  assume rows: "pd_rows p \<noteq> []"
  then obtain vt where "r = Some vt" and vt: "validate_change_event E (commit_transaction E d p commit_lsn end_lsn) = Ok vt"
    using assms tx by (auto simp: push_commit_def Let_def and_then_Ok_iff split: if_splits)
  moreover have "vt = ValidatedTransaction (commit_transaction E d p commit_lsn end_lsn)"
    using validate_change_event_Ok [OF vt] by (cases vt) simp
  ultimately show "r = Some (ValidatedTransaction (commit_transaction E d p commit_lsn end_lsn))
      \<and> validate_change_event E (commit_transaction E d p commit_lsn end_lsn)
          = Ok (ValidatedTransaction (commit_transaction E d p commit_lsn end_lsn))" by simp
qed

text \<open>
  The whole transaction. If pushing BEGIN, the messages of a transaction and COMMIT succeeds, there is
  nothing to deliver if no message was a row, and otherwise exactly one transaction, with one change for
  each row message, in their order, every change showing the cells of its message.
\<close>

theorem transaction_exact:
  assumes run: "push_all E d ((M_Begin final_lsn timestamp xid, n) # ms @ [(M_Commit flags commit_lsn end_lsn ts, k)])
      = (Ok vts, d')"
    and body: "\<forall>m \<in> fst ` set ms. \<not> commit_message m"
  shows "dc_pending d' = None \<and> dc_previous_end d' = end_lsn \<and> dc_previous_end d < final_lsn
    \<and> commit_lsn = final_lsn \<and> final_lsn < end_lsn
    \<and> (if filter row_message (map fst ms) = [] then vts = []
       else \<exists>tx. vts = [ValidatedTransaction tx] \<and> tx_source tx = dc_source d
         \<and> tx_begin_cursor tx = pg_cursor E final_lsn \<and> tx_commit_cursor tx = pg_cursor E end_lsn
         \<and> tx_id tx = ''pg:'' @ show_nat (unat xid) @ '':'' @ pe_format_lsn E end_lsn
         \<and> list_all2 (row_shown E d (pg_cursor E end_lsn)) (filter row_message (map fst ms)) (tx_changes tx))"
  using run
proof (rule push_all_Cons_Ok)
  fix r a ws
  assume step: "push E d (M_Begin final_lsn timestamp xid) n = (Ok r, a)"
    and rest: "push_all E a (ms @ [(M_Commit flags commit_lsn end_lsn ts, k)]) = (Ok ws, d')"
    and vts: "vts = (case r of None \<Rightarrow> [] | Some vt \<Rightarrow> [vt]) @ ws"
  obtain e where e: "config_of e = config_of d" "dc_previous_end e = dc_previous_end d"
    and a: "r = None" "dc_previous_end e < final_lsn"
      "a = e\<lparr>dc_pending := Some \<lparr>pd_xid = xid, pd_final_lsn = final_lsn, pd_timestamp = timestamp, pd_bytes = n, pd_rows = []\<rparr>\<rparr>"
    using step by (auto simp: push_def push_message_def quiet_Ok push_begin_Ok split: prod.splits sum.splits
        dest!: charge_bytes_frame)
  have start: "config_of a = config_of d" "dc_previous_end a = dc_previous_end d" using e a(3) by (simp_all add: config_of_def)
  from rest show ?thesis
  proof (rule push_all_append)
    fix us b xs
    assume mid: "push_all E a ms = (Ok us, b)" and last: "push_all E b [(M_Commit flags commit_lsn end_lsn ts, k)] = (Ok xs, d')"
      and ws: "ws = us @ xs"
    from push_all_extends [OF mid body] a(3) have us: "us = []" and ext: "extends E a (map fst ms) b" by auto
    obtain p where p: "dc_pending b = Some p" "pd_xid p = xid" "pd_final_lsn p = final_lsn"
      and shown: "list_all2 (row_shown E a (pg_cursor E final_lsn)) (filter row_message (map fst ms)) (pd_rows p)"
      and b: "config_of b = config_of a" "dc_previous_end b = dc_previous_end a"
      using ext a(3) by (auto simp: extends_def)
    from last obtain q c u where charge: "charge_bytes b k = (Inr u, c)"
      and commit: "push_commit E c flags commit_lsn end_lsn ts = (Inr q, d')" and xs: "xs = (case q of None \<Rightarrow> [] | Some vt \<Rightarrow> [vt])"
      by (auto simp: push_def push_message_def split: prod.splits sum.splits)
    let ?p = "p\<lparr>pd_bytes := pd_bytes p + k\<rparr>"
    have c: "dc_pending c = Some ?p" using charge_bytes_Ok [OF charge] p(1) by auto
    have frame: "config_of c = config_of d" "dc_previous_end c = dc_previous_end d"
      using charge_bytes_frame [OF charge] b start by simp_all
    note fin = push_commit_Ok [OF commit c]
    let ?tx = "commit_transaction E c ?p commit_lsn end_lsn"
    have ok: "commit_lsn = final_lsn" "final_lsn < end_lsn" using fin(1) p(3) by (auto simp: commit_ok_def)
    have len: "filter row_message (map fst ms) = [] \<longleftrightarrow> pd_rows p = []"
      using list_all2_lengthD [OF shown] by (metis length_0_conv)
    have source: "dc_source c = dc_source d" using frame(1) by (simp add: config_of_def)
    have "list_all2 (row_shown E d (pg_cursor E end_lsn)) (filter row_message (map fst ms)) (tx_changes ?tx)"
      using shown unfolding row_shown_cong [OF start(1)]
      by (simp add: commit_transaction_def list_all2_map2) (rule list_all2_mono, assumption, rule row_shown_stamp)
    moreover have "tx_source ?tx = dc_source d" "tx_begin_cursor ?tx = pg_cursor E final_lsn" "tx_commit_cursor ?tx = pg_cursor E end_lsn"
      "tx_id ?tx = ''pg:'' @ show_nat (unat xid) @ '':'' @ pe_format_lsn E end_lsn"
      using ok source p(2) by (simp_all add: commit_transaction_def)
    moreover have "vts = (if pd_rows p = [] then [] else [ValidatedTransaction ?tx])"
      using vts a(1) ws us xs fin(3,4) by auto
    ultimately show ?thesis using fin(2) ok len a(2) e(2) by auto
  qed
qed

end
