(* ===== verification/Pg_Replication_Spec.thy ===== *)
theory Pg_Replication_Spec
  imports Pg_Replication Pg_Decoder_Spec
begin

text \<open>
  What the replication client promises: transactions are delivered in the order of their commit
  positions, only after both validators have accepted them; and the server is only told positions that
  the consumer has acknowledged. The first promise is the contract of an ordered source, the second is
  an invariant of a session, in which the consumer reads and acknowledges in any order.
\<close>

section \<open>One call\<close>

text \<open>The library prints and reads positions.\<close>

definition lsn_library :: "('v, 'p) repl_env \<Rightarrow> bool" where
  "lsn_library E \<longleftrightarrow> prints_lsn (pe_format_lsn E) \<and> (\<forall>p. re_parse_lsn E (pe_format_lsn E p) = Ok p)"

definition accepted :: "('v, 'p) repl_env \<Rightarrow> ValidatedTransaction \<Rightarrow> bool" where
  "accepted E vt \<longleftrightarrow> validate (ce_codec E) (transaction vt) = Ok vt \<and> contract_validate (pg_contract (repl_pg E)) vt = Ok ()"

lemma repl_pg_fields [simp]:
  "pe_format_lsn (repl_pg E) = pe_format_lsn E" "ce_codec (repl_pg E) = ce_codec E"
  by (simp_all add: repl_pg_def pg_env.truncate_def)

text \<open>What a read may do: move the decoder forward, and send the acknowledged position.\<close>

definition reads :: "('v, 'p) repl_env \<Rightarrow> 'p Replication \<Rightarrow> PgError + ValidatedTransaction option \<Rightarrow> 'p Replication \<Rightarrow> bool" where
  "reads E r result r' \<longleftrightarrow>
     decoder_progress (repl_pg E) (rp_decoder r) result (rp_decoder r')
     \<and> rp_acknowledged r' = rp_acknowledged r \<and> rp_start r' = rp_start r
     \<and> (\<exists>n. rp_sent r' = rp_sent r @ replicate n (rp_acknowledged r))
     \<and> (case result of
          Inr (Some vt) \<Rightarrow> rp_delivered r' = Some (tx_commit_cursor (transaction vt))
        | _ \<Rightarrow> rp_delivered r' = rp_delivered r)"

lemma progress_refl [simp]: "decoder_progress E d (Ok None) d"
  by (simp add: decoder_progress_def)

lemma progress_then:
  assumes "decoder_progress E d (Ok None) d'" and "decoder_progress E d' result d''" shows "decoder_progress E d result d''"
  using assms by (auto simp: decoder_progress_def)

lemma reads_quiet:
  assumes "rp_decoder r' = rp_decoder r" "rp_acknowledged r' = rp_acknowledged r" "rp_start r' = rp_start r"
    "rp_sent r' = rp_sent r @ replicate n (rp_acknowledged r)" "rp_delivered r' = rp_delivered r"
    and "\<And>vt. result \<noteq> Ok (Some vt)"
  shows "reads E r result r'"
  using assms by (auto simp: reads_def decoder_progress_def split: sum.splits option.splits)

lemma reads_trans:
  assumes "reads E r (Ok None) s" and "reads E s result t" shows "reads E r result t"
proof -
  from assms obtain m n where "rp_sent s = rp_sent r @ replicate m (rp_acknowledged r)"
    "rp_sent t = rp_sent s @ replicate n (rp_acknowledged s)" "rp_acknowledged s = rp_acknowledged r"
    unfolding reads_def by blast
  then have "rp_sent t = rp_sent r @ replicate (m + n) (rp_acknowledged r)" by (simp add: replicate_add)
  moreover have "decoder_progress (repl_pg E) (rp_decoder r) result (rp_decoder t)"
    using assms progress_then unfolding reads_def by blast
  ultimately show ?thesis using assms by (auto simp: reads_def split: sum.splits option.splits)
qed

lemma feedback_if_sent:
  assumes "feedback_if due a r = (x, r')"
  obtains n where "r' = r\<lparr>rp_sent := rp_sent r @ replicate n (rp_acknowledged r)\<rparr>"
proof (cases due)
  case True
  with assms have "r' = r\<lparr>rp_sent := rp_sent r @ replicate 1 (rp_acknowledged r)\<rparr>"
    by (auto simp: feedback_if_def feedback_def)
  then show ?thesis by (rule that)
next
  case False
  with assms have "r' = r\<lparr>rp_sent := rp_sent r @ replicate 0 (rp_acknowledged r)\<rparr>"
    by (auto simp: feedback_if_def)
  then show ?thesis by (rule that)
qed

lemma on_keepalive_reads:
  assumes "on_keepalive E a data r = (result, r')" shows "reads E r result r'"
proof (cases "re_parse_keepalive E data")
  case (Inl e)
  then show ?thesis using assms by (auto simp: on_keepalive_def intro: reads_quiet [where n = 0])
next
  case (Inr reply)
  obtain x s where s: "feedback_if (reply \<or> ar_due a) a r = (x, s)" by force
  then obtain n where "s = r\<lparr>rp_sent := rp_sent r @ replicate n (rp_acknowledged r)\<rparr>" by (rule feedback_if_sent)
  with s Inr assms show ?thesis
    by (auto simp: on_keepalive_def split: sum.splits intro!: reads_quiet [where n = n])
qed

lemma on_xlog_data_reads:
  assumes "on_xlog_data E a data r = (result, r')" shows "reads E r result r'"
proof -
  obtain parsed parser where p: "re_parse_message E (rp_parser r) (drop 25 data) = (parsed, parser)" by force
  let ?r = "r\<lparr>rp_parser := parser\<rparr>"
  show ?thesis
  proof (cases parsed)
    case (Inl e)
    then show ?thesis using assms p by (auto simp: on_xlog_data_def intro!: reads_quiet [where n = 0])
  next
    case (Inr message)
    obtain x s where s: "feedback_if (ar_due a) a ?r = (x, s)" by force
    then obtain n where sent: "s = ?r\<lparr>rp_sent := rp_sent ?r @ replicate n (rp_acknowledged ?r)\<rparr>" by (rule feedback_if_sent)
    have quiet: "reads E r (Ok None) s" unfolding sent by (rule reads_quiet [where n = n]) simp_all
    show ?thesis
    proof (cases x)
      case (Inl e)
      then show ?thesis using assms p Inr s sent
        by (auto simp: on_xlog_data_def intro!: reads_quiet [where n = n])
    next
      case (Inr u)
      obtain q d where push: "push (repl_pg E) (rp_decoder s) message (length data) = (q, d)" by force
      have result: "result = q" and r': "r' = (case q of
          Inr (Some tx) \<Rightarrow> s\<lparr>rp_decoder := d, rp_delivered := Some (tx_commit_cursor (transaction tx))\<rparr>
        | _ \<Rightarrow> s\<lparr>rp_decoder := d\<rparr>)"
        using assms p \<open>parsed = Ok message\<close> s Inr push by (auto simp: on_xlog_data_def Let_def)
      have "reads E s q r'" using push_progress [OF push]
        by (auto simp: reads_def r' split: sum.splits option.splits intro: exI [of _ 0])
      with quiet result show ?thesis using reads_trans by blast
    qed
  qed
qed

lemma on_frame_reads:
  assumes "on_frame E a r = (result, r')" shows "reads E r result r'"
  using assms
  by (auto simp: on_frame_def split: sum.splits if_splits
      intro: on_keepalive_reads on_xlog_data_reads reads_quiet [where n = 0])

lemma reads_arrivals: "reads E (r\<lparr>rp_arrivals := as\<rparr>) result r' \<longleftrightarrow> reads E r result r'"
  by (simp add: reads_def split: sum.split option.split)

lemma read_frames_reads: "read_frames E as r = (result, r') \<Longrightarrow> reads E r result r'"
proof (induction as arbitrary: r)
  case Nil
  then show ?case by (auto intro!: reads_quiet [where n = 0])
next
  case (Cons a as)
  obtain q s where q: "on_frame E a (r\<lparr>rp_arrivals := as\<rparr>) = (q, s)" by force
  then have first: "reads E r q s" using on_frame_reads reads_arrivals by blast
  show ?case
  proof (cases "q = Ok None")
    case True
    then have "reads E s result r'" using Cons q by simp
    with first True show ?thesis using reads_trans by blast
  next
    case False
    then have "q = result" "s = r'" using Cons.prems q by (auto split: sum.splits option.splits)
    with first show ?thesis by simp
  qed
qed

lemma pg_next_transaction_reads:
  assumes "pg_next_transaction E r = (result, r')" shows "reads E r result r'"
proof (cases "rp_failed r")
  case True
  then show ?thesis using assms by (auto simp: pg_next_transaction_def intro!: reads_quiet [where n = 0])
next
  case False
  obtain q s where q: "pg_read_transaction E r = (q, s)" by force
  then have "reads E r q s" unfolding pg_read_transaction_def by (rule read_frames_reads)
  with False assms q show ?thesis
    by (auto simp: pg_next_transaction_def reads_def split: sum.splits)
qed

lemma adapter_next_reads:
  assumes "adapter_next E r = (result, r')" shows "reads E r result r'"
proof -
  obtain q s where q: "pg_next_transaction E r = (q, s)" by force
  note reads = pg_next_transaction_reads [OF q]
  with assms q show ?thesis by (auto simp: adapter_next_def reads_def decoder_progress_def split: if_splits)
qed

section \<open>The client is an ordered source\<close>

definition commit_position :: "ValidatedTransaction \<Rightarrow> nat" where
  "commit_position vt = (case lsn (tx_commit_cursor (transaction vt)) of Inr p \<Rightarrow> unat p | Inl _ \<Rightarrow> 0)"

definition stream_mark :: "'p Replication \<Rightarrow> nat" where
  "stream_mark r = unat (dc_previous_end (rp_decoder r))"

lemma commit_position_cursor:
  assumes "lsn_library E" and "tx_commit_cursor (transaction vt) = pg_cursor (repl_pg E) p" and "0 < p"
  shows "commit_position vt = unat p"
  using assms lsn_of_cursor [of "repl_pg E" p] by (auto simp: commit_position_def lsn_library_def)

interpretation pg_stream: ordered_source
  "adapter_next E" "\<lambda>r. lsn_library E" "accepted E" commit_position stream_mark
  for E :: "('v, 'p) repl_env"
proof
  fix r :: "'p Replication" and vt r' result
  show "lsn_library E \<Longrightarrow> lsn_library E" by simp
  show "adapter_next E r = (result, r') \<Longrightarrow> stream_mark r \<le> stream_mark r'"
    by (drule adapter_next_reads) (simp add: reads_def decoder_progress_def stream_mark_def word_le_nat_alt)
  assume "lsn_library E" and "adapter_next E r = (Ok (Some vt), r')"
  then have p: "decoder_progress (repl_pg E) (rp_decoder r) (Ok (Some vt)) (rp_decoder r')"
    using adapter_next_reads unfolding reads_def by blast
  then show "accepted E vt" by (simp add: decoder_progress_def accepted_def)
  have "dc_previous_end (rp_decoder r) < dc_previous_end (rp_decoder r')" using p by (simp add: decoder_progress_def)
  moreover have "commit_position vt = stream_mark r'"
    using p \<open>lsn_library E\<close> unfolding stream_mark_def
    by (intro commit_position_cursor) (auto simp: decoder_progress_def intro: le_less_trans [OF word_zero_le])
  ultimately show "stream_mark r < commit_position vt \<and> commit_position vt \<le> stream_mark r'"
    by (simp add: stream_mark_def word_less_nat_alt)
qed

text \<open>An error stops the stream for good, but a panic of a decoder does not: the next call reads on behind
  the message that caused it.\<close>

lemma error_stops:
  assumes "adapter_next E r = (Err e, r')" and "\<And>s. pg_next_transaction E r \<noteq> (Err PE_Panic, s)"
  shows "rp_failed r'"
  using assms by (auto simp: adapter_next_def pg_next_transaction_def split: prod.splits sum.splits if_splits)

lemma panic_goes_on:
  assumes "pg_read_transaction E r = (Err PE_Panic, r')" and "\<not> rp_failed r" and "\<not> rp_failed r'"
  shows "adapter_next E r = (pg_invalid ''PostgreSQL SourceAdapter worker panicked'', r')"
    and "pg_next_transaction E r' = (case pg_read_transaction E r' of
      (Inl e, s) \<Rightarrow> (Err e, if e = PE_Panic then s else s\<lparr>rp_failed := True\<rparr>) | (Inr v, s) \<Rightarrow> (Ok v, s))"
  using assms by (simp_all add: adapter_next_def pg_next_transaction_def)

text \<open>
  The checkpoint writer of a sink reads the cursors of delivered transactions as advancing positions.
\<close>

lemma positions_advance:
  assumes "\<forall>vt \<in> set vts. accepted E vt" and "sorted_wrt (<) (map commit_position vts)"
  shows "\<exists>ps. map (\<lambda>vt. file_position (ce_codec E) (tx_commit_cursor (transaction vt))) vts = map Inr ps
    \<and> advancing (compare_in ''postgresql_lsn'') ps"
proof -
  let ?p = "\<lambda>vt. (sc_value (tx_commit_cursor (transaction vt)), commit_position vt)"
  have pos: "file_position (ce_codec E) (tx_commit_cursor (transaction vt)) = Inr (?p vt)
      \<and> parse_postgresql_lsn (fst (?p vt)) = Inr (snd (?p vt))" if "vt \<in> set vts" for vt
  proof -
    have "contract_validate (pg_contract (repl_pg E)) vt = Ok ()" using assms(1) that by (simp add: accepted_def)
    then obtain q where "lsn (tx_commit_cursor (transaction vt)) = Ok q" by (blast elim: contract_validate_cursors)
    then show ?thesis by (simp add: commit_position_def lsn_file_position)
  qed
  have "advancing (compare_in ''postgresql_lsn'') (map ?p vts)" using assms(2) pos
    by (induction vts) (simp_all add: checkpoint_order.advancing_Cons lsn_greater)
  moreover have "map (\<lambda>vt. file_position (ce_codec E) (tx_commit_cursor (transaction vt))) vts = map Inr (map ?p vts)"
    using pos by simp
  ultimately show ?thesis by blast
qed

section \<open>Sessions\<close>

text \<open>
  A consumer and a stream: the stream, the transactions it has delivered and the ones the consumer has
  acknowledged, oldest first. The server may send more at any time.
\<close>

type_synonym 'p session_state = "'p Replication \<times> ValidatedTransaction list \<times> ValidatedTransaction list"

inductive session_step :: "('v, 'p) repl_env \<Rightarrow> 'p session_state \<Rightarrow> 'p session_state \<Rightarrow> bool" for E where
  arrive: "session_step E (r, delivered, acked) (r\<lparr>rp_arrivals := rp_arrivals r @ as\<rparr>, delivered, acked)"
| read: "adapter_next E r = (result, r') \<Longrightarrow>
    session_step E (r, delivered, acked)
      (r', delivered @ (case result of Inr (Some vt) \<Rightarrow> [vt] | _ \<Rightarrow> []), acked)"
| ack: "acknowledge E a vt r = (result, r') \<Longrightarrow> rp_sent r' \<noteq> rp_sent r \<Longrightarrow>
    session_step E (r, delivered, acked) (r', delivered, acked @ [vt])"
| refuse: "acknowledge E a vt r = (result, r') \<Longrightarrow> rp_sent r' = rp_sent r \<Longrightarrow>
    session_step E (r, delivered, acked) (r', delivered, acked)"

inductive session :: "('v, 'p) repl_env \<Rightarrow> 'p Replication \<Rightarrow> 'p session_state \<Rightarrow> bool" for E r0 where
  opened: "session E r0 (r0, [], [])"
| stepped: "session E r0 s \<Longrightarrow> session_step E s t \<Longrightarrow> session E r0 t"

inductive_cases session_stepE: "session_step E s t"

text \<open>A stream before its first read.\<close>

definition fresh_stream :: "'p Replication \<Rightarrow> bool" where
  "fresh_stream r \<longleftrightarrow> rp_acknowledged r = 0 \<and> rp_delivered r = None \<and> rp_sent r = []"

definition ends_at :: "('v, 'p) repl_env \<Rightarrow> ValidatedTransaction \<Rightarrow> u64 \<Rightarrow> bool" where
  "ends_at E vt p \<longleftrightarrow> tx_commit_cursor (transaction vt) = pg_cursor (repl_pg E) p"

text \<open>
  The invariant: delivered transactions end at growing positions, none beyond the decoder; the last
  one is what may be acknowledged; and everything sent was the position of an acknowledged transaction,
  which had been delivered.
\<close>

definition session_ok :: "('v, 'p) repl_env \<Rightarrow> 'p session_state \<Rightarrow> bool" where
  "session_ok E s \<longleftrightarrow>
     (case s of (r, delivered, acked) \<Rightarrow>
        (\<exists>ps. list_all2 (ends_at E) delivered ps \<and> sorted_wrt (<) ps
            \<and> (\<forall>p \<in> set ps. 0 < p \<and> p \<le> dc_previous_end (rp_decoder r)))
        \<and> (\<forall>c. rp_delivered r = Some c \<longrightarrow> delivered \<noteq> [] \<and> tx_commit_cursor (transaction (last delivered)) = c)
        \<and> (\<forall>vt \<in> set acked. \<exists>dt \<in> set delivered. tx_commit_cursor (transaction vt) = tx_commit_cursor (transaction dt))
        \<and> sorted (rp_sent r @ [rp_acknowledged r])
        \<and> (\<forall>p \<in> insert (rp_acknowledged r) (set (rp_sent r)). p = 0 \<or> (\<exists>vt \<in> set acked. ends_at E vt p)))"

lemma session_ok_fresh: "fresh_stream r \<Longrightarrow> session_ok E (r, [], [])"
  by (simp add: session_ok_def fresh_stream_def)

lemma session_ok_read:
  assumes "session_ok E (r, delivered, acked)" and "reads E r result r'"
  shows "session_ok E (r', delivered @ (case result of Inr (Some vt) \<Rightarrow> [vt] | _ \<Rightarrow> []), acked)"
proof -
  from assms(1) obtain ps where ps: "list_all2 (ends_at E) delivered ps" "sorted_wrt (<) ps"
    "\<forall>p \<in> set ps. 0 < p \<and> p \<le> dc_previous_end (rp_decoder r)"
    by (auto simp: session_ok_def)
  from assms(2) obtain n where sent: "rp_sent r' = rp_sent r @ replicate n (rp_acknowledged r)"
    "rp_acknowledged r' = rp_acknowledged r" by (auto simp: reads_def)
  have decoder_progress: "decoder_progress (repl_pg E) (rp_decoder r) result (rp_decoder r')" using assms(2) by (simp add: reads_def)
  have log: "sorted (rp_sent r' @ [rp_acknowledged r'])"
      "\<forall>p \<in> insert (rp_acknowledged r') (set (rp_sent r')). p = 0 \<or> (\<exists>vt \<in> set acked. ends_at E vt p)"
    using assms(1) sent by (auto simp: session_ok_def sorted_append)
  show ?thesis
  proof (cases "\<exists>vt. result = Ok (Some vt)")
    case True
    then obtain vt where vt: "result = Ok (Some vt)" by blast
    let ?q = "dc_previous_end (rp_decoder r')"
    have q: "ends_at E vt ?q" "dc_previous_end (rp_decoder r) < ?q"
      using decoder_progress vt by (simp_all add: decoder_progress_def ends_at_def)
    then have "list_all2 (ends_at E) (delivered @ [vt]) (ps @ [?q])" using ps(1) by (simp add: list_all2_appendI)
    moreover have "\<forall>p \<in> set ps. p < ?q" using ps(3) q(2) by auto
    moreover have "0 < ?q" using q(2) by (rule le_less_trans [OF word_zero_le])
    ultimately have "\<exists>ps. list_all2 (ends_at E) (delivered @ [vt]) ps \<and> sorted_wrt (<) ps \<and> (\<forall>p \<in> set ps. 0 < p \<and> p \<le> ?q)"
      using ps by (intro exI [of _ "ps @ [?q]"]) (auto simp: sorted_wrt_append)
    moreover have "rp_delivered r' = Some (tx_commit_cursor (transaction vt))" using assms(2) vt by (simp add: reads_def)
    ultimately show ?thesis using assms(1) log vt by (auto simp: session_ok_def)
  next
    case False
    then have same: "(case result of Inr (Some vt) \<Rightarrow> [vt] | _ \<Rightarrow> []) = []" and d: "rp_delivered r' = rp_delivered r"
      using assms(2) by (auto simp: reads_def split: sum.splits option.splits)
    have "\<forall>p \<in> set ps. 0 < p \<and> p \<le> dc_previous_end (rp_decoder r')"
      using ps(3) decoder_progress by (auto simp: decoder_progress_def)
    then show ?thesis using assms(1) ps log d unfolding same by (auto simp: session_ok_def)
  qed
qed

lemma acknowledge_cases:
  assumes "acknowledge E a vt r = (result, r')"
  shows "(r' = r) \<or> (\<exists>p. rp_delivered r = Some (tx_commit_cursor (transaction vt))
    \<and> re_parse_lsn E (sc_value (tx_commit_cursor (transaction vt))) = Ok p \<and> rp_acknowledged r \<le> p
    \<and> r' = r\<lparr>rp_acknowledged := p, rp_sent := rp_sent r @ [p]\<rparr>)"
  using assms by (auto simp: acknowledge_def feedback_def Let_def not_less split: if_splits sum.splits)

lemma session_ok_ack:
  assumes "session_ok E (r, delivered, acked)" and "lsn_library E" and "acknowledge E a vt r = (result, r')"
    and "rp_sent r' \<noteq> rp_sent r"
  shows "session_ok E (r', delivered, acked @ [vt])"
proof -
  from acknowledge_cases [OF assms(3)] assms(4) obtain p where d: "rp_delivered r = Some (tx_commit_cursor (transaction vt))"
    and p: "re_parse_lsn E (sc_value (tx_commit_cursor (transaction vt))) = Ok p" "rp_acknowledged r \<le> p"
    and r': "r' = r\<lparr>rp_acknowledged := p, rp_sent := rp_sent r @ [p]\<rparr>" by auto
  from assms(1) d have last: "delivered \<noteq> []" "tx_commit_cursor (transaction (last delivered)) = tx_commit_cursor (transaction vt)"
    by (auto simp: session_ok_def)
  from assms(1) obtain ps where "list_all2 (ends_at E) delivered ps" by (auto simp: session_ok_def)
  with last obtain q where "ends_at E (last delivered) q"
    by (metis last_in_set list_all2_conv_all_nth in_set_conv_nth)
  then have cursor: "tx_commit_cursor (transaction vt) = pg_cursor (repl_pg E) q" using last by (simp add: ends_at_def)
  with p(1) assms(2) have "q = p" by (simp add: pg_cursor_def lsn_library_def)
  with cursor have "ends_at E vt p" by (simp add: ends_at_def)
  moreover have "\<exists>dt \<in> set delivered. tx_commit_cursor (transaction vt) = tx_commit_cursor (transaction dt)"
    using last last_in_set by metis
  ultimately show ?thesis using assms(1) p(2)
    by (auto simp: session_ok_def r' sorted_append intro: order_trans)
qed

lemma session_step_ok:
  assumes "session_step E s t" and "session_ok E s" and "lsn_library E"
  shows "session_ok E t"
  using assms(1)
proof (rule session_stepE)
  fix a vt r result r' delivered acked
  assume s: "s = (r, delivered, acked)" and t: "t = (r', delivered, acked)"
    and ack: "acknowledge E a vt r = (result, r')" and "rp_sent r' = rp_sent r"
  with acknowledge_cases [OF ack] have "r' = r" by auto
  with s t assms(2) show ?thesis by simp
next
  fix r result r' delivered acked
  assume "s = (r, delivered, acked)" "adapter_next E r = (result, r')"
    "t = (r', delivered @ (case result of Inr (Some vt) \<Rightarrow> [vt] | _ \<Rightarrow> []), acked)"
  with assms(2) show ?thesis by (simp add: session_ok_read adapter_next_reads)
next
  fix a vt r result r' delivered acked
  assume "s = (r, delivered, acked)" "t = (r', delivered, acked @ [vt])"
    "acknowledge E a vt r = (result, r')" "rp_sent r' \<noteq> rp_sent r"
  with assms(2,3) show ?thesis by (simp add: session_ok_ack)
qed (use assms(2) in \<open>simp add: session_ok_def\<close>)

lemma session_invariant: "session E r s \<Longrightarrow> fresh_stream r \<Longrightarrow> lsn_library E \<Longrightarrow> session_ok E s"
  by (induction rule: session.induct) (auto intro: session_ok_fresh session_step_ok)

end
