(* ===== verification/Pg_Catalog.thy ===== *)
theory Pg_Catalog
  imports Pg_Replication
begin

text \<open>
  The checked catalog of a capture, \<^verbatim>\<open>crates/postgresql_15/src/catalog.rs\<close>: the type directory from the
  rows of the system catalogs, and the tables of a publication with the mapping, the evidence and the
  key of every column. The rows of the queries are the input; the queries themselves are text.
\<close>

section \<open>Rows\<close>

record PublicationRow =
  pb_insert :: bool
  pb_update :: bool
  pb_delete :: bool
  pb_truncate :: bool
  pb_viaroot :: bool

record RelationRow =
  rr_oid :: int
  rr_schema :: string
  rr_name :: string
  rr_attnames :: "string list"
  rr_rowfilter :: "string option"
  rr_kind :: string
  rr_identity :: string
  rr_rowsecurity :: bool
  rr_persistence :: string

record ColumnRow =
  cr_name :: string
  cr_type_oid :: int
  cr_typmod :: int
  cr_native_type :: string
  cr_generated :: string
  cr_key_ordinal :: "int option"

record TypeRow =
  ty_oid :: int
  ty_schema :: string
  ty_name :: string
  ty_kind :: string
  ty_base_oid :: int
  ty_elem_oid :: int
  ty_relid :: int
  ty_delimiter :: string
  ty_is_array :: bool
  ty_not_null :: bool
  ty_range_oid :: int
  ty_range_subtype :: int
  ty_collation :: "string option"
  ty_extension :: "string option"

record ExtensionRow =
  er_name :: string
  er_version :: "string option"
  er_schema :: string
  er_installed :: bool
  er_available :: bool

definition u32_of :: "int \<Rightarrow> PgError + u32" where
  "u32_of n = (if 0 \<le> n \<and> n < 2 ^ 32 then Ok (of_int n) else Err PE_TryFromInt)"

section \<open>The type directory\<close>

text \<open>Dependent rows, grouped by the type they belong to, in the order of the rows.\<close>

type_synonym 'a groups = "u32 \<Rightarrow> 'a list option"

definition push_group :: "'a groups \<Rightarrow> u32 \<Rightarrow> 'a \<Rightarrow> 'a groups" where
  "push_group groups oid x = groups(oid \<mapsto> (case groups oid of None \<Rightarrow> [] | Some xs \<Rightarrow> xs) @ [x])"

definition grouped :: "(int \<times> 'a) list \<Rightarrow> PgError + 'a groups" where
  "grouped rows = try_fold (\<lambda>groups (oid, x). and_then (u32_of oid) (\<lambda>oid. Ok (push_group groups oid x))) (\<lambda>_. None) rows"

definition composite_fields :: "(int \<times> string \<times> int \<times> bool) list \<Rightarrow> PgError + SourceTypeField groups" where
  "composite_fields rows =
     try_fold (\<lambda>groups (relid, name, type_oid, nullable).
       and_then (u32_of relid) (\<lambda>relid. and_then (u32_of type_oid) (\<lambda>oid.
       Ok (push_group groups relid \<lparr>tf_name = name, tf_type_oid = oid, tf_nullable = nullable\<rparr>)))) (\<lambda>_. None) rows"

text \<open>A group is used once.\<close>

definition take_group :: "'a groups \<Rightarrow> u32 \<Rightarrow> 'a list \<times> 'a groups" where
  "take_group groups oid = ((case groups oid of None \<Rightarrow> [] | Some xs \<Rightarrow> xs), groups(oid := None))"

definition first_char :: "string \<Rightarrow> string option" where
  "first_char s =
     (case s of
        [] \<Rightarrow> None
      | c # _ \<Rightarrow> Some (take (if ord c < 128 then 1 else if ord c < 224 then 2 else if ord c < 240 then 3 else 4) s))"

definition extension_codec :: "string \<Rightarrow> string \<Rightarrow> string \<times> LogicalType option" where
  "extension_codec extension name =
     (if extension = ''hstore'' \<and> name = ''hstore''
      then (''postgresql.hstore.text.v1'', Some (LT_Map (lt_text ''UTF8'' None) (lt_text ''UTF8'' None)))
      else if extension = ''postgis'' \<and> name \<in> {''geometry'', ''geography''}
      then (''postgresql.postgis.ewkb-hex.v1'', Some (LT_Spatial ''*'' None 0))
      else ([], None))"

definition extension_definition ::
  "codec \<Rightarrow> type_json \<Rightarrow> u32 \<Rightarrow> string \<Rightarrow> string \<Rightarrow> string \<Rightarrow> SourceTypeDefinition" where
  "extension_definition C J oid schema name extension =
     (case extension_codec extension name of (codec_identity, logical) \<Rightarrow>
        def_extension C J oid schema name extension codec_identity
          (if ends_with ''ewkb-hex.v1'' codec_identity then ''hex-EWKB'' else ''UTF-8'') logical)"

record type_groups =
  tg_labels :: "string groups"
  tg_constraints :: "string groups"
  tg_fields :: "SourceTypeField groups"

definition type_definition ::
  "codec \<Rightarrow> type_json \<Rightarrow> type_groups \<Rightarrow> TypeRow \<Rightarrow> PgError + (SourceTypeDefinition \<times> type_groups)" where
  "type_definition C J G row =
     and_then (u32_of (ty_oid row)) (\<lambda>oid.
     let schema = ty_schema row; name = ty_name row; kind = ty_kind row in
     and_then (u32_of (ty_elem_oid row)) (\<lambda>element_oid.
     if kind = ''p'' then Ok (def_pseudo C J oid schema name (ty_collation row), G)
     else if kind = ''b'' \<and> ty_is_array row \<and> element_oid \<noteq> 0 then
       and_then (ok_or (first_char (ty_delimiter row)) (PE_Invalid ''PostgreSQL array delimiter is empty'')) (\<lambda>delimiter.
       Ok (def_array C J oid schema name element_oid delimiter, G))
     else if kind = ''b'' then
       Ok (case ty_extension row of
             Some extension \<Rightarrow> extension_definition C J oid schema name extension
           | None \<Rightarrow> def_builtin C J oid schema name, G)
     else if kind = ''e'' then
       (case take_group (tg_labels G) oid of (labels, rest) \<Rightarrow>
          Ok (def_enum C J oid schema name labels, G\<lparr>tg_labels := rest\<rparr>))
     else if kind = ''d'' then
       and_then (u32_of (ty_base_oid row)) (\<lambda>base_oid.
       case take_group (tg_constraints G) oid of (constraints, rest) \<Rightarrow>
         Ok (def_domain C J oid schema name base_oid constraints (ty_not_null row) (ty_collation row),
             G\<lparr>tg_constraints := rest\<rparr>))
     else if kind = ''c'' then
       and_then (u32_of (ty_relid row)) (\<lambda>relid.
       case take_group (tg_fields G) relid of (flds, rest) \<Rightarrow>
         Ok (def_composite C J oid schema name flds, G\<lparr>tg_fields := rest\<rparr>))
     else if kind = ''r'' then
       and_then (u32_of (ty_range_subtype row)) (\<lambda>subtype. Ok (def_range C J oid schema name subtype, G))
     else if kind = ''m'' then
       and_then (u32_of (ty_range_oid row)) (\<lambda>range_oid. Ok (def_multi_range C J oid schema name range_oid, G))
     else pg_invalid (''unsupported PostgreSQL type category '' @ kind)))"

definition extension_evidence :: "ExtensionRow \<Rightarrow> SourceExtension" where
  "extension_evidence row =
     \<lparr>ex_name = er_name row, ex_version = (case er_version row of Some v \<Rightarrow> v | None \<Rightarrow> []), ex_schema = er_schema row,
      ex_installed = er_installed row, ex_available = er_available row, ex_target_compatible = None\<rparr>"

record TypeRows =
  tr_types :: "TypeRow list"
  tr_labels :: "(int \<times> string) list"
  tr_constraints :: "(int \<times> string) list"
  tr_fields :: "(int \<times> string \<times> int \<times> bool) list"
  tr_extensions :: "ExtensionRow list"

definition source_type_catalog :: "codec \<Rightarrow> type_json \<Rightarrow> TypeRows \<Rightarrow> PgError + SourceTypeCatalog" where
  "source_type_catalog C J rows =
     and_then (grouped (tr_labels rows)) (\<lambda>labels.
     and_then (grouped (tr_constraints rows)) (\<lambda>constraints.
     and_then (composite_fields (tr_fields rows)) (\<lambda>flds.
     and_then (try_fold (\<lambda>(definitions, G) row.
         and_then (type_definition C J G row) (\<lambda>(d, G). Ok (definitions @ [d], G)))
       ([], \<lparr>tg_labels = labels, tg_constraints = constraints, tg_fields = flds\<rparr>) (tr_types rows)) (\<lambda>(definitions, _).
     Ok \<lparr>tc_types = definitions, tc_extensions = map extension_evidence (tr_extensions rows)\<rparr>))))"

section \<open>The tables of a publication\<close>

definition check_publication :: "PublicationRow option \<Rightarrow> PgError + unit" where
  "check_publication row =
     and_then (ok_or row (PE_Invalid ''publication does not exist; prepare it with the table owner/admin'')) (\<lambda>p.
     and_then (each (\<lambda>(flag, published).
         if published then Ok ()
         else pg_invalid (''publication must include '' @ flag @ ''; omitted operations would be invisible''))
       [(''pubinsert'', pb_insert p), (''pubupdate'', pb_update p), (''pubdelete'', pb_delete p),
        (''pubtruncate'', pb_truncate p)]) (\<lambda>_.
     if pb_viaroot p then pg_invalid ''partition-root publication is not supported yet'' else Ok ()))"

definition relation_supported :: "RelationRow \<Rightarrow> bool" where
  "relation_supported row \<longleftrightarrow>
     rr_kind row = ''r'' \<and> rr_persistence row = ''p'' \<and> \<not> rr_rowsecurity row \<and> rr_rowfilter row = None
     \<and> rr_identity row \<in> {''d'', ''f''}"

definition key_ordinal :: "int option \<Rightarrow> PgError + nat option" where
  "key_ordinal n =
     (case n of None \<Rightarrow> Ok None | Some k \<Rightarrow> if 0 \<le> k then Ok (Some (nat k)) else Err PE_TryFromInt)"

definition load_column ::
  "codec \<Rightarrow> mapping_json \<Rightarrow> nat \<Rightarrow> SourceTypeCatalog \<Rightarrow> string \<Rightarrow> ColumnRow \<Rightarrow> PgError + PgColumn" where
  "load_column C J version catalog table column =
     and_then (u32_of (cr_type_oid column)) (\<lambda>oid.
     let native_type = cr_native_type column; name = cr_name column in
     and_then (ok_or (definition_at (tc_types catalog) oid)
       (PE_Invalid (table @ '': catalog is missing type OID '' @ show_nat (unat oid)))) (\<lambda>d.
     and_then (map_err (\<lambda>e. PE_Decode (table @ ''.'' @ name @ '' ('' @ native_type @ ''): '') (DE_Mapping e))
       (source_type_mapping_with_catalog_for_version C J (show_nat version) native_type catalog)) (\<lambda>mapping.
     let semantic_codec = \<not> captures_source_representation catalog oid (sm_logical_type mapping) in
     and_then (map_err (\<lambda>e. PE_Invalid (table @ ''.'' @ name @ '': '' @ e)) (definition_closure catalog oid)) (\<lambda>closure.
     if cr_generated column \<noteq> []
     then pg_invalid (table @ '': unsupported type/generated column '' @ native_type @ '' (OID '' @ show_nat (unat oid) @ '')'')
     else
       and_then (key_ordinal (cr_key_ordinal column)) (\<lambda>key.
       Ok \<lparr>pc_name = name, pc_oid = oid, pc_modifier = cr_typmod column, pc_native_type = native_type,
           pc_type_schema = td_schema d, pc_type_name = td_name d,
           pc_type_definition_digest = td_definition_digest d,
           pc_type_definition_evidence = mj_definition_text J d,
           pc_type_definition_closure_evidence = tj_closure (types_json J) closure,
           pc_type_definition_closure_digest = closure_digest C (types_json J) closure,
           pc_representation_only = \<not> semantic_codec,
           pc_representation_capture_allowed = \<not> semantic_codec,
           pc_key = key\<rparr>)))))"

definition load_table ::
  "codec \<Rightarrow> mapping_json \<Rightarrow> nat \<Rightarrow> SourceTypeCatalog \<Rightarrow> RelationRow \<times> ColumnRow list \<Rightarrow> PgError + (u32 \<times> PgTable)" where
  "load_table C J version catalog entry =
     (case entry of (row, column_rows) \<Rightarrow>
        let schema = rr_schema row; name = rr_name row; table = schema @ ''.'' @ name in
        and_then (u32_of (rr_oid row)) (\<lambda>oid.
        if \<not> relation_supported row
        then pg_invalid (table @ '': requires an ordinary permanent primary-key table without RLS/row filters and DEFAULT or FULL replica identity'')
        else
          and_then (map_result (load_column C J version catalog table) column_rows) (\<lambda>columns.
          if rr_attnames row \<noteq> map pc_name columns \<or> \<not> list_ex (\<lambda>c. pc_key c \<noteq> None) columns
          then pg_invalid (table @ '': publish all columns of a primary-key table'')
          else Ok (oid, \<lparr>pt_oid = oid, pt_schema = schema, pt_name = name, pt_identity = hd (rr_identity row),
                  pt_source_type_catalog_digest = catalog_evidence_digest C (types_json J) catalog,
                  pt_columns = columns\<rparr>))))"

definition load_catalog ::
  "codec \<Rightarrow> mapping_json \<Rightarrow> nat \<Rightarrow> PublicationRow option \<Rightarrow> (RelationRow \<times> ColumnRow list) list \<Rightarrow> TypeRows
     \<Rightarrow> PgError + LoadedCatalog" where
  "load_catalog C J version publication relations types =
     and_then (check_publication publication) (\<lambda>_.
     if relations = [] then pg_invalid ''publication has no tables''
     else
       and_then (source_type_catalog C (types_json J) types) (\<lambda>catalog.
       and_then (map_result (load_table C J version catalog) relations) (\<lambda>tables.
       Ok \<lparr>lc_tables = map_of (rev tables),
           lc_type_names = map_of (rev (map (\<lambda>d. (td_oid d, (td_schema d, td_name d))) (tc_types catalog))),
           lc_type_catalog = catalog\<rparr>)))"

end
