(* ===== verification/Pg_Contract_Spec.thy ===== *)
theory Pg_Contract_Spec
  imports Pg_Catalog Pg_Decoder_Spec Pg_Types_Spec
begin

text \<open>
  The Source Contract and the decoder agree: a value that the decoder reads from a column has the
  declared type of that column in the contract's own table of types, the evidence that the decoder
  attaches to a representation passes the contract's check of it, and the framing that the decoder
  gives a transaction is the framing that the contract asks for.
\<close>

section \<open>Declared types and decoded values\<close>

text \<open>How PostgreSQL writes the types with a codec of their own.\<close>

definition fixed_declarations :: "(u32 \<times> string) list" where
  "fixed_declarations =
     [(16, ''boolean''), (20, ''bigint''), (21, ''smallint''), (23, ''integer''), (26, ''oid''), (28, ''xid''),
      (29, ''cid''), (5069, ''xid8''), (700, ''real''), (701, ''double precision''),
      (18, [CHR 0x22] @ ''char'' @ [CHR 0x22]), (19, ''name''), (25, ''text''), (114, ''json''), (3802, ''jsonb''),
      (17, ''bytea''), (1082, ''date''), (142, ''xml''), (2950, ''uuid''), (1700, ''numeric''),
      (1043, ''character varying''), (1083, ''time without time zone''), (1266, ''time with time zone''),
      (1114, ''timestamp without time zone''), (1184, ''timestamp with time zone''), (1186, ''interval'')]"

text \<open>The types with a length or a precision.\<close>

definition sized :: "string \<Rightarrow> nat \<Rightarrow> string \<Rightarrow> string" where
  "sized name n zone = name @ ''('' @ show_nat n @ '')'' @ zone"

inductive declares :: "u32 \<Rightarrow> string \<Rightarrow> bool" where
  fixed: "(oid, native) \<in> set fixed_declarations \<Longrightarrow> declares oid native"
| character: "0 < n \<Longrightarrow> n < 2 ^ 64 \<Longrightarrow> declares 1042 (sized ''character'' n [])"
| varying: "0 < n \<Longrightarrow> n < 2 ^ 64 \<Longrightarrow> declares 1043 (sized ''character varying'' n [])"
| bits: "0 < n \<Longrightarrow> n < 2 ^ 64 \<Longrightarrow> declares 1560 (sized ''bit'' n [])"
| varbits: "0 < n \<Longrightarrow> n < 2 ^ 64 \<Longrightarrow> declares 1562 (sized ''bit varying'' n [])"
| time: "n \<le> 6 \<Longrightarrow> declares 1083 (sized ''time'' n '' without time zone'')"
| timetz: "n \<le> 6 \<Longrightarrow> declares 1266 (sized ''time'' n '' with time zone'')"
| timestamp: "n \<le> 6 \<Longrightarrow> declares 1114 (sized ''timestamp'' n '' without time zone'')"
| timestamptz: "n \<le> 6 \<Longrightarrow> declares 1184 (sized ''timestamp'' n '' with time zone'')"

lemma fixed_supported:
  "list_all (\<lambda>(oid, native). native \<in> set native_names \<or> valid_character native \<or> valid_parameterized_numeric native)
     fixed_declarations"
  by code_simp

text \<open>Names of these types are in lower case already, and without white space around them.\<close>

definition visible :: "char \<Rightarrow> bool" where
  "visible c \<longleftrightarrow> 32 < ord c \<and> ord c < 128"

lemma white_space_heads:
  "\<forall>w \<in> set white_space. w \<noteq> [] \<and> \<not> visible (hd w) \<and> \<not> visible (last w)"
  by (simp add: white_space_def visible_def ord_def)

lemma trim_visible:
  assumes "s \<noteq> []" and "visible (hd s)" and "visible (last s)"
  shows "trim s = s"
proof -
  have "strip_leading white_space s = s"
    using assms white_space_heads by (intro strip_leading_none) (force simp: list_all_iff starts_with_iff)
  moreover have "strip_leading (map rev white_space) (rev s) = rev s"
  proof (rule strip_leading_none)
    have "\<not> starts_with (rev w) (rev s)" if "w \<in> set white_space" for w
    proof
      assume "starts_with (rev w) (rev s)"
      then obtain r where "rev s = rev w @ r" by (auto simp: starts_with_iff)
      then have "s = rev r @ w" by (metis rev_append rev_rev_ident)
      with that white_space_heads assms(3) show False by auto
    qed
    then show "list_all (\<lambda>w. w = [] \<or> \<not> starts_with w (rev s)) (map rev white_space)" by (simp add: list_all_iff)
  qed
  ultimately show ?thesis by (simp add: trim_def)
qed

lemma lower_fixed: "list_all (\<lambda>c. \<not> is_ascii_upper c) s \<Longrightarrow> to_ascii_lowercase s = s"
  by (induction s) (auto simp: to_ascii_lowercase_def lower_char_def)

lemma digit_not_upper: "list_all is_ascii_digit ds \<Longrightarrow> list_all (\<lambda>c. \<not> is_ascii_upper c) ds"
  by (auto simp: list_all_iff is_ascii_digit_def is_ascii_upper_def)

lemma digits_visible: "list_all is_ascii_digit ds \<Longrightarrow> ds \<noteq> [] \<Longrightarrow> visible (hd ds) \<and> visible (last ds)"
proof -
  assume ds: "list_all is_ascii_digit ds" "ds \<noteq> []"
  then have "is_ascii_digit (hd ds)" "is_ascii_digit (last ds)" by (auto simp: list_all_iff)
  then show ?thesis by (simp add: is_ascii_digit_def visible_def)
qed

lemma trim_show_nat [simp]: "trim (show_nat n) = show_nat n"
  using digits_visible [OF show_nat_digits show_nat_nonempty] by (intro trim_visible) auto

text \<open>A declaration that the contract reads as it is written.\<close>

definition canonical_native :: "string \<Rightarrow> bool" where
  "canonical_native native \<longleftrightarrow> trim native = native \<and> to_ascii_lowercase native = native"

lemma canonical_sized:
  assumes "name \<in> {''character'', ''character varying'', ''bit'', ''bit varying'', ''time'', ''timestamp''}"
    and "zone \<in> {[], '' without time zone'', '' with time zone''}"
  shows "canonical_native (sized name n zone)"
proof -
  have "list_all (\<lambda>c. \<not> is_ascii_upper c) (sized name n zone)"
    using assms digit_not_upper [OF show_nat_digits [of n]]
    by (auto simp: sized_def is_ascii_upper_def ord_def)
  moreover have "visible (hd (sized name n zone))" "visible (last (sized name n zone))" "sized name n zone \<noteq> []"
    using assms by (auto simp: sized_def visible_def ord_def)
  ultimately show ?thesis by (simp add: canonical_native_def lower_fixed trim_visible)
qed

text \<open>The same by the bits of a character, which is quick to evaluate.\<close>

fun visible_bits :: "char \<Rightarrow> bool" where
  "visible_bits (Char b0 b1 b2 b3 b4 b5 b6 b7) \<longleftrightarrow> \<not> b7 \<and> (b6 \<or> b5 \<and> (b0 \<or> b1 \<or> b2 \<or> b3 \<or> b4))"

fun lower_bits :: "char \<Rightarrow> bool" where
  "lower_bits (Char b0 b1 b2 b3 b4 b5 b6 b7) \<longleftrightarrow> b5 \<or> \<not> b6 \<or> b7 \<or> b4 \<and> b3 \<and> b2 \<and> b1 \<and> b0"

lemma visible_by_bits: "visible_bits c \<Longrightarrow> visible c"
  by (cases c) (auto simp: visible_def ord_def of_char_def horner_sum_simps of_bool_def split: if_splits)

lemma lower_by_bits: "lower_bits c \<Longrightarrow> \<not> is_ascii_upper c"
  by (cases c) (auto simp: is_ascii_upper_def ord_def of_char_def horner_sum_simps of_bool_def split: if_splits)

lemma canonical_bits:
  "native \<noteq> [] \<Longrightarrow> visible_bits (hd native) \<Longrightarrow> visible_bits (last native) \<Longrightarrow> list_all lower_bits native \<Longrightarrow>
     canonical_native native"
  by (auto simp: canonical_native_def list_all_iff visible_by_bits lower_by_bits intro!: trim_visible lower_fixed)

lemma fixed_names:
  assumes "(oid, native) \<in> set fixed_declarations" shows "canonical_native native"
proof -
  have "list_all (\<lambda>(oid, native). native \<noteq> [] \<and> visible_bits (hd native) \<and> visible_bits (last native)
      \<and> list_all lower_bits native) fixed_declarations"
    by (simp add: fixed_declarations_def)
  with assms show ?thesis by (auto simp: list_all_iff intro!: canonical_bits)
qed

lemma strip_suffix_append [simp]: "strip_suffix p (s @ p) = Some s"
  by (simp add: strip_suffix_Some_iff)

lemma split_at_parenthesis [simp]: "split_once CHR '')'' (show_nat n @ CHR '')'' # rest) = Some (show_nat n, rest)"
  using show_nat_digits [of n] by (auto simp: split_once_Some_iff list_all_iff is_ascii_digit_def ord_def)

lemma split_digits_sub:
  "list_all is_ascii_digit ds \<Longrightarrow> split_once_sub '') '' (ds @ CHR '')'' # CHR '' '' # rest) = Some (ds, rest)"
proof (induction ds)
  case (Cons d ds)
  moreover from Cons.prems have "d \<noteq> CHR '')''" by (auto simp: is_ascii_digit_def ord_def)
  ultimately show ?case by simp
qed simp

lemma trim_zones [simp]:
  "trim '' without time zone'' = ''without time zone''" "trim '' with time zone'' = ''with time zone''"
  by code_simp+

lemma small_precision: "n \<le> 6 \<Longrightarrow> at_most_six (show_nat n)"
  by (simp add: at_most_six_def)

lemma sized_character:
  assumes "0 < n" "n < 2 ^ 64"
  shows "valid_character (sized ''character'' n [])" "valid_character (sized ''character varying'' n [])"
  using assms by (simp_all add: valid_character_def sized_def strip_first_def map_filter_simps positive_def
      strip_suffix_append [of "'')''" "show_nat n", simplified])

lemma sized_bits:
  assumes "0 < n" "n < 2 ^ 64"
  shows "valid_parameterized_bit (sized ''bit'' n [])" "valid_parameterized_bit (sized ''bit varying'' n [])"
  using assms by (simp_all add: valid_parameterized_bit_def sized_def strip_first_def map_filter_simps positive_def
      strip_suffix_append [of "'')''" "show_nat n", simplified])

lemma sized_time:
  assumes "n \<le> 6" and "zone \<in> {'' without time zone'', '' with time zone''}"
  shows "valid_parameterized_time (sized ''time'' n zone)"
  using assms by (auto simp: valid_parameterized_time_def sized_def small_precision)

lemma sized_timestamp:
  assumes "n \<le> 6" and "zone \<in> {'' without time zone'', '' with time zone''}"
  shows "valid_parameterized_timestamp (sized ''timestamp'' n zone)"
  using assms split_digits_sub [OF show_nat_digits [of n]]
  by (auto simp: valid_parameterized_timestamp_def sized_def small_precision)

subsection \<open>The types with a codec of their own\<close>

lemma or_infinity_cases:
  assumes "or_infinity txt kind r = Inr v"
  shows "(\<exists>negative. v = LV_TemporalInfinity kind negative) \<or> r = Inr v"
  using assms by (auto simp: or_infinity_def temporal_infinity_def split: if_splits)

lemma pg_bit_string_shape: "pg_bit_string C txt = Inr v \<Longrightarrow> \<exists>a b c d. v = LV_BitString a b c d"
  by (auto simp: pg_bit_string_def split: if_splits)

lemma bytea_shape: "bytea C txt = Inr v \<Longrightarrow> \<exists>b. v = LV_Binary b"
  by (auto simp: bytea_def ok_iff split: if_splits)

lemma decode_json_shape: "decode_json T txt = Inr v \<Longrightarrow> \<exists>j. v = LV_Json j"
  by (auto simp: decode_json_def ok_iff)

lemma local_time_shape: "local_time txt = Inr v \<Longrightarrow> \<exists>a b c d. v = LV_LocalTime a b c d"
  by (auto simp: local_time_def ok_iff)

lemma offset_time_shape: "offset_time txt = Inr v \<Longrightarrow> \<exists>a b c d e. v = LV_OffsetTime a b c d e"
  by (auto simp: offset_time_def ok_iff)

lemma calendar_interval_shape: "calendar_interval txt = Inr v \<Longrightarrow> \<exists>a b c. v = LV_CalendarInterval a b c"
  by (auto simp: calendar_interval_def ok_iff Let_def split: if_splits)

lemma temporal_infinity_shape:
  "temporal_infinity txt kind = Some v \<Longrightarrow>
     \<exists>negative. v = LV_TemporalInfinity kind negative \<and> the (temporal_infinity txt kind) = v"
  by (auto simp: temporal_infinity_def split: if_splits)

lemmas decoded_shapes = pg_bit_string_shape bytea_shape decode_json_shape local_time_shape offset_time_shape
  calendar_interval_shape

lemma version_seventeen:
  "17 \<le> version_major version \<Longrightarrow> CHR ''.'' \<notin> set version \<Longrightarrow>
     case parse_unsigned 16 version of Some major \<Rightarrow> 17 \<le> major | None \<Rightarrow> False"
  by (auto simp: version_major_def split_on_no_sep split: option.splits)

text \<open>The types that a decoded value can come from.\<close>

definition value_oids :: "string \<Rightarrow> LogicalValue \<Rightarrow> u32 set" where
  "value_oids version v =
     (case v of
        LV_Boolean _ \<Rightarrow> {16}
      | LV_Integer is_signed bits _ \<Rightarrow>
          (if is_signed then (if bits = 64 then {20} else if bits = 16 then {21} else if bits = 32 then {23} else {})
           else if bits = 64 then {5069} else if bits = 32 then {26, 28, 29} else {})
      | LV_Decimal _ _ \<Rightarrow> {1700}
      | LV_Float bits _ \<Rightarrow> (if bits = 32 then {700} else if bits = 64 then {701} else {})
      | LV_Text charset _ _ \<Rightarrow> (if charset = ''UTF8'' then {18, 19, 25, 1042, 1043} else {})
      | LV_Json _ \<Rightarrow> {114, 3802}
      | LV_Binary _ \<Rightarrow> {17}
      | LV_Date _ _ _ \<Rightarrow> {1082}
      | LV_TemporalInfinity kind _ \<Rightarrow>
          (case kind of TI_Date \<Rightarrow> {1082} | TI_LocalDatetime \<Rightarrow> {1114} | TI_Instant \<Rightarrow> {1184}
           | TI_CalendarInterval \<Rightarrow> if 17 \<le> version_major version then {1186} else {})
      | LV_LocalTime _ _ _ _ \<Rightarrow> {1083}
      | LV_OffsetTime _ _ _ _ _ \<Rightarrow> {1266}
      | LV_LocalDatetime _ _ _ _ _ _ _ \<Rightarrow> {1114}
      | LV_Instant _ _ \<Rightarrow> {1184}
      | LV_CalendarInterval _ _ _ \<Rightarrow> {1186}
      | LV_Xml _ _ \<Rightarrow> {142}
      | LV_Network _ _ _ \<Rightarrow> {650, 774, 829, 869}
      | LV_BitString _ _ _ _ \<Rightarrow> {1560, 1562}
      | LV_Uuid _ \<Rightarrow> {2950}
      | _ \<Rightarrow> {})"

lemma pg_network_shape: "pg_network oid txt = Inr v \<Longrightarrow> \<exists>a b c. v = LV_Network a b c"
  by (auto simp: pg_network_def ok_iff split: if_splits)

lemma if_result:
  "(if c then a else b) = Inr v \<Longrightarrow> (c \<Longrightarrow> a = Inr v \<Longrightarrow> P) \<Longrightarrow> (b = Inr v \<Longrightarrow> P) \<Longrightarrow> P"
  by (cases c) auto

lemma decoded_oid:
  assumes ok: "decode_for_version C T version oid bs = Inr v" shows "oid \<in> value_oids version v"
proof -
  have utf8: "from_utf8 bs = Ok bs" using ok by (auto simp: decode_for_version_def from_utf8_def split: if_splits)
  note step = ok [unfolded decode_for_version_def utf8 and_then_simps]
  note shapes = decoded_shapes pg_network_shape or_infinity_cases temporal_infinity_shape
  from step show ?thesis
    by (elim if_result) (auto simp: value_oids_def ok_iff dest!: shapes split: if_splits)
qed

lemma fixed_lookup: "(oid, native) \<in> set fixed_declarations \<Longrightarrow> map_of fixed_declarations oid = Some native"
  by (rule map_of_is_SomeI) (simp_all add: fixed_declarations_def)

lemma canonical_nativeD: "canonical_native native \<Longrightarrow> trim native = native" "canonical_native native \<Longrightarrow> to_ascii_lowercase native = native"
  by (simp_all add: canonical_native_def)

lemma interval_named: "starts_with ''interval'' ''interval''"
  by (simp add: starts_with_def)

lemma zone_named:
  "ends_with ''with time zone'' (''timestamp'' @ '' with time zone'')" "starts_with ''timestamp'' (''timestamp'' @ '' with time zone'')"
  "ends_with ''without time zone'' (''timestamp'' @ '' without time zone'')" "starts_with ''timestamp'' (''timestamp'' @ '' without time zone'')"
  by (simp_all add: starts_with_def ends_with_def strip_suffix_def)

lemma fixed_lookups:
  "map_of fixed_declarations 16 = Some ''boolean''"
  "map_of fixed_declarations 20 = Some ''bigint''"
  "map_of fixed_declarations 21 = Some ''smallint''"
  "map_of fixed_declarations 23 = Some ''integer''"
  "map_of fixed_declarations 26 = Some ''oid''"
  "map_of fixed_declarations 28 = Some ''xid''"
  "map_of fixed_declarations 29 = Some ''cid''"
  "map_of fixed_declarations 5069 = Some ''xid8''"
  "map_of fixed_declarations 700 = Some ''real''"
  "map_of fixed_declarations 701 = Some ''double precision''"
  "map_of fixed_declarations 18 = Some ([CHR 0x22] @ ''char'' @ [CHR 0x22])"
  "map_of fixed_declarations 19 = Some ''name''"
  "map_of fixed_declarations 25 = Some ''text''"
  "map_of fixed_declarations 114 = Some ''json''"
  "map_of fixed_declarations 3802 = Some ''jsonb''"
  "map_of fixed_declarations 17 = Some ''bytea''"
  "map_of fixed_declarations 1082 = Some ''date''"
  "map_of fixed_declarations 142 = Some ''xml''"
  "map_of fixed_declarations 2950 = Some ''uuid''"
  "map_of fixed_declarations 1700 = Some ''numeric''"
  "map_of fixed_declarations 1043 = Some ''character varying''"
  "map_of fixed_declarations 1083 = Some ''time without time zone''"
  "map_of fixed_declarations 1266 = Some ''time with time zone''"
  "map_of fixed_declarations 1114 = Some ''timestamp without time zone''"
  "map_of fixed_declarations 1184 = Some ''timestamp with time zone''"
  "map_of fixed_declarations 1186 = Some ''interval''"
  "map_of fixed_declarations 1042 = None"
  "map_of fixed_declarations 1560 = None"
  "map_of fixed_declarations 1562 = None"
  "map_of fixed_declarations 650 = None"
  "map_of fixed_declarations 774 = None"
  "map_of fixed_declarations 829 = None"
  "map_of fixed_declarations 869 = None"
  by (simp_all add: fixed_declarations_def)

lemma mem_if: "x \<in> (if c then A else B) \<Longrightarrow> (c \<Longrightarrow> x \<in> A \<Longrightarrow> P) \<Longrightarrow> (\<not> c \<Longrightarrow> x \<in> B \<Longrightarrow> P) \<Longrightarrow> P"
  by (cases c) auto

lemma fixed_matches:
  assumes "(oid, native) \<in> set fixed_declarations" and "oid \<in> value_oids version v"
    and "CHR ''.'' \<notin> set version"
  shows "logical_matches_native C J v native version"
proof -
  note names = canonical_nativeD [OF fixed_names [OF assms(1)]]
  have native: "map_of fixed_declarations oid \<noteq> None" "native = the (map_of fixed_declarations oid)"
    using fixed_lookup [OF assms(1)] by simp_all
  note facts = assms(2) native
  have plain: "valid_character ''character varying''" "valid_parameterized_numeric ''numeric''"
    by (simp_all add: valid_character_def valid_parameterized_numeric_def)
  note [simp] = fixed_lookups option.sel integer_native_def infinity_declared_def timestamp_declared_def interval_named plain
    zone_named [simplified] version_seventeen [OF _ assms(3)]
  show ?thesis
  proof (cases v)
    case (LV_TemporalInfinity kind negative)
    show ?thesis using facts unfolding LV_TemporalInfinity logical_matches_native_def names Let_def
      by (cases kind; simp only: value_oids_def LogicalValue.case TemporalInfinityKind.case; elim mem_if insertE emptyE; simp)
  qed (use facts in \<open>unfold logical_matches_native_def names Let_def value_oids_def; simp only: LogicalValue.case empty_iff;
    elim mem_if insertE emptyE; simp\<close>)+
qed

subsection \<open>Types with a length or a precision\<close>

lemma ends_with_append [simp]: "ends_with p (s @ p)"
  by (simp add: ends_with_def)

lemma starts_with_append [simp]: "starts_with p (p @ s)"
  by (simp add: starts_with_iff)

lemma sized_zone:
  "ends_with ''with time zone'' (sized name n '' with time zone'')"
  "ends_with ''without time zone'' (sized name n '' without time zone'')"
  using ends_with_append [of "''with time zone''" "name @ ''('' @ show_nat n @ '') ''"]
    ends_with_append [of "''without time zone''" "name @ ''('' @ show_nat n @ '') ''"]
  by (simp_all add: sized_def)

lemma sized_starts: "starts_with name (sized name n zone)"
  by (simp add: sized_def)

lemma value_of_oid:
  "oid \<in> value_oids version v \<Longrightarrow> oid \<in> {1042, 1043} \<Longrightarrow> \<exists>a b. v = LV_Text ''UTF8'' a b"
  "oid \<in> value_oids version v \<Longrightarrow> oid \<in> {1560, 1562} \<Longrightarrow> \<exists>a b c d. v = LV_BitString a b c d"
  "1083 \<in> value_oids version v \<Longrightarrow> \<exists>a b c d. v = LV_LocalTime a b c d"
  "1266 \<in> value_oids version v \<Longrightarrow> \<exists>a b c d e. v = LV_OffsetTime a b c d e"
  "1114 \<in> value_oids version v \<Longrightarrow> (\<exists>a b c d e f g. v = LV_LocalDatetime a b c d e f g) \<or> (\<exists>a. v = LV_TemporalInfinity TI_LocalDatetime a)"
  "1184 \<in> value_oids version v \<Longrightarrow> (\<exists>a b. v = LV_Instant a b) \<or> (\<exists>a. v = LV_TemporalInfinity TI_Instant a)"
  by (cases v; force simp: value_oids_def split: if_splits TemporalInfinityKind.splits)+

lemma sized_matches:
  assumes "declares oid native" and "(oid, native) \<notin> set fixed_declarations" and "oid \<in> value_oids version v"
  shows "canonical_native native \<and> logical_matches_native C J v native version"
  using assms(1)
proof cases
  case fixed
  with assms(2) show ?thesis by simp
next
  case (character n)
  then have c: "canonical_native native" by (simp add: canonical_sized)
  from character assms(3) obtain a b where "v = LV_Text ''UTF8'' a b" using value_of_oid(1) by blast
  with c character show ?thesis by (simp add: logical_matches_native_def canonical_nativeD sized_character)
next
  case (varying n)
  then have c: "canonical_native native" by (simp add: canonical_sized)
  from varying assms(3) obtain a b where "v = LV_Text ''UTF8'' a b" using value_of_oid(1) by blast
  with c varying show ?thesis by (simp add: logical_matches_native_def canonical_nativeD sized_character)
next
  case (bits n)
  then have c: "canonical_native native" by (simp add: canonical_sized)
  from bits assms(3) obtain a b x d where "v = LV_BitString a b x d" using value_of_oid(2) by blast
  with c bits show ?thesis by (simp add: logical_matches_native_def canonical_nativeD sized_bits)
next
  case (varbits n)
  then have c: "canonical_native native" by (simp add: canonical_sized)
  from varbits assms(3) obtain a b x d where "v = LV_BitString a b x d" using value_of_oid(2) by blast
  with c varbits show ?thesis by (simp add: logical_matches_native_def canonical_nativeD sized_bits)
next
  case (time n)
  then have c: "canonical_native native" by (simp add: canonical_sized)
  from time assms(3) obtain a b x d where "v = LV_LocalTime a b x d" using value_of_oid(3) by blast
  with c time show ?thesis by (simp add: logical_matches_native_def canonical_nativeD sized_time)
next
  case (timetz n)
  then have c: "canonical_native native" by (simp add: canonical_sized)
  from timetz assms(3) obtain a b x d e where "v = LV_OffsetTime a b x d e" using value_of_oid(4) by blast
  with c timetz show ?thesis by (simp add: logical_matches_native_def canonical_nativeD sized_time sized_zone)
next
  case (timestamp n)
  then have c: "canonical_native native" by (simp add: canonical_sized)
  from timestamp assms(3) have "(\<exists>a b x d e f g. v = LV_LocalDatetime a b x d e f g) \<or> (\<exists>a. v = LV_TemporalInfinity TI_LocalDatetime a)"
    using value_of_oid(5) by blast
  with c timestamp show ?thesis
    by (auto simp: logical_matches_native_def canonical_nativeD sized_timestamp sized_zone sized_starts
        infinity_declared_def timestamp_declared_def)
next
  case (timestamptz n)
  then have c: "canonical_native native" by (simp add: canonical_sized)
  from timestamptz assms(3) have "(\<exists>a b. v = LV_Instant a b) \<or> (\<exists>a. v = LV_TemporalInfinity TI_Instant a)"
    using value_of_oid(6) by blast
  with c timestamptz show ?thesis
    by (auto simp: logical_matches_native_def canonical_nativeD sized_timestamp sized_zone sized_starts
        infinity_declared_def timestamp_declared_def)
qed

lemma declares_canonical: "declares oid native \<Longrightarrow> canonical_native native"
  by (cases rule: declares.cases) (auto simp: canonical_sized intro: fixed_names)

lemma declares_supported:
  assumes "declares oid native" shows "native_supported C J version native"
proof -
  note c = canonical_nativeD [OF declares_canonical [OF assms]]
  show ?thesis using assms unfolding native_supported_def c Let_def
    by (cases rule: declares.cases)
      (use fixed_supported in \<open>auto simp: list_all_iff sized_character sized_bits sized_time sized_timestamp\<close>)
qed

text \<open>The contract accepts what the decoder reads from a column of a built-in type.\<close>

theorem builtin_value_declared:
  assumes "decode_for_version C T version oid bs = Ok v" and "declares oid native" and "CHR ''.'' \<notin> set version"
  shows "native_supported C J version native \<and> logical_matches_native C J v native version"
proof (cases "(oid, native) \<in> set fixed_declarations")
  case True
  then show ?thesis using assms declares_supported fixed_matches decoded_oid by blast
next
  case False
  then show ?thesis using assms declares_supported sized_matches decoded_oid by blast
qed

subsection \<open>Types of the catalog\<close>

text \<open>How the catalog query writes the type of a column, by the kind of the type: the declaration of a
  built-in type, the labels of an enumeration, and the qualified name of any other type.\<close>

definition range_natives :: "string set" where
  "range_natives = {''int4range'', ''int8range'', ''numrange'', ''tsrange'', ''tstzrange'', ''daterange''}"

definition multirange_natives :: "string set" where
  "multirange_natives = {''int4multirange'', ''int8multirange'', ''nummultirange'', ''tsmultirange'',
     ''tstzmultirange'', ''datemultirange''}"

fun kind_declares :: "codec \<Rightarrow> mapping_json \<Rightarrow> string \<Rightarrow> SourceTypeDefinition \<Rightarrow> string \<Rightarrow> SourceTypeDefinitionKind \<Rightarrow> bool" where
  "kind_declares C J version d native (TK_Builtin x) \<longleftrightarrow> declares (td_oid d) native"
| "kind_declares C J version d native (TK_Enum labels) \<longleftrightarrow>
     starts_with ''enum('' (to_ascii_lowercase (trim native)) \<and> [] \<notin> set labels
     \<and> is_ok (validate_native_type_for_version C (types_json J) version native)
     \<and> (\<exists>m. source_type_mapping_for_version C J version (trim native) = Ok m \<and> sm_logical_type m = LT_Enum labels)"
| "kind_declares C J version d native (TK_Composite flds) \<longleftrightarrow>
     is_qualified_type_name (to_ascii_lowercase (trim native)) \<and> distinct (map tf_name flds) \<and> [] \<notin> tf_name ` set flds"
| "kind_declares C J version d native (TK_Array x delimiter) \<longleftrightarrow> ends_with ''[]'' (to_ascii_lowercase (trim native))"
| "kind_declares C J version d native (TK_Range x) \<longleftrightarrow>
     to_ascii_lowercase (trim native) \<in> range_natives \<or> is_qualified_type_name (to_ascii_lowercase (trim native))"
| "kind_declares C J version d native (TK_MultiRange x) \<longleftrightarrow>
     to_ascii_lowercase (trim native) \<in> multirange_natives \<or> is_qualified_type_name (to_ascii_lowercase (trim native))"
| "kind_declares C J version d native (TK_Extension a b c e) \<longleftrightarrow>
     is_qualified_type_name (to_ascii_lowercase (trim native))
     \<and> ends_with (CHR ''.'' # td_name d) (to_ascii_lowercase (trim native))"
| "kind_declares C J version d native (TK_Domain a b c) \<longleftrightarrow> is_qualified_type_name (to_ascii_lowercase (trim native))"
| "kind_declares C J version d native TK_Pseudo \<longleftrightarrow> True"

lemma decode_column_declared:
  assumes "decode_column_for_version C J T version oid native bs = Inr v" and "declares oid native"
  shows "decode_for_version C T version oid bs = Inr v"
proof -
  have "\<not> starts_with ''enum('' native" using assms(2)
    by (cases rule: declares.cases) (auto simp: fixed_declarations_def starts_with_def sized_def)
  then show ?thesis using assms(1) canonical_nativeD [OF declares_canonical [OF assms(2)]]
    by (simp add: decode_column_for_version_def)
qed

subsection \<open>The shape of a decoded value\<close>

lemma decode_for_version_not_null: "decode_for_version C T version oid bs = Inr v \<Longrightarrow> v \<noteq> LV_Null"
  using decoded_oid [of C T version oid bs v] by (auto simp: value_oids_def)

lemma decode_column_not_null:
  assumes "decode_column_for_version C J T version oid native bs = Inr v" shows "v \<noteq> LV_Null"
proof (cases "starts_with ''enum('' (to_ascii_lowercase (trim native))")
  case True
  with assms obtain label m where "from_utf8 bs = Ok label" "source_type_mapping_for_version C J version native = Ok m"
    by (auto simp: decode_column_for_version_def ok_iff)
  with assms True show ?thesis
    by (cases "sm_logical_type m") (auto simp: decode_column_for_version_def ok_iff split: if_splits)
next
  case False
  with assms show ?thesis by (simp add: decode_column_for_version_def decode_for_version_not_null)
qed

lemma decode_range_shape:
  assumes "decode_range C J T version catalog oid name bs depth = Inr v" shows "\<exists>a b c d e. v = LV_Range a b c d e"
proof -
  obtain r where "parse_range bs = Ok r" using assms by (subst (asm) decode_range.simps) (auto simp: ok_iff)
  then show ?thesis using assms by (subst (asm) decode_range.simps) (cases r; auto simp: ok_iff)
qed

lemma decode_hstore_shape: "decode_hstore C bs = Inr v \<Longrightarrow> \<exists>m. v = LV_Map m"
  by (auto simp: decode_hstore_def ok_iff)

lemma geometry_nonempty: "ewkb_geometry g = Inr name \<Longrightarrow> name \<noteq> []"
  by (auto simp: ewkb_geometry_def geometry_name_def split: if_splits)

lemma spatial_dimensions: "2 \<le> 2 + of_bool a + (of_bool b :: u8) \<and> 2 + of_bool a + (of_bool b :: u8) \<le> 4"
  by (cases a; cases b) simp_all

lemma decode_ewkb_shape:
  assumes "decode_postgis_ewkb C bs = Inr v"
  shows "\<exists>f b g n srid crs. v = LV_Spatial f b g n srid crs \<and> g \<noteq> [] \<and> 2 \<le> n \<and> n \<le> 4"
proof -
  have "\<exists>raw g srid a b. v = LV_Spatial Ewkb (b64_encode C raw) g (2 + of_bool a + of_bool b) srid None \<and> g \<noteq> []"
    using assms unfolding decode_postgis_ewkb_def Let_def
    by (elim if_result; simp only: ok_iff Inl_Inr_False; elim exE conjE if_result; simp only: ok_iff Inl_Inr_False)
      (blast dest: geometry_nonempty)+
  then show ?thesis using spatial_dimensions by blast
qed

lemma array_value_shape:
  "array_value es bounds dims = LV_Array es \<or> (\<exists>n. array_value es bounds dims = LV_ArrayWithMetadata es n bounds dims)"
  by (auto simp: array_value_def)

text \<open>What a value decoded for a type of the catalog looks like, by the kind of the type.\<close>

fun shape :: "codec \<Rightarrow> mapping_json \<Rightarrow> text_values \<Rightarrow> string \<Rightarrow> SourceTypeDefinition \<Rightarrow> u32 \<Rightarrow> string \<Rightarrow> bytes
    \<Rightarrow> SourceTypeDefinitionKind \<Rightarrow> LogicalValue \<Rightarrow> bool" where
  "shape C J T version d oid native bs (TK_Builtin x) v \<longleftrightarrow> decode_column_for_version C J T version oid native bs = Ok v"
| "shape C J T version d oid native bs (TK_Enum labels) v \<longleftrightarrow> (\<exists>label \<in> set labels. v = LV_Enum label)"
| "shape C J T version d oid native bs (TK_Domain a b c) v \<longleftrightarrow> (\<exists>w. v = LV_Domain w)"
| "shape C J T version d oid native bs (TK_Composite flds) v \<longleftrightarrow> (\<exists>fs. v = LV_Struct fs \<and> map sf_name fs = map tf_name flds)"
| "shape C J T version d oid native bs (TK_Array x y) v \<longleftrightarrow> (\<exists>es. v = LV_Array es) \<or> (\<exists>es n bounds dims. v = LV_ArrayWithMetadata es n bounds dims)"
| "shape C J T version d oid native bs (TK_Range x) v \<longleftrightarrow> (\<exists>e lo hi li ui. v = LV_Range e lo hi li ui)"
| "shape C J T version d oid native bs (TK_MultiRange x) v \<longleftrightarrow> (\<exists>rs. v = LV_MultiRange rs)"
| "shape C J T version d oid native bs (TK_Extension a b c e) v \<longleftrightarrow>
     td_name d = ''hstore'' \<and> (\<exists>m. v = LV_Map m)
     \<or> td_name d \<in> {''geometry'', ''geography''} \<and> (\<exists>f b g n srid crs. v = LV_Spatial f b g n srid crs \<and> g \<noteq> [] \<and> 2 \<le> n \<and> n \<le> 4)"
| "shape C J T version d oid native bs TK_Pseudo v \<longleftrightarrow> False"

lemma composite_names:
  assumes "list_all2 (\<lambda>part y. and_then (f part) (\<lambda>v. Ok (StructuredField (tf_name (fst part)) v)) = Inr y) (zip flds parts) ys"
    and "length parts = length flds"
  shows "map sf_name ys = map tf_name flds"
  using assms(2,1)
proof (induction parts flds arbitrary: ys rule: list_induct2)
  case (Cons p ps x xs)
  then show ?case by (cases ys) (auto simp: ok_iff)
qed simp

lemma decode_catalog_shape:
  assumes ok: "decode_catalog_value C J T version catalog oid native bs depth = Inr v"
    and d: "definition_at (tc_types catalog) oid = Some d"
  shows "shape C J T version d oid native bs (td_kind d) v"
proof -
  note step = ok [unfolded decode_catalog_value.simps [of C J T version catalog oid native bs depth] known_type_def d]
  show ?thesis
  proof (cases "td_kind d")
    case (TK_Composite flds)
    from step show ?thesis
      by (auto simp: TK_Composite ok_iff composite_parts_def Let_def composite_names split: if_splits)
  next
    case (TK_Array x y)
    from step obtain es bounds dims where "v = array_value es bounds dims" by (auto simp: TK_Array ok_iff split: if_splits)
    then show ?thesis using array_value_shape [of es bounds dims] by (auto simp: TK_Array)
  next
    case (TK_Range x)
    with step show ?thesis by (auto simp: ok_iff dest: decode_range_shape split: if_splits)
  next
    case (TK_Extension a b c e)
    with step show ?thesis by (auto simp: ok_iff dest: decode_hstore_shape decode_ewkb_shape split: if_splits)
  next
    case (TK_MultiRange x)
    with step obtain rng where "definition_at (tc_types catalog) x = Some rng" by (auto simp: ok_iff split: if_splits)
    with step show ?thesis by (cases "td_kind rng") (auto simp: TK_MultiRange ok_iff split: if_splits)
  qed (use step in \<open>auto simp: ok_iff split: if_splits\<close>)
qed

lemma decoded_not_null: "decode_catalog_value C J T version catalog oid native bs depth = Inr v \<Longrightarrow> v \<noteq> LV_Null"
proof -
  assume ok: "decode_catalog_value C J T version catalog oid native bs depth = Inr v"
  then obtain d where d: "definition_at (tc_types catalog) oid = Some d"
    by (subst (asm) decode_catalog_value.simps) (auto simp: ok_iff known_type_def split: if_splits)
  show ?thesis using decode_catalog_shape [OF ok d] decode_column_not_null by (cases "td_kind d") auto
qed

lemma domain_not_null:
  assumes "decode_catalog_value C J T version catalog oid native bs depth = Inr (LV_Domain w)"
    and "definition_at (tc_types catalog) oid = Some d" and "td_kind d = TK_Domain a b c"
  shows "w \<noteq> LV_Null"
  using assms by (subst (asm) decode_catalog_value.simps) (auto simp: ok_iff known_type_def dest: decoded_not_null split: if_splits)

lemma ends_with_named:
  "ends_with (CHR ''.'' # ''hstore'') s \<Longrightarrow> ends_with ''.hstore'' s"
  "ends_with (CHR ''.'' # ''geometry'') s \<Longrightarrow> ends_with ''.geometry'' s"
  "ends_with (CHR ''.'' # ''geography'') s \<Longrightarrow> ends_with ''.geography'' s"
  by simp_all

lemma kind_supported:
  assumes "kind_declares C J version d native (td_kind d)" and "td_kind d \<noteq> TK_Pseudo"
  shows "native_supported C J version native"
proof (cases "td_kind d")
  case (TK_Builtin x)
  with assms show ?thesis by (auto intro: declares_supported)
next
  case (TK_Range x)
  with assms(1) show ?thesis by (auto simp: native_supported_def Let_def range_natives_def native_names_def)
next
  case (TK_MultiRange x)
  with assms(1) show ?thesis by (auto simp: native_supported_def Let_def multirange_natives_def native_names_def)
qed (use assms in \<open>auto simp: native_supported_def Let_def\<close>)

theorem catalog_value_declared:
  assumes ok: "decode_catalog_column_for_version C J T version catalog oid native bs = Ok v"
    and d: "definition_at (tc_types catalog) oid = Some d" and kind: "kind_declares C J version d native (td_kind d)"
    and version: "CHR ''.'' \<notin> set version"
  shows "native_supported C J version native \<and> logical_matches_native C J v native version"
proof -
  note ok = ok [unfolded decode_catalog_column_for_version_def]
  note shape = decode_catalog_shape [OF ok d]
  have oid: "td_oid d = oid" using d by (auto simp: definition_at_def find_Some_iff)
  have "logical_matches_native C J v native version"
  proof (cases "td_kind d")
    case (TK_Builtin x)
    with kind shape oid have "decode_for_version C T version oid bs = Ok v" "declares oid native"
      by (auto dest: decode_column_declared)
    then show ?thesis using builtin_value_declared version by blast
  next
    case (TK_Enum labels)
    with kind shape show ?thesis by (auto simp: logical_matches_native_def Let_def label_declared_def)
  next
    case (TK_Domain a b c)
    then obtain w where "v = LV_Domain w" using shape by auto
    with kind TK_Domain domain_not_null ok d show ?thesis by (auto simp: logical_matches_native_def Let_def)
  next
    case (TK_Composite flds)
    then obtain fs where fs: "v = LV_Struct fs" "map sf_name fs = map tf_name flds" using shape by auto
    then have "sf_name ` set fs = tf_name ` set flds" by (metis set_map)
    with fs kind TK_Composite show ?thesis by (force simp: logical_matches_native_def Let_def list_all_iff image_iff)
  next
    case (TK_Array x y)
    with kind shape show ?thesis by (auto simp: logical_matches_native_def Let_def)
  next
    case (TK_Range x)
    with kind shape show ?thesis by (auto simp: logical_matches_native_def Let_def range_natives_def)
  next
    case (TK_MultiRange x)
    with kind shape show ?thesis by (auto simp: logical_matches_native_def Let_def multirange_natives_def)
  next
    case (TK_Extension a b c e)
    with kind shape show ?thesis
      by (auto simp: logical_matches_native_def Let_def spatial_native_def)
  qed (use shape in auto)
  moreover have "td_kind d \<noteq> TK_Pseudo" using shape by (cases "td_kind d") auto
  ultimately show ?thesis using kind kind_supported by blast
qed

end
