(* ===== verification/Pg_Capture_Spec.thy ===== *)
theory Pg_Capture_Spec
  imports Pg_Contract_Spec
begin

text \<open>
  A capture as a whole: the catalog is loaded, the decoder builds transactions from it, and the Source
  Contract checks them. What the decoder builds passes the contract: the framing always, a decoded value
  because it has the declared type of its column, and a representation because the evidence of its type
  that was loaded with the column is complete.
\<close>

section \<open>What a loaded column carries\<close>

text \<open>The JSON library reads what it has written, as far as the definitions and closures of a catalog go.\<close>

definition json_reads :: "'v contract_env \<Rightarrow> SourceTypeCatalog \<Rightarrow> bool" where
  "json_reads E catalog \<longleftrightarrow>
     (\<forall>d \<in> set (tc_types catalog). \<exists>doc.
        ce_value_from_str E (mj_definition_text (ce_json E) d) = Some doc \<and> ce_to_value E d = Some doc
        \<and> Option.bind (ce_get E doc ''definition_digest'') (ce_as_str E) = Some (td_definition_digest d)
        \<and> Option.bind (ce_get E doc ''oid'') (ce_as_u64 E) = Some (unat (td_oid d))
        \<and> Option.bind (ce_get E doc ''schema'') (ce_as_str E) = Some (td_schema d)
        \<and> Option.bind (ce_get E doc ''name'') (ce_as_str E) = Some (td_name d))
     \<and> (\<forall>oid closure. definition_closure catalog oid = Ok closure \<longrightarrow>
          ce_closure_from_str E (tj_closure (types_json (ce_json E)) closure) = Some closure)"

text \<open>The type of a column, as the catalog has it.\<close>

definition typed_by :: "codec \<Rightarrow> mapping_json \<Rightarrow> PgColumn \<Rightarrow> SourceTypeDefinition \<Rightarrow> SourceTypeDefinitionClosure \<Rightarrow> bool" where
  "typed_by C J meta d closure \<longleftrightarrow>
     pc_type_schema meta = td_schema d \<and> pc_type_name meta = td_name d
     \<and> pc_type_definition_digest meta = td_definition_digest d
     \<and> pc_type_definition_evidence meta = mj_definition_text J d
     \<and> pc_type_definition_closure_evidence meta = tj_closure (types_json J) closure
     \<and> pc_type_definition_closure_digest meta = closure_digest C (types_json J) closure"

lemma load_column_Ok:
  assumes "load_column C J version catalog table row = Inr meta"
  obtains d closure mapping where "definition_at (tc_types catalog) (pc_oid meta) = Some d"
    and "definition_closure catalog (pc_oid meta) = Ok closure" and "typed_by C J meta d closure"
    and "source_type_mapping_with_catalog_for_version C J (show_nat version) (pc_native_type meta) catalog = Ok mapping"
    and "pc_representation_only meta \<longleftrightarrow> captures_source_representation catalog (pc_oid meta) (sm_logical_type mapping)"
    and "pc_representation_capture_allowed meta = pc_representation_only meta"
    and "pc_name meta = cr_name row" and "pc_modifier meta = cr_typmod row"
proof -
  from assms obtain oid d mapping closure key where
    parts: "u32_of (cr_type_oid row) = Inr oid" "definition_at (tc_types catalog) oid = Some d"
      "source_type_mapping_with_catalog_for_version C J (show_nat version) (cr_native_type row) catalog = Inr mapping"
      "definition_closure catalog oid = Inr closure" "cr_generated row = []"
    and meta: "meta = \<lparr>pc_name = cr_name row, pc_oid = oid, pc_modifier = cr_typmod row, pc_native_type = cr_native_type row,
           pc_type_schema = td_schema d, pc_type_name = td_name d,
           pc_type_definition_digest = td_definition_digest d,
           pc_type_definition_evidence = mj_definition_text J d,
           pc_type_definition_closure_evidence = tj_closure (types_json J) closure,
           pc_type_definition_closure_digest = closure_digest C (types_json J) closure,
           pc_representation_only = captures_source_representation catalog oid (sm_logical_type mapping),
           pc_representation_capture_allowed = captures_source_representation catalog oid (sm_logical_type mapping),
           pc_key = key\<rparr>"
    by (auto simp: load_column_def ok_iff Let_def split: if_splits)
  show ?thesis by (rule that [of d closure mapping]) (use parts in \<open>simp_all add: meta typed_by_def\<close>)
qed

section \<open>The evidence of a representation\<close>

lemma pg_contract_fields [simp]:
  "ce_codec (pg_contract E) = ce_codec E" "ce_json (pg_contract E) = ce_json E"
  by (simp_all add: pg_contract_def contract_env.truncate_def)

text \<open>The metadata of an envelope, one entry after the other.\<close>

lemma envelope_metadata_get:
  "bt_get (envelope_metadata t meta lc) ''relation_oid'' = Some (show_nat (unat (pt_oid t)))"
  "bt_get (envelope_metadata t meta lc) ''relation_schema'' = Some (pt_schema t)"
  "bt_get (envelope_metadata t meta lc) ''relation_name'' = Some (pt_name t)"
  "bt_get (envelope_metadata t meta lc) ''column_name'' = Some (pc_name meta)"
  "bt_get (envelope_metadata t meta lc) ''column_oid'' = Some (show_nat (unat (pc_oid meta)))"
  "bt_get (envelope_metadata t meta lc) ''type_modifier'' = Some (show_int (pc_modifier meta))"
  "bt_get (envelope_metadata t meta lc) ''native_type'' = Some (pc_native_type meta)"
  "bt_get (envelope_metadata t meta lc) ''type_schema'' = Some (pc_type_schema meta)"
  "bt_get (envelope_metadata t meta lc) ''type_name'' = Some (pc_type_name meta)"
  "bt_get (envelope_metadata t meta lc) ''type_definition'' = Some (pc_type_definition_evidence meta)"
  "bt_get (envelope_metadata t meta lc) ''type_definition_digest'' = Some (''sha256:'' @ pc_type_definition_digest meta)"
  "bt_get (envelope_metadata t meta lc) ''type_definition_closure'' = Some (pc_type_definition_closure_evidence meta)"
  "bt_get (envelope_metadata t meta lc) ''type_definition_closure_digest'' = Some (''sha256:'' @ pc_type_definition_closure_digest meta)"
  "bt_get (envelope_metadata t meta lc) ''source_catalog_digest'' = Some (pt_source_type_catalog_digest t)"
  "bt_get (envelope_metadata t meta lc) ''text_output_profile'' = Some ''pgoutput-v1/text/UTF8''"
  "bt_get (envelope_metadata t meta lc) ''session.search_path'' = Some ''pg_catalog''"
  "bt_get (envelope_metadata t meta lc) ''environment.lc_monetary'' = Some lc"
  by (simp_all add: envelope_metadata_def bt_get_from)

text \<open>What the checked schema must give a column whose representation is captured: loading a column gives
  it, as far as the system catalogs have identifiers and names.\<close>

definition evidenced :: "'v contract_env \<Rightarrow> SourceTypeCatalog \<Rightarrow> PgColumn \<Rightarrow> bool" where
  "evidenced E catalog meta \<longleftrightarrow>
     pc_oid meta \<noteq> 0 \<and> - (2 ^ 31) \<le> pc_modifier meta \<and> pc_modifier meta < 2 ^ 31
     \<and> pc_type_schema meta \<noteq> [] \<and> pc_type_name meta \<noteq> []
     \<and> (\<exists>d closure. definition_at (tc_types catalog) (pc_oid meta) = Some d
          \<and> definition_closure catalog (pc_oid meta) = Ok closure \<and> typed_by (ce_codec E) (ce_json E) meta d closure)"

lemma loaded_evidenced:
  assumes "load_column (ce_codec E) (ce_json E) version catalog table row = Inr meta"
    and "pc_oid meta \<noteq> 0" and "- (2 ^ 31) \<le> cr_typmod row" and "cr_typmod row < 2 ^ 31"
    and "pc_type_schema meta \<noteq> []" and "pc_type_name meta \<noteq> []"
  shows "evidenced E catalog meta"
  using assms(1)
proof (rule load_column_Ok)
  fix d closure mapping
  assume "definition_at (tc_types catalog) (pc_oid meta) = Some d" "definition_closure catalog (pc_oid meta) = Ok closure"
    "typed_by (ce_codec E) (ce_json E) meta d closure" "pc_modifier meta = cr_typmod row"
  then show ?thesis using assms by (simp add: evidenced_def)
qed

lemma closure_root:
  assumes "definition_closure catalog oid = Ok closure" and "definition_at (tc_types catalog) oid = Some d"
  shows "definition_at (cl_types closure) oid = Some d"
proof -
  note cl = definition_closure_Ok [OF assms(1)]
  have "oid \<in> td_oid ` set (cl_types closure)" using cl(1) root_reachable by blast
  then obtain e where e: "e \<in> set (cl_types closure)" "td_oid e = oid" by blast
  with cl(3) assms(2) have "e = d" by fastforce
  moreover have "definition_at (cl_types closure) (td_oid e) = Some e"
    using definition_at_distinct [OF strictly_increasing_distinct [OF cl(2)] e(1)] .
  ultimately show ?thesis using e(2) by simp
qed

lemma show_nat_oid: "parse_unsigned 32 (show_nat (unat (oid :: u32))) = Some (unat oid)"
proof -
  have "unat oid < 2 ^ 32" using unsigned_less [of oid] by simp
  then show ?thesis by simp
qed

lemma envelope_accepted:
  assumes "evidenced E catalog meta" and "json_reads E catalog"
    and "well_catalogued (ce_codec E) (types_json (ce_json E)) catalog"
    and "hex_digest (pt_source_type_catalog_digest t)"
    and "ic_lc_monetary context \<noteq> []" and "sb_product (ic_server_build context) = ''postgresql''"
    and "starts_with (version @ ''.'') (sb_version (ic_server_build context))"
    and "source_major (ic_source context) = version"
    and "rw_schema change = pt_schema t" and "rw_table change = pt_name t"
    and "col_name column = pc_name meta" and "col_native_type column = pc_native_type meta"
  shows "validate_representation E change column (env_new C (envelope_context t meta context) ''UTF-8'' bytes)
    (ic_source_cursor context) (show_nat (unat (pt_oid t))) (Some (pt_source_type_catalog_digest t)) version = Ok ()"
proof -
  from assms(1) obtain d closure where d: "definition_at (tc_types catalog) (pc_oid meta) = Some d"
    and closure: "definition_closure catalog (pc_oid meta) = Ok closure" and typed: "typed_by (ce_codec E) (ce_json E) meta d closure"
    and meta: "pc_oid meta \<noteq> 0" "- (2 ^ 31) \<le> pc_modifier meta" "pc_modifier meta < 2 ^ 31"
      "pc_type_schema meta \<noteq> []" "pc_type_name meta \<noteq> []"
    by (auto simp: evidenced_def)
  note typed = typed [unfolded typed_by_def]
  have oid: "td_oid d = pc_oid meta" "d \<in> set (tc_types catalog)" using d by (auto simp: definition_at_def find_Some_iff)
  from assms(2) oid(2) obtain doc where doc: "ce_value_from_str E (mj_definition_text (ce_json E) d) = Some doc"
    "ce_to_value E d = Some doc"
    "Option.bind (ce_get E doc ''definition_digest'') (ce_as_str E) = Some (td_definition_digest d)"
    "Option.bind (ce_get E doc ''oid'') (ce_as_u64 E) = Some (unat (td_oid d))"
    "Option.bind (ce_get E doc ''schema'') (ce_as_str E) = Some (td_schema d)"
    "Option.bind (ce_get E doc ''name'') (ce_as_str E) = Some (td_name d)"
    unfolding json_reads_def by blast
  have read_closure: "ce_closure_from_str E (tj_closure (types_json (ce_json E)) closure) = Some closure"
    using assms(2) closure by (simp add: json_reads_def)
  let ?c = "envelope_context t meta context" let ?m = "ctx_type_metadata ?c"
  have m: "?m = envelope_metadata t meta (ic_lc_monetary context)" by (simp add: envelope_context_def)
  have type_oid: "type_oid_of ?m = Some (unat (pc_oid meta))"
    by (simp add: type_oid_of_def m envelope_metadata_get show_nat_oid)
  have "definition_matches E ?c"
    using doc oid type_oid typed by (simp add: definition_matches_def Let_def m envelope_metadata_get envelope_context_def)
  moreover have "closure_matches E ?m"
    using type_oid typed doc read_closure closure_root [OF closure d] built_closure_valid [OF closure assms(3)]
    by (simp add: closure_matches_def m envelope_metadata_get metadata_is_def)
  moreover have "expected_identity ?m = Some (ctx_source_type_identity ?c)"
    using type_oid by (simp add: expected_identity_def m envelope_metadata_get) (simp add: envelope_context_def)
  moreover have "context_origin (env_new C ?c ''UTF-8'' bytes) (ic_source_cursor context) version"
    using assms(6,7,8) by (simp add: context_origin_def Let_def env_new_def envelope_context_def)
  moreover have "context_metadata change column ?c (show_nat (unat (pt_oid t))) (Some (pt_source_type_catalog_digest t))"
    using assms(4,5,9-12) meta type_oid parse_signed_show_int [of 32 "pc_modifier meta"]
    by (simp add: context_metadata_def Let_def m envelope_metadata_get metadata_is_def metadata_has_def unat_gt_0)
      (simp add: envelope_context_def)
  ultimately show ?thesis
    by (simp add: validate_representation_def Let_def) (simp add: env_new_def)
qed

section \<open>Images\<close>

text \<open>What the contract needs of the catalog that was loaded and of the server it came from.\<close>

definition column_ready :: "'v pg_env \<Rightarrow> SourceTypeCatalog \<Rightarrow> string \<Rightarrow> PgColumn \<Rightarrow> bool" where
  "column_ready E catalog version meta \<longleftrightarrow>
     (if pc_representation_only meta then evidenced (pg_contract E) catalog meta
      else \<exists>d. definition_at (tc_types catalog) (pc_oid meta) = Some d
        \<and> kind_declares (ce_codec E) (ce_json E) version d (pc_native_type meta) (td_kind d))"

definition table_ready :: "'v pg_env \<Rightarrow> SourceTypeCatalog \<Rightarrow> string \<Rightarrow> PgTable \<Rightarrow> bool" where
  "table_ready E catalog version t \<longleftrightarrow>
     pt_oid t \<noteq> 0 \<and> hex_digest (pt_source_type_catalog_digest t) \<and> (\<exists>c \<in> set (pt_columns t). pc_key c \<noteq> None)
     \<and> (\<forall>c \<in> set (pt_columns t). column_ready E catalog version c)"

definition capture_ready :: "'v pg_env \<Rightarrow> Decoder \<Rightarrow> string \<Rightarrow> bool" where
  "capture_ready E d version \<longleftrightarrow>
     prints_lsn (pe_format_lsn E)
     \<and> (\<exists>identity. check_source (dc_source d) = Ok (version, identity)
          \<and> check_database (ce_codec E) identity (dc_database d) = Ok ())
     \<and> dc_lc_monetary d \<noteq> [] \<and> sb_product (dc_server_build d) = ''postgresql''
     \<and> starts_with (version @ ''.'') (sb_version (dc_server_build d))
     \<and> json_reads (pg_contract E) (dc_type_catalog d)
     \<and> well_catalogued (ce_codec E) (types_json (ce_json E)) (dc_type_catalog d)
     \<and> (\<forall>oid t. dc_tables d oid = Some t \<longrightarrow> table_ready E (dc_type_catalog d) version t)"

lemma ready_version:
  assumes "capture_ready E d version"
  shows "source_major (dc_source d) = version" and "CHR ''.'' \<notin> set version"
  using assms by (auto simp: capture_ready_def check_source_def source_major_def ok_iff Let_def hd_conv_nth)

lemma ready_cell_datum:
  assumes ready: "capture_ready E d version" and t: "dc_tables d oid = Some t"
    and meta: "meta \<in> set (pt_columns t)" and cell: "cell_shown E d t c key_only (i, meta, data) col"
    and change: "change_of d t c operation change"
  shows "validate_datum (pg_contract E) change (show_nat (unat (pt_oid t))) (Some (pt_source_type_catalog_digest t)) version col = Ok ()"
proof -
  note major = ready_version [OF ready]
  have table: "table_ready E (dc_type_catalog d) version t" using ready t by (auto simp: capture_ready_def)
  then have column: "column_ready E (dc_type_catalog d) version meta" using meta by (simp add: table_ready_def)
  show ?thesis
  proof (cases "col_datum col")
    case (D_Value v)
    with cell have v: "decode_catalog_column_for_version (ce_codec E) (ce_json E) (pe_text E) version
        (dc_type_catalog d) (pc_oid meta) (pc_native_type meta) (cd_bytes data) = Ok v"
      and native: "col_native_type col = pc_native_type meta" and decoded: "\<not> pc_representation_only meta"
      by (auto simp: cell_shown_def major(1))
    from column decoded obtain e where "definition_at (tc_types (dc_type_catalog d)) (pc_oid meta) = Some e"
      "kind_declares (ce_codec E) (ce_json E) version e (pc_native_type meta) (td_kind e)" by (auto simp: column_ready_def)
    then show ?thesis using catalog_value_declared [OF v _ _ major(2)]
      by (simp add: validate_datum_def D_Value native contract_native_type_def contract_ensure_def)
  next
    case (D_Envelope e)
    with cell have e: "e = env_new (ce_codec E) (envelope_context t meta (image_context d c)) ''UTF-8'' (cd_bytes data)"
      and repr: "pc_representation_only meta" and names: "col_name col = pc_name meta" "col_native_type col = pc_native_type meta"
      by (auto simp: cell_shown_def)
    have "validate_representation (pg_contract E) change col e (ic_source_cursor (image_context d c))
        (show_nat (unat (pt_oid t))) (Some (pt_source_type_catalog_digest t)) version = Ok ()"
      unfolding e
      by (rule envelope_accepted [of "pg_contract E" "dc_type_catalog d" meta])
        (use ready column repr names table change major in
          \<open>simp_all add: column_ready_def table_ready_def capture_ready_def change_of_def image_context_def\<close>)
    then show ?thesis using change by (simp add: validate_datum_def D_Envelope image_context_def change_of_def)
  qed (simp_all add: validate_datum_def)
qed

text \<open>An image passes if every column does.\<close>

definition column_passes ::
  "'v contract_env \<Rightarrow> RowChange \<Rightarrow> bool \<Rightarrow> string \<Rightarrow> PgTable \<Rightarrow> ColumnDatum \<Rightarrow> bool" where
  "column_passes E change is_before version t col \<longleftrightarrow>
     \<not> col_generated col \<and> validate_presence (rw_operation change) is_before col = Ok ()
     \<and> validate_datum E change (show_nat (unat (pt_oid t))) (Some (pt_source_type_catalog_digest t)) version col = Ok ()"

lemma basis_of_table:
  "basis_parts (show_nat n @ CHR '':'' # digest) = (show_nat n, Some digest)"
proof -
  have "CHR '':'' \<notin> set (show_nat n)" using show_nat_no_sign [of "CHR '':''" n] by (auto simp: is_ascii_digit_def ord_def)
  then have "split_once CHR '':'' (show_nat n @ CHR '':'' # digest) = Some (show_nat n, digest)"
    by (simp add: split_once_Some_iff)
  then show ?thesis by (simp add: basis_parts_def)
qed

lemma positive_oid: "oid \<noteq> 0 \<Longrightarrow> positive 32 (show_nat (unat (oid :: u32)))"
  by (simp add: positive_def show_nat_oid unat_gt_0)

lemma contract_image_passes:
  assumes "change_of d t c operation change" and "pt_oid t \<noteq> 0" and "hex_digest (pt_source_type_catalog_digest t)"
    and "\<exists>col \<in> set cols. col_primary_key_ordinal col \<noteq> None"
    and "list_all (\<lambda>(i, col). col_ordinal col = i) (enumerate 0 cols)"
    and "\<forall>col \<in> set cols. column_passes E change is_before version t col"
  shows "contract_image E change is_before cols version = Ok ()"
proof -
  have "strip_prefix ''pgoutput+catalog:'' (rw_schema_basis change)
      = Some (show_nat (unat (pt_oid t)) @ CHR '':'' # pt_source_type_catalog_digest t)"
    using assms(1) by (simp add: change_of_def)
  then show ?thesis using assms(2-6) positive_oid [of "pt_oid t"]
    by (auto simp: contract_image_def basis_of_table ok_iff list_ex_iff column_passes_def)
qed

lemma enumerated:
  assumes "list_all2 P (enumerate n xs) cols" and "\<And>i x col. P (i, x) col \<Longrightarrow> col_ordinal col = i"
  shows "list_all (\<lambda>(i, col). col_ordinal col = i) (enumerate n cols)"
  using assms(1)
proof (induction xs arbitrary: n cols)
  case (Cons x xs)
  then show ?case using assms(2) by (cases cols) auto
qed simp

lemma list_all2_right: "list_all2 P xs ys \<Longrightarrow> y \<in> set ys \<Longrightarrow> \<exists>x \<in> set xs. P x y"
  by (induction xs ys rule: list_all2_induct) auto

lemma shown_cells:
  assumes "image_shown E d t c key_only tuple cols" and "col \<in> set cols"
  obtains i meta data where "cell_shown E d t c key_only (i, meta, data) col" and "(meta, data) \<in> set (zip (pt_columns t) tuple)"
proof -
  have "list_all2 (cell_shown E d t c key_only) (enumerate 0 (zip (pt_columns t) tuple)) cols"
    using assms(1) by (simp add: image_shown_def)
  from list_all2_right [OF this assms(2)]
  obtain x where x: "x \<in> set (enumerate 0 (zip (pt_columns t) tuple))" "cell_shown E d t c key_only x col" by blast
  obtain i meta data where "x = (i, meta, data)" by (cases x) auto
  with x(1) have "(i, meta, data) \<in> set (zip [0..<length (zip (pt_columns t) tuple)] (zip (pt_columns t) tuple))"
    by (simp add: enumerate_eq_zip)
  then have "(meta, data) \<in> set (zip (pt_columns t) tuple)" by (rule set_zip_rightD)
  with x(2) \<open>x = (i, meta, data)\<close> show ?thesis using that by simp
qed

lemma shown_ordinals:
  "image_shown E d t c key_only tuple cols \<Longrightarrow> list_all (\<lambda>(i, col). col_ordinal col = i) (enumerate 0 cols)"
  unfolding image_shown_def by (elim conjE, erule enumerated) (auto simp: cell_shown_def)

lemma shown_key:
  assumes "image_shown E d t c key_only tuple cols" and "\<exists>m \<in> set (pt_columns t). pc_key m \<noteq> None"
  shows "\<exists>col \<in> set cols. col_primary_key_ordinal col \<noteq> None"
proof -
  let ?xs = "enumerate 0 (zip (pt_columns t) tuple)"
  have len: "length tuple = length (pt_columns t)" and all: "list_all2 (cell_shown E d t c key_only) ?xs cols"
    using assms(1) by (simp_all add: image_shown_def)
  from assms(2) obtain k where k: "k < length (pt_columns t)" "pc_key (pt_columns t ! k) \<noteq> None" by (auto simp: in_set_conv_nth)
  with len have "?xs ! k = (k, pt_columns t ! k, tuple ! k)" by (simp add: nth_enumerate_eq)
  moreover have "k < length cols" "cell_shown E d t c key_only (?xs ! k) (cols ! k)"
    using all k len by (auto simp: list_all2_conv_all_nth)
  ultimately show ?thesis using k by (intro bexI [of _ "cols ! k"]) (auto simp: cell_shown_def)
qed

text \<open>Cells that the server left out: only columns outside the key of the new row of an UPDATE.\<close>

definition complete :: "TupleData \<Rightarrow> bool" where
  "complete tuple \<longleftrightarrow> (\<forall>cell \<in> set tuple. cd_data_type cell \<noteq> CHR ''u'')"

definition key_complete :: "PgTable \<Rightarrow> TupleData \<Rightarrow> bool" where
  "key_complete t tuple \<longleftrightarrow>
     (\<forall>(meta, cell) \<in> set (zip (pt_columns t) tuple). pc_key meta \<noteq> None \<longrightarrow> cd_data_type cell \<noteq> CHR ''u'')"

fun cells_complete :: "Decoder \<Rightarrow> Message \<Rightarrow> bool" where
  "cells_complete d (M_Insert oid tuple) \<longleftrightarrow> complete tuple"
| "cells_complete d (M_Update oid old_tuple tuple key_type) \<longleftrightarrow>
     (\<forall>t. dc_tables d oid = Some t \<longrightarrow> key_complete t tuple) \<and> (case old_tuple of None \<Rightarrow> True | Some cells \<Rightarrow> complete cells)"
| "cells_complete d (M_Delete oid tuple key_type) \<longleftrightarrow> complete tuple"
| "cells_complete d m \<longleftrightarrow> True"

lemma cell_presence:
  assumes "cell_shown E d t c key_only (i, meta, data) col"
    and "cd_data_type data = CHR ''u'' \<Longrightarrow> \<not> is_before \<and> operation = Update \<and> pc_key meta = None"
    and "key_only \<Longrightarrow> is_before \<and> operation \<noteq> Insert"
  shows "\<not> col_generated col \<and> validate_presence operation is_before col = Ok ()"
  using assms by (auto simp: cell_shown_def validate_presence_def contract_ensure_def split: Datum.splits)

lemma image_passes:
  assumes "capture_ready E d version" and "dc_tables d oid = Some t" and "image_shown E d t c key_only tuple cols"
    and "change_of d t c operation change"
    and "\<And>meta data. (meta, data) \<in> set (zip (pt_columns t) tuple) \<Longrightarrow> cd_data_type data = CHR ''u'' \<Longrightarrow>
      \<not> is_before \<and> operation = Update \<and> pc_key meta = None"
    and "key_only \<Longrightarrow> is_before \<and> operation \<noteq> Insert"
  shows "\<forall>col \<in> set cols. column_passes (pg_contract E) change is_before version t col"
    and "contract_image (pg_contract E) change is_before cols version = Ok ()"
proof -
  have t: "table_ready E (dc_type_catalog d) version t" using assms(1,2) by (auto simp: capture_ready_def)
  show passes: "\<forall>col \<in> set cols. column_passes (pg_contract E) change is_before version t col"
  proof
    fix col
    assume "col \<in> set cols"
    with assms(3) show "column_passes (pg_contract E) change is_before version t col"
    proof (rule shown_cells)
      fix i meta data
      assume cell: "cell_shown E d t c key_only (i, meta, data) col" and mem: "(meta, data) \<in> set (zip (pt_columns t) tuple)"
      from mem have "meta \<in> set (pt_columns t)" by (rule set_zip_leftD)
      with cell have "validate_datum (pg_contract E) change (show_nat (unat (pt_oid t))) (Some (pt_source_type_catalog_digest t)) version col = Ok ()"
        using ready_cell_datum assms(1,2,4) by blast
      moreover have "\<not> col_generated col \<and> validate_presence operation is_before col = Ok ()"
        using cell_presence [OF cell] assms(5) [OF mem] assms(6) by blast
      ultimately show ?thesis using assms(4) by (simp add: column_passes_def change_of_def)
    qed
  qed
  show "contract_image (pg_contract E) change is_before cols version = Ok ()"
    using contract_image_passes [OF assms(4) _ _ shown_key [OF assms(3)] shown_ordinals [OF assms(3)] passes] t
    by (simp add: table_ready_def)
qed

text \<open>The old image of an UPDATE without an old row.\<close>

lemma key_of_new_passes:
  assumes "capture_ready E d version" and t: "dc_tables d oid = Some t" and shown: "image_shown E d t c False tuple new"
    and change: "change_of d t c Update change" and key: "key_complete t tuple"
  shows "contract_image (pg_contract E) change True (key_of_new new) version = Ok ()"
proof (rule contract_image_passes [OF change])
  have table: "table_ready E (dc_type_catalog d) version t" using assms(1) t by (auto simp: capture_ready_def)
  then show "pt_oid t \<noteq> 0" "hex_digest (pt_source_type_catalog_digest t)" by (simp_all add: table_ready_def)
  have "\<exists>col \<in> set new. col_primary_key_ordinal col \<noteq> None" using shown_key [OF shown] table by (simp add: table_ready_def)
  then show "\<exists>col \<in> set (key_of_new new). col_primary_key_ordinal col \<noteq> None" by (auto simp: key_of_new_def) 
  have "col_ordinal (if col_primary_key_ordinal x = None then x\<lparr>col_datum := D_Unavailable\<rparr> else x) = col_ordinal x" for x
    by simp
  then show "list_all (\<lambda>(i, col). col_ordinal col = i) (enumerate 0 (key_of_new new))"
    using shown_ordinals [OF shown] by (simp add: key_of_new_def list_all_length nth_enumerate_eq)
  show "\<forall>col \<in> set (key_of_new new). column_passes (pg_contract E) change True version t col"
  proof
    fix col
    assume "col \<in> set (key_of_new new)"
    then obtain x where x: "x \<in> set new"
      and col: "col = (if col_primary_key_ordinal x = None then x\<lparr>col_datum := D_Unavailable\<rparr> else x)"
      by (auto simp: key_of_new_def)
    from shown x(1) show "column_passes (pg_contract E) change True version t col"
    proof (rule shown_cells)
      fix i meta data
      assume cell: "cell_shown E d t c False (i, meta, data) x" and mem: "(meta, data) \<in> set (zip (pt_columns t) tuple)"
      then have meta: "col_primary_key_ordinal x = pc_key meta" "\<not> col_generated x" by (auto simp: cell_shown_def)
      show ?thesis
      proof (cases "pc_key meta = None")
        case True
        then show ?thesis using meta change
          by (simp add: col column_passes_def validate_presence_def validate_datum_def contract_ensure_def change_of_def)
      next
        case False
        then have "cd_data_type data \<noteq> CHR ''u''" using key mem by (auto simp: key_complete_def)
        then have "validate_presence Update True x = Ok ()" using cell_presence [OF cell, of True Update] by simp
        moreover have "meta \<in> set (pt_columns t)" using mem by (rule set_zip_leftD)
        moreover have "col = x" using False meta(1) col by auto
        ultimately show ?thesis using meta(2) ready_cell_datum [OF assms(1) t _ cell change] change
          by (simp add: column_passes_def change_of_def)
      qed
    qed
  qed
qed

section \<open>Transactions\<close>

text \<open>A row of a message, after it has been stamped with the end of its transaction.\<close>

lemma row_passes:
  assumes ready: "capture_ready E d version" and shown: "row_shown E d (pg_cursor E end_lsn) m row"
    and cells: "cells_complete d m" and "end_lsn \<noteq> 0"
  shows "contract_change (pg_contract E) (dc_database d) end_lsn version row = Ok ()"
proof -
  have lsn: "lsn (pg_cursor E end_lsn) = Ok end_lsn" using ready assms(4) by (simp add: capture_ready_def lsn_of_cursor)
  show ?thesis
  proof (cases m)
    case (M_Insert oid tuple)
    with shown obtain t new where t: "dc_tables d oid = Some t" and row: "change_of d t (pg_cursor E end_lsn) Insert row"
      and images: "rw_before row = None" "rw_after row = Some new" and new: "image_shown E d t (pg_cursor E end_lsn) False tuple new" by auto
    have "contract_image (pg_contract E) row False new version = Ok ()"
      using cells by (intro image_passes(2) [OF ready t new row]) (auto simp: M_Insert complete_def dest: set_zip_rightD)
    with row images lsn show ?thesis by (simp add: contract_change_def change_of_def)
  next
    case (M_Update oid old_tuple tuple key_type)
    with shown obtain t old new where t: "dc_tables d oid = Some t" and row: "change_of d t (pg_cursor E end_lsn) Update row"
      and images: "rw_before row = Some old" "rw_after row = Some new" and new: "image_shown E d t (pg_cursor E end_lsn) False tuple new"
      and old: "case old_tuple of None \<Rightarrow> old = key_of_new new
        | Some cells \<Rightarrow> image_shown E d t (pg_cursor E end_lsn) (key_type = Some CHR ''K'') cells old" by auto
    have key: "key_complete t tuple" using cells t by (simp add: M_Update)
    have "contract_image (pg_contract E) row False new version = Ok ()"
      using key by (intro image_passes(2) [OF ready t new row]) (auto simp: key_complete_def)
    moreover have "contract_image (pg_contract E) row True old version = Ok ()"
    proof (cases old_tuple)
      case None
      with old key_of_new_passes [OF ready t new row key] show ?thesis by simp
    next
      case (Some c)
      with old have "image_shown E d t (pg_cursor E end_lsn) (key_type = Some CHR ''K'') c old" by simp
      with Some cells show ?thesis
        by (intro image_passes(2) [OF ready t _ row]) (auto simp: M_Update complete_def dest: set_zip_rightD)
    qed
    ultimately show ?thesis using row images lsn by (simp add: contract_change_def change_of_def)
  next
    case (M_Delete oid tuple key_type)
    with shown obtain t old where t: "dc_tables d oid = Some t" and row: "change_of d t (pg_cursor E end_lsn) Delete row"
      and images: "rw_before row = Some old" "rw_after row = None"
      and old: "image_shown E d t (pg_cursor E end_lsn) (key_type = CHR ''K'') tuple old" by auto
    have "contract_image (pg_contract E) row True old version = Ok ()"
      using cells by (intro image_passes(2) [OF ready t old row]) (auto simp: M_Delete complete_def dest: set_zip_rightD)
    with row images lsn show ?thesis by (simp add: contract_change_def change_of_def)
  qed (use shown in auto)
qed

lemma commit_id_ok:
  assumes "tx_id tx = ''pg:'' @ show_nat (unat xid) @ '':'' @ sc_value (tx_commit_cursor tx)" and "xid \<noteq> (0 :: u32)"
  shows "check_commit_id tx = Ok ()"
proof -
  have "CHR '':'' \<notin> set (show_nat (unat xid))"
    using show_nat_no_sign [of "CHR '':''" "unat xid"] by (auto simp: is_ascii_digit_def ord_def)
  then have "Option.bind (strip_prefix ''pg:'' (tx_id tx)) (split_once CHR '':'') = Some (show_nat (unat xid), sc_value (tx_commit_cursor tx))"
    by (simp add: assms(1) split_once_Some_iff)
  then show ?thesis using positive_oid [OF assms(2)] by (simp add: check_commit_id_def)
qed

theorem contract_accepts_rows:
  assumes ready: "capture_ready E d version"
    and shown: "list_all2 (row_shown E d (pg_cursor E end_lsn)) ms (tx_changes tx)"
    and cells: "\<forall>m \<in> set ms. cells_complete d m" and rows: "tx_changes tx \<noteq> []"
    and frame: "tx_source tx = dc_source d" "tx_begin_cursor tx = pg_cursor E final_lsn" "tx_commit_cursor tx = pg_cursor E end_lsn"
      "tx_id tx = ''pg:'' @ show_nat (unat xid) @ '':'' @ pe_format_lsn E end_lsn"
    and "xid \<noteq> (0 :: u32)" and "0 < final_lsn" and "final_lsn < end_lsn"
  shows "contract_validate (pg_contract E) (ValidatedTransaction tx) = Ok ()"
proof -
  have pos: "final_lsn \<noteq> 0" "end_lsn \<noteq> 0" using assms(10,11) by auto
  have lsns: "lsn (pg_cursor E final_lsn) = Ok final_lsn" "lsn (pg_cursor E end_lsn) = Ok end_lsn"
    using ready pos by (simp_all add: capture_ready_def lsn_of_cursor)
  obtain identity where source: "check_source (dc_source d) = Ok (version, identity)"
    "check_database (ce_codec E) identity (dc_database d) = Ok ()" using ready by (auto simp: capture_ready_def)
  have each: "contract_change (pg_contract E) (dc_database d) end_lsn version row = Ok ()" if "row \<in> set (tx_changes tx)" for row
    using list_all2_right [OF shown that] cells row_passes [OF ready] pos(2) by blast
  have database: "captured_database tx = dc_database d"
  proof (cases "tx_changes tx")
    case (Cons row rest)
    then have "rw_database row = Some (dc_database d)" using each [of row] by (simp add: contract_change_def ok_iff)
    with Cons show ?thesis by (simp add: captured_database_def)
  qed (use rows in simp)
  have "check_commit_id tx = Ok ()" using commit_id_ok [of tx xid] frame assms(9) by (simp add: pg_cursor_def)
  then show ?thesis using source lsns frame assms(11) each
    by (simp add: contract_validate_def Let_def database ok_iff)
qed

text \<open>
  At the end of a transaction of a checked catalog, only the validation that is independent of any
  database can still refuse it.
\<close>

lemma validate_same: "validate C tx = Inr vt \<Longrightarrow> vt = ValidatedTransaction tx"
  by (auto simp: validate_def ok_iff)

lemma commit_validated:
  assumes ready: "capture_ready E d version"
    and run: "push_all E d ((M_Begin final_lsn timestamp xid, n) # ms) = (Ok vts, e)"
    and body: "\<forall>m \<in> fst ` set ms. \<not> commit_message m \<and> cells_complete d m" and rows: "\<exists>m \<in> fst ` set ms. row_message m"
    and size: "charge_bytes e k = (Ok (), e')" and "final_lsn < end_lsn"
  shows "\<exists>p. dc_pending e' = Some p
    \<and> list_all2 (row_shown E d (pg_cursor E end_lsn)) (filter row_message (map fst ms))
         (tx_changes (commit_transaction E e' p final_lsn end_lsn))
    \<and> push E e (M_Commit 0 final_lsn end_lsn timestamp) k =
        ((case validate (ce_codec E) (commit_transaction E e' p final_lsn end_lsn) of
            Inl x \<Rightarrow> Err (PE_Validation x) | Inr vt \<Rightarrow> Ok (Some vt)),
         e'\<lparr>dc_pending := None, dc_previous_end := end_lsn\<rparr>)"
  using run
proof (rule push_all_Cons_Ok)
  fix r a ws
  assume step: "push E d (M_Begin final_lsn timestamp xid) n = (Ok r, a)" and rest: "push_all E a ms = (Ok ws, e)"
  obtain b where b: "config_of b = config_of d" "dc_previous_end b = dc_previous_end d" "dc_previous_end b < final_lsn"
      "xid \<noteq> 0" "final_lsn \<noteq> 0"
    and a: "a = b\<lparr>dc_pending := Some \<lparr>pd_xid = xid, pd_final_lsn = final_lsn, pd_timestamp = timestamp, pd_bytes = n, pd_rows = []\<rparr>\<rparr>"
    using step by (auto simp: push_def push_message_def quiet_Ok push_begin_Ok split: prod.splits sum.splits
        dest!: charge_bytes_frame)
  have start: "config_of a = config_of d" "dc_previous_end a = dc_previous_end d" using a b by (simp_all add: config_of_def)
  have ext: "extends E a (map fst ms) e" using push_all_extends [OF rest, of "the (dc_pending a)"] body a by auto
  obtain p where p: "dc_pending e = Some p" "pd_xid p = xid" "pd_final_lsn p = final_lsn" "pd_timestamp p = timestamp"
    and shown: "list_all2 (row_shown E a (pg_cursor E final_lsn)) (filter row_message (map fst ms)) (pd_rows p)"
    and e: "config_of e = config_of a" "dc_previous_end e = dc_previous_end a"
    using ext a by (auto simp: extends_def)
  let ?p = "p\<lparr>pd_bytes := pd_bytes p + k\<rparr>"
  have e': "dc_pending e' = Some ?p" using charge_bytes_Ok [OF size] p(1) by auto
  have frame: "config_of e' = config_of d" "dc_previous_end e' = dc_previous_end d"
    using charge_bytes_frame [OF size] e start by simp_all
  let ?tx = "commit_transaction E e' ?p final_lsn end_lsn"
  have nonempty: "pd_rows p \<noteq> []" using rows list_all2_lengthD [OF shown] by (force simp: filter_empty_conv)
  have shown': "list_all2 (row_shown E d (pg_cursor E end_lsn)) (filter row_message (map fst ms)) (tx_changes ?tx)"
    using shown unfolding row_shown_cong [OF start(1)]
    by (simp add: commit_transaction_def list_all2_map2) (rule list_all2_mono, assumption, rule row_shown_stamp)
  have "contract_validate (pg_contract E) (ValidatedTransaction ?tx) = Ok ()"
    by (rule contract_accepts_rows [OF ready shown', where xid = xid and final_lsn = final_lsn])
      (use body nonempty frame b(4,5) p assms(6) in \<open>auto simp: commit_transaction_def config_of_def word_gt_0\<close>)
  then have valid: "validate_change_event E ?tx =
      (case validate (ce_codec E) ?tx of Inl x \<Rightarrow> Err (PE_Validation x) | Inr vt \<Rightarrow> Ok vt)"
    by (cases "validate (ce_codec E) ?tx") (auto simp: validate_change_event_def dest: validate_same)
  have same: "commit_transaction E (e'\<lparr>dc_pending := None, dc_previous_end := end_lsn\<rparr>) ?p final_lsn end_lsn = ?tx"
    by (simp add: commit_transaction_def)
  have "\<not> end_lsn \<le> dc_previous_end e'" "\<not> end_lsn \<le> final_lsn" using frame(2) b(2,3) assms(6) by simp_all
  then have "push E e (M_Commit 0 final_lsn end_lsn timestamp) k =
      (and_then (validate_change_event E ?tx) (\<lambda>validated. Ok (Some validated)), e'\<lparr>dc_pending := None, dc_previous_end := end_lsn\<rparr>)"
    using size e' p nonempty assms(6) same by (simp add: push_def push_message_def push_commit_def Let_def)
  with valid shown' e' show ?thesis by (auto split: sum.splits)
qed

end
