(* ===== verification/Pg_Capture_Examples.thy ===== *)
theory Pg_Capture_Examples
  imports Pg_Examples Pg_Replication_Spec Pg_Capture_Spec
begin

text \<open>
  A printer and a reader of positions, a table with one row to capture and a stream that delivers it,
  for the witnesses of the PostgreSQL source.
\<close>

section \<open>Positions\<close>

definition hex_char :: "nat \<Rightarrow> char" where
  "hex_char d = (if d < 10 then char_of (48 + d) else char_of (55 + d))"

fun show_hex :: "nat \<Rightarrow> string" where
  "show_hex n = (if n < 16 then [hex_char n] else show_hex (n div 16) @ [hex_char (n mod 16)])"

declare show_hex.simps [simp del]

definition show_lsn :: "u64 \<Rightarrow> string" where
  "show_lsn p = show_hex (unat p div 2 ^ 32) @ CHR ''/'' # show_hex (unat p mod 2 ^ 32)"

definition read_lsn :: "string \<Rightarrow> PgError + u64" where
  "read_lsn s =
     (case Option.bind (split_once CHR ''/'' s) (\<lambda>(high, low).
        Option.bind (parse_hex 64 high) (\<lambda>h. map_option (Pair h) (parse_hex 64 low))) of
        Some (h, l) \<Rightarrow> Ok (or (push_bit 32 (of_nat h)) (of_nat l)) | None \<Rightarrow> Err (PE_Transport ''LSN''))"

lemma hex_char_value: "d < 16 \<Longrightarrow> digit_value (hex_char d) = d \<and> is_ascii_hexdigit (hex_char d)"
  by (auto simp: hex_char_def digit_value_def is_ascii_digit_def is_ascii_upper_def is_ascii_hexdigit_def)

lemma show_hex_value: "radix_value 16 (show_hex n) = n \<and> list_all is_ascii_hexdigit (show_hex n) \<and> show_hex n \<noteq> []"
proof (induction n rule: show_hex.induct)
  case (1 n)
  show ?case
    by (cases "n < 16"; subst (1 2 3) show_hex.simps)
      (use 1 in \<open>simp_all add: hex_char_value radix_value_snoc\<close>, simp add: radix_value_def hex_char_value)
qed

lemma show_hex_length: "n < 16 ^ Suc k \<Longrightarrow> length (show_hex n) \<le> Suc k"
proof (induction k arbitrary: n)
  case 0
  then show ?case by (subst show_hex.simps) simp
next
  case (Suc k)
  then have "n div 16 < 16 ^ Suc k" by (simp add: less_mult_imp_div_less)
  with Suc.IH show ?case by (subst show_hex.simps) simp
qed

lemma show_hex_part: "n < 2 ^ 32 \<Longrightarrow> lsn_part (show_hex n)"
  using show_hex_length [of n 7] show_hex_value [of n] by (simp add: lsn_part_def)

lemma halves_bound: "unat (p :: u64) div 2 ^ 32 < 2 ^ 32" "unat (p :: u64) mod 2 ^ 32 < 2 ^ 32"
proof -
  have "unat p < 2 ^ 64" using unsigned_less [of p] by simp
  then show "unat p div 2 ^ 32 < 2 ^ 32" by (simp add: less_mult_imp_div_less)
qed simp

lemma show_lsn_prints: "prints_lsn show_lsn"
  unfolding prints_lsn_def
proof
  fix p
  show "\<exists>high low. show_lsn p = high @ CHR ''/'' # low \<and> lsn_part high \<and> lsn_part low
      \<and> radix_value 16 high = unat p div 2 ^ 32 \<and> radix_value 16 low = unat p mod 2 ^ 32"
    using halves_bound [of p] show_hex_value
    by (intro exI [of _ "show_hex (unat p div 2 ^ 32)"] exI [of _ "show_hex (unat p mod 2 ^ 32)"])
      (simp add: show_lsn_def show_hex_part)
qed

lemma read_lsn_show: "read_lsn (show_lsn p) = Ok p"
proof -
  have parts: "parse_hex 64 (show_hex n) = Some n" if "n < 2 ^ 32" for n
    using parse_hex_part [OF show_hex_part [OF that]] that show_hex_value [of n] by simp
  have "CHR ''/'' \<notin> set (show_hex (unat p div 2 ^ 32))" using show_hex_value hexdigit_not_slash by blast
  then have "split_once CHR ''/'' (show_lsn p) = Some (show_hex (unat p div 2 ^ 32), show_hex (unat p mod 2 ^ 32))"
    by (simp add: show_lsn_def split_once_Some_iff)
  then show ?thesis using parts halves_bound [of p] join_halves [of p] by (simp add: read_lsn_def)
qed

section \<open>A catalog and a table\<close>

text \<open>An integer and a base type without a codec; both documents of the JSON library are the name of the type.\<close>

definition int4_type :: SourceTypeDefinition where
  "int4_type = new_definition plain_codec (types_json no_json) 23 ''pg_catalog'' ''int4'' (TK_Builtin ''int4'') None"

definition weight_type :: SourceTypeDefinition where
  "weight_type = new_definition plain_codec (types_json no_json) 102 ''app'' ''weight'' (TK_Builtin ''weight'') None"

definition orders_types :: "SourceTypeDefinition list" where
  "orders_types = [int4_type, weight_type]"

definition orders_catalog :: SourceTypeCatalog where
  "orders_catalog = \<lparr>tc_types = orders_types, tc_extensions = []\<rparr>"

definition orders_json :: mapping_json where
  "orders_json = no_json\<lparr>tj_closure := (\<lambda>cl. concat (map td_name (cl_types cl))), mj_definition_text := td_name\<rparr>"

definition named_type :: "string \<Rightarrow> SourceTypeDefinition option" where
  "named_type name = find (\<lambda>d. td_name d = name) orders_types"

definition member :: "string \<Rightarrow> SourceTypeDefinition \<Rightarrow> string option" where
  "member key d =
     (if key = ''definition_digest'' then Some (td_definition_digest d) else if key = ''oid'' then Some (show_nat (unat (td_oid d)))
      else if key = ''schema'' then Some (td_schema d) else if key = ''name'' then Some (td_name d) else None)"

definition orders_env :: "(string, Message list) repl_env" where
  "orders_env = \<lparr>ce_codec = plain_codec, ce_json = orders_json, ce_value_from_str = Some,
     ce_get = (\<lambda>doc key. Option.bind (named_type doc) (member key)), ce_as_str = Some, ce_as_u64 = parse_unsigned 64,
     ce_closure_from_str = (\<lambda>s. map_option (\<lambda>d. \<lparr>cl_types = [d], cl_extensions = []\<rparr>) (named_type s)),
     ce_to_value = (\<lambda>d. Some (td_name d)), pe_text = no_numbers, pe_format_lsn = show_lsn,
     re_parse_lsn = read_lsn, re_parse_keepalive = (\<lambda>_. Ok True),
     re_parse_message = (\<lambda>ms _. case ms of [] \<Rightarrow> (Err (PE_Transport ''end''), []) | m # ms \<Rightarrow> (Ok m, ms))\<rparr>"

lemma orders_library: "lsn_library orders_env"
  by (simp add: lsn_library_def orders_env_def show_lsn_prints read_lsn_show)

definition orders_column :: "string \<Rightarrow> SourceTypeDefinition \<Rightarrow> string \<Rightarrow> bool \<Rightarrow> nat option \<Rightarrow> PgColumn" where
  "orders_column name d native captured key =
     \<lparr>pc_name = name, pc_oid = td_oid d, pc_modifier = - 1, pc_native_type = native, pc_type_schema = td_schema d,
      pc_type_name = td_name d, pc_type_definition_digest = td_definition_digest d,
      pc_type_definition_evidence = td_name d, pc_type_definition_closure_evidence = td_name d,
      pc_type_definition_closure_digest = closure_digest plain_codec (types_json orders_json) \<lparr>cl_types = [d], cl_extensions = []\<rparr>,
      pc_representation_only = captured, pc_representation_capture_allowed = captured, pc_key = key\<rparr>"

definition orders_table :: PgTable where
  "orders_table = \<lparr>pt_oid = 5000, pt_schema = ''app'', pt_name = ''orders'', pt_identity = CHR ''d'',
     pt_source_type_catalog_digest = replicate 64 CHR ''0'',
     pt_columns = [orders_column ''id'' int4_type ''integer'' False (Some 0),
                   orders_column ''mass'' weight_type ''app.weight'' True None]\<rparr>"

definition orders_decoder :: Decoder where
  "orders_decoder = new_decoder
     \<lparr>src_kind = ''postgresql'', src_version = ''15.4'', src_id = ''postgresql:1:1:5:db''\<rparr>
     \<lparr>sb_product = ''postgresql'', sb_distribution = ''community'', sb_version = ''15.4'', sb_build = ''b''\<rparr>
     ''C'' ''db'' (\<lambda>oid. if oid = 5000 then Some orders_table else None) (\<lambda>_. None) orders_catalog 1000"

lemma orders_types_entries:
  "td_oid int4_type = 23" "td_name int4_type = ''int4''" "td_schema int4_type = ''pg_catalog''"
  "td_kind int4_type = TK_Builtin ''int4''"
  "td_oid weight_type = 102" "td_name weight_type = ''weight''" "td_schema weight_type = ''app''"
  "td_kind weight_type = TK_Builtin ''weight''"
  by (simp_all add: int4_type_def weight_type_def new_definition_def finalized_def)

lemma orders_definitions:
  "definition_at orders_types oid = (if oid = 23 then Some int4_type else if oid = 102 then Some weight_type else None)"
  by (simp add: definition_at_def orders_types_def orders_types_entries)

lemma orders_leaves:
  "type_definition_dependencies int4_type = []" "type_definition_dependencies weight_type = []"
  "extension_of int4_type = None" "extension_of weight_type = None"
  by (simp_all add: type_definition_dependencies_def extension_of_def orders_types_entries)

lemma orders_closure:
  "definition_closure orders_catalog oid = Ok closure \<longleftrightarrow>
     (\<exists>d. definition_at orders_types oid = Some d \<and> closure = \<lparr>cl_types = [d], cl_extensions = []\<rparr>)"
  by (auto simp: definition_closure_def orders_catalog_def orders_definitions Let_def orders_leaves map_filter_simps)

lemma orders_members: "d \<in> set orders_types \<Longrightarrow> named_type (td_name d) = Some d"
  by (auto simp: named_type_def orders_types_def orders_types_entries)

lemma orders_json_reads: "json_reads (pg_contract (repl_pg orders_env)) orders_catalog"
proof -
  let ?E = "pg_contract (repl_pg orders_env)"
  have E: "ce_value_from_str ?E = Some" "ce_to_value ?E = (\<lambda>d. Some (td_name d))" "ce_as_str ?E = Some"
    "ce_as_u64 ?E = parse_unsigned 64" "ce_get ?E = (\<lambda>doc key. Option.bind (named_type doc) (member key))"
    "ce_closure_from_str ?E = (\<lambda>s. map_option (\<lambda>d. \<lparr>cl_types = [d], cl_extensions = []\<rparr>) (named_type s))"
    "ce_json ?E = orders_json"
    by (simp_all add: pg_contract_def repl_pg_def pg_env.truncate_def contract_env.truncate_def orders_env_def)
  have oid: "unat (td_oid d) < 2 ^ 64" for d :: SourceTypeDefinition
  proof -
    have "unat (td_oid d) < 2 ^ 32" using unsigned_less [of "td_oid d"] by simp
    then show ?thesis by simp
  qed
  show ?thesis unfolding json_reads_def E
  proof (intro conjI ballI allI impI)
    fix d
    assume "d \<in> set (tc_types orders_catalog)"
    then have d: "named_type (td_name d) = Some d" by (simp add: orders_catalog_def orders_members)
    show "\<exists>doc. Some (mj_definition_text orders_json d) = Some doc \<and> Some (td_name d) = Some doc
        \<and> Option.bind (Option.bind (named_type doc) (member ''definition_digest'')) Some = Some (td_definition_digest d)
        \<and> Option.bind (Option.bind (named_type doc) (member ''oid'')) (parse_unsigned 64) = Some (unat (td_oid d))
        \<and> Option.bind (Option.bind (named_type doc) (member ''schema'')) Some = Some (td_schema d)
        \<and> Option.bind (Option.bind (named_type doc) (member ''name'')) Some = Some (td_name d)"
      using oid [of d] by (intro exI [of _ "td_name d"]) (simp add: d member_def orders_json_def)
  next
    fix oid closure
    assume "definition_closure orders_catalog oid = Ok closure"
    then obtain d where d: "d \<in> set orders_types" "closure = \<lparr>cl_types = [d], cl_extensions = []\<rparr>"
      by (auto simp: orders_closure dest: definition_at_Some)
    then show "map_option (\<lambda>d. \<lparr>cl_types = [d], cl_extensions = []\<rparr>) (named_type (tj_closure (types_json orders_json) closure)) = Some closure"
      by (simp add: orders_json_def types_json_def type_json.truncate_def orders_members)
  qed
qed

lemma orders_catalog_good: "well_catalogued plain_codec (types_json orders_json) orders_catalog"
  by code_simp

lemma orders_source:
  "check_source (dc_source orders_decoder) = Ok (''15'', [''postgresql'', ''1'', ''1'', ''5'', ''db''])"
  "check_database plain_codec [''postgresql'', ''1'', ''1'', ''5'', ''db''] ''db'' = Ok ()"
  by code_simp+

lemma orders_ready: "capture_ready (repl_pg orders_env) orders_decoder ''15''"
proof -
  have E: "ce_codec orders_env = plain_codec" "pe_format_lsn orders_env = show_lsn" "ce_json (repl_pg orders_env) = orders_json"
    by (simp_all add: repl_pg_def pg_env.truncate_def orders_env_def)
  have d: "dc_database orders_decoder = ''db''" "dc_lc_monetary orders_decoder = ''C''" "dc_type_catalog orders_decoder = orders_catalog"
    "sb_product (dc_server_build orders_decoder) = ''postgresql''" "sb_version (dc_server_build orders_decoder) = ''15.4''"
    "dc_tables orders_decoder = (\<lambda>oid. if oid = 5000 then Some orders_table else None)"
    by (simp_all add: orders_decoder_def new_decoder_def)
  have int4: "column_ready (repl_pg orders_env) orders_catalog ''15'' (orders_column ''id'' int4_type ''integer'' False (Some 0))"
    by (auto simp: column_ready_def orders_column_def orders_types_entries orders_definitions orders_catalog_def
        fixed_declarations_def intro!: declares.fixed)
  have weight: "column_ready (repl_pg orders_env) orders_catalog ''15'' (orders_column ''mass'' weight_type ''app.weight'' True None)"
    by (simp add: column_ready_def evidenced_def orders_column_def orders_types_entries orders_catalog_def orders_definitions E
        typed_by_def orders_closure [unfolded orders_catalog_def] orders_json_def types_json_def type_json.truncate_def)
  have "table_ready (repl_pg orders_env) orders_catalog ''15'' orders_table"
    using int4 weight by (simp add: table_ready_def orders_table_def hex_digest_def list_all_iff is_ascii_hexdigit_def is_ascii_digit_def ord_def)
      (simp add: orders_column_def)
  then show ?thesis using orders_source orders_json_reads orders_catalog_good show_lsn_prints
    by (simp add: capture_ready_def d E starts_with_def split: if_splits)
qed

section \<open>A transaction\<close>

definition cell :: "string \<Rightarrow> ColumnData" where
  "cell s = \<lparr>cd_data_type = CHR ''t'', cd_bytes = s\<rparr>"

definition null_cell :: ColumnData where
  "null_cell = \<lparr>cd_data_type = CHR ''n'', cd_bytes = []\<rparr>"

definition orders_relation :: Message where
  "orders_relation = M_Relation 5000 ''app'' ''orders'' CHR ''d''
     [\<lparr>ri_name = ''id'', ri_type_id = 23, ri_type_modifier = - 1, ri_is_key = True\<rparr>,
      \<lparr>ri_name = ''mass'', ri_type_id = 102, ri_type_modifier = - 1, ri_is_key = False\<rparr>]"

definition short_messages :: "Message list" where
  "short_messages = [orders_relation, M_Insert 5000 [cell ''7'', null_cell], M_Delete 5000 [cell ''7'', null_cell] CHR ''K'']"

text \<open>Every kind of row, with a representation and a cell that the server left out.\<close>

definition long_messages :: "Message list" where
  "long_messages = [orders_relation, M_Insert 5000 [cell ''7'', cell ''80 kg''],
     M_Update 5000 None [cell ''7'', \<lparr>cd_data_type = CHR ''u'', cd_bytes = []\<rparr>] None,
     M_Delete 5000 [cell ''7'', null_cell] CHR ''K'']"

definition with_sizes :: "Message list \<Rightarrow> (Message \<times> nat) list" where
  "with_sizes ms = map (\<lambda>m. (m, 30)) ms"

lemma seven_decoded:
  "decode_catalog_column_for_version plain_codec orders_json no_numbers ''15'' orders_catalog 23 ''integer'' ''7'' = Ok (LV_Integer True 32 ''7'')"
proof -
  have "canonical_native ''integer''" by (rule canonical_bits) simp_all
  note native = canonical_nativeD [OF this]
  have "valid_utf8 ''7''" "parse_signed 64 ''7'' = Some 7" "show_int 7 = ''7''" by code_simp+
  then have "decode_for_version plain_codec no_numbers ''15'' 23 ''7'' = Ok (LV_Integer True 32 ''7'')"
    by (simp add: decode_for_version_def from_utf8_def del: valid_utf8.simps)
  then show ?thesis
    by (simp add: decode_catalog_column_for_version_def decode_catalog_value.simps known_type_def orders_catalog_def
        orders_definitions orders_types_entries decode_column_for_version_def native starts_with_def)
qed

lemma orders_env_fields:
  "ce_codec (repl_pg orders_env) = plain_codec" "ce_json (repl_pg orders_env) = orders_json"
  "pe_text (repl_pg orders_env) = no_numbers" "pe_format_lsn (repl_pg orders_env) = show_lsn"
  by (simp_all add: repl_pg_def pg_env.truncate_def orders_env_def)

lemmas orders_fields = orders_env_fields orders_env_fields [simplified]

lemma orders_major: "source_major \<lparr>src_kind = k, src_version = ''15.4'', src_id = i\<rparr> = ''15''"
  by (simp add: source_major_def)

text \<open>The transaction that the messages make, at the end of its transaction.\<close>

definition end_cursor :: SourceCursor where
  "end_cursor = \<lparr>sc_format = ''postgresql.lsn.v1'', sc_value = ''0/20'', sc_display = ''0/20''\<rparr>"

definition orders_cell :: "nat \<Rightarrow> string \<Rightarrow> string \<Rightarrow> nat option \<Rightarrow> Datum \<Rightarrow> ColumnDatum" where
  "orders_cell i name native key datum =
     \<lparr>col_ordinal = i, col_name = name, col_native_type = native, col_primary_key_ordinal = key, col_generated = False,
      col_collation = None, col_datum = datum\<rparr>"

definition orders_image :: "Datum \<Rightarrow> ColumnDatum list" where
  "orders_image mass = [orders_cell 0 ''id'' ''integer'' (Some 0) (D_Value (LV_Integer True 32 ''7'')),
     orders_cell 1 ''mass'' ''app.weight'' None mass]"

definition orders_row :: "Operation \<Rightarrow> Datum option \<Rightarrow> Datum option \<Rightarrow> RowChange" where
  "orders_row operation old new =
     \<lparr>rw_database = Some ''db'', rw_operation = operation, rw_schema = ''app'', rw_table = ''orders'',
      rw_source_cursor = end_cursor, rw_source_timestamp = 946684800,
      rw_schema_basis = ''pgoutput+catalog:5000:'' @ replicate 64 CHR ''0'',
      rw_before = map_option orders_image old, rw_after = map_option orders_image new\<rparr>"

definition orders_tx :: ChangeTransaction where
  "orders_tx = \<lparr>tx_source = \<lparr>src_kind = ''postgresql'', src_version = ''15.4'', src_id = ''postgresql:1:1:5:db''\<rparr>, tx_id = ''pg:7:0/20'',
     tx_begin_cursor = \<lparr>sc_format = ''postgresql.lsn.v1'', sc_value = ''0/10'', sc_display = ''0/10''\<rparr>,
     tx_commit_cursor = end_cursor,
     tx_changes =
       [orders_row Insert None (Some D_Null), orders_row Delete (Some D_Unavailable) None]\<rparr>"

lemma orders_valid: "validate plain_codec orders_tx = Ok (ValidatedTransaction orders_tx)"
  by code_simp

lemma printed: "show_lsn 16 = ''0/10''" "show_lsn 32 = ''0/20''" "show_nat 7 = ''7''" "show_nat 5000 = ''5000''"
  by code_simp+

lemmas orders_push = with_sizes_def orders_relation_def orders_decoder_def new_decoder_def push_def charge_bytes_def push_message_def
  push_begin_def push_relation_def quiet_def Let_def orders_table_def relation_agrees_def orders_column_def orders_types_entries
  push_insert_def push_update_def push_delete_def known_table_def current_cursor_def pg_image_def pg_image_column_def image_datum_def
  image_context_def cell_def null_cell_def seven_decoded orders_fields orders_major
  push_row_def row_limit_def checked_def old_image_def key_of_new_def delete_key_only_def

lemma short_run:
  "\<exists>e p. push_all (repl_pg orders_env) orders_decoder (with_sizes (M_Begin 16 0 7 # short_messages)) = (Ok [], e)
     \<and> charge_bytes e 30 = (Ok (), e\<lparr>dc_pending := Some p\<rparr>)
     \<and> commit_transaction (repl_pg orders_env) (e\<lparr>dc_pending := Some p\<rparr>) p 16 32 = orders_tx"
  by (simp add: orders_push short_messages_def commit_transaction_def orders_tx_def pg_cursor_def printed end_cursor_def
    stamp_row_def stamp_image_def stamp_datum_def orders_row_def orders_image_def orders_cell_def captured_row_def)

lemma long_run:
  "\<exists>e p. push_all (repl_pg orders_env) orders_decoder (with_sizes (M_Begin 16 0 7 # long_messages)) = (Ok [], e)
     \<and> charge_bytes e 30 = (Ok (), e\<lparr>dc_pending := Some p\<rparr>)"
  by (simp add: orders_push long_messages_def)

lemma short_validated:
  obtains e e' where "push_all (repl_pg orders_env) orders_decoder (with_sizes (M_Begin 16 0 7 # short_messages)) = (Ok [], e)"
    and "push (repl_pg orders_env) e (M_Commit 0 16 32 0) 30 = (Ok (Some (ValidatedTransaction orders_tx)), e')"
proof -
  obtain e p where run: "push_all (repl_pg orders_env) orders_decoder (with_sizes (M_Begin 16 0 7 # short_messages)) = (Ok [], e)"
    and size: "charge_bytes e 30 = (Ok (), e\<lparr>dc_pending := Some p\<rparr>)"
    and tx: "commit_transaction (repl_pg orders_env) (e\<lparr>dc_pending := Some p\<rparr>) p 16 32 = orders_tx"
    using short_run by blast
  have "push_all (repl_pg orders_env) orders_decoder ((M_Begin 16 0 7, 30) # with_sizes short_messages) = (Ok [], e)"
    using run by (simp add: with_sizes_def)
  from commit_validated [OF orders_ready this _ _ size, of 32]
  have "push (repl_pg orders_env) e (M_Commit 0 16 32 0) 30 =
      (Ok (Some (ValidatedTransaction orders_tx)), e\<lparr>dc_pending := None, dc_previous_end := 32\<rparr>)"
    using orders_valid by (simp add: tx orders_fields with_sizes_def short_messages_def orders_relation_def complete_def cell_def null_cell_def)
  with run show ?thesis by (rule that)
qed

lemma short_all:
  "\<exists>e. push_all (repl_pg orders_env) orders_decoder
     ((M_Begin 16 0 7, 30) # with_sizes short_messages @ [(M_Commit 0 16 32 0, 30)]) = (Ok [ValidatedTransaction orders_tx], e)"
proof (rule short_validated)
  fix e e'
  assume "push_all (repl_pg orders_env) orders_decoder (with_sizes (M_Begin 16 0 7 # short_messages)) = (Ok [], e)"
    "push (repl_pg orders_env) e (M_Commit 0 16 32 0) 30 = (Ok (Some (ValidatedTransaction orders_tx)), e')"
  then show ?thesis using push_all_snoc [of "repl_pg orders_env" orders_decoder "(M_Begin 16 0 7, 30) # with_sizes short_messages"]
    by (simp add: with_sizes_def)
qed

section \<open>A stream\<close>

definition frame :: Arrival where
  "frame = \<lparr>ar_data = Ok (CHR ''w'' # replicate 29 NUL), ar_due = False, ar_sent = Ok ()\<rparr>"

definition stream_of :: "Message list \<Rightarrow> Message list Replication" where
  "stream_of ms = \<lparr>rp_arrivals = map (\<lambda>_. frame) ms, rp_parser = ms, rp_decoder = orders_decoder, rp_start = 0,
     rp_acknowledged = 0, rp_delivered = None, rp_failed = False, rp_sent = []\<rparr>"

lemma frame_pushed:
  "on_frame orders_env frame r = (case rp_parser r of
      [] \<Rightarrow> (Err (PE_Transport ''end''), r\<lparr>rp_parser := []\<rparr>)
    | m # ms \<Rightarrow> (case push (repl_pg orders_env) (rp_decoder r) m 30 of
        (result, d) \<Rightarrow> (result, (case result of
            Inr (Some tx) \<Rightarrow> r\<lparr>rp_parser := ms, rp_decoder := d, rp_delivered := Some (tx_commit_cursor (transaction tx))\<rparr>
          | _ \<Rightarrow> r\<lparr>rp_parser := ms, rp_decoder := d\<rparr>))))"
  by (auto simp: on_frame_def frame_def on_xlog_data_def feedback_if_def orders_env_def repl_pg_def Let_def
      split: list.split prod.split sum.split option.split)

text \<open>Reading the stream is pushing its messages until a transaction is complete.\<close>

lemma stream_read:
  assumes "push_all (repl_pg orders_env) d (with_sizes ms) = (Ok [], d')"
    and "push (repl_pg orders_env) d' m 30 = (Ok (Some vt), d'')"
  shows "read_frames orders_env (map (\<lambda>_. frame) (ms @ [m]))
      \<lparr>rp_arrivals = as, rp_parser = ms @ [m], rp_decoder = d, rp_start = s, rp_acknowledged = a, rp_delivered = c, rp_failed = False, rp_sent = l\<rparr>
    = (Ok (Some vt), \<lparr>rp_arrivals = [], rp_parser = [], rp_decoder = d'', rp_start = s, rp_acknowledged = a,
         rp_delivered = Some (tx_commit_cursor (transaction vt)), rp_failed = False, rp_sent = l\<rparr>)"
  using assms(1)
proof (induction ms arbitrary: d as)
  case Nil
  then show ?case using assms(2) by (simp add: with_sizes_def frame_pushed)
next
  case (Cons x ms)
  from Cons.prems have "push_all (repl_pg orders_env) d ((x, 30) # with_sizes ms) = (Ok [], d')" by (simp add: with_sizes_def)
  then show ?case
  proof (rule push_all_Cons_Ok)
    fix r e ws
    assume "push (repl_pg orders_env) d x 30 = (Ok r, e)" "push_all (repl_pg orders_env) e (with_sizes ms) = (Ok ws, d')"
      "[] = (case r of None \<Rightarrow> [] | Some vt \<Rightarrow> [vt]) @ ws"
    then show ?case using Cons.IH [of e] by (cases r) (simp_all add: frame_pushed)
  qed
qed

text \<open>One transaction is read and acknowledged.\<close>

definition short_stream :: "Message list Replication" where
  "short_stream = stream_of ((M_Begin 16 0 7 # short_messages) @ [M_Commit 0 16 32 0])"

lemma short_read:
  obtains r where "adapter_next orders_env short_stream = (Ok (Some (ValidatedTransaction orders_tx)), r)"
    and "rp_failed r = False" and "dc_source (rp_decoder r) = dc_source orders_decoder" and "rp_delivered r = Some end_cursor"
    and "rp_acknowledged r = 0" and "rp_sent r = []"
proof (rule short_validated)
  fix e e'
  assume run: "push_all (repl_pg orders_env) orders_decoder (with_sizes (M_Begin 16 0 7 # short_messages)) = (Ok [], e)"
    "push (repl_pg orders_env) e (M_Commit 0 16 32 0) 30 = (Ok (Some (ValidatedTransaction orders_tx)), e')"
  have "tx_commit_cursor orders_tx = end_cursor" by (simp add: orders_tx_def)
  then have next_r: "adapter_next orders_env short_stream = (Ok (Some (ValidatedTransaction orders_tx)),
      \<lparr>rp_arrivals = [], rp_parser = [], rp_decoder = e', rp_start = 0, rp_acknowledged = 0,
       rp_delivered = Some end_cursor, rp_failed = False, rp_sent = []\<rparr>)"
    using stream_read [OF run, of "map (\<lambda>_. frame) ((M_Begin 16 0 7 # short_messages) @ [M_Commit 0 16 32 0])" 0 0 None "[]"]
    by (simp add: adapter_next_def pg_next_transaction_def pg_read_transaction_def short_stream_def stream_of_def)
  have "reads orders_env short_stream (Ok (Some (ValidatedTransaction orders_tx)))
      \<lparr>rp_arrivals = [], rp_parser = [], rp_decoder = e', rp_start = 0, rp_acknowledged = 0,
       rp_delivered = Some end_cursor, rp_failed = False, rp_sent = []\<rparr>"
    using next_r by (rule adapter_next_reads)
  then have "config_of e' = config_of orders_decoder"
    by (simp add: reads_def decoder_progress_def short_stream_def stream_of_def)
  then have "dc_source e' = dc_source orders_decoder" by (simp add: config_of_def)
  then show ?thesis by (intro that [OF next_r]) simp_all
qed

lemma short_session:
  obtains r where "session orders_env short_stream (r, [ValidatedTransaction orders_tx], [ValidatedTransaction orders_tx])"
    and "rp_sent r = [32]"
proof (rule short_read)
  fix r
  let ?vt = "ValidatedTransaction orders_tx"
  assume r: "adapter_next orders_env short_stream = (Ok (Some ?vt), r)" "rp_failed r = False"
    "dc_source (rp_decoder r) = dc_source orders_decoder" "rp_delivered r = Some end_cursor" "rp_acknowledged r = 0" "rp_sent r = []"
  have "re_parse_lsn orders_env (sc_value end_cursor) = Ok 32"
    using orders_library unfolding lsn_library_def
    by (metis SourceCursor.select_convs(2) end_cursor_def orders_fields(8) printed(2))
  then have ack: "acknowledge orders_env frame ?vt r = (Ok (), r\<lparr>rp_acknowledged := 32, rp_sent := [32]\<rparr>)"
    using r by (simp add: acknowledge_def feedback_def frame_def orders_tx_def orders_decoder_def new_decoder_def)
  have "session orders_env short_stream (r, [?vt], [])"
    using session.stepped [OF session.opened session_step.read [OF r(1)]] by simp
  from session.stepped [OF this session_step.ack [OF ack]] r(6)
  have "session orders_env short_stream (r\<lparr>rp_acknowledged := 32, rp_sent := [32]\<rparr>, [?vt], [?vt])" by simp
  then show ?thesis by (rule that) simp
qed

section \<open>A modifier in a qualified name\<close>

text \<open>The catalog query appends the modifier of a column to the name of a type outside \<open>pg_catalog\<close>; the mapping
  looks the whole text up as a name, so the column is refused.\<close>

definition spatial_catalog :: SourceTypeCatalog where
  "spatial_catalog = \<lparr>tc_types =
     [extension_definition plain_codec (types_json no_json) 301 ''public'' ''geometry'' ''postgis''], tc_extensions = []\<rparr>"

lemma geometry_modifier_refused:
  "find_definition ''public.geometry(Point,4326)'' spatial_catalog ''15''
     = Err (STM_MissingCatalog ''15'' ''public.geometry(Point,4326)'')"
  "is_ok (find_definition ''public.geometry'' spatial_catalog ''15'')"
  by code_simp+

end
