(* ===== verification/Spec2Isabelle.thy ===== *)
theory Spec2Isabelle
  imports Example Pg_Examples Plan_Examples Pg_Capture_Examples
begin

text \<open>
  \<^bold>\<open>What the program is.\<close> The workspace copies committed transactions from MySQL and PostgreSQL
  sources to a sink database. A source crate decodes its replication stream to change transactions
  (\<^verbatim>\<open>crates/change_event/src/model.rs\<close>), which are validated independently of any database
  (\<^verbatim>\<open>validate.rs\<close>) and against the native contract of the source
  (\<^verbatim>\<open>crates/mysql_source_contract\<close>). They travel as JSON Lines (\<^verbatim>\<open>json.rs\<close>, \<^verbatim>\<open>reader.rs\<close>), are planned
  to SQL and executed by a sink (\<^verbatim>\<open>crates/postgresql_15/src/sql.rs\<close>) together with a checkpoint row
  (\<^verbatim>\<open>crates/postgresql_15/src/checkpoint.rs\<close>), so that a task resumes where its last commit left it.

  \<^bold>\<open>The theories.\<close>
  \<^item> \<open>Prelude\<close>: results as sums with the combinators of \<^verbatim>\<open>?\<close>, loops with early return, ASCII and UTF-8
    text, splitting, integers as text, and ordered maps with their interface as the locale
    \<open>ordered_map\<close>. The collection \<open>ok_iff\<close> holds, for every check, when it succeeds.
  \<^item> \<open>Change_Model\<close> (\<^verbatim>\<open>model.rs\<close>): identities, cursors, values, rows and transactions; the source
    representation envelope and the raw value carrier with their integrity checks. Base64 and SHA-256
    are the parameter \<open>codec\<close>, JSON serialisers are function arguments.
  \<^item> \<open>Validate\<close> (\<^verbatim>\<open>validate.rs\<close>) holds every check; \<open>Validate_Spec\<close> says declaratively what is accepted
    and proves that the checks decide it.
  \<^item> \<open>Canonical\<close> (\<^verbatim>\<open>model.rs\<close>): canonical order and content digests. \<open>Snapshot\<close> (\<^verbatim>\<open>snapshot.rs\<close>): batches of
    rows of an initial copy.
  \<^item> \<open>Source_Adapter\<close> (\<^verbatim>\<open>lib.rs\<close>): the interface of a source as the locales \<open>transaction_source\<close> and
    \<open>fail_stop_source\<close>; \<open>Json_Reader\<close> (\<^verbatim>\<open>json.rs\<close>, \<^verbatim>\<open>reader.rs\<close>) is an instance.
  \<^item> \<open>Apply_Errors\<close> (\<^verbatim>\<open>lib.rs\<close>, \<^verbatim>\<open>validate.rs\<close>, \<^verbatim>\<open>compatibility.rs\<close>) and \<open>Io_Error\<close> (\<^verbatim>\<open>sql.rs\<close>): the
    classification of failures and which of them are retried.
  \<^item> \<open>Gtid\<close> and \<open>Position\<close> (\<^verbatim>\<open>checkpoint.rs\<close>): GTID sets with the sets they denote, and positions with
    their order, the locale \<open>position_order\<close>.
  \<^item> \<open>Sql_Exec\<close> (\<^verbatim>\<open>sql.rs\<close>): a connection with the committed and the working database and the replies to
    come, where any call may be refused or lost and a commit may take effect without its
    acknowledgement; execution of statements. The engine behind the connection is a parameter.
  \<^item> \<open>Checkpoint\<close> (\<^verbatim>\<open>checkpoint.rs\<close>): the checkpoint writer, one definition per method.
    \<open>Checkpoint_Spec\<close> proves what each method can do to the committed database and composes them to
    runs (\<open>writer_step\<close>, \<open>sink_run\<close>); \<open>Checkpoint_Recovery\<close> treats repetition and lost acknowledgements.
  \<^item> \<open>Source_Contract\<close>: what the checkpoint writer needs from a native contract, the locale
    \<open>source_contract\<close>; \<open>Mysql_Source_Contract\<close> is an instance.
  \<^item> \<open>Logical_Type\<close> (\<^verbatim>\<open>change_event/src/compatibility.rs\<close>): the declared type of a column, when it is valid
    and which values it admits, with the numeric meaning of the decimal check.
  \<^item> \<open>Type_Catalog\<close>, \<open>Type_Mapping\<close> (\<^verbatim>\<open>postgresql_15/src/type_mapping.rs\<close>): catalog entries, their digests and
    closures; native declarations to logical types, with the evidence a raw type carries.
    \<open>Type_Mapping_Spec\<close> has their properties. The recursions over catalogs that may have cycles are
    measured by the definitions not yet visited.
  \<^item> \<open>Pg_Text\<close>, \<open>Pg_Types\<close> (\<^verbatim>\<open>postgresql_15/src/types.rs\<close>): the readers of composite, array, range and hstore
    texts and the value decoders, where a panic of the source is the error \<open>DE_Panic\<close>. \<open>Pg_Text_Spec\<close>,
    \<open>Pg_Types_Spec\<close> and \<open>Pg_Time_Text\<close> prove that written texts are read back, that decoded values are
    valid and that times are exact, over the calendar of \<open>Civil_Date\<close>. Parsers of floating-point numbers
    and JSON documents are the parameter \<open>text_values\<close>.
  \<^item> \<open>Conversion_Plan\<close>, \<open>Plan_Text\<close>, \<open>Plan_Values\<close>, \<open>Plan_Structures\<close>, \<open>Plan_Check\<close>, \<open>Plan_Convert\<close>
    (\<^verbatim>\<open>change_event/src/compatibility.rs\<close>): saved conversion plans, the check of a value for every kind of plan,
    and the conversion of values up to whole transactions; characters are those of \<open>Utf8\<close>. \<open>Plan_Codec_Spec\<close>
    shows what conversions keep and \<open>Plan_Spec\<close> what they change and which plan a failure names. Serialisers
    are the parameter \<open>plan_json\<close>; signed sums wrap around at their width, as in a release build.
  \<^item> \<open>Pg_Source_Contract\<close> (\<^verbatim>\<open>postgresql_15/src/source_contract.rs\<close>): the contract of a PostgreSQL source, the second
    instance of \<open>source_contract\<close>; \<open>Ip_Address\<close> parses addresses as the standard library does. \<open>Pg_Decoder\<close>
    (\<^verbatim>\<open>decoder.rs\<close>): the state machine over pgoutput messages. \<open>Pg_Replication\<close> (\<^verbatim>\<open>replication.rs\<close>): the client that
    reads frames, delivers and acknowledges transactions; its connection is the list of what arrives.
    \<open>Pg_Catalog\<close> (\<^verbatim>\<open>catalog.rs\<close>): the checked catalog from the rows of the system catalogs.
  \<^item> \<open>Pg_Decoder_Spec\<close> relates messages to the rows of a transaction, \<open>Pg_Replication_Spec\<close> makes the client an
    \<open>ordered_source\<close> and gives sessions of a client and a consumer their invariant, \<open>Pg_Contract_Spec\<close> shows that
    decoded values have the declared types of the contract, and \<open>Pg_Capture_Spec\<close> composes catalog, decoder and
    contract.
  \<^item> \<open>Example\<close>, \<open>Pg_Examples\<close>, \<open>Plan_Examples\<close>, \<open>Pg_Capture_Examples\<close>: concrete parameters, a small run, a small catalog, small
    plans and a small stream for the witnesses.

  \<^bold>\<open>What is shown.\<close> C1 to C9: the checkpoint writer never goes back, commits data and progress together,
  recognises what it has applied, resolves lost acknowledgements and makes progress. C10 to C12: GTID
  texts are handled as the sets they denote. C13, C14, C19, C20: the PostgreSQL source tells the server only
  acknowledged positions, delivers in order, neither loses nor invents rows and is never stopped by its own contract. C15 and C16: the JSON reader. C18, C21, C22, C25, C26: validation
  decides its specification, evidence is checked, digests are canonical. C28 to C30: the MySQL contract and
  its agreement with the checkpoint writer. C31 to C34: PostgreSQL type closures, mappings and declarations.
  C35 to C38: arrays, decoded values, instants and decimals. C17, C23, C24, C27, C39, C40: conversions with
  saved plans keep bits, characters, numbers and instants, change nothing unplanned and name the plan of a
  failure.

  \<^bold>\<open>Loops and numbers.\<close> All definitions are total: the reader loops by recursion on the input that is left,
  the other loops run over lists. Machine integers are words or naturals with their bound written out;
  a position is at most 32 bits in MySQL modes and 64 bits for a log sequence number.

  \<^bold>\<open>Not modelled.\<close> Network input and output and the text of catalog queries, planning of SQL statements, capability manifests
  and the choice of conversions, the MySQL decoders and sinks, and the web console.
\<close>

section \<open>The checkpoint writer\<close>

text \<open>
  C1. Progress of a task never goes back and no position is committed twice. Take any run of calls of
  the writer's methods (apply, advance, observe, resolve, initialize, prepare and copy a snapshot,
  check targets), of writers newly opened for the task, and of any replies of the connection, lost
  acknowledgements included. If the task is incremental at the start, the positions its commits
  store are strictly increasing from the stored one, hence distinct, and the last of them is the
  stored position at the end.
\<close>

theorem sink_positions_advance:
  assumes "sink_run C E w ps w'"
    and "stored (cn_committed (wr_conn w)) (wr_task_id w) cp" and "cp_phase cp = ''incremental''"
  shows "advancing (compare_in (cp_mode cp)) ((cp_file cp, cp_position cp) # ps) \<and> distinct ps
    \<and> (\<exists>cp'. stored (cn_committed (wr_conn w')) (wr_task_id w) cp' \<and> cp_phase cp' = ''incremental''
        \<and> cp_mode cp' = cp_mode cp \<and> (cp_file cp', cp_position cp') = last ((cp_file cp, cp_position cp) # ps))"
proof -
  from assms have run: "wr_task_id w' = wr_task_id w \<and>
    (\<exists>cp'. incremental_at (cn_committed (wr_conn w')) (wr_task_id w) cp' \<and> cp_mode cp' = cp_mode cp
      \<and> last ((cp_file cp, cp_position cp) # ps) = (cp_file cp', cp_position cp')
      \<and> advancing (compare_in (cp_mode cp)) ((cp_file cp, cp_position cp) # ps))"
    by (intro sink_run_advancing) (simp_all add: incremental_at_def)
  then show ?thesis
    using checkpoint_order.advancing_distinct [of "cp_mode cp" "(cp_file cp, cp_position cp) # ps"]
    by (auto simp: incremental_at_def)
qed

theorem sink_positions_advance_witness:
  "advancing (compare_in ''binlog'') [(''bin.000001'', 4), (''bin.000001'', 100)]"
proof -
  have start: "cp_phase (cp_of binlog_row) = ''incremental''" "cp_mode (cp_of binlog_row) = ''binlog''"
    "(cp_file (cp_of binlog_row), cp_position (cp_of binlog_row)) = (''bin.000001'', 4)" by code_simp+
  have "wr_task_id (writer_on binlog_row []) = ''task''" by (simp add: writer_on_def)
  then show ?thesis
    using sink_positions_advance [OF insert_run, of "cp_of binlog_row"] binlog_row_stored [of "[]"] start by simp
qed

text \<open>
  C2. One apply is all or nothing. Whatever the connection replies, either the committed database is
  exactly what it was (and the call did not report a fresh success), or the plan's statements and
  the new checkpoint were committed together, from the stored checkpoint the writer expected, to a
  position beyond it that was not applied before, with the rows of other tasks untouched; the call
  then reports that checkpoint, or that the acknowledgement was lost.
\<close>

theorem apply_all_or_nothing:
  assumes "apply_inner C J E w source tid cursor plan = (r, w')"
  shows "cn_committed (wr_conn w') = cn_committed (wr_conn w) \<and> (\<forall>res. r = Inr res \<longrightarrow> ar_already_applied res)
    \<or> (\<exists>cp cp' fl position.
        wr_checkpoint w = Some cp \<and> stored (cn_committed (wr_conn w)) (wr_task_id w) cp
        \<and> file_position C cursor = Inr (fl, position) \<and> fresh cp tid fl position
        \<and> advanced w cp tid fl position (row_count plan) = Inr cp'
        \<and> stored (cn_committed (wr_conn w')) (wr_task_id w) cp'
        \<and> (\<forall>t. t \<noteq> wr_task_id w \<longrightarrow> log_info (cn_committed (wr_conn w')) t = log_info (cn_committed (wr_conn w)) t)
        \<and> executed E plan (business (cn_committed (wr_conn w))) (business (cn_committed (wr_conn w')))
        \<and> (r = Inr \<lparr>ar_checkpoint = cp', ar_statements_executed = row_count plan, ar_already_applied = False\<rparr>
            \<or> (\<exists>m. r = Inl (Commit_Unknown m))))"
  using assms by (cases rule: apply_inner_cases) (auto simp: moved_def)

theorem apply_all_or_nothing_witness:
  "executed recorder (Some (insert_plan ''tx-1'')) [] (business (cn_committed (wr_conn after_insert)))"
proof -
  have run: "apply_inner plain_codec no_carriers recorder (writer_on binlog_row []) server ''tx-1'' (at_position 100)
      (Some (insert_plan ''tx-1'')) = (fst (run_insert binlog_row [] ''tx-1''), after_insert)"
    by (simp add: after_insert_def run_insert_def)
  have "business (cn_committed (wr_conn after_insert)) \<noteq> business (cn_committed (wr_conn (writer_on binlog_row [])))"
    by code_simp
  moreover have "business (cn_committed (wr_conn (writer_on binlog_row []))) = []" by code_simp
  ultimately show ?thesis
    using apply_all_or_nothing [OF run] by auto
qed

text \<open>
  C3. A lost acknowledgement is resolved by the database. If an apply ended with an unknown commit,
  the transaction is not the one the writer's checkpoint names already, and the connection works again, resolving answers
  APPLIED exactly when the transaction's data and checkpoint were committed, and NOT_APPLIED
  otherwise; it is never undecided.
\<close>

theorem commit_unknown_resolved:
  assumes "apply_inner C J E w (src_id (tx_source tx)) (tx_id tx) (tx_commit_cursor tx) plan = (Inl (Commit_Unknown m), w')"
    and "\<forall>cp. wr_checkpoint w = Some cp \<longrightarrow> cp_last_transaction_id cp \<noteq> Some (tx_id tx)"
    and "cn_replies (wr_conn w') = []"
  shows "fst (resolve_commit_unknown C w' tx) =
    Inr (if cn_committed (wr_conn w') = cn_committed (wr_conn w) then NotApplied else Applied)"
  using resolve_exact [OF assms] by auto

text \<open>The acknowledgement is lost after the commit took effect: the calls before it succeed.\<close>

theorem commit_unknown_resolved_witness:
  "fst (resolve_commit_unknown plain_codec (snd (run_insert binlog_row (replicate 7 Fine @ [Lost_After ''gone'']) ''tx-1'')) sample_tx)
     = Inr Applied"
proof -
  let ?rs = "replicate 7 Fine @ [Lost_After ''gone'']"
  let ?w' = "snd (run_insert binlog_row ?rs ''tx-1'')"
  have "fst (run_insert binlog_row ?rs ''tx-1'') = Inl (Commit_Unknown ''gone'')" by code_simp
  then have run: "apply_inner plain_codec no_carriers recorder (writer_on binlog_row ?rs) (src_id (tx_source sample_tx))
      (tx_id sample_tx) (tx_commit_cursor sample_tx) (Some (insert_plan ''tx-1'')) = (Inl (Commit_Unknown ''gone''), ?w')"
    by (simp add: run_insert_def sample_tx_def sample_source_def prod_eq_iff)
  have other: "\<forall>cp. wr_checkpoint (writer_on binlog_row ?rs) = Some cp \<longrightarrow> cp_last_transaction_id cp \<noteq> Some (tx_id sample_tx)"
  proof -
    have "cp_last_transaction_id (cp_of binlog_row) = None" by code_simp
    then show ?thesis by (simp add: writer_on_def)
  qed
  have quiet: "cn_replies (wr_conn ?w') = []" by code_simp
  have "business (cn_committed (wr_conn ?w')) \<noteq> business (cn_committed (wr_conn (writer_on binlog_row ?rs)))"
    by code_simp
  then show ?thesis using commit_unknown_resolved [OF run other quiet] by auto
qed

text \<open>
  C4. Applying a transaction again is recognised. After a success, a second apply of the same
  transaction (with any plan) on a working connection reports it as already applied with the same
  checkpoint, executes nothing and leaves the committed database as it is.
\<close>

theorem apply_twice:
  assumes "apply_inner C J E w source tid cursor plan = (Inr res, w')" and "\<not> ar_already_applied res"
    and "cn_replies (wr_conn w') = []"
  shows "\<exists>w''. apply_inner C J E w' source tid cursor plan' =
      (Inr \<lparr>ar_checkpoint = ar_checkpoint res, ar_statements_executed = 0, ar_already_applied = True\<rparr>, w'')
    \<and> cn_committed (wr_conn w'') = cn_committed (wr_conn w')"
  using assms by (rule apply_again)

theorem apply_twice_witness:
  "\<exists>w''. apply_inner plain_codec no_carriers recorder (snd (run_insert gtid_row [] (server @ '':5''))) server (server @ '':5'')
      (at_position 100) (Some (insert_plan (server @ '':5''))) =
    (Inr \<lparr>ar_checkpoint = (cp_of gtid_row)\<lparr>cp_position := 100, cp_gtid_set := Some (server @ '':1-5''),
       cp_last_transaction_id := Some (server @ '':5''), cp_revision := 1, cp_applied_transactions := 1, cp_applied_rows := 1\<rparr>,
       ar_statements_executed = 0, ar_already_applied = True\<rparr>, w'')"
proof -
  let ?tid = "server @ '':5''"
  let ?cp = "(cp_of gtid_row)\<lparr>cp_position := 100, cp_gtid_set := Some (server @ '':1-5''),
       cp_last_transaction_id := Some ?tid, cp_revision := 1, cp_applied_transactions := 1, cp_applied_rows := 1\<rparr>"
  let ?res = "\<lparr>ar_checkpoint = ?cp, ar_statements_executed = 1, ar_already_applied = False\<rparr>"
  let ?w' = "snd (run_insert gtid_row [] ?tid)"
  have "fst (run_insert gtid_row [] ?tid) = Inr ?res" by code_simp
  then have run: "apply_inner plain_codec no_carriers recorder (writer_on gtid_row []) server ?tid (at_position 100)
      (Some (insert_plan ?tid)) = (Inr ?res, ?w')"
    by (simp add: run_insert_def prod_eq_iff)
  have "cn_replies (wr_conn ?w') = []" by code_simp
  then show ?thesis using apply_twice [OF run] by auto
qed

text \<open>
  C5. In GTID mode a fresh success stores exactly the old set, the observed filtered transactions and
  the transaction itself, in canonical text; the transaction was not in the old set.
\<close>

theorem apply_gtid_set:
  assumes "apply_inner C J E w source tid cursor plan = (Inr res, w')" and "\<not> ar_already_applied res"
    and "wr_checkpoint w = Some cp" and "cp_mode cp = ''gtid''" and "is_ok (parse_gtids (gtid_text (cp_gtid_set cp)))"
  shows "\<exists>s k n. cp_gtid_set (ar_checkpoint res) = Some s \<and> canonical_gtids s = Inr s
    \<and> gtid_set_of tid = {(k, n)} \<and> (k, n) \<notin> gtid_set_of (gtid_text (cp_gtid_set cp))
    \<and> gtid_set_of s = gtid_set_of (gtid_text (cp_gtid_set cp)) \<union> gtid_set_of (gtid_text (wr_observed_gtids w)) \<union> {(k, n)}"
  using assms(1)
proof (cases rule: apply_inner_cases)
  case unchanged
  with assms(2) show ?thesis by simp
next
  case (stepped cp1 cp' fl position)
  then have cp: "cp1 = cp" and res: "ar_checkpoint res = cp'" using assms(3) by auto
  have adv: "advanced w cp tid fl position (row_count plan) = Inr cp'" using stepped(10) cp by (simp add: moved_def)
  from stepped(8) cp assms(4) obtain one where one: "canonical_single_gtid tid = Inr one"
    and out: "gtid_contains (gtid_text (cp_gtid_set cp)) one = Inr False" by (auto simp: fresh_def)
  from gtid_contains_single [OF one assms(5)] obtain k n where "gtid_set_of tid = {(k, n)}"
    and "(k, n) \<notin> gtid_set_of (gtid_text (cp_gtid_set cp))" using out by auto
  with advanced_gtids [OF adv assms(4)] res show ?thesis by auto
qed

theorem apply_gtid_set_witness:
  "\<exists>s. cp_gtid_set (ar_checkpoint (case fst (run_insert gtid_row [] (server @ '':5'')) of Inr res \<Rightarrow> res)) = Some s
     \<and> ((server, None), 5) \<in> gtid_set_of s"
proof -
  let ?tid = "server @ '':5''"
  let ?res = "case fst (run_insert gtid_row [] ?tid) of Inr res \<Rightarrow> res"
  have ok: "is_ok (fst (run_insert gtid_row [] ?tid))" by code_simp
  have run: "apply_inner plain_codec no_carriers recorder (writer_on gtid_row []) server ?tid (at_position 100)
      (Some (insert_plan ?tid)) = (Inr ?res, snd (run_insert gtid_row [] ?tid))"
    using ok by (cases "fst (run_insert gtid_row [] ?tid)") (simp_all add: run_insert_def prod_eq_iff)
  have fresh: "\<not> ar_already_applied ?res" by code_simp
  have cp: "wr_checkpoint (writer_on gtid_row []) = Some (cp_of gtid_row)" by (simp add: writer_on_def)
  have mode: "cp_mode (cp_of gtid_row) = ''gtid''" by code_simp
  have parsed: "is_ok (parse_gtids (gtid_text (cp_gtid_set (cp_of gtid_row))))" by code_simp
  have "parse_gtids ?tid = Inr [((server, None), [(5, 5)])]" by code_simp
  then have "gtid_set_of ?tid = {((server, None), 5)}" by (simp add: gtid_set_of_def)
  with apply_gtid_set [OF run fresh cp mode parsed] show ?thesis by auto
qed

text \<open>
  C6. A snapshot copy is all or nothing. Either nothing is committed, or every batch was delivered
  and valid, the batches completed exactly the tables of the scope in their order, the rows were
  inserted, the number of rows is stored and the task has become incremental, in one commit.
\<close>

theorem copy_snapshot_all_or_nothing:
  assumes "copy_snapshot C E snapshot_sql progress w tables batches = (r, w')"
  shows "cn_committed (wr_conn w') = cn_committed (wr_conn w) \<and> (\<forall>cp. r \<noteq> Inr cp)
    \<or> (\<exists>bs. batches = map Inr bs
        \<and> copied C E snapshot_sql w tables bs (cn_committed (wr_conn w)) (cn_committed (wr_conn w'))
        \<and> ((\<exists>cp. r = Inr cp \<and> stored (cn_committed (wr_conn w')) (wr_task_id w) cp) \<or> (\<exists>m. r = Inl (Commit_Unknown m))))"
  using assms by (cases rule: copy_snapshot_cases) auto

theorem copy_snapshot_all_or_nothing_witness:
  "copied plain_codec recorder insert_sql (writer_on preparing_row []) orders_scope [sample_batch]
     (db_of preparing_row) (cn_committed (wr_conn (snd run_copy)))"
proof -
  let ?w = "writer_on preparing_row []"
  have ok: "is_ok (fst run_copy)" by code_simp
  have run: "copy_snapshot plain_codec recorder insert_sql (\<lambda>_ _. Inr ()) ?w orders_scope [Inr sample_batch]
      = (fst run_copy, snd run_copy)" by (simp add: run_copy_def)
  have "\<not> (\<forall>cp. fst run_copy \<noteq> Inr cp)" using ok by (cases "fst run_copy") simp_all
  moreover have "[Inr sample_batch] = map Inr bs \<longleftrightarrow> bs = [sample_batch]" for bs by (cases bs) auto
  ultimately have "copied plain_codec recorder insert_sql ?w orders_scope [sample_batch]
      (cn_committed (wr_conn ?w)) (cn_committed (wr_conn (snd run_copy)))"
    using copy_snapshot_all_or_nothing [OF run] by blast
  moreover have "cn_committed (wr_conn ?w) = db_of preparing_row" by (simp add: writer_on_def)
  ultimately show ?thesis by simp
qed

text \<open>
  C7. The stored row stays valid: after a step from a row that belongs to the writer and is well
  formed (identities, phase, position and mode), the row passes the same check, so the task can be
  opened and resumed from it.
\<close>

theorem stored_row_valid:
  assumes "apply_inner C J E w source tid cursor plan = (r, w')"
    and "cn_committed (wr_conn w') \<noteq> cn_committed (wr_conn w)"
  shows "\<exists>cp'. stored (cn_committed (wr_conn w')) (wr_task_id w) cp'
    \<and> check_binding cp' (wr_source_uuid w) (wr_sink_uuid w) (wr_binding w) = Inr ()"
  using assms(1)
proof (cases rule: apply_inner_cases)
  case unchanged
  with assms(2) show ?thesis by simp
next
  case (stepped cp cp' fl position)
  then show ?thesis using moved_valid [OF stepped(3,7,8)] by (auto simp: moved_def)
qed

theorem stored_row_valid_witness:
  "check_binding inserted_cp server ''sink'' ''b'' = Inr ()"
proof -
  have run: "apply_inner plain_codec no_carriers recorder (writer_on binlog_row []) server ''tx-1'' (at_position 100)
      (Some (insert_plan ''tx-1'')) = (fst (run_insert binlog_row [] ''tx-1''), after_insert)"
    by (simp add: after_insert_def run_insert_def)
  have "business (cn_committed (wr_conn after_insert)) \<noteq> business (cn_committed (wr_conn (writer_on binlog_row [])))"
    by code_simp
  then have "cn_committed (wr_conn after_insert) \<noteq> cn_committed (wr_conn (writer_on binlog_row []))" by auto
  from stored_row_valid [OF run this] inserted_stored stored_unique show ?thesis
    by (auto simp: writer_on_def)
qed

text \<open>
  C8. A writer whose checkpoint is not the stored one (another writer moved the row) changes nothing.
\<close>

theorem stale_writer_changes_nothing:
  assumes "apply_inner C J E w source tid cursor plan = (r, w')" and "wr_checkpoint w = Some cp"
    and "\<not> stored (cn_committed (wr_conn w)) (wr_task_id w) cp"
  shows "cn_committed (wr_conn w') = cn_committed (wr_conn w)"
  using assms(1) by (cases rule: apply_inner_cases) (use assms(2,3) in auto)

theorem stale_writer_changes_nothing_witness:
  "business (cn_committed (wr_conn (snd (apply_inner plain_codec no_carriers recorder
     ((writer_on binlog_row [])\<lparr>wr_checkpoint := Some inserted_cp\<rparr>) server ''tx-2'' (at_position 120) (Some (insert_plan ''tx-2'')))))) = []"
proof -
  let ?w = "(writer_on binlog_row [])\<lparr>wr_checkpoint := Some inserted_cp\<rparr>"
  let ?run = "apply_inner plain_codec no_carriers recorder ?w server ''tx-2'' (at_position 120) (Some (insert_plan ''tx-2''))"
  have run: "?run = (fst ?run, snd ?run)" by simp
  have "cp_revision inserted_cp \<noteq> cp_revision (cp_of binlog_row)" by code_simp
  moreover have "stored (cn_committed (wr_conn ?w)) (wr_task_id ?w) (cp_of binlog_row)"
    using binlog_row_stored [of "[]"] by (simp add: writer_on_def)
  ultimately have "\<not> stored (cn_committed (wr_conn ?w)) (wr_task_id ?w) inserted_cp"
    using stored_unique by metis
  with stale_writer_changes_nothing [OF run] show ?thesis by (simp add: writer_on_def db_of_def)
qed



section \<open>GTID sets\<close>

text \<open>
  C10. Merging GTID sets is union: it succeeds exactly when both texts parse, and the result is the
  canonical text of the union.
\<close>

theorem merge_gtids_is_union:
  "is_ok (merge_gtids l r) = (is_ok (parse_gtids (gtid_text l)) \<and> is_ok (parse_gtids r))
   \<and> (\<forall>s. merge_gtids l r = Inr s \<longrightarrow>
        gtid_set_of s = gtid_set_of (gtid_text l) \<union> gtid_set_of r \<and> canonical_gtids s = Inr s)"
  using merge_gtids_ok_iff merge_gtids_set by blast

theorem merge_gtids_is_union_witness:
  "gtid_set_of (server @ '':1-7'') = gtid_set_of (server @ '':1-5:7'') \<union> gtid_set_of (server @ '':6'')"
proof -
  have "merge_gtids (Some (server @ '':1-5:7'')) (server @ '':6'') = Inr (server @ '':1-7'')" by code_simp
  with merge_gtids_is_union [of "Some (server @ '':1-5:7'')" "server @ '':6''"] show ?thesis by simp
qed

text \<open>
  C11. The canonical text is a normal form: it means the same set, canonicalising it again changes
  nothing, and two texts have the same canonical form exactly when they mean the same set.
\<close>

theorem canonical_gtids_normal_form:
  assumes "canonical_gtids v = Inr s" and "canonical_gtids w = Inr t"
  shows "gtid_set_of s = gtid_set_of v \<and> canonical_gtids s = Inr s \<and> (s = t \<longleftrightarrow> gtid_set_of v = gtid_set_of w)"
  using canonical_gtids_set [OF assms(1)] canonical_gtids_eq_iff [OF assms] by simp

theorem canonical_gtids_normal_form_witness:
  "gtid_set_of (server @ '':3-4:1-2'') = gtid_set_of (server @ '':1,'' @ server @ '':2-4'')"
proof -
  have "canonical_gtids (server @ '':3-4:1-2'') = Inr (server @ '':1-4'')"
    and "canonical_gtids (server @ '':1,'' @ server @ '':2-4'') = Inr (server @ '':1-4'')" by code_simp+
  from canonical_gtids_normal_form [OF this] show ?thesis by simp
qed

text \<open>
  C12. Printing and parsing: a parsed GTID map is well formed (keys in order, canonical intervals), and
  parsing the printed form of a well-formed map gives it back.
\<close>

theorem gtid_map_roundtrip:
  "(parse_gtids v = Inr m \<longrightarrow> gtid_map_ok m) \<and> (gtid_map_ok m \<longrightarrow> parse_gtids (render_gtids m) = Inr m)"
  using parse_gtids_sound(1) parse_render_gtids by blast

theorem gtid_map_roundtrip_witness:
  "parse_gtids (render_gtids [((server, None), [(1, 5)]), ((server, Some ''tag''), [(2, 2), (9, 12)])])
     = Inr [((server, None), [(1, 5)]), ((server, Some ''tag''), [(2, 2), (9, 12)])]"
proof -
  let ?m = "[((server, None), [(1, 5)]), ((server, Some ''tag''), [(2, 2), (9, 12)])]"
  have "parse_gtids (server @ '':1-5,'' @ server @ '':TAG:9-12:2'') = Inr ?m" by code_simp
  with gtid_map_roundtrip [of "server @ '':1-5,'' @ server @ '':TAG:9-12:2''" ?m] show ?thesis by simp
qed

text \<open>
  Membership: for one transaction's GTID, \<^verbatim>\<open>gtid_contains\<close> answers whether the transaction is in
  the set, and the check that a GTID is a single transaction accepts exactly the texts that name
  one.
\<close>

theorem gtid_membership:
  assumes "is_ok (parse_gtids gtids)"
  shows "(is_ok (canonical_single_gtid v) \<longleftrightarrow> is_ok (parse_gtids v) \<and> (\<exists>k n. gtid_set_of v = {(k, n)}))
    \<and> (\<forall>one k n. canonical_single_gtid v = Inr one \<longrightarrow> gtid_set_of v = {(k, n)} \<longrightarrow>
        gtid_contains gtids one = Inr ((k, n) \<in> gtid_set_of gtids))"
proof -
  have "is_ok (canonical_single_gtid v) \<longleftrightarrow> is_ok (parse_gtids v) \<and> (\<exists>k n. gtid_set_of v = {(k, n)})"
  proof (cases "parse_gtids v")
    case (Inr m)
    have "is_ok (canonical_single_gtid v) \<longleftrightarrow> (\<exists>s. canonical_single_gtid v = Inr s)"
      by (cases "canonical_single_gtid v") simp_all
    also have "\<dots> \<longleftrightarrow> (\<exists>k n. m = [(k, [(n, n)])])"
      unfolding canonical_single_gtid_Ok_iff Inr sum.inject by blast
    also have "\<dots> \<longleftrightarrow> (\<exists>k n. gtids_of m = {(k, n)})"
      using parse_gtids_sound(1) [OF Inr] by (rule single_map)
    finally show ?thesis using Inr by (simp add: gtid_set_of_def)
  qed (simp add: canonical_single_gtid_def)
  then show ?thesis using gtid_contains_single [OF _ assms] by fastforce
qed

theorem gtid_membership_witness:
  "gtid_contains (server @ '':1-5'') (server @ '':7'') = Inr (((server, None), 7) \<in> gtid_set_of (server @ '':1-5''))"
proof -
  have ok: "is_ok (parse_gtids (server @ '':1-5''))" by code_simp
  have one: "canonical_single_gtid (server @ '':7'') = Inr (server @ '':7'')" by code_simp
  have "parse_gtids (server @ '':7'') = Inr [((server, None), [(7, 7)])]" by code_simp
  then have "gtid_set_of (server @ '':7'') = {((server, None), 7)}" by (simp add: gtid_set_of_def)
  with gtid_membership [OF ok, of "server @ '':7''"] one show ?thesis by blast
qed

text \<open>
  Intervals given in any order, overlapping or adjacent, are merged to the canonical list that
  covers the same numbers; the saturating addition at the end of the \<^verbatim>\<open>u64\<close> range loses nothing.
\<close>

theorem merge_intervals_exact:
  assumes "\<forall>ab \<in> set rs. 0 < fst ab \<and> fst ab \<le> snd ab \<and> snd ab < 2 ^ 64"
  shows "canonical_intervals (merge_intervals rs) \<and> interval_set (merge_intervals rs) = interval_set rs"
  using merge_intervals_canonical [of rs] assms by (auto simp: proper_interval_def)

theorem merge_intervals_exact_witness:
  "interval_set [(1, 9), (18446744073709551610, 18446744073709551615)]
     = interval_set [(18446744073709551615, 18446744073709551615), (1, 4), (18446744073709551610, 18446744073709551614), (5, 9)]"
proof -
  let ?rs = "[(18446744073709551615, 18446744073709551615), (1, 4), (18446744073709551610, 18446744073709551614), (5, 9)] :: interval list"
  have "merge_intervals ?rs = [(1, 9), (18446744073709551610, 18446744073709551615)]" by code_simp
  with merge_intervals_exact [of ?rs] show ?thesis by simp
qed

section \<open>The JSON Lines reader\<close>

text \<open>
  C15. What is written is read back. If the lines of a validated transaction are rendered within the
  byte limit and arrive in any pieces, the reader returns that transaction, consumes everything
  and finishes cleanly. \<open>json_codec\<close> is the documented behaviour of the JSON library on these events.
\<close>

theorem json_read_back:
  assumes "validate C (transaction vt) = Inr vt" and "json to_vec vt = Inr out"
    and "json_codec to_vec from_slice (json_events (transaction vt))" and "length out \<le> MAX_BYTES"
    and "all_data chunks" and "content chunks = out"
  shows "\<exists>s'. next_transaction C from_slice (reader_new chunks) = (Ok (Some vt), s')
    \<and> rd_input s' = [] \<and> reader_finish s' = Ok ()"
  using assms by (rule read_json)

theorem json_read_back_witness:
  "\<exists>s'. next_transaction plain_codec sample_from_slice (reader_new [Data ''0'', Data ([newline] @ ''1'' @ [newline] @ ''2''), Data [newline]])
     = (Ok (Some (ValidatedTransaction sample_tx)), s')"
proof -
  let ?chunks = "[Data ''0'', Data ([newline] @ ''1'' @ [newline] @ ''2''), Data [newline]]"
  have "list_all (\<lambda>e. sample_from_slice (show_nat (th_sequence (ev_transaction e)) @ [newline]) = Some e) (json_events sample_tx)"
    by code_simp
  moreover have "newline \<notin> set (show_nat n)" for n
    using show_nat_no_sign [of newline n] by (auto simp: is_ascii_digit_def ord_def)
  ultimately have "json_codec sample_to_vec sample_from_slice (json_events (transaction (ValidatedTransaction sample_tx)))"
    by (simp add: json_codec_def sample_to_vec_def list_all_iff)
  from json_read_back [OF _ sample_json this, of plain_codec ?chunks] sample_valid show ?thesis
    by (auto simp: MAX_BYTES_def all_data_def)
qed



text \<open>
  An error stops the reader for good: after it, no call returns a transaction and finishing
  reports the failure.
\<close>

theorem reader_fail_stop:
  assumes "next_transaction C from_slice s = (Inl e, s')"
  shows "fst (drain (next_transaction C from_slice) n s') = [] \<and> (\<exists>m. reader_finish s' = Inl m)"
  using json_source.nothing_after_error [OF assms] json_source.error_fails [OF assms]
  by (simp add: reader_finish_def)

theorem reader_fail_stop_witness:
  "fst (drain (next_transaction plain_codec sample_from_slice) 5
     (snd (next_transaction plain_codec sample_from_slice (reader_new [Data (''2'' @ [newline] @ ''0'' @ [newline])])))) = []"
proof -
  let ?s = "reader_new [Data (''2'' @ [newline] @ ''0'' @ [newline])]"
  have "fst (next_transaction plain_codec sample_from_slice ?s) = Inl RE_CommitWithoutBegin" by code_simp
  then have "next_transaction plain_codec sample_from_slice ?s
      = (Inl RE_CommitWithoutBegin, snd (next_transaction plain_codec sample_from_slice ?s))" by (metis prod.collapse)
  from reader_fail_stop [OF this] show ?thesis by simp
qed

section \<open>Validation\<close>

text \<open>
  C18. \<^verbatim>\<open>validate\<close> accepts exactly the well-formed transactions, and changes nothing: identities,
  cursors and table names are present, the images fit the operation, column names and ordinals are
  unique, primary keys are complete, numbered from zero and never absent, unavailable values occur
  only in old images and unchanged ones only in new images of updates, every value is well formed,
  every envelope is intact and belongs to its row, and the two images of an update describe the same
  columns.
\<close>

theorem validate_exact:
  "validate C tx = Inr vt \<longleftrightarrow> transaction_ok C tx \<and> vt = ValidatedTransaction tx"
  by (rule validate_Ok_iff)

text \<open>
  A logical value is accepted exactly if every value inside it meets the conditions of its kind
  and it is nested at most 100 levels deep; the check at a given depth leaves what is left of the
  hundred.
\<close>

theorem value_nesting_exact:
  "(validate_value C v = Inr () \<longleftrightarrow> wf_value C v \<and> lv_nesting v \<le> 100)
    \<and> (logical_value_at_depth C v d = Inr () \<longleftrightarrow> wf_value C v \<and> d + lv_nesting v \<le> 100)"
  using logical_value_at_depth_iff [of C v 0] logical_value_at_depth_iff [of C v d]
  by (simp add: validate_value_def)

text \<open>
  The decimal text of a number is accepted as an integer of a width exactly if the width is one of
  8, 16, 24, 32 and 64 and the number is in the range of the signed or unsigned type.
\<close>

theorem integer_range_exact:
  "(integer (show_int i) True bits = Inr () \<longleftrightarrow>
      bits \<in> {8, 16, 24, 32, 64} \<and> - (2 ^ (unat bits - 1)) \<le> i \<and> i < 2 ^ (unat bits - 1))
    \<and> (integer (show_nat n) False bits = Inr () \<longleftrightarrow> bits \<in> {8, 16, 24, 32, 64} \<and> n < 2 ^ unat bits)"
  by (intro conjI integer_signed_iff integer_unsigned_iff)

text \<open>
  C21. A bit string is accepted exactly if it has the bytes its length needs and every unused bit of the
  last byte, at the low or the high end by the bit order, equals the declared padding; padding is
  declared exactly when the length is not a whole number of bytes.
\<close>

theorem bit_string_padding_exact:
  "bit_string C encoded n padding bit_order = Inr () \<longleftrightarrow>
     (\<exists>bs. b64_decode C encoded = Some bs \<and> 0 < n \<and> length bs = (unat n + 7) div 8
        \<and> (padding = Pad_None \<longleftrightarrow> 8 dvd unat n)
        \<and> (\<forall>i \<in> unused_bits bit_order (unat n).
             bit (of_char (last bs) :: u8) i \<longleftrightarrow> padding = Pad_One))"
  by (rule bit_string_iff)

theorem bit_string_padding_exact_witness:
  "bit_string plain_codec [CHR 0xFF, CHR 0xE0] 11 Pad_Zero MsbFirst = Inr ()
     \<and> (\<exists>bs. b64_decode plain_codec [CHR 0xFF, CHR 0xE0] = Some bs \<and> (0 :: u64) < 11 \<and> length bs = (unat (11 :: u64) + 7) div 8
        \<and> (\<forall>i \<in> unused_bits MsbFirst (unat (11 :: u64)). bit (of_char (last bs) :: u8) i \<longleftrightarrow> Pad_Zero = Pad_One))"
proof -
  have ok: "bit_string plain_codec [CHR 0xFF, CHR 0xE0] 11 Pad_Zero MsbFirst = Inr ()" by code_simp
  with bit_string_padding_exact [of plain_codec "[CHR 0xFF, CHR 0xE0]" 11 Pad_Zero MsbFirst] show ?thesis by blast
qed

text \<open>
  C22. A source representation envelope keeps its payload. A freshly built envelope validates and gives
  back the bytes it was built from, and any envelope that validates gives back bytes with the
  declared length and digest.
\<close>

theorem envelope_roundtrip:
  assumes "base64_roundtrip C" and "ctx_evidence x" and "\<not> evidence_missing encoding" and "length payload < 2 ^ 64"
  shows "env_validate C (env_new C x encoding payload) = Inr ()
    \<and> env_raw_bytes C (env_new C x encoding payload) = Inr payload
    \<and> (\<forall>e bs. env_raw_bytes C e = Inr bs \<longrightarrow>
         length bs = unat (env_payload_length e) \<and> digest_bytes C bs = env_payload_sha256 e)"
proof -
  have valid: "env_validate C (env_new C x encoding payload) = Inr ()" using assms by (rule env_new_valid)
  moreover have "env_raw_bytes C (env_new C x encoding payload) = Inr payload"
    unfolding env_raw_bytes_validated [OF valid]
    using assms(1) by (simp add: env_raw_bytes_unchecked_def env_new_def base64_roundtrip_def ok_or_def)
  moreover have "length bs = unat (env_payload_length e) \<and> digest_bytes C bs = env_payload_sha256 e"
    if "env_raw_bytes C e = Inr bs" for e bs
    using that by (auto simp: env_raw_bytes_def env_raw_bytes_unchecked_def ok_iff)
  ultimately show ?thesis by blast
qed

theorem envelope_roundtrip_witness:
  "env_raw_bytes plain_codec (env_new plain_codec sample_context ''UTF-8'' ''42'') = Inr ''42''"
proof -
  have "base64_roundtrip plain_codec" by (simp add: base64_roundtrip_def plain_codec_def)
  moreover have "ctx_validate sample_context = Inr ()" by code_simp
  then have "ctx_evidence sample_context" by (simp add: ok_iff)
  moreover have "\<not> evidence_missing ''UTF-8''" by code_simp
  ultimately show ?thesis using envelope_roundtrip [of plain_codec sample_context "''UTF-8''" "''42''"] by simp
qed

text \<open>
  A raw value carrier that was given a source context validates, with the length and digest of its
  bytes; one whose declared length or digest does not fit its bytes is refused, and so is one with
  only part of the evidence.
\<close>

theorem carrier_evidence:
  assumes "rc_with_source_context C r x reversible = Inr r'" and "ctx_evidence x"
    and "\<forall>(field, v) \<in> set (rc_fields r). \<not> evidence_missing v"
    and "\<forall>bs. b64_decode C (rc_raw_bytes_base64url r) = Some bs \<longrightarrow> length bs < 2 ^ 64"
  shows "rc_validate C r' = Inr () \<and> rc_raw_bytes C r' = ok_or (b64_decode C (rc_raw_bytes_base64url r)) RCE_InvalidBytes
    \<and> (\<forall>len. Some len \<noteq> rc_payload_length r' \<longrightarrow> \<not> is_ok (rc_validate C (r'\<lparr>rc_payload_length := Some len\<rparr>)))
    \<and> (\<forall>d. Some d \<noteq> rc_payload_sha256 r' \<longrightarrow> \<not> is_ok (rc_validate C (r'\<lparr>rc_payload_sha256 := Some d\<rparr>)))
    \<and> \<not> is_ok (rc_validate C (r'\<lparr>rc_source_context := None\<rparr>))"
  using assms(1)
proof (rule rc_with_source_context_Ok)
  fix bs
  assume dec: "b64_decode C (rc_raw_bytes_base64url r) = Some bs"
    and dig: "rc_source_definition_digest r = ctx_source_type_definition_digest x"
    and r': "r' = r\<lparr>rc_source_context := Some x, rc_payload_length := Some (of_nat (length bs)),
              rc_payload_sha256 := Some (digest_bytes C bs), rc_reversible := Some reversible\<rparr>"
  have valid: "rc_validate C r' = Inr ()" using assms by (rule rc_with_source_context_evidence)
  have small: "length bs < 2 ^ 64" using assms(4) dec by blast
  have "\<not> is_ok (rc_validate C (r'\<lparr>rc_payload_length := Some len\<rparr>))" if "Some len \<noteq> rc_payload_length r'" for len
  proof -
    have "unat len \<noteq> length bs"
    proof
      assume "unat len = length bs"
      then have "of_nat (unat len) = (of_nat (length bs) :: u64)" by (rule arg_cong)
      with that show False by (simp add: r')
    qed
    then have "rc_evidence C (r'\<lparr>rc_payload_length := Some len\<rparr>) bs \<noteq> Inr ()"
      using assms(2) by (subst rc_evidence_context [where x = x and len = len and digest = "digest_bytes C bs"]) (simp_all add: r')
    with dec show ?thesis
      by (cases "rc_validate C (r'\<lparr>rc_payload_length := Some len\<rparr>)") (auto simp: rc_validate_def ok_iff r')
  qed
  moreover have "\<not> is_ok (rc_validate C (r'\<lparr>rc_payload_sha256 := Some d\<rparr>))" if "Some d \<noteq> rc_payload_sha256 r'" for d
  proof -
    have "rc_evidence C (r'\<lparr>rc_payload_sha256 := Some d\<rparr>) bs \<noteq> Inr ()"
      using assms(2) that by (subst rc_evidence_context [where x = x and len = "of_nat (length bs)" and digest = d]) (simp_all add: r')
    with dec show ?thesis
      by (cases "rc_validate C (r'\<lparr>rc_payload_sha256 := Some d\<rparr>)") (auto simp: rc_validate_def ok_iff r')
  qed
  moreover have "\<not> is_ok (rc_validate C (r'\<lparr>rc_source_context := None\<rparr>))"
    by (cases "rc_validate C (r'\<lparr>rc_source_context := None\<rparr>)") (auto simp: rc_validate_def rc_evidence_def ok_iff r')
  ultimately show ?thesis using valid by (simp add: rc_raw_bytes_def) (simp add: r')
qed

theorem carrier_evidence_witness:
  "\<exists>r'. rc_with_source_context plain_codec sample_carrier sample_context True = Inr r' \<and> rc_validate plain_codec r' = Inr ()"
proof -
  have "is_ok (rc_with_source_context plain_codec sample_carrier sample_context True)" by code_simp
  then obtain r' where r': "rc_with_source_context plain_codec sample_carrier sample_context True = Inr r'"
    by (cases "rc_with_source_context plain_codec sample_carrier sample_context True") auto
  have "ctx_validate sample_context = Inr ()" by code_simp
  then have "ctx_evidence sample_context" by (simp add: ok_iff)
  moreover have "\<forall>(field, v) \<in> set (rc_fields sample_carrier). \<not> evidence_missing v" by code_simp
  moreover have "\<forall>bs. b64_decode plain_codec (rc_raw_bytes_base64url sample_carrier) = Some bs \<longrightarrow> length bs < 2 ^ 64"
    by (simp add: plain_codec_def sample_carrier_def rc_new_def)
  ultimately have "rc_validate plain_codec r' = Inr ()" using carrier_evidence [OF r'] by simp
  with r' show ?thesis by blast
qed

text \<open>
  Canonical forms are fixed points: canonicalizing a value or a transaction twice changes nothing
  more, so the content digest of a transaction is that of its canonical form.
\<close>

theorem canonical_fixed_point:
  "canonicalize_logical_value C to_vec (canonicalize_logical_value C to_vec v) = canonicalize_logical_value C to_vec v
    \<and> canonicalize_transaction C to_vec (canonicalize_transaction C to_vec tx) = canonicalize_transaction C to_vec tx
    \<and> content_digest C to_vec tx_vec (canonicalize_transaction C to_vec tx) = content_digest C to_vec tx_vec tx"
  by (simp add: canonicalize_idem canonicalize_transaction_idem content_digest_def)

text \<open>
  C25. Digests do not depend on the order in which a set, the entries of a map or the entries of a JSON
  object are listed, as long as the keys have different digests (for a map) or names (for an
  object).
\<close>

theorem digest_order_independent:
  assumes "mset ss = mset ss'" and "mset es = mset es'" and "distinct (map (lv_stable_digest C to_vec \<circ> me_key) es)"
    and "mset os = mset os'" and "distinct (map je_key os)"
  shows "lv_stable_digest C to_vec (LV_Set ss) = lv_stable_digest C to_vec (LV_Set ss')
    \<and> lv_stable_digest C to_vec (LV_Map es) = lv_stable_digest C to_vec (LV_Map es')
    \<and> lv_stable_digest C to_vec (LV_Json (JV_Object os)) = lv_stable_digest C to_vec (LV_Json (JV_Object os'))"
  using canonicalize_set_perm [OF assms(1)] canonicalize_map_perm [OF assms(2,3)] canonicalize_object_perm [OF assms(4,5)]
  by (simp add: lv_stable_digest_def canonicalize_logical_value.simps [of _ _ "LV_Json _"])

theorem digest_order_independent_witness:
  "lv_stable_digest plain_codec (\<lambda>_. []) (LV_Json (JV_Object [JsonEntry ''b'' JV_Null, JsonEntry ''a'' (JV_Boolean True)]))
     = lv_stable_digest plain_codec (\<lambda>_. []) (LV_Json (JV_Object [JsonEntry ''a'' (JV_Boolean True), JsonEntry ''b'' JV_Null]))"
  using digest_order_independent [of "[]" "[]" "[]" "[]" plain_codec "\<lambda>_. []"
    "[JsonEntry ''b'' JV_Null, JsonEntry ''a'' (JV_Boolean True)]" "[JsonEntry ''a'' (JV_Boolean True), JsonEntry ''b'' JV_Null]"]
  by simp

text \<open>
  C26. A snapshot batch is accepted exactly if its source and table are named and each of its rows is a
  complete insert image.
\<close>

theorem snapshot_exact:
  "validate_snapshot C b = Inr v \<longleftrightarrow> snapshot_ok C b \<and> v = ValidatedSnapshotBatch b"
  by (rule validate_snapshot_Ok_iff)

section \<open>Failures\<close>

text \<open>
  An apply error is retried exactly if the connection failed outside a commit, the server reported a
  serialization failure, a deadlock or a lock timeout, or the operating system a broken connection. A
  commit whose acknowledgement was lost is never retried but resolved, and the retry class, the
  failure class and the phase of an error agree.
\<close>

theorem retry_policy:
  "(is_retryable (classify_apply_error e) \<longleftrightarrow>
      (\<exists>m. e = Sqlx (SE_Other m))
      \<or> (\<exists>m. \<exists>c \<in> {''40001'', ''40P01'', ''55P03''}. e = Sqlx (SE_Database (Some c) m))
      \<or> (\<exists>k. k \<noteq> EK_Other \<and> e = Os k))
    \<and> (commit_outcome_unknown (commit_error s) \<longleftrightarrow> (\<exists>m. s = SE_Other m))
    \<and> (commit_outcome_unknown e \<longrightarrow> \<not> is_retryable (classify_apply_error e)
         \<and> retry_classification (classify_apply_error e) = RC_CommitUnknown)
    \<and> (is_retryable kind \<longleftrightarrow> retry_classification kind = Retryable)
    \<and> (is_retryable kind \<longleftrightarrow> failure_class kind = FC_TransientTarget)
    \<and> (failure_phase kind = FP_Commit \<longleftrightarrow> failure_class kind = FC_CommitUnknown)"
  using retryable_iff [of e] commit_error_unknown [of s] unknown_never_retryable [of e] retry_agrees [of kind]
    transient_agrees [of kind] commit_unknown_agrees [of kind]
  by (auto simp: classify_apply_error_def)

theorem retry_policy_witness:
  "\<not> is_retryable (classify_apply_error (commit_error (SE_Other ''connection closed'')))
     \<and> is_retryable (classify_apply_error (Sqlx (SE_Database (Some ''40P01'') ''deadlock detected'')))"
  using retry_policy [of "commit_error (SE_Other ''connection closed'')" "SE_Other ''connection closed''"]
    retry_policy [of "Sqlx (SE_Database (Some ''40P01'') ''deadlock detected'')"] by blast

section \<open>The MySQL Source Contract\<close>

text \<open>
  C28. The contract and the checkpoint writer read binlog cursors alike: a cursor that the contract
  accepts is the file name, a zero byte and a big-endian word, shows what it encodes, and the writer
  reads the same file and position from it.
\<close>

theorem mysql_cursor_agreement:
  assumes "mysql_position C cursor = Inr (file, pos)"
  shows "file_position C cursor = Inr (file, pos) \<and> validate_position file pos = Inr ()
    \<and> sc_display cursor = file @ '':'' @ show_nat pos
    \<and> (\<exists>word. b64_decode C (sc_value cursor) = Some (file @ NUL # word) \<and> length word = 4 \<and> pos = be_u32 word)"
  using assms mysql_position_file_position [OF assms] by (auto simp: mysql_position_Ok_iff)

theorem mysql_cursor_agreement_witness: "file_position plain_codec (at_position 100) = Inr (''bin.000001'', 100)"
proof -
  have "mysql_position plain_codec (at_position 100) = Inr (''bin.000001'', 100)" by code_simp
  then show ?thesis using mysql_cursor_agreement by blast
qed

text \<open>
  C29. In a transaction that the contract accepts, the begin cursor, the row cursors and the commit
  cursor lie in one file; the rows are in order, after the begin and before the commit.
\<close>

theorem mysql_rows_in_order:
  assumes "validate_source C vt v = Inr u"
  shows "\<exists>fl start commit rows. offset_in C fl (tx_begin_cursor (transaction vt)) start
    \<and> offset_in C fl (tx_commit_cursor (transaction vt)) commit \<and> start < commit
    \<and> list_all2 (\<lambda>change row. offset_in C fl (rw_source_cursor change) row) (tx_changes (transaction vt)) rows
    \<and> sorted rows \<and> (\<forall>row \<in> set rows. start < row \<and> row < commit)"
  using assms
proof (rule validate_source_Ok)
  fix fl start commit final
  assume cursors: "mysql_position C (tx_begin_cursor (transaction vt)) = Inr (fl, start)"
    "mysql_position C (tx_commit_cursor (transaction vt)) = Inr (fl, commit)" "start < commit"
    and changes: "try_fold (mysql_change C v fl start commit) start (tx_changes (transaction vt)) = Inr final"
  from mysql_changes_sorted [OF changes] cursors show ?thesis by (fastforce simp: offset_in_def)
qed

theorem mysql_rows_in_order_witness:
  "\<exists>fl start commit rows. offset_in plain_codec fl (tx_begin_cursor mysql_tx) start
    \<and> offset_in plain_codec fl (tx_commit_cursor mysql_tx) commit \<and> sorted rows \<and> (\<forall>row \<in> set rows. start < row \<and> row < commit)"
  using mysql_rows_in_order [OF sample_accepted] by auto

text \<open>
  C30. What the contract accepts can be checkpointed in order. If each of several accepted transactions
  begins where the one before it ends, or later, the commit positions that the writer stores for them
  in the modes of MySQL sources are strictly increasing.
\<close>

theorem mysql_chain_advances:
  assumes "\<forall>vt \<in> set vts. is_ok (validate_source C vt v)" and "mode \<in> {''binlog'', ''gtid''}"
    and "map (\<lambda>vt. file_position C (tx_commit_cursor (transaction vt))) vts = map Inr ps"
    and "\<forall>i. Suc i < length vts \<longrightarrow> (\<exists>p. file_position C (tx_begin_cursor (transaction (vts ! Suc i))) = Inr p
      \<and> (p = ps ! i \<or> compare_in mode p (ps ! i) = Some Greater))"
  shows "advancing (compare_in mode) ps"
  using assms by (rule mysql_contract.chain_advances)

theorem mysql_chain_advances_witness: "advancing (compare_in ''gtid'') [(''bin.000001'', 100), (''bin.000001'', 200)]"
proof -
  let ?next = "ValidatedTransaction (mysql_tx\<lparr>tx_begin_cursor := at_position 100, tx_commit_cursor := at_position 200,
    tx_changes := map (\<lambda>r. r\<lparr>rw_source_cursor := at_position 150\<rparr>) (tx_changes mysql_tx)\<rparr>)"
  have "is_ok (validate_source plain_codec ?next V80)" by code_simp
  then have "\<forall>vt \<in> set [ValidatedTransaction mysql_tx, ?next]. is_ok (validate_source plain_codec vt V80)"
    using sample_accepted by simp
  moreover have "map (\<lambda>vt. file_position plain_codec (tx_commit_cursor (transaction vt))) [ValidatedTransaction mysql_tx, ?next]
      = map Inr [(''bin.000001'', 100), (''bin.000001'', 200)]" by code_simp
  moreover have "file_position plain_codec (tx_begin_cursor (transaction ?next)) = Inr (''bin.000001'', 100)" by code_simp
  then have "\<forall>i. Suc i < length [ValidatedTransaction mysql_tx, ?next] \<longrightarrow>
      (\<exists>p. file_position plain_codec (tx_begin_cursor (transaction ([ValidatedTransaction mysql_tx, ?next] ! Suc i))) = Inr p
        \<and> (p = [(''bin.000001'', 100), (''bin.000001'', 200)] ! i
           \<or> compare_in ''gtid'' p ([(''bin.000001'', 100), (''bin.000001'', 200)] ! i) = Some Greater))"
    by (simp add: less_Suc_eq)
  ultimately show ?thesis
    using mysql_chain_advances [of "[ValidatedTransaction mysql_tx, ?next]" plain_codec V80 "''gtid''"
      "[(''bin.000001'', 100), (''bin.000001'', 200)]"] by blast
qed

section \<open>PostgreSQL types and values\<close>

text \<open>C31: the closure of a catalog type holds exactly the definitions reachable from it, each as the
  catalog has it and in the order of their identifiers, and in a well-formed catalog it passes the check
  that a reader of the closure makes.\<close>

theorem type_closure_complete:
  assumes "definition_closure catalog root_oid = Ok closure"
  shows "td_oid ` set (cl_types closure) = reachable_from (tc_types catalog) root_oid
    \<and> sorted_wrt (<) (map td_oid (cl_types closure))
    \<and> (\<forall>d \<in> set (cl_types closure). definition_at (tc_types catalog) (td_oid d) = Some d)
    \<and> (well_catalogued C J catalog \<longrightarrow> validate_type_definition_closure C J closure root_oid)"
  using definition_closure_Ok(1,2,3) [OF assms] built_closure_valid [OF assms] by blast

theorem type_closure_complete_witness:
  "validate_type_definition_closure short_codec (types_json no_json)
     \<lparr>cl_types = [hd (tc_types sample_catalog)], cl_extensions = []\<rparr> 23"
  using type_closure_complete [OF sample_closure, of short_codec "types_json no_json"] sample_catalog_good by blast



text \<open>C33: mapping a definition ends with a type only if no definition reachable from it depends on
  itself; a catalog with a cycle is refused.\<close>

theorem mapping_refuses_cycles:
  assumes "logical_type_from_definition C J catalog v [] d = Ok t"
    and "definition_at (tc_types catalog) (td_oid d) = Some d"
    and "(td_oid d, x) \<in> (mapping_dependency (tc_types catalog))\<^sup>*"
  shows "(x, x) \<notin> (mapping_dependency (tc_types catalog))\<^sup>+"
  using mapped_acyclic [OF assms] by blast

theorem mapping_refuses_cycles_witness:
  "(23, 23) \<notin> (mapping_dependency (tc_types sample_catalog))\<^sup>+"
proof -
  have "logical_type_from_definition short_codec (types_json no_json) sample_catalog ''15'' [] (hd (tc_types sample_catalog))
      = Ok (LT_Integer True 32)"
    "definition_at (tc_types sample_catalog) 23 = Some (hd (tc_types sample_catalog))"
    "td_oid (hd (tc_types sample_catalog)) = 23"
    using int4_mapped by simp_all
  then show ?thesis using mapping_refuses_cycles [of short_codec "types_json no_json" sample_catalog "''15''"] by fastforce
qed

text \<open>C34: the declaration of an enumeration is read back to its labels, whatever quotes and backslashes
  they contain, exactly if the labels are a valid list: not empty, distinct, and each not empty and
  without a NUL.\<close>

theorem enum_declaration_roundtrip:
  "enum_members (enum_declaration labels) v = Ok labels \<longleftrightarrow>
     labels \<noteq> [] \<and> list_all label_ok labels \<and> distinct labels"
  using enum_members_declaration [of labels v] enum_members_sound [of "enum_declaration labels" v labels]
  by (auto simp: list_all_iff)

text \<open>C35: the text of an array, of any nesting and with any bytes in its elements, is read back to the
  tree it was written from.\<close>

theorem array_text_roundtrip:
  assumes "plain_delimiter d"
  shows "parse_array (node_text d (Branch nodes)) [d] = Ok (Branch nodes, None)"
  using parse_array_text [OF assms] .

theorem array_text_roundtrip_witness:
  "parse_array (node_text CHR '','' (Branch [Branch [Leaf (Some ''a,}''), Leaf None], Branch []])) '',''
     = Ok (Branch [Branch [Leaf (Some ''a,}''), Leaf None], Branch []], None)"
  by (rule array_text_roundtrip) (simp add: plain_delimiter_def)

text \<open>C36: every value decoded for a checked type passes the validation of the change event model, which
  is independent of PostgreSQL.\<close>

theorem decoded_values_valid:
  assumes "base64_roundtrip C" and "documents_unique T" and "length bs < 2 ^ 64"
    and "oid \<in> checked_types" and "decode_for_version C T version oid bs = Ok v"
  shows "validate_value C v = Ok ()"
  using decode_for_version_valid [OF assms] .

theorem decoded_values_valid_witness:
  "validate_value plain_codec (LV_Decimal ''-1250'' 2) = Ok ()"
proof (rule decoded_values_valid)
  show "decode_for_version plain_codec no_numbers ''15'' 1700 ''-12.50'' = Ok (LV_Decimal ''-1250'' 2)" by code_simp
qed (simp_all add: plain_codec_def base64_roundtrip_def no_numbers_def documents_unique_def checked_types_def)

text \<open>C37: a timestamp with time zone is read to the second of the proleptic Gregorian calendar that its
  fields name, with the offset taken off, and to its fraction, without an overflow.\<close>

theorem instant_text_exact:
  assumes "date_fields y mo d bc" and "clock_fields h mi s f" and "zone_parts_ok zone"
  shows "postgres_instant (instant_text y mo d h mi s f west zone bc) =
    Ok (day_number (text_year bc y) (int (radix_value 10 mo)) (int (radix_value 10 d)) * 86400
          + int (radix_value 10 h) * 3600 + int (radix_value 10 mi) * 60 + int (radix_value 10 s)
          - zone_seconds west zone,
        of_nat (microseconds_value f * 1000))"
  using postgres_instant_text [OF assms] .

theorem instant_text_exact_witness:
  "postgres_instant ''2024-02-29 10:20:30.5-01:30'' = Ok (1709207430, 500000000)"
proof -
  have "postgres_instant (instant_text ''2024'' ''02'' ''29'' ''10'' ''20'' ''30'' ''5'' True [''01'', ''30''] False) =
    Ok (day_number (text_year False ''2024'') (int (radix_value 10 ''02'')) (int (radix_value 10 ''29'')) * 86400
          + int (radix_value 10 ''10'') * 3600 + int (radix_value 10 ''20'') * 60 + int (radix_value 10 ''30'')
          - zone_seconds True [''01'', ''30''],
        of_nat (microseconds_value ''5'' * 1000))"
    by (rule instant_text_exact) code_simp+
  also have "instant_text ''2024'' ''02'' ''29'' ''10'' ''20'' ''30'' ''5'' True [''01'', ''30''] False = ''2024-02-29 10:20:30.5-01:30''"
    by code_simp
  also have "day_number (text_year False ''2024'') (int (radix_value 10 ''02'')) (int (radix_value 10 ''29'')) * 86400
          + int (radix_value 10 ''10'') * 3600 + int (radix_value 10 ''20'') * 60 + int (radix_value 10 ''30'')
          - zone_seconds True [''01'', ''30''] = 1709207430" by code_simp
  also have "microseconds_value ''5'' * 1000 = 500000000" by code_simp
  finally show ?thesis by simp
qed

text \<open>C38: a declared decimal admits exactly the numbers with at most as many digits as its precision,
  written with its scale, or as whole numbers when the scale is negative; the source decides this on
  digit strings.\<close>

theorem decimal_fit_exact:
  assumes "coefficient_text unscaled digits" and "precision \<noteq> 0" and "-1000 \<le> scale" and "scale \<le> 1000"
  shows "decimal_matches precision scale unscaled value_scale \<longleftrightarrow>
     (value_scale = scale \<and> radix_value 10 digits < 10 ^ unat precision)
     \<or> (scale < 0 \<and> value_scale = 0 \<and> (\<exists>m. radix_value 10 digits = m * 10 ^ nat (- scale) \<and> m < 10 ^ unat precision))"
  using decimal_matches_iff [OF assms(1) refl assms(2-4)] .

theorem decimal_fit_exact_witness:
  "decimal_matches 3 (-2) ''-99900'' 0 \<and> \<not> decimal_matches 3 2 ''1000'' 2"
proof -
  have nums: "radix_value 10 ''99900'' = 99900" "radix_value 10 ''1000'' = 1000" "unat (3 :: u16) = 3"
    by code_simp+
  have "coefficient_text ''-99900'' ''99900''" "coefficient_text ''1000'' ''1000''"
    by (simp_all add: coefficient_text_def is_ascii_digit_def ord_def)
  then show ?thesis
    using decimal_fit_exact [of "''-99900''" "''99900''" 3 "-2" 0] decimal_fit_exact [of "''1000''" "''1000''" 3 2 2] nums
    by (auto intro: exI [of _ 999])
qed

section \<open>Saved conversion plans\<close>

text \<open>C39: a transaction is converted with saved plans as a whole. On success nothing but the data of
  columns that have a plan and are not generated is changed, every such datum has passed the check of its
  plan, is what the plan makes of it and keeps its kind (a value, null, unchanged, unavailable or an
  envelope).\<close>

theorem conversion_validates:
  assumes "convert_transaction_with_plans C J plans t = Ok t'"
  shows "t' = t\<lparr>tx_changes := tx_changes t'\<rparr> \<and> list_all2 (row_kept C J plans) (tx_changes t) (tx_changes t')"
  using assms by (rule convert_transaction_Ok)

theorem conversion_validates_witness:
  "list_all2 (row_kept short_codec no_plan_json [json_plan]) (tx_changes json_tx) (tx_changes json_tx)"
  using conversion_validates [OF json_converted] by blast

text \<open>C40: a failed conversion names the plan it failed with. The failure carries the digest, the route, the
  rule and the fields of one of the plans, which is the plan of a column of a changed table, belongs to the
  conversion phase and is never retried.\<close>

theorem conversion_failure_attributed:
  assumes "convert_transaction_with_plans C J plans t = Err f"
  shows "\<exists>p \<in> set plans. tcf_plan_digest f = Some (pl_plan_digest p) \<and> tcf_route_id f = Some (pl_route_id p)
    \<and> tcf_conversion_rule f = Some (pl_rule p) \<and> tcf_phase f = FP_Conversion \<and> \<not> tcf_is_retryable f
    \<and> tcf_source_field_lineage f = Some (dr_lineage_id (pl_source_field p))
    \<and> tcf_target_field_lineage f = Some (dr_lineage_id (pl_target_field p))
    \<and> (\<exists>r c. r \<in> set (tx_changes t) \<and> dr_lineage_id (pl_source_field p) = column_lineage r c)"
  using convert_transaction_Err [OF assms]
  by (fastforce simp: plan_failure_def tcf_new_def with_code_def with_route_def with_plan_digest_def tcf_is_retryable_def)

theorem conversion_failure_attributed_witness:
  "\<exists>f. convert_transaction_with_plans short_codec no_plan_json [json_plan] sample_tx = Err f
    \<and> tcf_plan_digest f = Some ''digest''"
  using conversion_failure_attributed [OF json_refused [of short_codec no_plan_json]] json_refused [of short_codec no_plan_json]
  by (auto simp: json_plan_def sample_plan_def)

text \<open>C27: a local date and time becomes the instant that it names at the offset of the plan, counted in
  seconds since 1970-01-01 UTC, and the plan for the way back with the same offset restores it. No sum of
  the conversion leaves its machine width.\<close>

theorem local_instant_roundtrip:
  assumes "temporal_kind p ''source_temporal_kind'' = ''local_datetime''" "temporal_kind p ''target_temporal_kind'' = ''instant''"
    and "temporal_kind q ''source_temporal_kind'' = ''instant''" "temporal_kind q ''target_temporal_kind'' = ''local_datetime''"
    and "parse_timezone_offset p = Ok offset" "parse_timezone_offset q = Ok offset"
    and "in_i32 y" "valid_date y (uint m) (uint d)" "h < 24" "mi < 60" "s < 60" "us < 1000000"
  shows "convert_temporal_value p (LV_LocalDatetime y m d h mi s us) =
      Ok (LV_Instant (show_int (day_number y (uint m) (uint d) * 86400 + uint h * 3600 + uint mi * 60 + uint s - offset)) (us * 1000))
    \<and> convert_temporal_value q
        (LV_Instant (show_int (day_number y (uint m) (uint d) * 86400 + uint h * 3600 + uint mi * 60 + uint s - offset)) (us * 1000))
      = Ok (LV_LocalDatetime y m d h mi s us)"
proof -
  have offset: "in_i32 offset" using assms(5) by (rule parse_timezone_i32)
  note there = instant_of_local_exact [OF assms(7-11) offset]
  show ?thesis
    using there(2) local_of_instant_exact [OF assms(7-12) offset, of q]
    by (simp add: convert_temporal_value_def assms(1-6) there(1) local_seconds_def)
qed

theorem local_instant_roundtrip_witness:
  "\<exists>w. convert_temporal_value (time_plan ''local_datetime'' ''instant'') (LV_LocalDatetime 2024 2 29 23 59 58 5) = Ok w
    \<and> convert_temporal_value (time_plan ''instant'' ''local_datetime'') w = Ok (LV_LocalDatetime 2024 2 29 23 59 58 5)"
proof -
  have k: "temporal_kind (time_plan a b) ''source_temporal_kind'' = a" "temporal_kind (time_plan a b) ''target_temporal_kind'' = b" for a b
    by (simp_all add: temporal_kind_def plan_lookups)
  have v: "valid_date 2024 (uint (2 :: u8)) (uint (29 :: u8))" by (simp add: valid_date_def days_in_month_def leap_year_def)
  show ?thesis
    using local_instant_roundtrip [OF k k time_zone time_zone _ v, of 23 59 58 5] by (auto simp: in_i32_def)
qed



text \<open>C23: a text that the check of its plan accepts is converted, and the bytes written are read back in the
  target character set as the same characters, within the length limit of the plan in its unit, bytes of the
  target or characters.\<close>

theorem text_kept:
  assumes "base64_roundtrip C" and "validate_text_plan_value C p (LV_Text charset encoded declared) = Ok ()"
  shows "\<exists>bs s target bs'. b64_decode C encoded = Some bs \<and> decode_supported_text charset bs declared = Ok s
    \<and> target_parameter p ''target_charset'' = Some target
    \<and> convert_text_value C p (LV_Text charset encoded declared) = Ok (LV_Text target (b64_encode C bs') (Some s))
    \<and> b64_decode C (b64_encode C bs') = Some bs' \<and> decode_supported_text target bs' (Some s) = Ok s
    \<and> within_limit p bs' s"
proof -
  obtain bs s target bs' where t: "b64_decode C encoded = Some bs" "decode_supported_text charset bs declared = Ok s"
    "required_text_parameter p ''target_charset'' = Ok target" "encode_supported_text target s = Ok bs'"
    "within_limit p bs' s"
    using text_accepted [OF assms(2)] by blast
  then have "target_parameter p ''target_charset'' = Some target"
    by (auto simp: required_text_parameter_def ok_iff split: option.splits if_splits)
  moreover have "decode_supported_text target bs' (Some s) = Ok s"
    using t(4) decode_supported_text_valid [OF t(2)] by (rule encode_decode)
  ultimately show ?thesis
    using t assms(1) by (intro exI [of _ bs] exI [of _ s] exI [of _ target] exI [of _ bs'])
      (auto simp: convert_text_value_def base64_roundtrip_def)
qed

theorem text_kept_witness:
  "\<exists>bs'. convert_text_value plain_codec latin1_plan (LV_Text ''utf8'' [CHR 0xC3, CHR 0xA9] None)
     = Ok (LV_Text ''latin1'' bs' (Some [CHR 0xC3, CHR 0xA9]))"
proof -
  have "base64_roundtrip plain_codec" by (simp add: base64_roundtrip_def plain_codec_def)
  moreover have "target_parameter latin1_plan ''target_charset'' = Some ''latin1''" by (simp add: plan_lookups)
  moreover have "decode_supported_text ''utf8'' [CHR 0xC3, CHR 0xA9] None = Ok [CHR 0xC3, CHR 0xA9]" by code_simp
  ultimately show ?thesis using text_kept [OF _ latin1_accepted] by (auto simp: plain_codec_def)
qed

text \<open>C24: a binary64 number may be written to a binary32 column exactly if it is finite and one of the
  numbers that binary32 represents, \<open>k * 2 ^ (q - 149)\<close> with \<open>k < 2 ^ 24\<close> and \<open>q \<le> 253\<close>. The code rounds to the
  nearest binary32 number, ties to even, and compares; both sides are counted in units of \<open>2 ^ (-1074)\<close>.\<close>

theorem narrowing_exact:
  "narrows_exactly raw \<longleftrightarrow> is_finite_f64 raw
    \<and> (\<exists>k q. k < 2 ^ 24 \<and> q \<le> 253
        \<and> f64_significand raw * 2 ^ nat (f64_exponent raw + 1074) = k * 2 ^ (q + 925))"
  using narrows_exactly_iff [of raw] unfolding in_binary32_def f64_units_def .

section \<open>The PostgreSQL source\<close>

text \<open>C19: the decoder neither loses nor invents rows. If the messages from BEGIN to COMMIT are accepted,
  nothing is delivered when none of them was a row; otherwise exactly one transaction, framed by their
  positions, with one change for every row message, in order, whose images show the cells of the message:
  each value decoded for its column, each captured representation with its bytes, nothing else.\<close>

theorem captured_transaction_exact:
  assumes "push_all E d ((M_Begin final_lsn timestamp xid, n) # ms @ [(M_Commit flags commit_lsn end_lsn ts, k)]) = (Ok vts, d')"
    and "\<forall>m \<in> fst ` set ms. \<not> commit_message m"
  shows "dc_pending d' = None \<and> dc_previous_end d' = end_lsn \<and> dc_previous_end d < final_lsn
    \<and> commit_lsn = final_lsn \<and> final_lsn < end_lsn
    \<and> (if filter row_message (map fst ms) = [] then vts = []
       else \<exists>tx. vts = [ValidatedTransaction tx] \<and> tx_source tx = dc_source d
         \<and> tx_begin_cursor tx = pg_cursor E final_lsn \<and> tx_commit_cursor tx = pg_cursor E end_lsn
         \<and> tx_id tx = ''pg:'' @ show_nat (unat xid) @ '':'' @ pe_format_lsn E end_lsn
         \<and> list_all2 (row_shown E d (pg_cursor E end_lsn)) (filter row_message (map fst ms)) (tx_changes tx))"
  using assms by (rule transaction_exact)

theorem captured_transaction_exact_witness:
  "list_all2 (row_shown (repl_pg orders_env) orders_decoder (pg_cursor (repl_pg orders_env) 32))
     [M_Insert 5000 [cell ''7'', null_cell], M_Delete 5000 [cell ''7'', null_cell] CHR ''K''] (tx_changes orders_tx)"
proof -
  obtain e where run: "push_all (repl_pg orders_env) orders_decoder
     ((M_Begin 16 0 7, 30) # with_sizes short_messages @ [(M_Commit 0 16 32 0, 30)]) = (Ok [ValidatedTransaction orders_tx], e)"
    using short_all by blast
  from captured_transaction_exact [OF run] show ?thesis
    by (simp add: with_sizes_def short_messages_def orders_relation_def)
qed



text \<open>C14: capture and sink agree on progress. However often the client is asked, and through its errors, the
  transactions it delivers have passed both validators and end at strictly increasing positions beyond where it
  stood, and the checkpoint writer of a sink reads their cursors as positions each beyond the one before.
  \<open>lsn_library\<close> says that the protocol library reads the positions it prints.\<close>

theorem deliveries_advance:
  assumes "lsn_library E" and "drain (adapter_next E) n r = (vts, r')"
  shows "(\<forall>vt \<in> set vts. accepted E vt \<and> stream_mark r < commit_position vt) \<and> sorted_wrt (<) (map commit_position vts)
    \<and> (\<exists>ps. map (\<lambda>vt. file_position (ce_codec E) (tx_commit_cursor (transaction vt))) vts = map Inr ps
         \<and> advancing (compare_in ''postgresql_lsn'') ps)"
  using pg_stream.drain_good [OF assms] pg_stream.drain_positions [OF assms] positions_advance [of vts E] by blast

theorem deliveries_advance_witness:
  "accepted orders_env (ValidatedTransaction orders_tx) \<and> 0 < commit_position (ValidatedTransaction orders_tx)"
proof (rule short_read)
  fix r
  assume "adapter_next orders_env short_stream = (Ok (Some (ValidatedTransaction orders_tx)), r)"
  then have "drain (adapter_next orders_env) 1 short_stream = ([ValidatedTransaction orders_tx], r)" by simp
  from deliveries_advance [OF orders_library this] show ?thesis by auto
qed

text \<open>C13: no data is given up before it is safe. In any interleaving of reading, acknowledging and arriving
  frames, every position that was reported to the server as flushed is zero or the end of a transaction that
  the consumer had acknowledged, which the stream had delivered; the reported positions never go back, and
  delivered transactions end at strictly increasing positions.\<close>

theorem only_acknowledged_reported:
  assumes "session E r0 (r, delivered, acknowledged)" and "fresh_stream r0" and "lsn_library E"
  shows "sorted (rp_sent r) \<and> (\<forall>p \<in> set (rp_sent r). p = 0 \<or> (\<exists>vt \<in> set acknowledged. ends_at E vt p))
    \<and> (\<forall>vt \<in> set acknowledged. \<exists>dt \<in> set delivered. tx_commit_cursor (transaction vt) = tx_commit_cursor (transaction dt))
    \<and> (\<exists>ps. list_all2 (ends_at E) delivered ps \<and> sorted_wrt (<) ps)"
  using session_invariant [OF assms] by (auto simp: session_ok_def sorted_append)

theorem only_acknowledged_reported_witness:
  "\<exists>r. rp_sent r = [32] \<and> ends_at orders_env (ValidatedTransaction orders_tx) 32 \<and> sorted (rp_sent (r :: Message list Replication))"
proof (rule short_session)
  fix r
  assume s: "session orders_env short_stream (r, [ValidatedTransaction orders_tx], [ValidatedTransaction orders_tx])"
    and sent: "rp_sent r = [32]"
  have "fresh_stream short_stream" by (simp add: fresh_stream_def short_stream_def stream_of_def)
  from only_acknowledged_reported [OF s this orders_library] sent show ?thesis by (intro exI [of _ r]) auto
qed

end
